(* ===== verification/Base.thy ===== *)
theory Base
  imports Main "HOL-Library.Word" "HOL-Library.List_Lexorder" "HOL-Library.Char_ord"
begin

text \<open>
  The prelude of the development: the types every component shares (bytes, Go strings, times,
  error results), the parts of Go's standard library on bytes and strings that several components
  call (\<open>encoding/binary\<close>, \<open>encoding/hex\<close>, \<open>strings\<close>, \<open>strconv\<close>), the lemma collections, and
  generic facts on lists.  A Go \<open>string\<close> is a list of bytes, which is what \<open>string\<close> (a list of
  8-bit characters) is in HOL; \<open>len\<close> is \<open>length\<close>.
\<close>

unbundle bit_operations_syntax

named_theorems codec_simps \<open>byte layouts and their inverses\<close>
named_theorems go_simps \<open>definitions of the standard library helpers\<close>

type_synonym byte = "8 word"
type_synonym bytes = "byte list"
type_synonym time = int \<comment> \<open>\<open>time.Time\<close>: nanoseconds since the Unix epoch\<close>

definition zero_time :: time where \<comment> \<open>the zero \<open>time.Time\<close>, 1 January of year 1\<close>
  "zero_time = - 62135596800000000000"

definition second :: time where "second = 1000000000"
definition minute :: time where "minute = 60 * second"
definition hour :: time where "hour = 60 * minute"

text \<open>The early return of a function whose error is the left of a sum.\<close>

definition and_then :: "'e + 'a \<Rightarrow> ('a \<Rightarrow> 'e + 'b) \<Rightarrow> 'e + 'b" where
  "and_then x f = (case x of Inl e \<Rightarrow> Inl e | Inr a \<Rightarrow> f a)"

lemma and_then_simps [simp]: "and_then (Inl e) f = Inl e" "and_then (Inr a) f = f a"
  by (simp_all add: and_then_def)

lemma and_then_Inr: "and_then x f = Inr b \<longleftrightarrow> (\<exists>a. x = Inr a \<and> f a = Inr b)"
  by (cases x) simp_all

section \<open>Generic facts on lists\<close>

lemma take_drop_exact [codec_simps]:
  "take (length xs) (xs @ ys) = xs" "drop (length xs) (xs @ ys) = ys"
  by simp_all

lemma list_eq_take_drop: "xs = ys @ zs \<Longrightarrow> n = length ys \<Longrightarrow> take n xs = ys \<and> drop n xs = zs"
  by simp

lemma filter_map_other:
  assumes "\<And>x. P (f x) = P x" "\<And>x. P x \<Longrightarrow> f x = x"
  shows "filter P (map f xs) = filter P xs"
  by (induction xs) (simp_all add: assms)

lemma find_Some_in: "find P xs = Some x \<Longrightarrow> x \<in> set xs \<and> P x"
  by (induction xs) (auto split: if_splits)

lemma find_map: "find P (map f xs) = map_option f (find (P \<circ> f) xs)"
  by (induction xs) auto

lemma find_None_all: "find P xs = None \<longleftrightarrow> (\<forall>x \<in> set xs. \<not> P x)"
  by (induction xs) auto

lemma distinct_map_filter_unique:
  "distinct (map f xs) \<Longrightarrow> x \<in> set xs \<Longrightarrow> filter (\<lambda>y. f y = f x) xs = [x]"
proof (induction xs)
  case (Cons y ys)
  show ?case
  proof (cases "x = y")
    case True
    with Cons.prems have "filter (\<lambda>z. f z = f x) ys = []"
      by (auto simp: filter_empty_conv image_iff)
    with True show ?thesis by simp
  next
    case False
    with Cons.prems have "f y \<noteq> f x" by (auto simp: image_iff)
    with False Cons show ?thesis by simp
  qed
qed simp

section \<open>Bytes and strings\<close>

definition byte_of_char :: "char \<Rightarrow> byte" where
  "byte_of_char c = of_nat (of_char c)"

definition char_of_byte :: "byte \<Rightarrow> char" where
  "char_of_byte b = char_of (unat b)"

lemma char_of_byte_of_char [simp]: "char_of_byte (byte_of_char c) = c"
  by (simp add: char_of_byte_def byte_of_char_def unat_of_nat char_of_take_bit_eq)

lemma byte_of_char_of_byte [simp]: "byte_of_char (char_of_byte b) = b"
proof -
  have "unat b < 256" using unsigned_less [of b, where 'a = nat] by simp
  then show ?thesis by (simp add: char_of_byte_def byte_of_char_def of_char_of)
qed

definition bytes_of_string :: "string \<Rightarrow> bytes" where "bytes_of_string = map byte_of_char"
definition string_of_bytes :: "bytes \<Rightarrow> string" where "string_of_bytes = map char_of_byte"

lemma string_of_bytes_of_string [simp]: "string_of_bytes (bytes_of_string s) = s"
  by (simp add: string_of_bytes_def bytes_of_string_def comp_def)

lemma bytes_of_string_of_bytes [simp]: "bytes_of_string (string_of_bytes b) = b"
  by (simp add: string_of_bytes_def bytes_of_string_def comp_def)

lemma length_string_of_bytes [simp]: "length (string_of_bytes b) = length b"
  by (simp add: string_of_bytes_def)

lemma length_bytes_of_string [simp]: "length (bytes_of_string s) = length s"
  by (simp add: bytes_of_string_def)

section \<open>Go string helpers (strings, strconv)\<close>

definition is_digit :: "char \<Rightarrow> bool" where
  "is_digit c \<longleftrightarrow> (CHR ''0'' \<le> c \<and> c \<le> CHR ''9'')"
definition is_lower :: "char \<Rightarrow> bool" where
  "is_lower c \<longleftrightarrow> (CHR ''a'' \<le> c \<and> c \<le> CHR ''z'')"
definition is_upper :: "char \<Rightarrow> bool" where
  "is_upper c \<longleftrightarrow> (CHR ''A'' \<le> c \<and> c \<le> CHR ''Z'')"

definition digit_val :: "char \<Rightarrow> nat" where "digit_val c = of_char c - 48"
definition digit_char :: "nat \<Rightarrow> char" where "digit_char d = char_of (48 + d)"

text \<open>\<open>%d\<close> of a natural number, and the value of a string of digits.\<close>

fun nat_str :: "nat \<Rightarrow> string" where
  "nat_str n = (if n < 10 then [digit_char n] else nat_str (n div 10) @ [digit_char (n mod 10)])"

declare nat_str.simps [simp del]

definition digits_val :: "string \<Rightarrow> nat" where
  "digits_val s = foldl (\<lambda>a c. 10 * a + digit_val c) 0 s"

lemma digit_char_less: "d < 10 \<Longrightarrow> of_char (digit_char d) = 48 + d"
  by (simp add: digit_char_def of_char_of)

lemma is_digit_iff: "is_digit c \<longleftrightarrow> 48 \<le> (of_char c :: nat) \<and> (of_char c :: nat) \<le> 57"
  by (simp add: is_digit_def less_eq_char_def)

lemma digit_char [simp]:
  assumes "d < 10"
  shows "is_digit (digit_char d)" "digit_val (digit_char d) = d"
  using assms by (simp_all add: is_digit_iff digit_val_def digit_char_less)

lemma nat_str_not_Nil [simp]: "nat_str n \<noteq> []"
  by (subst nat_str.simps) simp

lemma nat_str_digits: "c \<in> set (nat_str n) \<Longrightarrow> is_digit c"
proof (induction n rule: nat_str.induct)
  case (1 n)
  then show ?case by (subst (asm) nat_str.simps) (auto split: if_splits)
qed

lemma digits_val_nat_str [simp]: "digits_val (nat_str n) = n"
proof (induction n rule: nat_str.induct)
  case (1 n)
  then show ?case by (subst nat_str.simps) (simp add: digits_val_def)
qed

lemma nat_str_length_le: "n < 10 ^ k \<Longrightarrow> 0 < k \<Longrightarrow> length (nat_str n) \<le> k"
proof (induction k arbitrary: n)
  case (Suc k)
  show ?case
  proof (cases "n < 10")
    case True
    then show ?thesis by (subst nat_str.simps) simp
  next
    case False
    with Suc.prems have "n div 10 < 10 ^ k" "0 < k" by (auto intro: gr0I)
    with Suc.IH have "length (nat_str (n div 10)) \<le> k" by blast
    with False show ?thesis by (subst nat_str.simps) simp
  qed
qed simp

lemma nat_str_no_leading_zero: "nat_str n = CHR ''0'' # cs \<Longrightarrow> cs = [] \<and> n = 0"
proof (induction n arbitrary: cs rule: nat_str.induct)
  case (1 n)
  show ?case
  proof (cases "n < 10")
    case True
    with "1.prems" have "digit_char n = CHR ''0''" "cs = []"
      by (auto simp: nat_str.simps [of n])
    with True digit_char(2) [of n] show ?thesis by (simp add: digit_val_def)
  next
    case False
    then have eq: "nat_str n = nat_str (n div 10) @ [digit_char (n mod 10)]"
      by (subst nat_str.simps) simp
    then obtain ds where ds: "nat_str (n div 10) = CHR ''0'' # ds"
      using "1.prems" by (cases "nat_str (n div 10)") auto
    with "1.IH" False have "n div 10 = 0" by blast
    with False show ?thesis by simp
  qed
qed

text \<open>
  \<open>strings.TrimSpace\<close> strips the code points of \<open>unicode.IsSpace\<close>, each given by its UTF-8
  encoding.
\<close>

definition space_encodings :: "string list" where
  "space_encodings = map (map char_of)
    ([[9], [10], [11], [12], [13], [32], [194, 133], [194, 160], [225, 154, 128],
      [226, 128, 168], [226, 128, 169], [226, 128, 175], [226, 129, 159], [227, 128, 128 :: nat]]
     @ map (\<lambda>k. [226, 128, k]) [128 ..< 139])"

definition has_prefix :: "string \<Rightarrow> string \<Rightarrow> bool" where \<comment> \<open>\<open>strings.HasPrefix (s, p)\<close>\<close>
  "has_prefix s p \<longleftrightarrow> take (length p) s = p"

definition has_suffix :: "string \<Rightarrow> string \<Rightarrow> bool" where
  "has_suffix s p \<longleftrightarrow> has_prefix (rev s) (rev p)"

fun trim_with :: "string list \<Rightarrow> nat \<Rightarrow> string \<Rightarrow> string" where
  "trim_with ws 0 s = s"
| "trim_with ws (Suc n) s =
     (case find (has_prefix s) ws of None \<Rightarrow> s | Some w \<Rightarrow> trim_with ws n (drop (length w) s))"

definition trim_left :: "string \<Rightarrow> string" where
  "trim_left s = trim_with space_encodings (length s) s"
definition trim_right :: "string \<Rightarrow> string" where
  "trim_right s = rev (trim_with (map rev space_encodings) (length s) (rev s))"
definition trim_space :: "string \<Rightarrow> string" where
  "trim_space s = trim_right (trim_left s)"

text \<open>A string that begins and ends with a printable ASCII character has nothing to trim.\<close>

definition plain_char :: "char \<Rightarrow> bool" where
  "plain_char c \<longleftrightarrow> 32 < (of_char c :: nat) \<and> (of_char c :: nat) < 128"

lemma space_ends: "list_all (\<lambda>w. w \<noteq> [] \<and> \<not> plain_char (hd w) \<and> \<not> plain_char (last w)) space_encodings"
  by code_simp

lemma trim_with_plain:
  assumes "list_all (\<lambda>w. w \<noteq> [] \<and> \<not> plain_char (hd w)) ws" "s = [] \<or> plain_char (hd s)"
  shows "trim_with ws n s = s"
proof -
  have no: "\<not> has_prefix s w" if w: "w \<in> set ws" for w
  proof
    assume "has_prefix s w"
    moreover from w assms(1) have "w \<noteq> []" "\<not> plain_char (hd w)" by (auto simp: list_all_iff)
    ultimately show False using assms(2) by (cases w; cases s) (auto simp: has_prefix_def)
  qed
  then have "find (has_prefix s) ws = None" by (simp add: find_None_iff)
  then show ?thesis by (cases n) simp_all
qed

lemma trim_space_plain:
  assumes "s = [] \<or> plain_char (hd s) \<and> plain_char (last s)"
  shows "trim_space s = s"
proof -
  have "trim_left s = s"
    unfolding trim_left_def using space_ends assms by (intro trim_with_plain) (auto simp: list_all_iff)
  moreover have "trim_with (map rev space_encodings) (length s) (rev s) = rev s"
    using space_ends assms by (intro trim_with_plain) (auto simp: list_all_iff hd_rev)
  ultimately show ?thesis by (simp add: trim_space_def trim_right_def)
qed

definition trim_prefix :: "string \<Rightarrow> string \<Rightarrow> string" where
  "trim_prefix s p = (if has_prefix s p then drop (length p) s else s)"

text \<open>\<open>strings.ToLower\<close> and \<open>ToUpper\<close> on the ASCII letters; other bytes are kept.\<close>

definition lower_char :: "char \<Rightarrow> char" where
  "lower_char c = (if is_upper c then char_of ((of_char c :: nat) + 32) else c)"
definition upper_char :: "char \<Rightarrow> char" where
  "upper_char c = (if is_lower c then char_of ((of_char c :: nat) - 32) else c)"
definition to_lower :: "string \<Rightarrow> string" where "to_lower = map lower_char"
definition to_upper :: "string \<Rightarrow> string" where "to_upper = map upper_char"

text \<open>\<open>strings.Split (s, sep)\<close> for a separator of one byte, and \<open>strings.Join\<close>.\<close>

fun split_on :: "char \<Rightarrow> string \<Rightarrow> string list" where
  "split_on d [] = [[]]"
| "split_on d (c # s) =
     (if c = d then [] # split_on d s
      else (case split_on d s of [] \<Rightarrow> [[c]] | w # ws \<Rightarrow> (c # w) # ws))"

fun join :: "string \<Rightarrow> string list \<Rightarrow> string" where
  "join sep [] = []"
| "join sep [s] = s"
| "join sep (s # ss) = s @ sep @ join sep ss"

lemma split_on_not_Nil [simp]: "split_on d s \<noteq> []"
  by (induction s) (auto split: list.splits)

lemma split_on_no_sep: "d \<notin> set s \<Longrightarrow> split_on d s = [s]"
  by (induction s) auto

lemma split_on_append: "d \<notin> set w \<Longrightarrow> split_on d (w @ d # s) = w # split_on d s"
  by (induction w) auto

lemma split_on_join: "\<forall>w \<in> set ws. d \<notin> set w \<Longrightarrow> ws \<noteq> [] \<Longrightarrow> split_on d (join [d] ws) = ws"
  by (induction "[d]" ws rule: join.induct) (auto simp: split_on_append split_on_no_sep)

lemma join_split_on: "join [d] (split_on d s) = s"
proof (induction s)
  case (Cons c s)
  obtain w ws where "split_on d s = w # ws" by (cases "split_on d s") auto
  with Cons show ?case by (cases ws) auto
qed simp

section \<open>Big-endian integers (encoding/binary)\<close>

fun be_bytes :: "nat \<Rightarrow> 'a::len word \<Rightarrow> bytes" where \<comment> \<open>the low \<open>k\<close> bytes, most significant first\<close>
  "be_bytes 0 w = []"
| "be_bytes (Suc k) w = ucast (drop_bit (8 * k) w) # be_bytes k w"

fun get_be :: "'a::len word \<Rightarrow> bytes \<Rightarrow> 'a word" where
  "get_be acc [] = acc"
| "get_be acc (b # bs) = get_be (push_bit 8 acc OR ucast b) bs"

definition be16 :: "16 word \<Rightarrow> bytes" where "be16 = be_bytes 2"
definition be32 :: "32 word \<Rightarrow> bytes" where "be32 = be_bytes 4"
definition be64 :: "64 word \<Rightarrow> bytes" where "be64 = be_bytes 8"
definition get_be16 :: "bytes \<Rightarrow> 16 word" where "get_be16 bs = get_be 0 (take 2 bs)"
definition get_be64 :: "bytes \<Rightarrow> 64 word" where "get_be64 bs = get_be 0 (take 8 bs)"

lemma length_be_bytes [simp]: "length (be_bytes k w) = k"
  by (induction k) auto

lemma length_be [simp]:
  "length (be16 w) = 2" "length (be32 y) = 4" "length (be64 x) = 8"
  by (simp_all add: be16_def be32_def be64_def)

lemma get_be_be_bytes:
  "get_be acc (be_bytes k w) = push_bit (8 * k) acc OR take_bit (8 * k) w"
proof (induction k arbitrary: acc)
  case (Suc k)
  have "push_bit (8 * k) (push_bit 8 acc OR ucast (ucast (drop_bit (8 * k) w) :: byte)) OR take_bit (8 * k) w
      = push_bit (8 * Suc k) acc OR take_bit (8 * Suc k) w"
    by (rule bit_word_eqI) (auto simp: bit_simps; (linarith | force simp: algebra_simps))
  with Suc show ?case by simp
qed simp

lemma get_be16_be16 [codec_simps, simp]: "get_be16 (be16 w @ r) = w"
  by (simp add: get_be16_def be16_def get_be_be_bytes take_bit_word_eq_self)

lemma get_be64_be64 [codec_simps, simp]: "get_be64 (be64 w @ r) = w"
  by (simp add: get_be64_def be64_def get_be_be_bytes take_bit_word_eq_self)

lemma unat_get_be16_le: "unat (get_be16 b) \<le> 65535"
  using unsigned_less [of "get_be16 b", where 'a = nat] by simp

end
