(* ===== verification/NetIP.thy ===== *)
theory NetIP
  imports Base
begin

text \<open>
  The part of Go's \<open>net/netip\<close> the program uses: addresses with their family, prefixes, the text
  parsers \<open>ParseAddr\<close> and \<open>ParsePrefix\<close>, \<open>String\<close>, \<open>Contains\<close>, \<open>Masked\<close> and \<open>Unmap\<close>.  It is
  library code, so nothing here has an entry in the map; the components build on it.
  An address is the zero \<open>netip.Addr\<close>, an IPv4 address, or an IPv6 address with its zone.
\<close>

unbundle bit_operations_syntax

datatype addr = NoAddr | V4 "32 word" | V6 "128 word" string

record prefix =
  paddr :: addr
  pbits :: int \<comment> \<open>-1 in an invalid prefix\<close>

definition addr_valid :: "addr \<Rightarrow> bool" where "addr_valid a \<longleftrightarrow> a \<noteq> NoAddr"
definition is4 :: "addr \<Rightarrow> bool" where "is4 a \<longleftrightarrow> (case a of V4 _ \<Rightarrow> True | _ \<Rightarrow> False)"
definition is6 :: "addr \<Rightarrow> bool" where "is6 a \<longleftrightarrow> (case a of V6 _ _ \<Rightarrow> True | _ \<Rightarrow> False)"
definition is4in6 :: "addr \<Rightarrow> bool" where
  "is4in6 a \<longleftrightarrow> (case a of V6 w _ \<Rightarrow> drop_bit 32 w = 0xffff | _ \<Rightarrow> False)"
definition bitlen :: "addr \<Rightarrow> int" where
  "bitlen a = (case a of NoAddr \<Rightarrow> 0 | V4 _ \<Rightarrow> 32 | V6 _ _ \<Rightarrow> 128)"
definition unmap :: "addr \<Rightarrow> addr" where
  "unmap a = (if is4in6 a then (case a of V6 w _ \<Rightarrow> V4 (ucast w) | _ \<Rightarrow> a) else a)"

lemmas addr_defs [go_simps] = addr_valid_def is4_def is6_def is4in6_def bitlen_def unmap_def

text \<open>\<open>As4\<close>/\<open>As16\<close> and back: the bytes of an address, most significant first.\<close>

definition as4 :: "32 word \<Rightarrow> bytes" where "as4 w = be_bytes 4 w"
definition as16 :: "128 word \<Rightarrow> bytes" where "as16 w = be_bytes 16 w"
definition from4 :: "bytes \<Rightarrow> addr" where "from4 bs = V4 (get_be 0 bs)"
definition from16 :: "bytes \<Rightarrow> addr" where "from16 bs = V6 (get_be 0 bs) []"

lemma from4_as4 [codec_simps, simp]: "from4 (as4 w) = V4 w"
  by (simp add: from4_def as4_def get_be_be_bytes take_bit_word_eq_self)

lemma from16_as16 [codec_simps, simp]: "from16 (as16 w) = V6 w []"
  by (simp add: from16_def as16_def get_be_be_bytes take_bit_word_eq_self)

lemma bit_get_be:
  "bit (get_be acc bs :: 'a::len word) (8 * length bs + n) \<longleftrightarrow> bit acc n \<and> 8 * length bs + n < LENGTH('a)"
proof (induction bs arbitrary: acc n)
  case (Cons b bs)
  have "bit (get_be (push_bit 8 acc OR ucast b) bs :: 'a word) (8 * length bs + (8 + n))
      \<longleftrightarrow> bit acc n \<and> 8 * length bs + (8 + n) < LENGTH('a)"
    unfolding Cons.IH by (auto simp: bit_simps dest: bit_imp_le_length)
  then show ?case by (simp add: algebra_simps)
qed (auto dest: bit_imp_le_length)

lemma be_bytes_get_be:
  "8 * length bs \<le> LENGTH('a) \<Longrightarrow> be_bytes (length bs) (get_be acc bs :: 'a::len word) = bs"
proof (induction bs arbitrary: acc)
  case (Cons b bs)
  have "ucast (drop_bit (8 * length bs) (get_be (push_bit 8 acc OR ucast b) bs :: 'a word)) = b"
    using Cons.prems by (intro bit_word_eqI) (auto simp: bit_simps bit_get_be)
  with Cons show ?case by simp
qed simp

lemma as4_from4 [codec_simps]: "length b = 4 \<Longrightarrow> as4 (get_be 0 b) = b"
  using be_bytes_get_be [of b, where 'a = 32] by (simp add: as4_def)

lemma as16_from16 [codec_simps]: "length b = 16 \<Longrightarrow> as16 (get_be 0 b) = b"
  using be_bytes_get_be [of b, where 'a = 128] by (simp add: as16_def)

lemma length_as [simp]: "length (as4 w) = 4" "length (as16 x) = 16"
  by (simp_all add: as4_def as16_def)

section \<open>Prefixes\<close>

definition prefix_from :: "addr \<Rightarrow> int \<Rightarrow> prefix" where
  "prefix_from a n =
     (let a' = (case a of V6 w _ \<Rightarrow> V6 w [] | _ \<Rightarrow> a)
      in if a \<noteq> NoAddr \<and> 0 \<le> n \<and> n \<le> bitlen a then \<lparr>paddr = a', pbits = n\<rparr>
         else \<lparr>paddr = a', pbits = - 1\<rparr>)"

definition prefix_valid :: "prefix \<Rightarrow> bool" where
  "prefix_valid p \<longleftrightarrow> 0 \<le> pbits p"

definition mask_word :: "nat \<Rightarrow> 'a::len word \<Rightarrow> 'a word" where \<comment> \<open>keep the top \<open>n\<close> bits\<close>
  "mask_word n w = push_bit (LENGTH('a) - n) (drop_bit (LENGTH('a) - n) w)"

definition masked :: "prefix \<Rightarrow> prefix" where
  "masked p = (if prefix_valid p then
      (case paddr p of
         NoAddr \<Rightarrow> p
       | V4 w \<Rightarrow> p\<lparr>paddr := V4 (mask_word (nat (pbits p)) w)\<rparr>
       | V6 w z \<Rightarrow> p\<lparr>paddr := V6 (mask_word (nat (pbits p)) w) []\<rparr>)
    else p)"

definition contains :: "prefix \<Rightarrow> addr \<Rightarrow> bool" where
  "contains p a = (prefix_valid p \<and>
     (case (paddr p, a) of
        (V4 w, V4 x) \<Rightarrow> mask_word (nat (pbits p)) w = mask_word (nat (pbits p)) x
      | (V6 w _, V6 x z) \<Rightarrow> z = [] \<and> mask_word (nat (pbits p)) w = mask_word (nat (pbits p)) x
      | _ \<Rightarrow> False))"

lemma mask_word_idem [simp]: "mask_word n (mask_word n w) = mask_word n w"
  by (rule bit_word_eqI) (auto simp: mask_word_def bit_simps)

lemma mask_word_0 [simp]: "mask_word 0 w = 0"
  by (rule bit_word_eqI) (auto simp: mask_word_def bit_simps)

lemma unat_mask_word:
  fixes w :: "'a::len word"
  assumes "n \<le> LENGTH('a)"
  shows "unat (mask_word n w) = unat w div 2 ^ (LENGTH('a) - n) * 2 ^ (LENGTH('a) - n)"
proof -
  let ?k = "LENGTH('a) - n"
  have "unat w div 2 ^ ?k * 2 ^ ?k \<le> unat w" by (rule div_times_less_eq_dividend)
  also have "\<dots> < 2 ^ LENGTH('a)" by simp
  finally have "take_bit LENGTH('a) (push_bit ?k (drop_bit ?k (unat w))) = unat w div 2 ^ ?k * 2 ^ ?k"
    by (simp add: push_bit_eq_mult drop_bit_eq_div take_bit_nat_eq_self)
  then show ?thesis
    by (simp add: mask_word_def unsigned_push_bit_eq unat_drop_bit_eq)
qed

lemma mask_word_add:
  fixes w :: "'a::len word"
  assumes "mask_word n w = w" "j < 2 ^ (LENGTH('a) - n)" "n \<le> LENGTH('a)"
  shows "mask_word n (w + of_nat j) = w \<and> unat (w + of_nat j) = unat w + j"
proof -
  let ?k = "LENGTH('a) - n" and ?q = "unat w div 2 ^ (LENGTH('a) - n)"
  have w: "unat w = ?q * 2 ^ ?k" using unat_mask_word [OF assms(3), of w] assms(1) by simp
  have "unat w < 2 ^ n * 2 ^ ?k"
    using unsigned_less [of w, where 'a = nat] assms(3) by (simp flip: power_add)
  then have "?q < 2 ^ n" using w by (metis mult_less_cancel2)
  then have "Suc ?q * 2 ^ ?k \<le> 2 ^ n * 2 ^ ?k" by (intro mult_le_mono1) simp
  then have "unat w + j < 2 ^ LENGTH('a)" using w assms(2,3) by (simp flip: power_add)
  then have sum: "unat (w + of_nat j) = unat w + j"
    by (simp add: unat_word_ariths unat_of_nat mod_add_right_eq)
  have "(unat w + j) div 2 ^ ?k = ?q" using w assms(2) by (metis div_mult_self3 div_less add.right_neutral power_not_zero zero_neq_numeral)
  then have "unat (mask_word n (w + of_nat j)) = unat w" using unat_mask_word [OF assms(3), of "w + of_nat j"] sum w by simp
  with sum show ?thesis by (simp add: word_unat_eq_iff)
qed

lemma masked_idem: "masked (masked p) = masked p"
  by (auto simp: masked_def prefix_valid_def split: addr.splits)

lemma contains_masked: "contains (masked p) a = contains p a"
  by (auto simp: contains_def masked_def prefix_valid_def split: addr.splits)

lemma contains_is4: "contains p a \<Longrightarrow> is4 a = is4 (paddr p)"
  by (auto simp: contains_def is4_def split: addr.splits)

section \<open>IPv4 text\<close>

definition ipv4_str :: "32 word \<Rightarrow> string" where
  "ipv4_str w = join ''.'' (map (\<lambda>b. nat_str (unat b)) (as4 w))"

text \<open>\<open>parseIPv4Fields\<close>: four decimal fields, no leading zeros, each at most 255.\<close>

definition ipv4_field :: "string \<Rightarrow> byte option" where
  "ipv4_field s =
     (if s \<noteq> [] \<and> list_all is_digit s \<and> length s \<le> 3 \<and> (length s > 1 \<longrightarrow> hd s \<noteq> CHR ''0'')
         \<and> digits_val s \<le> 255
      then Some (of_nat (digits_val s)) else None)"

definition parse_ipv4 :: "string \<Rightarrow> 32 word option" where
  "parse_ipv4 s =
     (case map ipv4_field (split_on (CHR ''.'') s) of
        [Some a, Some b, Some c, Some d] \<Rightarrow> Some (get_be 0 [a, b, c, d])
      | _ \<Rightarrow> None)"

lemma ipv4_field_nat_str [simp]: "ipv4_field (nat_str (unat (b :: byte))) = Some b"
proof -
  have lt: "unat b < 256" using unsigned_less [of b, where 'a = nat] by simp
  then have len: "length (nat_str (unat b)) \<le> 3" by (intro nat_str_length_le) auto
  have lead: "hd (nat_str (unat b)) \<noteq> CHR ''0''" if "length (nat_str (unat b)) > 1"
    using that nat_str_no_leading_zero by (cases "nat_str (unat b)") auto
  show ?thesis using lt len lead
    by (auto simp: ipv4_field_def list_all_iff nat_str_digits)
qed

lemma no_dot_nat_str: "CHR ''.'' \<notin> set (nat_str n)"
  using nat_str_digits [of "CHR ''.''" n] by (auto simp: is_digit_iff)

lemma split_ipv4_str: "split_on (CHR ''.'') (ipv4_str w) = map (\<lambda>b. nat_str (unat b)) (as4 w)"
  unfolding ipv4_str_def by (rule split_on_join) (auto simp: no_dot_nat_str as4_def numeral_eq_Suc)

lemma parse_ipv4_str [simp]: "parse_ipv4 (ipv4_str w) = Some w"
proof -
  obtain a b c d where abcd: "as4 w = [a, b, c, d]"
    by (simp add: as4_def numeral_eq_Suc)
  have "get_be 0 (as4 w) = w" using from4_as4 [of w] by (simp add: from4_def)
  with abcd show ?thesis by (simp add: parse_ipv4_def split_ipv4_str)
qed

section \<open>IPv6 text\<close>

definition hex_val :: "char \<Rightarrow> nat option" where
  "hex_val c =
     (if is_digit c then Some (of_char c - 48)
      else if CHR ''a'' \<le> c \<and> c \<le> CHR ''f'' then Some (of_char c - 87)
      else if CHR ''A'' \<le> c \<and> c \<le> CHR ''F'' then Some (of_char c - 55)
      else None)"

definition hex_char :: "nat \<Rightarrow> char" where \<comment> \<open>lower case\<close>
  "hex_char d = (if d < 10 then char_of (48 + d) else char_of (87 + d))"

text \<open>\<open>%x\<close> of a number, without leading zeros.\<close>

fun hex_str :: "nat \<Rightarrow> string" where
  "hex_str n = (if n < 16 then [hex_char n] else hex_str (n div 16) @ [hex_char (n mod 16)])"

declare hex_str.simps [simp del]

definition groups6 :: "128 word \<Rightarrow> nat list" where \<comment> \<open>the eight 16-bit fields\<close>
  "groups6 w = map (\<lambda>k. unat (ucast (drop_bit (16 * k) w) :: 16 word)) [7, 6, 5, 4, 3, 2, 1, 0]"

definition of_groups6 :: "nat list \<Rightarrow> 128 word" where
  "of_groups6 gs = foldl (\<lambda>a g. push_bit 16 a OR of_nat g) 0 gs"

text \<open>The first longest run of at least two zero fields is written as \<open>::\<close>.\<close>

fun zero_run :: "nat list \<Rightarrow> nat" where
  "zero_run (0 # gs) = Suc (zero_run gs)"
| "zero_run _ = 0"

definition best_run :: "nat list \<Rightarrow> nat \<times> nat" where \<comment> \<open>start and length; length 0 when none\<close>
  "best_run gs = foldl (\<lambda>(s, l) i. let r = zero_run (drop i gs)
                                  in if 2 \<le> r \<and> l < r then (i, r) else (s, l))
                 (0, 0) [0 ..< length gs]"

definition ipv6_plain_str :: "128 word \<Rightarrow> string" where
  "ipv6_plain_str w =
     (let gs = groups6 w; (s, l) = best_run gs; part = \<lambda>xs. join '':'' (map hex_str xs)
      in if l = 0 then part gs else part (take s gs) @ ''::'' @ part (drop (s + l) gs))"

definition addr_str :: "addr \<Rightarrow> string" where \<comment> \<open>\<open>Addr.String\<close>\<close>
  "addr_str a = (case a of
     NoAddr \<Rightarrow> ''invalid IP''
   | V4 w \<Rightarrow> ipv4_str w
   | V6 w z \<Rightarrow>
       (if is4in6 a then ''::ffff:'' @ ipv4_str (ucast w) else ipv6_plain_str w)
       @ (if z = [] then [] else ''%'' @ z))"

definition prefix_str :: "prefix \<Rightarrow> string" where \<comment> \<open>\<open>Prefix.String\<close>\<close>
  "prefix_str p = (if prefix_valid p then addr_str (paddr p) @ ''/'' @ nat_str (nat (pbits p))
                   else ''invalid Prefix'')"

text \<open>
  \<open>parseIPv6\<close>: the loop over the colon-separated fields.  The state is the fields read so far
  and the position of the ellipsis; the remaining text gets shorter in every round.
\<close>

fun take_hex :: "nat \<Rightarrow> nat \<Rightarrow> string \<Rightarrow> (nat \<times> nat \<times> string) option" where
  \<comment> \<open>digits read, value, rest; \<open>None\<close> when a fifth digit follows\<close>
  "take_hex off acc [] = Some (off, acc, [])"
| "take_hex off acc (c # s) =
     (case hex_val c of
        None \<Rightarrow> Some (off, acc, c # s)
      | Some d \<Rightarrow> if off > 3 then None else take_hex (Suc off) (16 * acc + d) s)"

lemma take_hex_length: "take_hex off acc s = Some (n, v, r) \<Longrightarrow> length r + n = length s + off"
  by (induction off acc s rule: take_hex.induct) (auto split: option.splits if_splits)

function parse6_loop :: "nat list \<Rightarrow> nat option \<Rightarrow> string \<Rightarrow> (nat list \<times> nat option) option" where
  "parse6_loop gs ell s =
     (if 8 \<le> length gs then (if s = [] then Some (gs, ell) else None)
      else case take_hex 0 0 s of
        None \<Rightarrow> None
      | Some (off, acc, r) \<Rightarrow>
          if off = 0 then None
          else if r \<noteq> [] \<and> hd r = CHR ''.'' then
            (if ell = None \<and> length gs \<noteq> 6 then None
             else if length gs + 2 > 8 then None
             else case parse_ipv4 s of
               None \<Rightarrow> None
             | Some w \<Rightarrow> Some (gs @ [unat (drop_bit 16 w), unat (take_bit 16 w)], ell))
          else (let gs' = gs @ [acc] in
            case r of
              [] \<Rightarrow> Some (gs', ell)
            | c # r1 \<Rightarrow>
                if c \<noteq> CHR '':'' then None
                else (case r1 of
                    [] \<Rightarrow> None
                  | d # r2 \<Rightarrow>
                      if d = CHR '':'' then
                        (if ell \<noteq> None then None
                         else if r2 = [] then Some (gs', Some (length gs'))
                         else parse6_loop gs' (Some (length gs')) r2)
                      else parse6_loop gs' ell r1)))"
  by pat_completeness auto
termination
  by (relation "measure (\<lambda>(gs, ell, s). length s)") (auto dest: take_hex_length)

declare parse6_loop.simps [simp del]

definition parse_ipv6 :: "string \<Rightarrow> addr option" where
  "parse_ipv6 s0 =
     (let s = takeWhile (\<lambda>c. c \<noteq> CHR ''%'') s0; z = drop (length s) s0
      in if z = ''%'' then None
      else let zone = drop 1 z;
               (ell0, s1) = (if has_prefix s ''::'' then (Some 0, drop 2 s) else (None, s))
           in if ell0 \<noteq> None \<and> s1 = [] then Some (V6 0 zone)
              else case parse6_loop [] ell0 s1 of
                None \<Rightarrow> None
              | Some (gs, ell) \<Rightarrow>
                  if length gs < 8 then
                    (case ell of None \<Rightarrow> None
                     | Some e \<Rightarrow> Some (V6 (of_groups6 (take e gs @ replicate (8 - length gs) 0 @ drop e gs)) zone))
                  else if ell \<noteq> None then None
                  else Some (V6 (of_groups6 gs) zone))"

definition addr_sep :: "char \<Rightarrow> bool" where
  "addr_sep c \<longleftrightarrow> c = CHR ''.'' \<or> c = CHR '':'' \<or> c = CHR ''%''"

definition parse_addr :: "string \<Rightarrow> addr option" where
  "parse_addr s =
     (case find addr_sep s of
        Some c \<Rightarrow> if c = CHR ''.'' then map_option V4 (parse_ipv4 s)
                  else if c = CHR '':'' then parse_ipv6 s else None
      | None \<Rightarrow> None)"

definition parse_prefix :: "string \<Rightarrow> prefix option" where
  "parse_prefix s =
     (let r = rev s; bits = rev (takeWhile (\<lambda>c. c \<noteq> CHR ''/'') r)
      in if CHR ''/'' \<notin> set s then None
      else case parse_addr (take (length s - length bits - 1) s) of
        None \<Rightarrow> None
      | Some a \<Rightarrow>
          if (case a of V6 _ z \<Rightarrow> z \<noteq> [] | _ \<Rightarrow> False) then None
          else if length bits > 1 \<and> \<not> (CHR ''1'' \<le> hd bits \<and> hd bits \<le> CHR ''9'') then None
          else if bits = [] \<or> \<not> list_all is_digit bits then None
          else if int (digits_val bits) > bitlen a then None
          else Some (prefix_from a (int (digits_val bits))))"

lemma parse_ipv6_V6: "parse_ipv6 s = Some a \<Longrightarrow> is6 a"
  by (auto simp: parse_ipv6_def Let_def is6_def split: option.splits if_splits prod.splits)

lemma parse_addr_valid: "parse_addr s = Some a \<Longrightarrow> a \<noteq> NoAddr"
  using parse_ipv6_V6 [of s a]
  by (auto simp: parse_addr_def is6_def split: option.splits if_splits)

lemma prefix_from_valid:
  "a \<noteq> NoAddr \<Longrightarrow> 0 \<le> n \<Longrightarrow> n \<le> bitlen a \<Longrightarrow> prefix_valid (prefix_from a n) \<and> paddr (prefix_from a n) \<noteq> NoAddr"
  by (simp add: prefix_from_def prefix_valid_def split: addr.splits)

lemma parse_prefix_from:
  "parse_prefix s = Some p \<Longrightarrow> \<exists>a n. p = prefix_from a (int n) \<and> a \<noteq> NoAddr \<and> int n \<le> bitlen a"
  using parse_addr_valid by (fastforce simp: parse_prefix_def Let_def split: option.splits if_splits)

lemma parse_prefix_valid: "parse_prefix s = Some p \<Longrightarrow> prefix_valid p \<and> paddr p \<noteq> NoAddr"
  using parse_prefix_from [of s p] prefix_from_valid by fastforce

section \<open>Round trips for IPv4\<close>

lemma find_app: "(\<And>x. x \<in> set xs \<Longrightarrow> \<not> P x) \<Longrightarrow> P y \<Longrightarrow> find P (xs @ y # ys) = Some y"
  by (induction xs) auto

lemma addr_sep_nat_str: "c \<in> set (nat_str n) \<Longrightarrow> \<not> addr_sep c"
  using nat_str_digits [of c n] by (auto simp: addr_sep_def is_digit_iff)

lemma find_dot_ipv4: "find addr_sep (ipv4_str w) = Some (CHR ''.'')"
proof -
  obtain a b c d where "as4 w = [a, b, c, d]"
    by (simp add: as4_def numeral_eq_Suc)
  moreover have "addr_sep (CHR ''.'')" by (simp add: addr_sep_def)
  ultimately show ?thesis by (simp add: ipv4_str_def find_app addr_sep_nat_str)
qed

lemma parse_addr_ipv4 [simp]: "parse_addr (ipv4_str w) = Some (V4 w)"
  by (simp add: parse_addr_def find_dot_ipv4)

lemma slash_nat_str: "CHR ''/'' \<notin> set (nat_str n)"
  using nat_str_digits [of "CHR ''/''" n] by (auto simp: is_digit_iff)

lemma slash_ipv4_str: "CHR ''/'' \<notin> set (ipv4_str w)"
proof -
  obtain a b c d where "as4 w = [a, b, c, d]" by (simp add: as4_def numeral_eq_Suc)
  then show ?thesis by (simp add: ipv4_str_def slash_nat_str)
qed

lemma takeWhile_rev_slash:
  assumes "CHR ''/'' \<notin> set t"
  shows "takeWhile (\<lambda>c. c \<noteq> CHR ''/'') (rev (s @ CHR ''/'' # t)) = rev t"
proof -
  have "\<And>x. x \<in> set (rev t) \<Longrightarrow> x \<noteq> CHR ''/''" using assms by auto
  then show ?thesis by (simp add: takeWhile_append2 [of "rev t"] takeWhile_tail)
qed

lemma nat_str_lead:
  assumes "length (nat_str n) > 1"
  shows "CHR ''1'' \<le> hd (nat_str n) \<and> hd (nat_str n) \<le> CHR ''9''"
proof -
  obtain c cs where c: "nat_str n = c # cs" "cs \<noteq> []" using assms by (cases "nat_str n") auto
  then have "c \<noteq> CHR ''0''" using nat_str_no_leading_zero [of n cs] by auto
  then have "(of_char c :: nat) \<noteq> of_char (CHR ''0'')" by (simp only: of_char_eq_iff not_False_eq_True)
  then have "(of_char c :: nat) \<noteq> 48" by simp
  moreover have "is_digit c" using nat_str_digits [of c n] c by simp
  ultimately show ?thesis using c by (simp add: less_eq_char_def is_digit_iff)
qed

lemma parse_prefix_ipv4:
  assumes "n \<le> 32"
  shows "parse_prefix (ipv4_str w @ ''/'' @ nat_str n) = Some \<lparr>paddr = V4 w, pbits = int n\<rparr>"
  using assms nat_str_lead [of n] takeWhile_rev_slash [OF slash_nat_str [of n], of "ipv4_str w"]
  by (auto simp: parse_prefix_def Let_def prefix_from_def bitlen_def list_all_iff nat_str_digits)

lemma parse_prefix_str_V4:
  assumes "paddr p = V4 w" "0 \<le> pbits p" "pbits p \<le> 32"
  shows "parse_prefix (prefix_str p) = Some p"
proof -
  have "parse_prefix (ipv4_str w @ ''/'' @ nat_str (nat (pbits p))) = Some \<lparr>paddr = V4 w, pbits = pbits p\<rparr>"
    using assms parse_prefix_ipv4 [of "nat (pbits p)" w] by simp
  with assms show ?thesis by (simp add: prefix_str_def prefix_valid_def addr_str_def)
qed

end
