(* ===== verification/GoText.thy ===== *)
theory GoText
  imports NetIP
begin

text \<open>What the code uses of \<open>fmt\<close> beyond concatenation: \<open>%q\<close>, a quoted \<open>%s\<close>, and \<open>%v\<close> of a slice.\<close>

definition nl :: string where "nl = [char_of (10 :: nat)]"
definition dq :: string where "dq = [char_of (34 :: nat)]"

text \<open>\<open>%q\<close> on ASCII text, and \<open>"%s"\<close>.\<close>

definition quote_char :: "char \<Rightarrow> string" where
  "quote_char c = (let n = of_char c :: nat; bs = [char_of (92 :: nat)] in
     if c \<in> set dq \<or> [c] = bs then bs @ [c]
     else if n = 7 then bs @ ''a'' else if n = 8 then bs @ ''b'' else if n = 9 then bs @ ''t''
     else if n = 10 then bs @ ''n'' else if n = 11 then bs @ ''v'' else if n = 12 then bs @ ''f''
     else if n = 13 then bs @ ''r''
     else if n < 32 \<or> n = 127 then bs @ ''x'' @ [hex_char (n div 16), hex_char (n mod 16)]
     else [c])"

definition go_quote :: "string \<Rightarrow> string" where
  "go_quote s = dq @ concat (map quote_char s) @ dq"

definition in_quotes :: "string \<Rightarrow> string" where
  "in_quotes s = dq @ s @ dq"

definition int_str :: "int \<Rightarrow> string" where \<comment> \<open>\<open>%d\<close>\<close>
  "int_str i = (if i < 0 then ''-'' @ nat_str (nat (- i)) else nat_str (nat i))"

definition v_strings :: "string list \<Rightarrow> string" where
  "v_strings xs = ''['' @ join '' '' xs @ '']''"

end
