(* ===== verification/AddrText.thy ===== *)
theory AddrText
  imports NetIP
begin

text \<open>
  The texts of IPv6 addresses and prefixes read back: \<open>ParseAddr\<close> of \<open>Addr.String\<close> is the address,
  with the run of zero fields written as \<open>::\<close>, the mapped IPv4 form and the zone, and \<open>ParsePrefix\<close>
  of \<open>Prefix.String\<close> is the prefix.  The rules of a firewall are read back through these facts.
\<close>

unbundle bit_operations_syntax

section \<open>Hexadecimal fields\<close>

lemma hex_digits:
  "list_all (\<lambda>d. hex_val (hex_char d) = Some d \<and> \<not> addr_sep (hex_char d) \<and> hex_char d \<noteq> CHR ''/'') [0 ..< 16]"
  by code_simp

lemma hex_val_char [simp]: "d < 16 \<Longrightarrow> hex_val (hex_char d) = Some d"
  using hex_digits by (simp add: list_all_iff)

lemma hex_char_sep: "d < 16 \<Longrightarrow> \<not> addr_sep (hex_char d) \<and> hex_char d \<noteq> CHR ''/''"
  using hex_digits by (simp add: list_all_iff)

lemma hex_str_step: "hex_str n = (if n < 16 then [hex_char n] else hex_str (n div 16) @ [hex_char (n mod 16)])"
  by (rule hex_str.simps)

lemma hex_str_not_Nil [simp]: "hex_str n \<noteq> []"
  by (subst hex_str_step) simp

lemma hex_str_chars: "c \<in> set (hex_str n) \<Longrightarrow> \<exists>d < 16. c = hex_char d"
proof (induction n rule: less_induct)
  case (less n)
  show ?case
  proof (cases "n < 16")
    case True
    with less.prems show ?thesis by (auto simp: hex_str_step [of n])
  next
    case False
    with less.prems have "c \<in> set (hex_str (n div 16)) \<or> c = hex_char (n mod 16)"
      by (auto simp: hex_str_step [of n])
    moreover have "n div 16 < n" "n mod 16 < 16" using False by auto
    ultimately show ?thesis using less.IH [of "n div 16"] by blast
  qed
qed

lemma hex_str_sep: "c \<in> set (hex_str n) \<Longrightarrow> \<not> addr_sep c \<and> c \<noteq> CHR ''/''"
proof -
  assume "c \<in> set (hex_str n)"
  then obtain d where "d < 16" "c = hex_char d" using hex_str_chars by blast
  with hex_char_sep show ?thesis by simp
qed

lemma hex_str_length: "n < 16 ^ k \<Longrightarrow> 0 < k \<Longrightarrow> length (hex_str n) \<le> k"
proof (induction k arbitrary: n)
  case (Suc k)
  show ?case
  proof (cases "n < 16")
    case False
    then have "n div 16 < 16 ^ k" "0 < k" using Suc.prems by (auto simp: less_mult_imp_div_less mult.commute intro: gr0I)
    with Suc.IH [of "n div 16"] False show ?thesis by (simp add: hex_str_step [of n])
  qed (simp add: hex_str_step [of n])
qed simp

text \<open>Reading the digits of a number, whatever follows them.\<close>

definition no_hex :: "string \<Rightarrow> bool" where
  "no_hex r \<longleftrightarrow> (case r of [] \<Rightarrow> True | c # _ \<Rightarrow> hex_val c = None)"

lemma take_hex_stop: "no_hex r \<Longrightarrow> take_hex off acc r = Some (off, acc, r)"
  by (cases r) (simp_all add: no_hex_def)

lemma take_hex_digits:
  assumes "\<forall>c \<in> set ds. hex_val c \<noteq> None" "off + length ds \<le> 4"
  shows "take_hex off acc (ds @ r) =
    take_hex (off + length ds) (foldl (\<lambda>a c. 16 * a + the (hex_val c)) acc ds) r"
  using assms
proof (induction ds arbitrary: off acc)
  case (Cons c ds)
  then obtain v where "hex_val c = Some v" by auto
  with Cons show ?case by simp
qed simp

lemma hex_str_value: "foldl (\<lambda>a c. 16 * a + the (hex_val c)) 0 (hex_str n) = n"
proof (induction n rule: less_induct)
  case (less n)
  show ?case
  proof (cases "n < 16")
    case False
    then have "n div 16 < n" by auto
    from less.IH [OF this] False show ?thesis by (simp add: hex_str_step [of n])
  qed (simp add: hex_str_step [of n])
qed

lemma take_hex_str:
  assumes "n < 65536" "no_hex r"
  shows "take_hex 0 0 (hex_str n @ r) = Some (length (hex_str n), n, r)"
proof -
  have "length (hex_str n) \<le> 4" using assms(1) by (intro hex_str_length) auto
  moreover have "\<forall>c \<in> set (hex_str n). hex_val c \<noteq> None" using hex_str_chars by fastforce
  ultimately show ?thesis using take_hex_digits [of "hex_str n" 0 0 r] take_hex_stop [OF assms(2)]
    by (simp add: hex_str_value)
qed

section \<open>The loop over the fields\<close>

abbreviation fields_str :: "nat list \<Rightarrow> string" where "fields_str gs \<equiv> join '':'' (map hex_str gs)"

lemma hex_colon: "hex_val (CHR '':'') = None" by code_simp

lemma hex_str_hd: "hex_str n = c # cs \<Longrightarrow> c \<noteq> CHR '':''"
  using hex_str_sep [of c n] by (auto simp: addr_sep_def)

lemma fields_str_Cons: "join '':'' (hex_str g # map hex_str gs) = hex_str g @ (if gs = [] then [] else CHR '':'' # fields_str gs)"
  by (cases gs) simp_all

lemma fields_str_hd: "gs \<noteq> [] \<Longrightarrow> \<exists>c cs. fields_str gs = c # cs \<and> c \<noteq> CHR '':''"
proof -
  assume "gs \<noteq> []"
  then obtain g gs' where g: "gs = g # gs'" by (cases gs) auto
  obtain c cs where c: "hex_str g = c # cs" by (cases "hex_str g") auto
  with hex_str_hd [OF c] g fields_str_Cons [of g gs'] show ?thesis by auto
qed

lemma parse6_last:
  assumes "take_hex 0 0 s = Some (n, v, [])" "0 < n" "length gs < 8"
  shows "parse6_loop gs ell s = Some (gs @ [v], ell)"
  using assms by (simp add: parse6_loop.simps [of gs ell s])

lemma parse6_next:
  assumes "take_hex 0 0 s = Some (n, v, CHR '':'' # r)" "0 < n" "length gs < 8" "r = c # cs" "c \<noteq> CHR '':''"
  shows "parse6_loop gs ell s = parse6_loop (gs @ [v]) ell r"
  using assms by (simp add: parse6_loop.simps [of gs ell s])

lemma parse6_double:
  assumes "take_hex 0 0 s = Some (n, v, ''::'' @ r)" "0 < n" "length gs < 8"
  shows "parse6_loop gs None s = (if r = [] then Some (gs @ [v], Some (Suc (length gs)))
    else parse6_loop (gs @ [v]) (Some (Suc (length gs))) r)"
  using assms by (simp add: parse6_loop.simps [of gs None s])

lemma parse6_fields:
  assumes "gs \<noteq> []" "\<forall>g \<in> set gs. g < 65536" "length done + length gs \<le> 8"
  shows "parse6_loop done ell (fields_str gs) = Some (done @ gs, ell)"
  using assms
proof (induction gs arbitrary: "done")
  case (Cons g gs)
  show ?case
  proof (cases "gs = []")
    case True
    have "take_hex 0 0 (hex_str g) = Some (length (hex_str g), g, [])"
      using take_hex_str [of g "[]"] Cons.prems(2) by (simp add: no_hex_def)
    from parse6_last [OF this, of "done" ell] True Cons.prems(3) show ?thesis by simp
  next
    case False
    obtain c cs where c: "fields_str gs = c # cs" "c \<noteq> CHR '':''" using fields_str_hd [OF False] by blast
    have "take_hex 0 0 (hex_str g @ CHR '':'' # fields_str gs) = Some (length (hex_str g), g, CHR '':'' # fields_str gs)"
      using take_hex_str [of g] Cons.prems(2) by (simp add: no_hex_def hex_colon)
    moreover have "parse6_loop (done @ [g]) ell (fields_str gs) = Some ((done @ [g]) @ gs, ell)"
      using Cons False by simp
    ultimately show ?thesis using parse6_next [OF _ _ _ c, of _ _ g "done" ell] False Cons.prems(3)
      by (simp add: fields_str_Cons [of g])
  qed
qed simp

lemma parse6_ellipsis:
  assumes "gs \<noteq> []" "\<forall>g \<in> set (gs @ hs). g < 65536" "length done + length gs + length hs < 8"
  shows "parse6_loop done None (fields_str gs @ ''::'' @ fields_str hs) = Some (done @ gs @ hs, Some (length done + length gs))"
  using assms
proof (induction gs arbitrary: "done")
  case (Cons g gs)
  show ?case
  proof (cases "gs = []")
    case True
    have t: "take_hex 0 0 (hex_str g @ ''::'' @ fields_str hs) = Some (length (hex_str g), g, ''::'' @ fields_str hs)"
      using take_hex_str [of g "''::'' @ fields_str hs"] Cons.prems(2) by (simp add: no_hex_def hex_colon)
    show ?thesis
    proof (cases "hs = []")
      case True
      with parse6_double [OF t, of "done"] \<open>gs = []\<close> Cons.prems(3) show ?thesis by simp
    next
      case False
      obtain c cs where c: "fields_str hs = c # cs" using fields_str_hd [OF False] by blast
      have "parse6_loop (done @ [g]) (Some (length (done @ [g]))) (fields_str hs)
          = Some ((done @ [g]) @ hs, Some (length (done @ [g])))"
        by (rule parse6_fields) (use False Cons.prems \<open>gs = []\<close> in auto)
      with parse6_double [OF t, of "done"] c \<open>gs = []\<close> Cons.prems(3) show ?thesis by simp
    qed
  next
    case False
    obtain c cs where c: "fields_str gs = c # cs" "c \<noteq> CHR '':''" using fields_str_hd [OF False] by blast
    have "take_hex 0 0 (hex_str g @ CHR '':'' # fields_str gs @ ''::'' @ fields_str hs)
        = Some (length (hex_str g), g, CHR '':'' # fields_str gs @ ''::'' @ fields_str hs)"
      using take_hex_str [of g] Cons.prems(2) by (simp add: no_hex_def hex_colon)
    moreover have "parse6_loop (done @ [g]) None (fields_str gs @ ''::'' @ fields_str hs)
        = Some ((done @ [g]) @ gs @ hs, Some (length (done @ [g]) + length gs))"
      using Cons False by simp
    moreover have "fields_str gs @ ''::'' @ fields_str hs = c # cs @ ''::'' @ fields_str hs" using c by simp
    ultimately show ?thesis using parse6_next [OF _ _ _ _ c(2), of _ _ g _ "done" _ None] False Cons.prems(3)
      by (simp add: fields_str_Cons [of g])
  qed
qed simp
section \<open>The run of zeros and the fields\<close>

lemma zero_run_take: "take (zero_run gs) gs = replicate (zero_run gs) 0 \<and> zero_run gs \<le> length gs"
  by (induction gs rule: zero_run.induct) auto

lemma best_run_zeros:
  assumes "best_run gs = (s, l)"
  shows "s + l \<le> length gs \<and> take l (drop s gs) = replicate l 0 \<and> (l = 0 \<or> 2 \<le> l)"
proof -
  define step where "step = (\<lambda>(s, l) i. let r = zero_run (drop i gs) in if 2 \<le> r \<and> l < r then (i, r) else (s, l))"
  define ok where "ok = (\<lambda>(s, l). s + l \<le> length gs \<and> take l (drop s gs) = replicate l 0 \<and> (l = 0 \<or> 2 \<le> l))"
  have one: "ok (step x i)" if "ok x" "i \<le> length gs" for x i
    using that zero_run_take [of "drop i gs"] by (auto simp: ok_def step_def Let_def split: prod.splits)
  have "ok (foldl step x is)" if "ok x" "\<forall>i \<in> set is. i \<le> length gs" for x "is"
    using that by (induction "is" arbitrary: x) (auto simp: one)
  from this [of "(0, 0)" "[0 ..< length gs]"] assms show ?thesis
    by (auto simp: best_run_def step_def [symmetric] ok_def)
qed

lemma groups6_eq: "groups6 w = map (\<lambda>k. unat (take_bit 16 (drop_bit (16 * k) w))) [7, 6, 5, 4, 3, 2, 1, 0]"
  by (simp add: groups6_def unsigned_ucast_eq unsigned_take_bit_eq)

lemma groups6_less: "g \<in> set (groups6 w) \<Longrightarrow> g < 65536"
proof -
  assume "g \<in> set (groups6 w)"
  then obtain v :: "16 word" where "g = unat v" unfolding groups6_def set_map by blast
  with unsigned_less [of v, where 'a = nat] show ?thesis by simp
qed

lemma length_groups6 [simp]: "length (groups6 w) = 8" by (simp add: groups6_def)

lemma add_field: "push_bit 16 (drop_bit (16 + n) w) OR of_nat (unat (take_bit 16 (drop_bit n w))) = drop_bit n (w :: 128 word)"
  by (rule bit_word_eqI) (auto simp: bit_simps)

lemma of_groups6_groups6 [simp]: "of_groups6 (groups6 w) = w"
proof -
  have top: "drop_bit 128 w = 0" by (rule bit_word_eqI) (auto simp: bit_simps dest: bit_imp_le_length)
  note step = add_field [of 112 w] add_field [of 96 w] add_field [of 80 w] add_field [of 64 w] add_field [of 48 w]
    add_field [of 32 w] add_field [of 16 w] add_field [of 0 w]
  show ?thesis using step by (simp add: of_groups6_def groups6_eq top)
qed

section \<open>Addresses\<close>

lemma fields_str_sep: "c \<in> set (fields_str gs) \<Longrightarrow> c \<noteq> CHR ''%'' \<and> c \<noteq> CHR ''/'' \<and> c \<noteq> CHR ''.''"
proof (induction gs)
  case (Cons g gs)
  have "c \<in> set (hex_str g) \<Longrightarrow> ?case" using hex_str_sep [of c g] by (auto simp: addr_sep_def)
  with Cons show ?case by (auto simp: fields_str_Cons split: if_split_asm)
qed simp

text \<open>The text of an address without its zone.\<close>

definition body6 :: "128 word \<Rightarrow> string" where
  "body6 w = (if drop_bit 32 w = 0xffff then ''::ffff:'' @ ipv4_str (ucast w) else ipv6_plain_str w)"

lemma addr_str_V6: "addr_str (V6 w z) = body6 w @ (if z = [] then [] else CHR ''%'' # z)"
  by (simp add: addr_str_def is4in6_def body6_def)

lemma ipv4_str_chars: "c \<in> set (ipv4_str w) \<Longrightarrow> is_digit c \<or> c = CHR ''.''"
proof -
  assume c: "c \<in> set (ipv4_str w)"
  obtain x y z u where "as4 w = [x, y, z, u]" by (simp add: as4_def numeral_eq_Suc)
  with c show ?thesis by (auto simp: ipv4_str_def dest: nat_str_digits)
qed

lemma body6_chars: "c \<in> set (body6 w) \<Longrightarrow> c \<noteq> CHR ''%'' \<and> c \<noteq> CHR ''/''"
proof (cases "drop_bit 32 w = 0xffff")
  case True
  assume "c \<in> set (body6 w)"
  then consider "c \<in> set ''::ffff:''" | "c \<in> set (ipv4_str (ucast w))" using True by (auto simp: body6_def)
  then show ?thesis by cases (auto dest!: ipv4_str_chars simp: is_digit_iff)
next
  case False
  assume "c \<in> set (body6 w)"
  then show ?thesis using False fields_str_sep
    by (auto simp: body6_def ipv6_plain_str_def Let_def split: prod.splits if_split_asm dest!: fields_str_sep)
qed

text \<open>The first separator of the text is a colon.\<close>

lemma find_colon_fields: "gs \<noteq> [] \<Longrightarrow> find addr_sep (fields_str gs @ CHR '':'' # r) = Some (CHR '':'')"
proof -
  assume "gs \<noteq> []"
  then obtain g gs' where g: "gs = g # gs'" by (cases gs) auto
  have "find addr_sep (hex_str g @ CHR '':'' # x) = Some (CHR '':'')" for x
    by (rule find_app) (use hex_str_sep in \<open>auto simp: addr_sep_def\<close>)
  with g show ?thesis by (simp add: fields_str_Cons)
qed

lemma find_colon_plain: "find addr_sep (ipv6_plain_str w @ r) = Some (CHR '':'')"
proof -
  obtain s l where b: "best_run (groups6 w) = (s, l)" by (cases "best_run (groups6 w)")
  show ?thesis
  proof (cases "l = 0")
    case True
    obtain g g' gs where g: "groups6 w = g # g' # gs" by (simp add: groups6_def)
    with find_colon_fields [of "[g]" "fields_str (g' # gs) @ r"] show ?thesis using True b
      by (simp add: ipv6_plain_str_def Let_def)
  next
    case False
    show ?thesis
    proof (cases "take s (groups6 w) = []")
      case True
      then show ?thesis using False b by (auto simp: ipv6_plain_str_def Let_def addr_sep_def)
    next
      case take: False
      from find_colon_fields [OF this] show ?thesis using False b by (simp add: ipv6_plain_str_def Let_def)
    qed
  qed
qed

lemma find_colon: "find addr_sep (body6 w @ r) = Some (CHR '':'')"
  by (cases "drop_bit 32 w = 0xffff") (simp_all add: body6_def find_colon_plain addr_sep_def)

section \<open>Reading an address back\<close>

lemma has_prefix_fields: "gs \<noteq> [] \<Longrightarrow> \<not> has_prefix (fields_str gs @ r) ''::''"
  using fields_str_hd [of gs] by (auto simp: has_prefix_def)

lemma has_prefix_double [simp]: "has_prefix (CHR '':'' # CHR '':'' # r) ''::''"
  by (simp add: has_prefix_def)

text \<open>What \<open>parse_ipv6\<close> does once the zone is split off.\<close>

definition parse_body :: "string \<Rightarrow> string \<Rightarrow> addr option" where
  "parse_body zone s =
     (let (ell0, s1) = (if has_prefix s ''::'' then (Some 0, drop 2 s) else (None, s))
      in if ell0 \<noteq> None \<and> s1 = [] then Some (V6 0 zone)
         else case parse6_loop [] ell0 s1 of
           None \<Rightarrow> None
         | Some (gs, ell) \<Rightarrow>
             if length gs < 8 then
               (case ell of None \<Rightarrow> None
                | Some e \<Rightarrow> Some (V6 (of_groups6 (take e gs @ replicate (8 - length gs) 0 @ drop e gs)) zone))
             else if ell \<noteq> None then None
             else Some (V6 (of_groups6 gs) zone))"

lemma parse_ipv6_from:
  assumes "takeWhile (\<lambda>c. c \<noteq> CHR ''%'') s = b"
  shows "parse_ipv6 s = (if drop (length b) s = ''%'' then None else parse_body (drop 1 (drop (length b) s)) b)"
  unfolding parse_ipv6_def parse_body_def assms Let_def by simp

lemma parse_ipv6_split:
  assumes "CHR ''%'' \<notin> set b"
  shows "parse_ipv6 (b @ (if z = [] then [] else CHR ''%'' # z)) = parse_body z b"
proof -
  have own: "takeWhile (\<lambda>c. c \<noteq> CHR ''%'') b = b" using assms by (auto simp: takeWhile_eq_all_conv)
  show ?thesis
  proof (cases "z = []")
    case True
    with parse_ipv6_from [OF own] show ?thesis by simp
  next
    case False
    have "takeWhile (\<lambda>c. c \<noteq> CHR ''%'') (b @ CHR ''%'' # z) = b" by (rule trans [OF takeWhile_tail own]) simp
    from parse_ipv6_from [OF this] False show ?thesis by simp
  qed
qed

lemma parse_body_plain: "parse_body z (ipv6_plain_str w) = Some (V6 w z)"
proof -
  let ?gs = "groups6 w"
  obtain s l where b: "best_run ?gs = (s, l)" by (cases "best_run ?gs")
  note run = best_run_zeros [OF b]
  have gs: "?gs \<noteq> []" "\<forall>g \<in> set ?gs. g < 65536" using groups6_less by (auto simp: groups6_def)
  show ?thesis
  proof (cases "l = 0")
    case True
    with b have "ipv6_plain_str w = fields_str ?gs" by (simp add: ipv6_plain_str_def)
    moreover have "parse6_loop [] None (fields_str ?gs) = Some (?gs, None)"
      using parse6_fields [OF gs, of "[]" None] by simp
    moreover have "\<not> has_prefix (fields_str ?gs) ''::''" using has_prefix_fields [OF gs(1), of "[]"] by simp
    ultimately show ?thesis by (simp add: parse_body_def)
  next
    case False
    let ?h = "take s ?gs" and ?t = "drop (s + l) ?gs"
    have str: "ipv6_plain_str w = fields_str ?h @ ''::'' @ fields_str ?t" using b False by (simp add: ipv6_plain_str_def Let_def)
    have split: "?h @ replicate l 0 @ ?t = ?gs"
      using run by (metis append_take_drop_id drop_drop add.commute)
    have len: "length ?h + length ?t + l = 8" "length ?h = s" using run by simp_all
    have small: "\<forall>g \<in> set (?h @ ?t). g < 65536" using gs(2) by (auto dest: in_set_takeD in_set_dropD)
    have fill: "of_groups6 (take s (?h @ ?t) @ replicate (8 - length (?h @ ?t)) 0 @ drop s (?h @ ?t)) = w"
      using len split by (simp add: take_append drop_append)
    show ?thesis
    proof (cases "?h = []")
      case True
      then have s: "s = 0" using gs(1) by simp
      show ?thesis
      proof (cases "?t = []")
        case True
        with split \<open>?h = []\<close> have "?gs = replicate l 0" by simp
        moreover have "l = 8" using len True \<open>?h = []\<close> by simp
        ultimately have "?gs = replicate 8 0" by simp
        then have "w = of_groups6 (replicate 8 0)" by (metis of_groups6_groups6)
        moreover have "of_groups6 (replicate 8 0) = 0" by code_simp
        ultimately show ?thesis using str True s by (simp add: parse_body_def)
      next
        case False
        have "parse6_loop [] (Some 0) (fields_str ?t) = Some (?t, Some 0)"
          using parse6_fields [OF False, of "[]" "Some 0"] small len by simp
        moreover have "fields_str ?t \<noteq> []" using fields_str_hd [OF False] by auto
        moreover have "length ?t < 8" using len run \<open>l \<noteq> 0\<close> by simp
        ultimately show ?thesis using str fill s by (simp add: parse_body_def)
      qed
    next
      case h: False
      have "parse6_loop [] None (fields_str ?h @ ''::'' @ fields_str ?t) = Some (?h @ ?t, Some s)"
        using parse6_ellipsis [OF h small, of "[]"] len \<open>l \<noteq> 0\<close> by simp
      moreover have "\<not> has_prefix (fields_str ?h @ ''::'' @ fields_str ?t) ''::''" by (rule has_prefix_fields [OF h])
      moreover have "length (?h @ ?t) < 8" using len \<open>l \<noteq> 0\<close> by simp
      ultimately show ?thesis unfolding parse_body_def str using fill by simp
    qed
  qed
qed

lemma parse_body_mapped:
  assumes "drop_bit 32 w = 0xffff"
  shows "parse_body z (''::ffff:'' @ ipv4_str (ucast w)) = Some (V6 w z)"
proof -
  let ?v = "ucast w :: 32 word"
  obtain a b c d where as: "as4 ?v = [a, b, c, d]" by (simp add: as4_def numeral_eq_Suc)
  let ?r = "CHR ''.'' # nat_str (unat b) @ CHR ''.'' # nat_str (unat c) @ CHR ''.'' # nat_str (unat d)"
  have s: "ipv4_str ?v = nat_str (unat a) @ ?r" by (simp add: ipv4_str_def as)
  obtain x xs where x: "nat_str (unat a) = x # xs" by (cases "nat_str (unat a)") auto
  have "is_digit x" using nat_str_digits [of x "unat a"] x by simp
  then have nc: "x \<noteq> CHR '':''" by (auto simp: is_digit_iff)
  have "unat a < 10 ^ 3" using unsigned_less [of a, where 'a = nat] by simp
  then have "length (nat_str (unat a)) \<le> 3" by (rule nat_str_length_le) simp
  moreover have "\<forall>c \<in> set (nat_str (unat a)). hex_val c \<noteq> None" by (auto simp: hex_val_def dest: nat_str_digits)
  ultimately have "\<exists>v. take_hex 0 0 (nat_str (unat a) @ ?r) = Some (length (nat_str (unat a)), v, ?r)"
    using take_hex_digits [of "nat_str (unat a)" 0 0 ?r] take_hex_stop [of ?r]
    by (simp add: no_hex_def hex_val_def is_digit_iff less_eq_char_def)
  then obtain v where v: "take_hex 0 0 (ipv4_str ?v) = Some (length (nat_str (unat a)), v, ?r)" unfolding s ..
  have tail: "parse6_loop [65535] (Some 0) (ipv4_str ?v) = Some ([65535, unat (drop_bit 16 ?v), unat (take_bit 16 ?v)], Some 0)"
    using v by (simp add: parse6_loop.simps [of "[65535]"])
  have head: "take_hex 0 0 (''ffff:'' @ ipv4_str ?v) = Some (4, 65535, CHR '':'' # ipv4_str ?v)"
    by (simp add: hex_val_def is_digit_iff less_eq_char_def)
  have "parse6_loop [] (Some 0) (''ffff:'' @ ipv4_str ?v) = parse6_loop [65535] (Some 0) (ipv4_str ?v)"
    using parse6_next [OF head, of "[]" x "xs @ ?r" "Some 0"] nc s x by simp
  then have loop: "parse6_loop [] (Some 0) (''ffff:'' @ ipv4_str ?v)
      = Some ([65535, unat (drop_bit 16 ?v), unat (take_bit 16 ?v)], Some 0)" using tail by simp
  have "of_groups6 (replicate 5 0 @ [65535, unat (drop_bit 16 ?v), unat (take_bit 16 ?v)]) = w"
  proof -
    have "push_bit 32 (drop_bit 32 w) OR push_bit 16 (ucast (drop_bit 16 ?v)) OR ucast (take_bit 16 ?v) = w"
    proof (rule bit_word_eqI)
      fix n assume "n < LENGTH(128)"
      then show "bit (push_bit 32 (drop_bit 32 w) OR push_bit 16 (ucast (drop_bit 16 ?v)) OR ucast (take_bit 16 ?v)) n = bit w n"
        by (cases "n < 32") (auto simp: bit_simps)
    qed
    moreover have "replicate 5 (0 :: nat) = [0, 0, 0, 0, 0]" by (simp add: numeral_eq_Suc)
    ultimately show ?thesis using assms by (simp add: of_groups6_def push_bit_or or.assoc)
  qed
  with loop show ?thesis by (simp add: parse_body_def)
qed

lemma parse_addr_V6_str: "parse_addr (addr_str (V6 w z)) = Some (V6 w z)"
proof -
  have "parse_body z (body6 w) = Some (V6 w z)" using parse_body_plain parse_body_mapped by (simp add: body6_def)
  moreover have "CHR ''%'' \<notin> set (body6 w)" using body6_chars by blast
  ultimately have "parse_ipv6 (addr_str (V6 w z)) = Some (V6 w z)" using parse_ipv6_split [of "body6 w" z] by (simp add: addr_str_V6)
  moreover have "find addr_sep (addr_str (V6 w z)) = Some (CHR '':'')" unfolding addr_str_V6 by (rule find_colon)
  ultimately show ?thesis by (simp add: parse_addr_def)
qed

lemma parse_addr_str [codec_simps, simp]: "a \<noteq> NoAddr \<Longrightarrow> parse_addr (addr_str a) = Some a"
  using parse_addr_V6_str by (cases a) (simp_all add: addr_str_def [of "V4 _"])

section \<open>Addresses without a zone\<close>

text \<open>An address a packet carries or a rule names: not the zero address, and without a zone.\<close>

definition plain_addr :: "addr \<Rightarrow> bool" where
  "plain_addr a = (case a of NoAddr \<Rightarrow> False | V4 _ \<Rightarrow> True | V6 _ z \<Rightarrow> z = [])"

lemma plain_addr_simps [simp]: "\<not> plain_addr NoAddr" "plain_addr (V4 w)" "plain_addr (V6 v z) \<longleftrightarrow> z = []"
  by (simp_all add: plain_addr_def)

lemma plain_addr_cases [case_names V4 V6]:
  assumes "plain_addr a"
  obtains w where "a = V4 w" | w where "a = V6 w []"
  using assms by (cases a) auto

lemma slash_addr_str: "plain_addr a \<Longrightarrow> CHR ''/'' \<notin> set (addr_str a)"
  using slash_ipv4_str body6_chars [of "CHR ''/''"]
  by (auto simp: addr_str_def [of "V4 _"] addr_str_V6 elim!: plain_addr_cases)

lemma takeWhile_slash: "plain_addr a \<Longrightarrow> takeWhile (\<lambda>c. c \<noteq> CHR ''/'') (addr_str a @ CHR ''/'' # t) = addr_str a"
  by (rule takeWhile_tail [THEN trans]) (use slash_addr_str in \<open>auto simp: takeWhile_eq_all_conv\<close>)

lemma parse_prefix_addr_str:
  assumes "a \<noteq> NoAddr" "int n \<le> bitlen a"
  shows "parse_prefix (addr_str a @ ''/'' @ nat_str n) = (if plain_addr a then Some \<lparr>paddr = a, pbits = int n\<rparr> else None)"
  using assms nat_str_lead [of n] takeWhile_rev_slash [OF slash_nat_str [of n], of "addr_str a"]
  by (cases a) (auto simp: parse_prefix_def Let_def prefix_from_def bitlen_def list_all_iff nat_str_digits)

definition good_prefix :: "prefix \<Rightarrow> bool" where
  "good_prefix p \<longleftrightarrow> plain_addr (paddr p) \<and> 0 \<le> pbits p \<and> pbits p \<le> bitlen (paddr p)"

lemma parse_prefix_str: "good_prefix p \<Longrightarrow> parse_prefix (prefix_str p) = Some p"
  using parse_prefix_addr_str [of "paddr p" "nat (pbits p)"]
  by (cases "paddr p = NoAddr"; cases p) (auto simp: good_prefix_def prefix_str_def prefix_valid_def)

lemma good_prefix_from: "a \<noteq> NoAddr \<Longrightarrow> 0 \<le> n \<Longrightarrow> n \<le> bitlen a \<Longrightarrow> good_prefix (prefix_from a n)"
  by (cases a) (simp_all add: good_prefix_def prefix_from_def bitlen_def)

lemma parse_prefix_good: "parse_prefix t = Some p \<Longrightarrow> good_prefix p"
  using parse_prefix_from [of t p] good_prefix_from by fastforce

lemma good_prefix_masked: "good_prefix p \<Longrightarrow> good_prefix (masked p)"
  by (cases "paddr p") (simp_all add: good_prefix_def masked_def bitlen_def)

lemma parse_addr_plain_str: "plain_addr a \<Longrightarrow> parse_addr (addr_str a) = Some a"
  by (intro parse_addr_str) auto

text \<open>The prefix of a single address contains that address alone.\<close>

lemma mask_word_all: "mask_word LENGTH('a) w = (w :: 'a::len word)"
  by (simp add: mask_word_def)

lemma contains_host:
  assumes "plain_addr b" "plain_addr a"
  shows "contains \<lparr>paddr = b, pbits = bitlen b\<rparr> a \<longleftrightarrow> b = a"
  using assms mask_word_all [where 'a = 32] mask_word_all [where 'a = 128]
  by (auto elim!: plain_addr_cases simp: contains_def prefix_valid_def bitlen_def)

end
