(* ===== verification/NFTSemantics.thy ===== *)
theory NFTSemantics
  imports NFTables AddrText "HOL-Library.Multiset"
begin

text \<open>
  The meaning of the rendered chains and the properties of the ruleset.  A packet carries what the
  rules test; a rule gives a verdict when it matches, and the first verdict decides, else the
  policy of the chain, as nft(8) documents.  Addresses in a rule are read back from the rendered
  text.  The policy of a peer, \<open>peer_policy\<close>, is stated on the peer alone.
\<close>

section \<open>Packets and matching\<close>

datatype ct_state = CtNew | CtEstablished | CtInvalid

record packet =
  p_iif :: string
  p_oif :: string
  p_src :: addr
  p_dst :: addr
  p_proto :: nat     \<comment> \<open>IP protocol number\<close>
  p_dport :: nat
  p_ct :: ct_state

definition proto_number :: "string \<Rightarrow> nat" where
  "proto_number p = (if p = ''tcp'' then 6 else 17)"

definition text_matches :: "string \<Rightarrow> addr \<Rightarrow> bool" where
  "text_matches t a = (case parse_prefix t of None \<Rightarrow> False | Some p \<Rightarrow> contains p a)"

fun l4_matches :: "l4 \<Rightarrow> packet \<Rightarrow> bool" where
  "l4_matches L4Any k = True"
| "l4_matches (L4Proto p) k = (p_proto k = proto_number p)"
| "l4_matches (L4Port p a) k = (p_proto k = proto_number p \<and> p_dport k = a)"
| "l4_matches (L4Range p a b) k = (p_proto k = proto_number p \<and> a \<le> p_dport k \<and> p_dport k \<le> b)"
| "l4_matches L4ICMP k = (is4 (p_src k) \<and> p_proto k = 1)"
| "l4_matches L4ICMPv6 k = (p_proto k = 58)"

fun rule_verdict :: "chain_rule \<Rightarrow> packet \<Rightarrow> verdict option" where
  "rule_verdict (SourceDrop w s) k =
     (if p_iif k = w \<and> text_matches s (p_src k) then Some VDrop else None)"
| "rule_verdict (DestRule w s d m v) k =
     (if p_iif k = w \<and> text_matches s (p_src k) \<and> text_matches d (p_dst k) \<and> l4_matches m k
      then Some v else None)"
| "rule_verdict (CoveredDrop w s d) k =
     (if p_iif k = w \<and> text_matches s (p_src k) \<and> text_matches d (p_dst k) then Some VDrop else None)"
| "rule_verdict (NotFromTunnel w) k = (if p_iif k \<noteq> w then Some VAccept else None)"
| "rule_verdict (Replies w) k =
     (if p_iif k \<noteq> w \<and> p_oif k = w \<and> p_ct k = CtEstablished then Some VAccept else None)"
| "rule_verdict (Invalid b) k = (if p_ct k = CtInvalid then Some VDrop else None)"
| "rule_verdict (PassThrough w) k = (if p_iif k \<noteq> w \<and> p_oif k \<noteq> w then Some VAccept else None)"
| "rule_verdict (TunnelDrop q w) k = (if p_iif k = w then Some VDrop else None)"
| "rule_verdict _ k = None"

fun chain_verdict :: "chain_rule list \<Rightarrow> verdict \<Rightarrow> packet \<Rightarrow> verdict" where
  "chain_verdict [] policy k = policy"
| "chain_verdict (r # rs) policy k =
     (case rule_verdict r k of Some v \<Rightarrow> v | None \<Rightarrow> chain_verdict rs policy k)"

definition first_verdict :: "chain_rule list \<Rightarrow> packet \<Rightarrow> verdict option" where
  "first_verdict rs k = (case List.map_filter (\<lambda>r. rule_verdict r k) rs of [] \<Rightarrow> None | v # _ \<Rightarrow> Some v)"

definition forward_verdict :: "Peer list \<Rightarrow> RenderOptions \<Rightarrow> packet \<Rightarrow> verdict" where
  "forward_verdict peers opt k = chain_verdict (forward_chain peers opt) VDrop k"
definition input_verdict :: "Peer list \<Rightarrow> RenderOptions \<Rightarrow> packet \<Rightarrow> verdict" where
  "input_verdict peers opt k = chain_verdict (input_chain peers opt) VAccept k"

lemma first_verdict_simps [simp]:
  "first_verdict [] k = None"
  "first_verdict (r # rs) k = (case rule_verdict r k of Some v \<Rightarrow> Some v | None \<Rightarrow> first_verdict rs k)"
  by (auto simp: first_verdict_def List.map_filter_def split: option.splits)

lemma first_verdict_append:
  "first_verdict (xs @ ys) k =
     (case first_verdict xs k of Some v \<Rightarrow> Some v | None \<Rightarrow> first_verdict ys k)"
  by (induction xs) (auto split: option.splits)

lemma chain_verdict_append:
  "chain_verdict (xs @ ys) pol k =
     (case first_verdict xs k of Some v \<Rightarrow> v | None \<Rightarrow> chain_verdict ys pol k)"
  by (induction xs) (auto split: option.splits)

lemma first_verdict_None: "first_verdict rs k = None \<longleftrightarrow> (\<forall>r \<in> set rs. rule_verdict r k = None)"
  by (induction rs) (auto split: option.splits)

lemma first_verdict_concat_None:
  "(\<forall>x \<in> set xs. first_verdict (f x) k = None) \<Longrightarrow> first_verdict (concat (map f xs)) k = None"
  by (induction xs) (auto simp: first_verdict_append)

lemma first_verdict_Some_in: "first_verdict rs k = Some v \<Longrightarrow> \<exists>r \<in> set rs. rule_verdict r k = Some v"
  by (induction rs) (auto split: option.splits)

section \<open>The policy of a peer\<close>

text \<open>
  The rules of a peer that apply to a packet, in their order, with their verdicts; the
  destinations its accept rules name; and what the policy says of the packet.
\<close>

definition applicable :: "Rule list \<Rightarrow> packet \<Rightarrow> verdict list" where
  "applicable rs k = [v. r \<leftarrow> rs,
     d \<leftarrow> (case parse_prefix (Dst r) of None \<Rightarrow> [] | Some d \<Rightarrow> [d]),
     v \<leftarrow> (case nftVerdict (Action r) of None \<Rightarrow> [] | Some v \<Rightarrow> [v]),
     contains d (p_dst k) \<and> l4_matches (l4_of r) k]"

definition accept_dests :: "Peer \<Rightarrow> prefix list" where
  "accept_dests p = [d. r \<leftarrow> Rules p,
     d \<leftarrow> (case parse_prefix (Dst r) of None \<Rightarrow> [] | Some d \<Rightarrow> [d]),
     nftVerdict (Action r) = Some VAccept]"

definition cidr_dests :: "Peer \<Rightarrow> prefix list" where
  "cidr_dests p = [d. c \<leftarrow> DestCIDRs p, d \<leftarrow> (case parse_prefix c of None \<Rightarrow> [] | Some d \<Rightarrow> [d])]"

definition peer_policy :: "Peer \<Rightarrow> packet \<Rightarrow> verdict" where
  "peer_policy p k =
     (if \<not> PolicyBound p then VDrop
      else case applicable (Rules p) k of
        v # _ \<Rightarrow> v
      | [] \<Rightarrow> if \<exists>d \<in> set (accept_dests p). contains d (p_dst k) then VDrop
              else if \<exists>d \<in> set (cidr_dests p). contains d (p_dst k) then VAccept
              else VDrop)"

text \<open>
  An IP packet: source and destination are addresses of one family.  A peer owns its IPv4 and its
  IPv6 address of the tunnel.
\<close>

definition ip_packet :: "packet \<Rightarrow> bool" where
  "ip_packet k \<longleftrightarrow> plain_addr (p_src k) \<and> plain_addr (p_dst k) \<and> is4 (p_src k) = is4 (p_dst k)"

definition owns :: "Peer \<Rightarrow> addr \<Rightarrow> bool" where
  "owns p a \<longleftrightarrow> parse_addr (if is4 a then IPv4 p else IPv6 p) = Some a"

lemma parse_addr_Nil [simp]: "parse_addr [] = None"
  by (simp add: parse_addr_def)

section \<open>Reading the rendered text back\<close>

lemma text_matches_prefix_str: "good_prefix d \<Longrightarrow> text_matches (prefix_str d) a = contains d a"
  by (simp add: text_matches_def parse_prefix_str)

definition family :: "addr \<Rightarrow> string" where "family a = (if is4 a then ''ip'' else ''ip6'')"

lemma famOf_addr: "plain_addr a \<Longrightarrow> famOf (addr_str a @ CHR ''/'' # t) = family a"
  by (simp add: famOf_def takeWhile_slash parse_addr_plain_str family_def)

lemma famOf_prefix_str: "good_prefix d \<Longrightarrow> famOf (prefix_str d) = family (paddr d)"
  using famOf_addr [of "paddr d"] by (simp add: good_prefix_def prefix_str_def prefix_valid_def)

section \<open>The sources of a peer\<close>

text \<open>The source of a peer's rules for one of its addresses.\<close>

definition host_text :: "addr \<Rightarrow> string" where
  "host_text a = addr_str a @ (if is4 a then ''/32'' else ''/128'')"

lemma host_text_prefix: "a \<noteq> NoAddr \<Longrightarrow> host_text a = addr_str a @ ''/'' @ nat_str (nat (bitlen a))"
proof -
  have "nat_str 32 = ''32''" "nat_str 128 = ''128''" by code_simp+
  moreover assume "a \<noteq> NoAddr"
  ultimately show ?thesis by (cases a) (simp_all add: host_text_def is4_def bitlen_def)
qed

lemma text_matches_host:
  assumes "b \<noteq> NoAddr" "plain_addr a"
  shows "text_matches (host_text b) a \<longleftrightarrow> b = a"
proof -
  have n: "int (nat (bitlen b)) = bitlen b" by (simp add: bitlen_def split: addr.split)
  have "parse_prefix (host_text b) = (if plain_addr b then Some \<lparr>paddr = b, pbits = bitlen b\<rparr> else None)"
    unfolding host_text_prefix [OF assms(1)] using parse_prefix_addr_str [OF assms(1), of "nat (bitlen b)"] n by simp
  with contains_host [OF _ assms(2)] assms(2) show ?thesis by (auto simp: text_matches_def)
qed

lemma text_matches_self: "plain_addr a \<Longrightarrow> text_matches (host_text a) a"
  using text_matches_host [of a a] by (cases a) auto

lemma famOf_host: "plain_addr a \<Longrightarrow> famOf (host_text a) = family a"
  using famOf_addr [of a] by (simp add: host_text_def)

definition source_of :: "(addr \<Rightarrow> bool) \<Rightarrow> string \<Rightarrow> string list" where
  "source_of P t = (case parse_addr t of None \<Rightarrow> [] | Some b \<Rightarrow> if P b then [host_text b] else [])"

lemma peerSources_split: "peerSources p = source_of is4 (IPv4 p) @ source_of is6 (IPv6 p)"
  by (auto simp: peerSources_def source_of_def host_text_def is4_def is6_def split: option.split addr.split)

lemma one_source:
  assumes src: "plain_addr (p_src k)"
    and none: "\<And>s. \<not> text_matches s (p_src k) \<Longrightarrow> rule_verdict (F s) k = None"
  shows "first_verdict (concat (map (\<lambda>s. if c s then [F s] else []) (source_of P t))) k =
    (if parse_addr t = Some (p_src k) \<and> P (p_src k) \<and> c (host_text (p_src k))
     then rule_verdict (F (host_text (p_src k))) k else None)"
proof (cases "parse_addr t")
  case None
  then show ?thesis by (simp add: source_of_def)
next
  case (Some b)
  then have "b \<noteq> NoAddr" using parse_addr_valid by blast
  then have "b \<noteq> p_src k \<Longrightarrow> rule_verdict (F (host_text b)) k = None"
    using none text_matches_host [OF _ src] by blast
  with Some show ?thesis by (cases "b = p_src k") (simp_all add: source_of_def split: option.splits)
qed

lemma source_block:
  assumes "plain_addr (p_src k)" "\<And>s. \<not> text_matches s (p_src k) \<Longrightarrow> rule_verdict (F s) k = None"
  shows "first_verdict (concat (map (\<lambda>s. if c s then [F s] else []) (peerSources p))) k =
    (if owns p (p_src k) \<and> c (host_text (p_src k)) then rule_verdict (F (host_text (p_src k))) k else None)"
proof -
  have "is6 (p_src k) = (\<not> is4 (p_src k))" using assms(1) by (cases "p_src k") (simp_all add: is4_def is6_def)
  then show ?thesis
    by (simp add: peerSources_split first_verdict_append one_source [OF assms] owns_def split: option.split)
qed

lemma source_block_all:
  assumes "plain_addr (p_src k)"
    and "\<And>s. \<not> text_matches s (p_src k) \<Longrightarrow> rule_verdict (F s) k = None"
  shows "first_verdict (map F (peerSources p)) k =
    (if owns p (p_src k) then rule_verdict (F (host_text (p_src k))) k else None)"
  using source_block [OF assms, where c = "\<lambda>_. True" and p = p] by simp

lemma no_sources: "peerSources p = [] \<Longrightarrow> a \<noteq> NoAddr \<Longrightarrow> \<not> owns p a"
  by (cases a) (auto simp: peerSources_split source_of_def owns_def is4_def is6_def)

section \<open>The rules of one peer\<close>

definition hd_opt :: "'a list \<Rightarrow> 'a option" where
  "hd_opt xs = (case xs of [] \<Rightarrow> None | x # _ \<Rightarrow> Some x)"

lemma hd_opt_simps [simp]:
  "hd_opt [] = None" "hd_opt (x # xs) = Some x"
  "hd_opt (xs @ ys) = (case hd_opt xs of None \<Rightarrow> hd_opt ys | Some x \<Rightarrow> Some x)"
  by (simp_all add: hd_opt_def split: list.split)

text \<open>The packets of the tunnel that the lemmas are about.\<close>

definition tunnel_packet :: "string \<Rightarrow> packet \<Rightarrow> bool" where
  "tunnel_packet w k \<longleftrightarrow> p_iif k = w \<and> ip_packet k"

lemma contains_family: "contains d a \<Longrightarrow> family (paddr d) = family a"
  using contains_is4 [of d a] by (simp add: family_def)

lemma dest_block:
  assumes k: "tunnel_packet w k" and d: "parse_prefix t = Some d"
  shows "first_verdict (concat (map (\<lambda>s. if famOf s = famOf (prefix_str d)
            then [DestRule w s (prefix_str d) m v] else []) (peerSources p))) k =
    (if owns p (p_src k) \<and> contains d (p_dst k) \<and> l4_matches m k then Some v else None)"
proof -
  note g = parse_prefix_good [OF d]
  from k have src: "plain_addr (p_src k)" and fam: "family (p_src k) = family (p_dst k)" and w: "p_iif k = w"
    by (simp_all add: tunnel_packet_def ip_packet_def family_def)
  from source_block [OF src, of "\<lambda>s. DestRule w s (prefix_str d) m v" "\<lambda>s. famOf s = famOf (prefix_str d)" p]
    w fam contains_family [of d "p_dst k"]
  show ?thesis by (auto simp: famOf_host [OF src] famOf_prefix_str [OF g] text_matches_prefix_str [OF g] text_matches_self [OF src])
qed

lemma covered_block:
  assumes k: "tunnel_packet w k" and d: "parse_prefix t = Some d"
  shows "first_verdict (concat (map (\<lambda>s. if famOf s = famOf (prefix_str d)
            then [CoveredDrop w s (prefix_str d)] else []) (peerSources p))) k =
    (if owns p (p_src k) \<and> contains d (p_dst k) then Some VDrop else None)"
proof -
  note g = parse_prefix_good [OF d]
  from k have src: "plain_addr (p_src k)" and fam: "family (p_src k) = family (p_dst k)" and w: "p_iif k = w"
    by (simp_all add: tunnel_packet_def ip_packet_def family_def)
  from source_block [OF src, of "\<lambda>s. CoveredDrop w s (prefix_str d)" "\<lambda>s. famOf s = famOf (prefix_str d)" p]
    w fam contains_family [of d "p_dst k"]
  show ?thesis by (auto simp: famOf_host [OF src] famOf_prefix_str [OF g] text_matches_prefix_str [OF g] text_matches_self [OF src])
qed

text \<open>The three parts of a bound peer's block, and what they say of a packet of the peer.\<close>

definition rule_part :: "Peer \<Rightarrow> string \<Rightarrow> Rule list \<Rightarrow> chain_rule list" where
  "rule_part p w rs = [DestRule w s (prefix_str dst) (l4_of r) v.
     r \<leftarrow> rs,
     dst \<leftarrow> (case parse_prefix (Dst r) of None \<Rightarrow> [] | Some d \<Rightarrow> [d]),
     v \<leftarrow> (case nftVerdict (Action r) of None \<Rightarrow> [] | Some v \<Rightarrow> [v]),
     s \<leftarrow> peerSources p, famOf s = famOf (prefix_str dst)]"

definition covered_part :: "Peer \<Rightarrow> string \<Rightarrow> string list \<Rightarrow> chain_rule list" where
  "covered_part p w cs = [CoveredDrop w s c. c \<leftarrow> cs, s \<leftarrow> peerSources p, famOf s = famOf c]"

definition cidr_part :: "Peer \<Rightarrow> string \<Rightarrow> string list \<Rightarrow> chain_rule list" where
  "cidr_part p w cs = [DestRule w s (prefix_str dst) L4Any VAccept.
     c \<leftarrow> cs,
     dst \<leftarrow> (case parse_prefix c of None \<Rightarrow> [] | Some d \<Rightarrow> [d]),
     prefix_str dst \<notin> set (coveredPrefixes p),
     s \<leftarrow> peerSources p, famOf s = famOf (prefix_str dst)]"

lemma applicable_Cons:
  "applicable (r # rs) k =
     (case parse_prefix (Dst r) of None \<Rightarrow> [] | Some d \<Rightarrow>
        (case nftVerdict (Action r) of None \<Rightarrow> [] | Some v \<Rightarrow>
           if contains d (p_dst k) \<and> l4_matches (l4_of r) k then [v] else [])) @ applicable rs k"
  by (simp add: applicable_def split: option.split)

lemma rule_part_verdict:
  assumes k: "tunnel_packet w k"
  shows "first_verdict (rule_part p w rs) k =
    (if owns p (p_src k) then hd_opt (applicable rs k) else None)"
proof (induction rs)
  case Nil
  show ?case by (simp add: rule_part_def applicable_def)
next
  case (Cons r rs)
  have split: "rule_part p w (r # rs) = (case parse_prefix (Dst r) of None \<Rightarrow> [] | Some d \<Rightarrow>
      (case nftVerdict (Action r) of None \<Rightarrow> [] | Some v \<Rightarrow>
         concat (map (\<lambda>s. if famOf s = famOf (prefix_str d)
           then [DestRule w s (prefix_str d) (l4_of r) v] else []) (peerSources p)))) @ rule_part p w rs"
    by (simp add: rule_part_def split: option.split)
  show ?case
    by (cases "parse_prefix (Dst r)"; cases "nftVerdict (Action r)")
      (simp_all add: split applicable_Cons first_verdict_append Cons.IH dest_block [OF k])
qed

lemma covered_texts: "set (coveredPrefixes p) = prefix_str ` set (accept_dests p)"
  by (auto simp: coveredPrefixes_def accept_dests_def)

lemma accept_dest_parsed: "d \<in> set (accept_dests p) \<Longrightarrow> \<exists>t. parse_prefix t = Some d"
  by (auto simp: accept_dests_def split: option.split_asm if_split_asm)

lemma covered_part_verdict:
  assumes k: "tunnel_packet w k"
    and cs: "set cs \<subseteq> prefix_str ` D" and D: "\<And>d. d \<in> D \<Longrightarrow> \<exists>t. parse_prefix t = Some d"
  shows "first_verdict (covered_part p w cs) k =
    (if owns p (p_src k) \<and> (\<exists>c \<in> set cs. text_matches c (p_dst k)) then Some VDrop else None)"
  using cs
proof (induction cs)
  case Nil
  show ?case by (simp add: covered_part_def)
next
  case (Cons c cs)
  then obtain d where "c = prefix_str d" "d \<in> D" by auto
  with D obtain t where d: "c = prefix_str d" "parse_prefix t = Some d" by blast
  have "covered_part p w (c # cs) = concat (map (\<lambda>s. if famOf s = famOf (prefix_str d)
      then [CoveredDrop w s (prefix_str d)] else []) (peerSources p)) @ covered_part p w cs"
    unfolding d(1) by (simp add: covered_part_def)
  with Cons covered_block [OF k d(2), of p] text_matches_prefix_str [OF parse_prefix_good [OF d(2)]] show ?case
    by (simp add: d(1) first_verdict_append)
qed

lemma cidr_part_verdict:
  assumes k: "tunnel_packet w k"
  shows "first_verdict (cidr_part p w cs) k =
    (if owns p (p_src k) \<and> (\<exists>c \<in> set cs. \<exists>d. parse_prefix c = Some d \<and> contains d (p_dst k)
         \<and> prefix_str d \<notin> set (coveredPrefixes p)) then Some VAccept else None)"
proof (induction cs)
  case Nil
  show ?case by (simp add: cidr_part_def)
next
  case (Cons c cs)
  have split: "cidr_part p w (c # cs) = (case parse_prefix c of None \<Rightarrow> [] | Some d \<Rightarrow>
      if prefix_str d \<notin> set (coveredPrefixes p) then
         concat (map (\<lambda>s. if famOf s = famOf (prefix_str d)
           then [DestRule w s (prefix_str d) L4Any VAccept] else []) (peerSources p)) else []) @ cidr_part p w cs"
    by (simp add: cidr_part_def split: option.split)
  show ?case
    by (cases "parse_prefix c")
      (auto simp: split first_verdict_append Cons.IH dest_block [OF k])
qed

definition peer_block :: "Peer \<Rightarrow> packet \<Rightarrow> verdict option" where
  "peer_block p k =
     (if \<not> PolicyBound p then Some VDrop
      else case applicable (Rules p) k of
        v # _ \<Rightarrow> Some v
      | [] \<Rightarrow> if \<exists>d \<in> set (accept_dests p). contains d (p_dst k) then Some VDrop
              else if \<exists>d \<in> set (cidr_dests p). contains d (p_dst k) then Some VAccept
              else None)"

lemma peer_block_policy:
  "peer_policy p k = (case peer_block p k of None \<Rightarrow> VDrop | Some v \<Rightarrow> v)"
  by (auto simp: peer_policy_def peer_block_def split: list.split)

lemma writePeerRules_parts:
  "writePeerRules p w =
     (if peerSources p = [] then [NoAddress (short (DeviceID p))]
      else if \<not> PolicyBound p then
        Unbound (short (DeviceID p)) # map (SourceDrop w) (peerSources p) @ [Blank]
      else PeerNote (short (DeviceID p)) # rule_part p w (Rules p)
        @ covered_part p w (coveredPrefixes p) @ cidr_part p w (DestCIDRs p) @ [Blank])"
  by (simp add: writePeerRules_def rule_part_def covered_part_def cidr_part_def Let_def)

lemma covered_iff:
  "(\<exists>c \<in> set (coveredPrefixes p). text_matches c a) \<longleftrightarrow> (\<exists>d \<in> set (accept_dests p). contains d a)"
proof -
  have "text_matches (prefix_str d) a = contains d a" if "d \<in> set (accept_dests p)" for d
    using accept_dest_parsed [OF that] parse_prefix_good text_matches_prefix_str by blast
  then show ?thesis by (auto simp: covered_texts)
qed

lemma cidr_dests_iff: "d \<in> set (cidr_dests p) \<longleftrightarrow> (\<exists>c \<in> set (DestCIDRs p). parse_prefix c = Some d)"
  by (auto simp: cidr_dests_def split: option.split_asm intro!: bexI)

lemma cidr_iff:
  assumes "\<not> (\<exists>d \<in> set (accept_dests p). contains d a)"
  shows "(\<exists>c \<in> set (DestCIDRs p). \<exists>d. parse_prefix c = Some d \<and> contains d a
            \<and> prefix_str d \<notin> set (coveredPrefixes p)) \<longleftrightarrow>
         (\<exists>d \<in> set (cidr_dests p). contains d a)"
proof -
  have "prefix_str d \<notin> set (coveredPrefixes p)" if "parse_prefix c = Some d" "contains d a" for c d
    using assms covered_iff [of p a] text_matches_prefix_str [OF parse_prefix_good [OF that(1)], of a] that(2) by blast
  then show ?thesis unfolding Bex_def cidr_dests_iff by blast
qed

lemma peer_block_verdict:
  assumes k: "tunnel_packet w k"
  shows "first_verdict (writePeerRules p w) k = (if owns p (p_src k) then peer_block p k else None)"
proof -
  have src: "plain_addr (p_src k)" and w: "p_iif k = w"
    using k by (simp_all add: tunnel_packet_def ip_packet_def)
  have drop: "first_verdict (map (SourceDrop w) (peerSources p)) k
      = (if owns p (p_src k) then Some VDrop else None)"
    using source_block_all [OF src, of "SourceDrop w" p] w by (simp add: text_matches_self [OF src])
  note parts = rule_part_verdict [OF k, of p "Rules p"] cidr_part_verdict [OF k, of p "DestCIDRs p"]
    covered_part_verdict [OF k, of "coveredPrefixes p" "set (accept_dests p)" p, OF eq_refl [OF covered_texts]
      accept_dest_parsed, simplified covered_iff]
  show ?thesis
  proof (cases "owns p (p_src k)")
    case False
    then show ?thesis
      by (simp add: writePeerRules_parts first_verdict_append drop parts)
  next
    case True
    then have "peerSources p \<noteq> []" using no_sources [of p "p_src k"] src by (cases "p_src k") auto
    with True show ?thesis
      by (cases "applicable (Rules p) k"; cases "\<exists>d \<in> set (accept_dests p). contains d (p_dst k)")
        (simp_all add: writePeerRules_parts first_verdict_append drop parts peer_block_def
          cidr_iff)
  qed
qed

section \<open>The chains\<close>

lemma blocks_verdict:
  assumes "tunnel_packet w k"
  shows "first_verdict (concat (map (\<lambda>p. writePeerRules p w) ps)) k =
    hd_opt (List.map_filter (\<lambda>p. if owns p (p_src k) then peer_block p k else None) ps)"
  by (induction ps)
    (auto simp: List.map_filter_simps first_verdict_append peer_block_verdict [OF assms] split: option.split)

lemma not_tunnel_block:
  assumes "p_iif k \<noteq> w"
  shows "first_verdict (concat (map (\<lambda>p. writePeerRules p w) ps)) k = None"
proof (rule first_verdict_concat_None, rule ballI)
  fix p
  show "first_verdict (writePeerRules p w) k = None"
    using assms by (auto simp: first_verdict_None writePeerRules_def Let_def
        split: option.splits if_splits)
qed

lemma set_sorted_peers [simp]: "set (sorted_peers ps) = set ps"
  by (simp add: sorted_peers_def)

lemma forward_tunnel:
  assumes "p_iif k = iface_of opt"
  shows "forward_verdict peers opt k =
    (if p_ct k = CtInvalid then VDrop else
      (case first_verdict (concat (map (\<lambda>p. writePeerRules p (iface_of opt)) (sorted_peers peers))) k of
         Some v \<Rightarrow> v | None \<Rightarrow> VDrop))"
  using assms by (simp add: forward_verdict_def forward_chain_def Let_def chain_verdict_append split: option.split)

lemma input_tunnel:
  assumes "p_iif k = iface_of opt"
  shows "input_verdict peers opt k =
    (if p_ct k = CtInvalid then VDrop else
      (case first_verdict (concat (map (\<lambda>p. writePeerRules p (iface_of opt)) (sorted_peers peers))) k of
         Some v \<Rightarrow> v | None \<Rightarrow> VDrop))"
  using assms by (simp add: input_verdict_def input_chain_def Let_def chain_verdict_append split: option.split)

lemma map_filter_hd_in:
  "hd_opt (List.map_filter f xs) = Some v \<Longrightarrow> \<exists>x \<in> set xs. f x = Some v"
  by (induction xs) (auto simp: List.map_filter_simps split: option.splits)

lemma map_filter_all_none: "\<forall>q \<in> set ps. g q = None \<Longrightarrow> List.map_filter g ps = []"
  by (induction ps) (auto simp: List.map_filter_simps)

lemma map_filter_hd_same:
  "\<forall>q \<in> set ps. g q = None \<or> g q = r \<Longrightarrow> \<exists>q \<in> set ps. g q = r \<Longrightarrow> hd_opt (List.map_filter g ps) = r"
proof (induction ps)
  case (Cons q ps)
  show ?case
  proof (cases "g q")
    case None
    then have "(\<exists>q \<in> set ps. g q = r) \<or> (r = None \<and> (\<forall>q \<in> set ps. g q = None))"
      using Cons.prems by auto
    then show ?thesis
    proof
      assume "r = None \<and> (\<forall>q \<in> set ps. g q = None)"
      then show ?thesis using None by (simp add: List.map_filter_simps map_filter_all_none)
    qed (use Cons None in \<open>simp add: List.map_filter_simps\<close>)
  next
    case (Some v)
    with Cons.prems have "r = Some v" by simp
    with Some show ?thesis by (simp add: List.map_filter_simps)
  qed
qed simp

lemma map_filter_none:
  "\<forall>q \<in> set ps. \<not> P q \<Longrightarrow> List.map_filter (\<lambda>q. if P q then f q else None) ps = []"
  by (induction ps) (auto simp: List.map_filter_simps)

lemma applicable_in:
  "v \<in> set (applicable rs k) \<Longrightarrow> \<exists>r \<in> set rs. \<exists>d. nftVerdict (Action r) = Some v
     \<and> parse_prefix (Dst r) = Some d \<and> contains d (p_dst k) \<and> l4_matches (l4_of r) k"
  by (induction rs) (auto simp: applicable_Cons split: option.splits if_splits, simp add: applicable_def)

lemma peer_block_accept:
  assumes "peer_block p k = Some VAccept"
  shows "PolicyBound p \<and>
    ((\<exists>r \<in> set (Rules p). \<exists>d. nftVerdict (Action r) = Some VAccept \<and> parse_prefix (Dst r) = Some d
        \<and> contains d (p_dst k) \<and> l4_matches (l4_of r) k)
     \<or> (\<exists>c \<in> set (DestCIDRs p). \<exists>d. parse_prefix c = Some d \<and> contains d (p_dst k)))"
proof (cases "applicable (Rules p) k")
  case Nil
  with assms obtain d where "PolicyBound p" "d \<in> set (cidr_dests p)" "contains d (p_dst k)"
    by (auto simp: peer_block_def split: if_splits)
  then show ?thesis unfolding cidr_dests_iff by blast
next
  case (Cons v vs)
  with assms have "PolicyBound p" "VAccept \<in> set (applicable (Rules p) k)"
    by (auto simp: peer_block_def split: if_splits)
  with applicable_in show ?thesis by blast
qed

definition owner :: "Peer list \<Rightarrow> addr \<Rightarrow> Peer option" where
  "owner peers a = find (\<lambda>p. owns p a) peers"

lemma forward_owner:
  assumes k: "tunnel_packet (iface_of opt) k" "p_ct k \<noteq> CtInvalid"
    and p: "p \<in> set peers" "owns p (p_src k)"
    and unique: "\<forall>q \<in> set peers. owns q (p_src k) \<longrightarrow> q = p"
  shows "forward_verdict peers opt k = peer_policy p k"
proof -
  have "hd_opt (List.map_filter (\<lambda>p. if owns p (p_src k) then peer_block p k else None)
      (sorted_peers peers)) = peer_block p k"
  proof (rule map_filter_hd_same; unfold set_sorted_peers)
    show "\<forall>q \<in> set peers. (if owns q (p_src k) then peer_block q k else None) = None
      \<or> (if owns q (p_src k) then peer_block q k else None) = peer_block p k"
    proof
      fix q assume "q \<in> set peers"
      with unique have "\<not> owns q (p_src k) \<or> q = p" by blast
      then show "(if owns q (p_src k) then peer_block q k else None) = None
        \<or> (if owns q (p_src k) then peer_block q k else None) = peer_block p k" by auto
    qed
    show "\<exists>q \<in> set peers. (if owns q (p_src k) then peer_block q k else None) = peer_block p k"
      by (rule bexI [OF _ p(1)]) (simp add: p(2))
  qed
  moreover have "p_iif k = iface_of opt" using k(1) by (simp add: tunnel_packet_def)
  ultimately show ?thesis
    using k(2) by (simp add: forward_tunnel blocks_verdict [OF k(1)] peer_block_policy)
qed

lemma forward_stranger:
  assumes k: "tunnel_packet (iface_of opt) k" and n: "\<forall>q \<in> set peers. \<not> owns q (p_src k)"
  shows "forward_verdict peers opt k = VDrop"
proof -
  have "p_iif k = iface_of opt" using k by (simp add: tunnel_packet_def)
  moreover have "List.map_filter (\<lambda>p. if owns p (p_src k) then peer_block p k else None)
      (sorted_peers peers) = []" by (rule map_filter_none) (simp add: n)
  ultimately show ?thesis by (simp add: forward_tunnel blocks_verdict [OF k])
qed

section \<open>Properties of the ruleset\<close>

text \<open>
  C1. Every IP packet of the tunnel, IPv4 or IPv6, that the forward chain accepts was granted: some
  policy-bound peer owns the source address, and one of that peer's accept rules or one of its CIDRs
  names the destination.
\<close>

theorem forward_accept_granted:
  assumes "p_iif k = iface_of opt" "ip_packet k"
    and "forward_verdict peers opt k = VAccept"
  shows "\<exists>p \<in> set peers. PolicyBound p \<and> owns p (p_src k) \<and>
    ((\<exists>r \<in> set (Rules p). \<exists>d. nftVerdict (Action r) = Some VAccept \<and> parse_prefix (Dst r) = Some d
        \<and> contains d (p_dst k) \<and> l4_matches (l4_of r) k)
     \<or> (\<exists>c \<in> set (DestCIDRs p). \<exists>d. parse_prefix c = Some d \<and> contains d (p_dst k)))"
proof -
  have k: "tunnel_packet (iface_of opt) k" using assms(1,2) by (simp add: tunnel_packet_def)
  from assms(3) have "hd_opt (List.map_filter
      (\<lambda>p. if owns p (p_src k) then peer_block p k else None) (sorted_peers peers)) = Some VAccept"
    by (auto simp: forward_tunnel [OF assms(1)] blocks_verdict [OF k] split: if_splits option.splits)
  from map_filter_hd_in [OF this] obtain p where
    "p \<in> set peers" "owns p (p_src k)" "peer_block p k = Some VAccept"
    by (auto split: if_splits)
  with peer_block_accept [of p k] show ?thesis by blast
qed

text \<open>
  C2. When no two peers share a tunnel address, the forward chain decides every IP packet of the
  tunnel, IPv4 or IPv6, that conntrack does not call invalid as the policy of the peer that owns the source address says, and
  drops a packet whose source no peer owns.
\<close>

theorem forward_refines_policy:
  assumes "p_iif k = iface_of opt" "ip_packet k" "p_ct k \<noteq> CtInvalid"
    and unique: "\<forall>p \<in> set peers. \<forall>q \<in> set peers. owns p (p_src k) \<and> owns q (p_src k) \<longrightarrow> p = q"
  shows "forward_verdict peers opt k = (case owner peers (p_src k) of None \<Rightarrow> VDrop | Some p \<Rightarrow> peer_policy p k)"
proof -
  have k: "tunnel_packet (iface_of opt) k" using assms(1,2) by (simp add: tunnel_packet_def)
  show ?thesis
  proof (cases "owner peers (p_src k)")
    case None
    then have "\<forall>q \<in> set peers. \<not> owns q (p_src k)" by (simp add: owner_def find_None_all)
    from forward_stranger [OF k this] None show ?thesis by simp
  next
    case (Some p)
    then have p: "p \<in> set peers" "owns p (p_src k)"
      using find_Some_in [of "\<lambda>p. owns p (p_src k)"] by (auto simp: owner_def)
    with unique have "\<forall>q \<in> set peers. owns q (p_src k) \<longrightarrow> q = p" by blast
    from forward_owner [OF k assms(3) p this] Some show ?thesis by simp
  qed
qed

text \<open>
  A broad CIDR does not bypass a port-only allow: when an accept rule of the owning peer covers
  the destination but none of its rules matches the packet, the packet is dropped, whatever CIDRs
  the policy lists.
\<close>

theorem port_allow_not_bypassed:
  assumes "p_iif k = iface_of opt" "ip_packet k" "p_ct k \<noteq> CtInvalid"
    and "p \<in> set peers" "owns p (p_src k)" "\<forall>q \<in> set peers. owns q (p_src k) \<longrightarrow> q = p"
    and "r \<in> set (Rules p)" "nftVerdict (Action r) = Some VAccept"
      "parse_prefix (Dst r) = Some d" "contains d (p_dst k)"
    and "applicable (Rules p) k = []"
  shows "forward_verdict peers opt k = VDrop"
proof -
  have k: "tunnel_packet (iface_of opt) k" using assms(1,2) by (simp add: tunnel_packet_def)
  have "d \<in> set (accept_dests p)" using assms(7-9) by (force simp: accept_dests_def)
  with assms(10,11) have "peer_policy p k = VDrop" by (auto simp: peer_policy_def)
  with forward_owner [OF k assms(3-6)] show ?thesis by simp
qed

text \<open>
  The input chain, which guards the gateway's own services, treats every packet from the tunnel
  as the forward chain does.
\<close>

theorem input_forward_agree:
  assumes "p_iif k = iface_of opt"
  shows "input_verdict peers opt k = forward_verdict peers opt k"
  by (simp add: forward_tunnel [OF assms] input_tunnel [OF assms])

text \<open>
  Towards the tunnel only replies pass: a packet that enters on another interface and leaves on
  the tunnel is accepted exactly when conntrack knows its flow.
\<close>

theorem inbound_only_replies:
  assumes "p_iif k \<noteq> iface_of opt" "p_oif k = iface_of opt"
  shows "forward_verdict peers opt k = (if p_ct k = CtEstablished then VAccept else VDrop)"
  using assms by (cases "p_ct k")
    (simp_all add: forward_verdict_def forward_chain_def Let_def chain_verdict_append not_tunnel_block)

text \<open>
  The filter table depends on the set of peers alone: a controller that lists the same devices
  in another order gets the same text, so the agent does not reload an unchanged policy.
\<close>

theorem filter_table_order_independent:
  assumes "mset ps = mset qs" "distinct (map DeviceID ps)"
  shows "filter_table ps opt = filter_table qs opt"
proof -
  have "inj_on DeviceID (set ps)" using assms(2) by (simp add: distinct_map)
  with assms(1) have "sort_key DeviceID ps = sort_key DeviceID qs"
    by (intro sort_key_inj_key_eq) simp_all
  then show ?thesis by (simp add: filter_table_def input_chain_def forward_chain_def sorted_peers_def)
qed


section \<open>Concrete peers\<close>

definition phone6 :: addr where "phone6 = V6 0xfd000000000000000000000000080002 []"
definition net6 :: prefix where "net6 = \<lparr>paddr = V6 0xfd000001000000000000000000000000 [], pbits = 32\<rparr>"

definition phone :: Peer where
  "phone = \<lparr>DeviceID = ''dev-b'', PublicKey = ''pk'', PSK = [], IPv4 = ''10.8.0.2'', IPv6 = addr_str phone6,
     PeerStatus = ''active'', PolicyBound = True, DestCIDRs = [''10.0.0.0/8'', ''fd00::/16''],
     Rules = [\<lparr>Action = ''accept'', Dst = ''10.1.0.0/16'', Protocol = ''tcp'', PortMin = 443, PortMax = 443\<rparr>,
       \<lparr>Action = ''accept'', Dst = prefix_str net6, Protocol = ''tcp'', PortMin = 443, PortMax = 443\<rparr>],
     NATCIDRs = [], Rewrites = []\<rparr>"

definition tablet :: Peer where
  "tablet = \<lparr>DeviceID = ''dev-a'', PublicKey = ''pk2'', PSK = [], IPv4 = ''10.8.0.3'', IPv6 = [],
     PeerStatus = ''active'', PolicyBound = False, DestCIDRs = [''10.0.0.0/8''], Rules = [],
     NATCIDRs = [], Rewrites = []\<rparr>"

definition wg_opt :: RenderOptions where
  "wg_opt = \<lparr>WGInterface = [], LogDenied = True, LogPrefix = []\<rparr>"

definition phone_packet :: "32 word \<Rightarrow> nat \<Rightarrow> packet" where
  "phone_packet y port = \<lparr>p_iif = ''wg0'', p_oif = ''eth0'', p_src = V4 0x0A080002, p_dst = V4 y,
     p_proto = 6, p_dport = port, p_ct = CtNew\<rparr>"

definition phone_packet6 :: "128 word \<Rightarrow> nat \<Rightarrow> packet" where
  "phone_packet6 y port = \<lparr>p_iif = ''wg0'', p_oif = ''eth0'', p_src = phone6,
     p_dst = V6 y [], p_proto = 6, p_dport = port, p_ct = CtNew\<rparr>"

lemma phone_packet_sel [simp]:
  "p_iif (phone_packet y n) = iface_of wg_opt" "p_src (phone_packet y n) = V4 0x0A080002"
  "p_dst (phone_packet y n) = V4 y" "p_ct (phone_packet y n) = CtNew" "ip_packet (phone_packet y n)"
  by (simp_all add: phone_packet_def wg_opt_def iface_of_def ip_packet_def is4_def)

lemma phone_packet6_sel [simp]:
  "p_iif (phone_packet6 v n) = iface_of wg_opt" "p_src (phone_packet6 v n) = phone6"
  "p_ct (phone_packet6 v n) = CtNew" "ip_packet (phone_packet6 v n)"
  by (simp_all add: phone_packet6_def phone6_def wg_opt_def iface_of_def ip_packet_def is4_def)

lemma concrete_peers:
  "owns phone (V4 0x0A080002)" "\<not> owns tablet (V4 0x0A080002)" "owns phone phone6" "\<not> owns tablet phone6"
proof -
  have p: "parse_addr ''10.8.0.2'' = Some (V4 0x0A080002)" "parse_addr ''10.8.0.3'' = Some (V4 0x0A080003)" by code_simp+
  from p show "owns phone (V4 0x0A080002)" "\<not> owns tablet (V4 0x0A080002)"
    by (simp_all add: owns_def is4_def phone_def tablet_def)
  have "phone6 \<noteq> NoAddr" by (simp add: phone6_def)
  from parse_addr_str [OF this] show "owns phone phone6" "\<not> owns tablet phone6"
    by (simp_all add: owns_def phone_def tablet_def phone6_def is4_def)
qed

lemma concrete_rules:
  "parse_prefix ''10.1.0.0/16'' = Some \<lparr>paddr = V4 0x0A010000, pbits = 16\<rparr>"
  "contains \<lparr>paddr = V4 0x0A010000, pbits = 16\<rparr> (V4 0x0A010005)"
  "contains net6 (V6 0xfd000001000000000000000000000005 [])" "parse_prefix (prefix_str net6) = Some net6"
proof -
  have "good_prefix net6" by (simp add: good_prefix_def net6_def bitlen_def)
  then show "parse_prefix (prefix_str net6) = Some net6" by (rule parse_prefix_str)
  show "contains net6 (V6 0xfd000001000000000000000000000005 [])"
    by (simp add: net6_def contains_def prefix_valid_def mask_word_def)
  show "parse_prefix ''10.1.0.0/16'' = Some \<lparr>paddr = V4 0x0A010000, pbits = 16\<rparr>"
    "contains \<lparr>paddr = V4 0x0A010000, pbits = 16\<rparr> (V4 0x0A010005)" by code_simp+
qed

lemma concrete_applicable:
  "applicable (Rules phone) (phone_packet 0x0A010005 443) = [VAccept]"
  "applicable (Rules phone) (phone_packet 0x0A010005 80) = []"
  "applicable (Rules phone) (phone_packet6 0xfd000001000000000000000000000005 443) = [VAccept]"
proof -
  have no: "\<not> contains net6 (V4 v)" "\<not> contains \<lparr>paddr = V4 0x0A010000, pbits = 16\<rparr> (V6 u [])" for u v
    by (simp_all add: net6_def contains_def)
  note simps = phone_def applicable_def concrete_rules no nftVerdict_def phone_packet_def phone_packet6_def l4_of_def proto_number_def
  show "applicable (Rules phone) (phone_packet 0x0A010005 443) = [VAccept]"
    "applicable (Rules phone) (phone_packet 0x0A010005 80) = []"
    "applicable (Rules phone) (phone_packet6 0xfd000001000000000000000000000005 443) = [VAccept]"
    by (simp_all add: simps)
qed

lemma phone_decides:
  assumes "p_iif k = iface_of wg_opt" "ip_packet k" "p_ct k = CtNew" "p_src k \<in> {V4 0x0A080002, phone6}"
    "applicable (Rules phone) k = [VAccept]"
  shows "forward_verdict [phone, tablet] wg_opt k = VAccept"
proof -
  have "owns phone (p_src k)" "\<not> owns tablet (p_src k)" using assms(4) concrete_peers by auto
  then have "forward_verdict [phone, tablet] wg_opt k = peer_policy phone k"
    using assms(1-3) by (intro forward_owner) (auto simp: tunnel_packet_def)
  also have "\<dots> = VAccept" using assms(5) by (simp add: peer_policy_def phone_def)
  finally show ?thesis .
qed

lemma concrete_verdicts:
  "forward_verdict [phone, tablet] wg_opt (phone_packet 0x0A010005 443) = VAccept"
  "forward_verdict [phone, tablet] wg_opt (phone_packet6 0xfd000001000000000000000000000005 443) = VAccept"
  by (rule phone_decides; simp add: concrete_applicable)+

theorem forward_accept_granted_witness:
  "(\<exists>p \<in> set [phone, tablet]. PolicyBound p \<and> owns p (V4 0x0A080002))
   \<and> (\<exists>p \<in> set [phone, tablet]. PolicyBound p \<and> owns p phone6)"
  using forward_accept_granted [of "phone_packet 0x0A010005 443" wg_opt "[phone, tablet]"]
    forward_accept_granted [of "phone_packet6 0xfd000001000000000000000000000005 443" wg_opt "[phone, tablet]"]
    concrete_verdicts(1,2)
  by auto

theorem forward_refines_policy_witness:
  "forward_verdict [phone, tablet] wg_opt (phone_packet 0x0A010005 80) = peer_policy phone (phone_packet 0x0A010005 80)
   \<and> forward_verdict [phone, tablet] wg_opt (phone_packet6 0xfd000001000000000000000000000005 80) = peer_policy phone (phone_packet6 0xfd000001000000000000000000000005 80)"
  using forward_refines_policy [of "phone_packet 0x0A010005 80" wg_opt "[phone, tablet]"]
    forward_refines_policy [of "phone_packet6 0xfd000001000000000000000000000005 80" wg_opt "[phone, tablet]"]
  by (simp add: concrete_peers owner_def)

theorem port_allow_not_bypassed_witness:
  "forward_verdict [phone, tablet] wg_opt (phone_packet 0x0A010005 80) = VDrop"
proof -
  let ?r = "hd (Rules phone)"
  have r: "?r \<in> set (Rules phone)" by (simp add: phone_def)
  have "Action ?r = ''accept''" "Dst ?r = ''10.1.0.0/16''" by (simp_all add: phone_def)
  then have "nftVerdict (Action ?r) = Some VAccept" "parse_prefix (Dst ?r) = Some \<lparr>paddr = V4 0x0A010000, pbits = 16\<rparr>"
    by (simp_all add: nftVerdict_def concrete_rules)
  note rule = port_allow_not_bypassed [OF phone_packet_sel(1) _ _ _ _ _ r this]
  show ?thesis by (rule rule) (auto simp: concrete_peers concrete_rules concrete_applicable(2))
qed

theorem input_forward_agree_witness:
  "input_verdict [phone, tablet] wg_opt (phone_packet 0x0A010005 443) = VAccept"
  using input_forward_agree [of "phone_packet 0x0A010005 443" wg_opt "[phone, tablet]"]
  by (simp add: concrete_verdicts)

theorem inbound_only_replies_witness:
  "forward_verdict [phone] wg_opt ((phone_packet 7 80)\<lparr>p_iif := ''eth0'', p_oif := ''wg0''\<rparr>) = VDrop"
  using inbound_only_replies [of "(phone_packet 7 80)\<lparr>p_iif := ''eth0'', p_oif := ''wg0''\<rparr>" wg_opt "[phone]"]
  by (simp add: wg_opt_def iface_of_def)

theorem filter_table_order_independent_witness:
  "filter_table [phone, tablet] wg_opt = filter_table [tablet, phone] wg_opt"
  using filter_table_order_independent [of "[phone, tablet]" "[tablet, phone]" wg_opt]
  by (simp add: phone_def tablet_def)

end
