(* ===== verification/WGSync.thy ===== *)
theory WGSync
  imports NFTables "HOL-Library.AList"
begin

text \<open>
  \<open>server/internal/gateway/sync.go\<close>: the gateway agent's poll-and-apply cycle.  The commands the
  agent runs, the HTTP exchange, the JSON decoder, SHA-256 and the temporary files are arguments
  (the record \<open>env\<close>) over an abstract world; every effect is also recorded in a trace of events.
  A Go map is an association list with distinct keys, and the order in which \<open>range\<close> visits it is
  the argument \<open>order\<close>.  The last section replays a trace on a kernel that does what wg(8) says of
  \<open>wg set\<close> and relates the outcome to the controller's peer list.
\<close>

section \<open>The world of the agent\<close>

record command =
  cmd_name :: string
  cmd_args :: "string list"
  cmd_stdin :: string

datatype event =
    Ran command string "string option"   \<comment> \<open>output, error\<close>
  | Wrote string string                  \<comment> \<open>temporary file, content\<close>
  | Unlinked string

datatype sync_error =
    FetchFailed string
  | BadStatus nat
  | DecodeFailed string
  | NftFailed string string
  | ShowFailed string string
  | PskTempfile string
  | PskWrite string
  | SetFailed string string string
  | RemoveFailed string string

record peerWire =
  w_device_id :: string
  w_public_key :: string
  w_psk :: string
  w_ipv4 :: string
  w_ipv6 :: string
  w_status :: string
  w_policy_bound :: bool
  w_dest_cidrs :: "string list"
  w_rules :: "Rule list"
  w_rewrites :: "(string \<times> string) list"
  w_nat_cidrs :: "string list"

record request =
  req_method :: string
  req_url :: string
  req_headers :: "(string \<times> string) list"

record 'w env =
  runner :: "command \<Rightarrow> 'w \<Rightarrow> 'w \<times> string \<times> string option"
  http_do :: "request \<Rightarrow> 'w \<Rightarrow> 'w \<times> (string + nat \<times> string)"   \<comment> \<open>error, or status and body\<close>
  decode :: "string \<Rightarrow> string + peerWire list"
  sha256_hex :: "string \<Rightarrow> string"
  create_temp :: "'w \<Rightarrow> 'w \<times> (string + string)"                 \<comment> \<open>error, or name\<close>
  write_temp :: "string \<Rightarrow> string \<Rightarrow> 'w \<Rightarrow> 'w \<times> string option"
  clock :: "'w \<Rightarrow> time"                                     \<comment> \<open>nanoseconds\<close>
  order :: "string list \<Rightarrow> string list"

record 'w world =
  inner :: 'w
  trace :: "event list"

definition Run :: "'w env \<Rightarrow> command \<Rightarrow> 'w world \<Rightarrow> 'w world \<times> string \<times> string option" where
  "Run e c s = (case runner e c (inner s) of (w, out, err) \<Rightarrow>
     (\<lparr>inner = w, trace = trace s @ [Ran c out err]\<rparr>, out, err))"

definition unlink :: "string \<Rightarrow> 'w world \<Rightarrow> 'w world" where
  "unlink f s = s\<lparr>trace := trace s @ [Unlinked f]\<rparr>"

text \<open>\<open>os.CreateTemp\<close> and \<open>WriteString\<close>, with the removal of a file that could not be written.\<close>

definition write_psk :: "'w env \<Rightarrow> string \<Rightarrow> 'w world \<Rightarrow> 'w world \<times> (sync_error + string)" where
  "write_psk e content s = (case create_temp e (inner s) of
     (w, Inl err) \<Rightarrow> (s\<lparr>inner := w\<rparr>, Inl (PskTempfile err))
   | (w, Inr f) \<Rightarrow> (case write_temp e f content w of
       (w', Some err) \<Rightarrow> (unlink f (s\<lparr>inner := w'\<rparr>), Inl (PskWrite err))
     | (w', None) \<Rightarrow> (\<lparr>inner = w', trace = trace s @ [Wrote f content]\<rparr>, Inr f)))"

section \<open>The state of the agent\<close>

record Stats =
  Polls :: "64 word"
  PollErrors :: "64 word"
  RuleApplies :: "64 word"
  PeerApplies :: "64 word"
  ApplyErrors :: "64 word"
  LastSyncUnix :: int
  PeerCount :: nat

record Syncer =
  ControllerURL :: string
  NodeToken :: string
  WGIface :: string
  LogDeniedFlag :: bool
  Interval :: time
  lastRulesHash :: string
  lastPeerSet :: "(string \<times> string) list"
  stats :: Stats

definition ensureDefaults :: "Syncer \<Rightarrow> Syncer" where
  "ensureDefaults s = s\<lparr>Interval := (if Interval s \<le> 0 then 15 * second else Interval s),
     WGIface := (if WGIface s = [] then ''wg0'' else WGIface s)\<rparr>"

definition duration_clamp :: "int \<Rightarrow> int" where \<comment> \<open>\<open>Time.Sub\<close> saturates\<close>
  "duration_clamp d = max (- (2 ^ 63)) (min (2 ^ 63 - 1) d)"

definition Ready :: "Syncer \<Rightarrow> time \<Rightarrow> time \<Rightarrow> bool" where
  "Ready s now maxAge =
     (if LastSyncUnix (stats s) = 0 \<or> maxAge \<le> 0 then False
      else let age = duration_clamp (now - LastSyncUnix (stats s) * second) in 0 \<le> age \<and> age \<le> maxAge)"

section \<open>Maps\<close>

definition mget :: "(string \<times> string) list \<Rightarrow> string \<Rightarrow> string" where \<comment> \<open>\<open>m[k]\<close>, empty when absent\<close>
  "mget m k = (case map_of m k of None \<Rightarrow> [] | Some v \<Rightarrow> v)"

definition mapsEqual :: "(string \<times> string) list \<Rightarrow> (string \<times> string) list \<Rightarrow> bool" where
  "mapsEqual a b = (length a = length b \<and> (\<forall>(k, v) \<in> set a. mget b k = v))"

definition allowed_ips :: "Peer \<Rightarrow> string list" where
  "allowed_ips p = sort ((if IPv4 p \<noteq> [] then [IPv4 p @ ''/32''] else [])
                       @ (if IPv6 p \<noteq> [] then [IPv6 p @ ''/128''] else []))"

definition want_of :: "Peer list \<Rightarrow> (string \<times> string) list" where
  "want_of peers = foldl (\<lambda>want p.
     if PublicKey p = [] \<or> allowed_ips p = [] then want
     else AList.update (PublicKey p) (join '','' (allowed_ips p) @ ''|'' @ PSK p) want) [] peers"

definition psks_of :: "Peer list \<Rightarrow> (string \<times> string) list" where
  "psks_of peers = foldl (\<lambda>m p. if PSK p \<noteq> [] then AList.update (PublicKey p) (PSK p) m else m) [] peers"

text \<open>The parse of \<open>wg show <dev> dump\<close>.\<close>

definition dump_line :: "(string \<times> string) list \<Rightarrow> string \<Rightarrow> (string \<times> string) list" where
  "dump_line res line =
     (if trim_space line = [] then res
      else let f = split_on (char_of (9 :: nat)) line in
        if length f < 4 then res
        else let allowed = (if f ! 3 = ''(none)'' then [] else f ! 3);
                 psk = (if f ! 1 = ''(none)'' then [] else f ! 1)
             in AList.update (f ! 0) (join '','' (sort (split_on (CHR '','') allowed)) @ ''|'' @ psk) res)"

definition parse_dump :: "string \<Rightarrow> (string \<times> string) list" where
  "parse_dump out = foldl dump_line [] (drop 1 (split_on (char_of (10 :: nat)) (trim_space out)))"

definition currentPeers ::
  "'w env \<Rightarrow> Syncer \<Rightarrow> 'w world \<Rightarrow> 'w world \<times> (sync_error + (string \<times> string) list)" where
  "currentPeers e s w =
     (case Run e \<lparr>cmd_name = ''wg'', cmd_args = [''show'', WGIface s, ''dump''], cmd_stdin = []\<rparr> w of
        (w', out, Some err) \<Rightarrow> (w', Inl (ShowFailed err (trim_space out)))
      | (w', out, None) \<Rightarrow> (w', Inr (parse_dump out)))"

section \<open>Applying rules and peers\<close>

definition applyRules :: "'w env \<Rightarrow> Peer list \<Rightarrow> Syncer \<Rightarrow> 'w world \<Rightarrow> Syncer \<times> 'w world \<times> sync_error option" where
  "applyRules e peers s w =
     (let script = Render peers \<lparr>WGInterface = WGIface s, LogDenied = LogDeniedFlag s, LogPrefix = []\<rparr>;
          hash = sha256_hex e script
      in if hash = lastRulesHash s then (s, w, None)
         else case Run e \<lparr>cmd_name = ''nft'', cmd_args = [''-f'', ''-''], cmd_stdin = script\<rparr> w of
           (w', out, Some err) \<Rightarrow> (s, w', Some (NftFailed err (trim_space out)))
         | (w', out, None) \<Rightarrow>
             (s\<lparr>lastRulesHash := hash, stats := (stats s)\<lparr>RuleApplies := RuleApplies (stats s) + 1\<rparr>\<rparr>,
              w', None))"

definition DevNull :: string where "DevNull = ''/dev/null''"

definition wg_cmd :: "string list \<Rightarrow> command" where
  "wg_cmd args = \<lparr>cmd_name = ''wg'', cmd_args = args, cmd_stdin = []\<rparr>"
definition set_cmd :: "string \<Rightarrow> string \<Rightarrow> string \<Rightarrow> string \<Rightarrow> command" where
  "set_cmd dev pub allowed f =
     wg_cmd [''set'', dev, ''peer'', pub, ''allowed-ips'', allowed, ''preshared-key'', f]"
definition remove_cmd :: "string \<Rightarrow> string \<Rightarrow> command" where
  "remove_cmd dev pub = wg_cmd [''set'', dev, ''peer'', pub, ''remove'']"

definition before_bar :: "string \<Rightarrow> string" where
  "before_bar v = takeWhile (\<lambda>c. c \<noteq> CHR ''|'') v"

definition set_peer :: "'w env \<Rightarrow> string \<Rightarrow> (string \<times> string) list \<Rightarrow> string \<Rightarrow> string \<Rightarrow> 'w world
    \<Rightarrow> 'w world \<times> sync_error option" where
  "set_peer e dev psks pub allowed w =
     (case map_of psks pub of
        Some psk \<Rightarrow> (case write_psk e (psk @ nl) w of
            (w1, Inl err) \<Rightarrow> (w1, Some err)
          | (w1, Inr f) \<Rightarrow> (case Run e (set_cmd dev pub allowed f) w1 of
              (w2, out, err) \<Rightarrow> (unlink f w2,
                 map_option (\<lambda>x. SetFailed (short pub) x (trim_space out)) err)))
      | None \<Rightarrow> (case Run e (set_cmd dev pub allowed DevNull) w of
          (w2, out, err) \<Rightarrow> (w2, map_option (\<lambda>x. SetFailed (short pub) x (trim_space out)) err)))"

fun set_loop where
  "set_loop e dev want psks have [] n w = (w, Inr n)"
| "set_loop e dev want psks have (pub # pubs) n w =
     (let wantVal = mget want pub in
      if mget have pub = wantVal then set_loop e dev want psks have pubs n w
      else case set_peer e dev psks pub (before_bar wantVal) w of
        (w', Some err) \<Rightarrow> (w', Inl err)
      | (w', None) \<Rightarrow> set_loop e dev want psks have pubs (Suc n) w')"

fun remove_loop where
  "remove_loop e dev want [] n w = (w, Inr n)"
| "remove_loop e dev want (pub # pubs) n w =
     (if map_of want pub \<noteq> None then remove_loop e dev want pubs n w
      else case Run e (remove_cmd dev pub) w of
        (w', out, Some err) \<Rightarrow> (w', Inl (RemoveFailed (short pub) err))
      | (w', out, None) \<Rightarrow> remove_loop e dev want pubs (Suc n) w')"

definition applyPeers :: "'w env \<Rightarrow> Peer list \<Rightarrow> Syncer \<Rightarrow> 'w world \<Rightarrow> Syncer \<times> 'w world \<times> sync_error option" where
  "applyPeers e peers s w =
     (let want = want_of peers; psks = psks_of peers; same = mapsEqual want (lastPeerSet s) in
      case currentPeers e s w of
        (w1, Inl err) \<Rightarrow> (s, w1, Some err)
      | (w1, Inr have) \<Rightarrow>
          if same \<and> mapsEqual have want then (s, w1, None)
          else case set_loop e (WGIface s) want psks have (order e (map fst want)) 0 w1 of
            (w2, Inl err) \<Rightarrow> (s, w2, Some err)
          | (w2, Inr n) \<Rightarrow> (case remove_loop e (WGIface s) want (order e (map fst have)) n w2 of
              (w3, Inl err) \<Rightarrow> (s, w3, Some err)
            | (w3, Inr m) \<Rightarrow>
                (s\<lparr>lastPeerSet := want,
                   stats := (if m > 0 then (stats s)\<lparr>PeerApplies := PeerApplies (stats s) + 1\<rparr> else stats s)\<rparr>,
                 w3, None)))"

section \<open>A cycle\<close>

definition trim_right_slash :: "string \<Rightarrow> string" where
  "trim_right_slash u = rev (dropWhile (\<lambda>c. c = CHR ''/'') (rev u))"

definition fetchPeers :: "'w env \<Rightarrow> Syncer \<Rightarrow> 'w world \<Rightarrow> 'w world \<times> (sync_error + peerWire list)" where
  "fetchPeers e s w =
     (let req = \<lparr>req_method = ''GET'', req_url = trim_right_slash (ControllerURL s) @ ''/node/peers'',
          req_headers = [(''Authorization'', ''Bearer '' @ NodeToken s), (''Accept'', ''application/json'')]\<rparr>
      in case http_do e req (inner w) of
        (w', Inl err) \<Rightarrow> (w\<lparr>inner := w'\<rparr>, Inl (FetchFailed err))
      | (w', Inr (status, body)) \<Rightarrow> (w\<lparr>inner := w'\<rparr>,
          if status \<noteq> 200 then Inl (BadStatus status)
          else case decode e body of Inl err \<Rightarrow> Inl (DecodeFailed err) | Inr ps \<Rightarrow> Inr ps))"

definition peer_of_wire :: "peerWire \<Rightarrow> Peer" where
  "peer_of_wire p = \<lparr>DeviceID = w_device_id p, PublicKey = w_public_key p, PSK = w_psk p,
     IPv4 = w_ipv4 p, IPv6 = w_ipv6 p, PeerStatus = w_status p, PolicyBound = w_policy_bound p,
     DestCIDRs = w_dest_cidrs p, Rules = w_rules p, NATCIDRs = w_nat_cidrs p,
     Rewrites = map (\<lambda>(v, r). \<lparr>Virtual = v, Real = r\<rparr>) (w_rewrites p)\<rparr>"

definition count_apply_error :: "Syncer \<Rightarrow> Syncer" where
  "count_apply_error s = s\<lparr>stats := (stats s)\<lparr>ApplyErrors := ApplyErrors (stats s) + 1\<rparr>\<rparr>"

definition SyncOnce :: "'w env \<Rightarrow> Syncer \<Rightarrow> 'w world \<Rightarrow> Syncer \<times> 'w world \<times> sync_error option" where
  "SyncOnce e s0 w =
     (let s1 = ensureDefaults s0 in
      case fetchPeers e s1 w of
        (w1, Inl err) \<Rightarrow>
          (s1\<lparr>stats := (stats s1)\<lparr>Polls := Polls (stats s1) + 1, PollErrors := PollErrors (stats s1) + 1\<rparr>\<rparr>,
           w1, Some err)
      | (w1, Inr ps) \<Rightarrow>
          (let s2 = s1\<lparr>stats := (stats s1)\<lparr>Polls := Polls (stats s1) + 1, PeerCount := length ps\<rparr>\<rparr>;
               peers = map peer_of_wire ps
           in case applyRules e peers s2 w1 of
             (s3, w2, Some err) \<Rightarrow> (count_apply_error s3, w2, Some err)
           | (s3, w2, None) \<Rightarrow> (case applyPeers e peers s3 w2 of
               (s4, w3, Some err) \<Rightarrow> (count_apply_error s4, w3, Some err)
             | (s4, w3, None) \<Rightarrow>
                 (s4\<lparr>stats := (stats s4)\<lparr>LastSyncUnix := clock e (inner w3) div second\<rparr>\<rparr>, w3, None))))"

section \<open>The trace\<close>

fun wg_event :: "event \<Rightarrow> bool" where
  "wg_event (Ran c out r) = (cmd_name c = ''wg'')"
| "wg_event _ = True"

lemma cmd_names [simp]:
  "cmd_name (set_cmd d p a f) = ''wg''" "cmd_name (remove_cmd d p) = ''wg''" "cmd_name (wg_cmd xs) = ''wg''"
  by (simp_all add: set_cmd_def remove_cmd_def wg_cmd_def)

text \<open>\<open>new w w'\<close>: the events between two worlds.\<close>

definition new :: "'w world \<Rightarrow> 'w world \<Rightarrow> event list" where
  "new w w' = drop (length (trace w)) (trace w')"

definition extends :: "'w world \<Rightarrow> 'w world \<Rightarrow> bool" where
  "extends w w' \<longleftrightarrow> trace w' = trace w @ new w w'"

lemma extendsI: "trace w' = trace w @ evs \<Longrightarrow> extends w w' \<and> new w w' = evs"
  by (simp add: extends_def new_def)

lemma extends_trans:
  "extends w1 w2 \<Longrightarrow> extends w2 w3 \<Longrightarrow> extends w1 w3 \<and> new w1 w3 = new w1 w2 @ new w2 w3"
  unfolding extends_def new_def by (metis append.assoc append_eq_conv_conj)

lemma extends_refl [simp]: "extends w w" "new w w = []"
  by (simp_all add: extends_def new_def)

text \<open>Between the two worlds the agent ran no command but \<open>wg\<close>.\<close>

definition wg_step :: "'w world \<Rightarrow> 'w world \<Rightarrow> bool" where
  "wg_step w w' \<longleftrightarrow> extends w w' \<and> list_all wg_event (new w w')"

lemma wg_step_refl [simp]: "wg_step w w"
  by (simp add: wg_step_def)

lemma wg_step_trans [trans]: "wg_step w1 w2 \<Longrightarrow> wg_step w2 w3 \<Longrightarrow> wg_step w1 w3"
  using extends_trans [of w1 w2 w3] by (simp add: wg_step_def)

lemma wg_step_extends: "wg_step w w' \<Longrightarrow> extends w w'"
  by (simp add: wg_step_def)

lemma Run_trace:
  "Run e c w = (w', out, err) \<Longrightarrow> extends w w' \<and> new w w' = [Ran c out err]"
  by (rule extendsI) (auto simp: Run_def split: prod.splits)

lemma Run_wg: "Run e c w = (w', r) \<Longrightarrow> cmd_name c = ''wg'' \<Longrightarrow> wg_step w w'"
  using Run_trace [of e c w w' "fst r" "snd r"] by (simp add: wg_step_def)

lemma unlink_trace: "extends w (unlink f w) \<and> new w (unlink f w) = [Unlinked f]"
  by (rule extendsI) (simp add: unlink_def)

lemma unlink_wg [simp]: "wg_step w (unlink f w)"
  using unlink_trace [of w f] by (simp add: wg_step_def)

lemma write_psk_trace:
  "write_psk e d w = (w', Inr f) \<Longrightarrow> extends w w' \<and> new w w' = [Wrote f d]"
  by (rule extendsI) (auto simp: write_psk_def split: prod.splits sum.splits option.splits)

lemma write_psk_wg: "write_psk e d w = (w', r) \<Longrightarrow> wg_step w w'"
  by (auto simp: write_psk_def unlink_def wg_step_def extends_def new_def
      split: prod.splits sum.splits option.splits)

lemma set_peer_wg: "set_peer e dev psks pub a w = (w', r) \<Longrightarrow> wg_step w w'"
  by (auto simp: set_peer_def split: prod.splits sum.splits option.splits
      dest!: write_psk_wg Run_wg intro: wg_step_trans)

lemma set_loop_wg: "set_loop e dev want psks have pubs n w = (w', r) \<Longrightarrow> wg_step w w'"
proof (induction e dev want psks "have" pubs n w rule: set_loop.induct)
  case (2 e dev want psks "have" pub pubs n w)
  obtain w1 r1 where w1: "set_peer e dev psks pub (before_bar (mget want pub)) w = (w1, r1)" by fastforce
  from set_peer_wg [OF w1] 2 w1 show ?case
    by (cases "mget have pub = mget want pub"; cases r1) (auto intro: wg_step_trans)
qed simp

lemma remove_loop_wg: "remove_loop e dev want pubs n w = (w', r) \<Longrightarrow> wg_step w w'"
proof (induction e dev want pubs n w rule: remove_loop.induct)
  case (2 e dev want pub pubs n w)
  obtain w1 out err where w1: "Run e (remove_cmd dev pub) w = (w1, out, err)"
    by (cases "Run e (remove_cmd dev pub) w")
  from Run_wg [OF w1] 2 w1 show ?case
    by (cases "map_of want pub"; cases err) (auto intro: wg_step_trans)
qed simp

lemma currentPeers_wg: "currentPeers e s w = (w', r) \<Longrightarrow> wg_step w w'"
  by (auto simp: currentPeers_def split: prod.splits option.splits dest!: Run_wg)

lemma applyPeers_cases:
  assumes "applyPeers e peers s w = (s', w', r)"
  obtains (show_failed) x where "currentPeers e s w = (w', Inl x)" "s' = s" "r = Some x"
  | (quiet) "have" where "currentPeers e s w = (w', Inr have)" "mapsEqual (want_of peers) (lastPeerSet s)"
      "mapsEqual have (want_of peers)" "s' = s" "r = None"
  | (set_failed) w1 "have" x where "currentPeers e s w = (w1, Inr have)"
      "set_loop e (WGIface s) (want_of peers) (psks_of peers) have (order e (map fst (want_of peers))) 0 w1
         = (w', Inl x)" "s' = s" "r = Some x"
  | (removed) w1 "have" w2 n r' where "currentPeers e s w = (w1, Inr have)"
      "set_loop e (WGIface s) (want_of peers) (psks_of peers) have (order e (map fst (want_of peers))) 0 w1
         = (w2, Inr n)"
      "remove_loop e (WGIface s) (want_of peers) (order e (map fst have)) n w2 = (w', r')"
      "r = (case r' of Inl x \<Rightarrow> Some x | Inr m \<Rightarrow> None)" "lastRulesHash s' = lastRulesHash s"
proof -
  obtain w1 r1 where c: "currentPeers e s w = (w1, r1)" by fastforce
  show thesis
  proof (cases r1)
    case (Inl x)
    with assms c have "w' = w1" "s' = s" "r = Some x" by (auto simp: applyPeers_def Let_def)
    with c Inl show thesis using show_failed by simp
  next
    case (Inr "have")
    obtain w2 r2 where l: "set_loop e (WGIface s) (want_of peers) (psks_of peers) have
        (order e (map fst (want_of peers))) 0 w1 = (w2, r2)" by fastforce
    show thesis
    proof (cases "mapsEqual (want_of peers) (lastPeerSet s) \<and> mapsEqual have (want_of peers)")
      case True
      with assms c Inr have "w' = w1" "s' = s" "r = None" by (auto simp: applyPeers_def Let_def)
      with True c Inr show thesis using quiet by simp
    next
      case busy: False
      show thesis
      proof (cases r2)
        case x: (Inl x)
        from assms c Inr busy l x have "w' = w2" "s' = s" "r = Some x"
          by (auto simp: applyPeers_def Let_def)
        with c Inr l x show thesis using set_failed by simp
      next
        case n: (Inr n)
        obtain w3 r3 where m: "remove_loop e (WGIface s) (want_of peers) (order e (map fst have)) n w2 = (w3, r3)"
          by fastforce
        from assms c Inr busy l n m have "w' = w3" "r = (case r3 of Inl x \<Rightarrow> Some x | Inr m \<Rightarrow> None)"
            "lastRulesHash s' = lastRulesHash s"
          by (cases r3; auto simp: applyPeers_def Let_def)+
        with c Inr l n m show thesis using removed by simp
      qed
    qed
  qed
qed

lemma applyPeers_wg:
  assumes "applyPeers e peers s w = (s', w', r)"
  shows "wg_step w w' \<and> lastRulesHash s' = lastRulesHash s"
  using assms
  by (rule applyPeers_cases)
    (auto dest!: currentPeers_wg set_loop_wg remove_loop_wg intro: wg_step_trans)

lemma fetchPeers_trace: "fetchPeers e s w = (w', r) \<Longrightarrow> trace w' = trace w"
  by (auto simp: fetchPeers_def Let_def split: prod.splits sum.splits)

section \<open>Rules before peers\<close>

definition opts_of :: "Syncer \<Rightarrow> RenderOptions" where
  "opts_of s = \<lparr>WGInterface = WGIface s, LogDenied = LogDeniedFlag s, LogPrefix = []\<rparr>"
definition nft_cmd :: "string \<Rightarrow> command" where
  "nft_cmd script = \<lparr>cmd_name = ''nft'', cmd_args = [''-f'', ''-''], cmd_stdin = script\<rparr>"

lemma applyRules_cases:
  assumes "applyRules e peers s w = (s', w', r)"
  obtains (unchanged) "sha256_hex e (Render peers (opts_of s)) = lastRulesHash s" "s' = s" "w' = w" "r = None"
  | (failed) out err where "Run e (nft_cmd (Render peers (opts_of s))) w = (w', out, Some err)" "s' = s" "r \<noteq> None"
  | (loaded) out where "Run e (nft_cmd (Render peers (opts_of s))) w = (w', out, None)"
      "lastRulesHash s' = sha256_hex e (Render peers (opts_of s))" "WGIface s' = WGIface s" "r = None"
  using assms that
  by (auto simp: applyRules_def Let_def nft_cmd_def opts_of_def split: prod.splits option.splits if_splits)

text \<open>The agent's cycle, split at its early returns.\<close>

lemma SyncOnce_cases:
  assumes "SyncOnce e s w = (s', w', r)"
  obtains (fetch_failed) x where "fetchPeers e (ensureDefaults s) w = (w', Inl x)"
      "lastRulesHash s' = lastRulesHash s" "r = Some x"
  | (rules_failed) w1 ps s2 s3 where "fetchPeers e (ensureDefaults s) w = (w1, Inr ps)"
      "s2 = (ensureDefaults s)\<lparr>stats := stats s2\<rparr>"
      "applyRules e (map peer_of_wire ps) s2 w1 = (s3, w', r)" "r \<noteq> None" "lastRulesHash s' = lastRulesHash s3"
  | (rules_ok) w1 ps s2 s3 w2 s4 where "fetchPeers e (ensureDefaults s) w = (w1, Inr ps)"
      "s2 = (ensureDefaults s)\<lparr>stats := stats s2\<rparr>"
      "applyRules e (map peer_of_wire ps) s2 w1 = (s3, w2, None)"
      "applyPeers e (map peer_of_wire ps) s3 w2 = (s4, w', r)" "lastRulesHash s' = lastRulesHash s4"
proof -
  obtain w1 r1 where f: "fetchPeers e (ensureDefaults s) w = (w1, r1)" by fastforce
  show thesis
  proof (cases r1)
    case (Inl x)
    with f assms have "w' = w1" "r = Some x" "lastRulesHash s' = lastRulesHash s"
      by (auto simp: SyncOnce_def Let_def ensureDefaults_def)
    with f Inl show thesis using fetch_failed by simp
  next
    case (Inr ps)
    define s2 where "s2 = (ensureDefaults s)\<lparr>stats := (stats (ensureDefaults s))
      \<lparr>Polls := Polls (stats (ensureDefaults s)) + 1, PeerCount := length ps\<rparr>\<rparr>"
    obtain s3 w2 r2 where a: "applyRules e (map peer_of_wire ps) s2 w1 = (s3, w2, r2)"
      by (cases "applyRules e (map peer_of_wire ps) s2 w1")
    have s2: "s2 = (ensureDefaults s)\<lparr>stats := stats s2\<rparr>" by (simp add: s2_def)
    note u = assms [unfolded SyncOnce_def Let_def f Inr, simplified, folded s2_def, unfolded a]
    show thesis
    proof (cases r2)
      case (Some x)
      with u have "w' = w2" "r = Some x" "lastRulesHash s' = lastRulesHash s3"
        by (auto simp: count_apply_error_def)
      with f Inr s2 a Some show thesis using rules_failed by simp
    next
      case None
      obtain s4 w3 r3 where p: "applyPeers e (map peer_of_wire ps) s3 w2 = (s4, w3, r3)"
        by (cases "applyPeers e (map peer_of_wire ps) s3 w2")
      with u None have "w' = w3" "r = r3" "lastRulesHash s' = lastRulesHash s4"
        by (auto simp: count_apply_error_def split: option.splits)
      with f Inr s2 a None p show thesis using rules_ok by simp
    qed
  qed
qed

lemma same_trace: "trace w' = trace w \<Longrightarrow> extends w w' \<and> new w w' = []"
  by (rule extendsI) simp

lemma SyncOnce_trace:
  assumes "SyncOnce e s w = (s', w', r)"
  shows "extends w w' \<and>
    (new w w' = [] \<and> lastRulesHash s' = lastRulesHash s
     \<or> (\<exists>c out err. new w w' = [Ran c out (Some err)] \<and> cmd_name c = ''nft'' \<and> lastRulesHash s' = lastRulesHash s)
     \<or> (\<exists>w1 ps pre evs. fetchPeers e (ensureDefaults s) w = (w1, Inr ps)
          \<and> new w w' = pre @ evs \<and> list_all wg_event evs
          \<and> lastRulesHash s' = sha256_hex e (Render (map peer_of_wire ps) (opts_of (ensureDefaults s)))
          \<and> (pre = [] \<and> lastRulesHash s' = lastRulesHash s
             \<or> (\<exists>out. pre = [Ran (nft_cmd (Render (map peer_of_wire ps) (opts_of (ensureDefaults s)))) out None]))))"
  using assms
proof (cases rule: SyncOnce_cases)
  case (fetch_failed x)
  with same_trace [OF fetchPeers_trace [OF fetch_failed(1)]] show ?thesis by blast
next
  case (rules_failed w1 ps s2 s3)
  note t = same_trace [OF fetchPeers_trace [OF rules_failed(1)]]
  from rules_failed(3) show ?thesis
  proof (cases rule: applyRules_cases)
    case (failed out err)
    have "lastRulesHash s' = lastRulesHash s"
      using rules_failed(5) failed(2) by (simp, subst rules_failed(2)) (simp add: ensureDefaults_def)
    with t Run_trace [OF failed(1)] extends_trans [of w w1 w'] show ?thesis by (auto simp: nft_cmd_def)
  qed (use rules_failed in auto)
next
  case (rules_ok w1 ps s2 s3 w2 s4)
  note t = same_trace [OF fetchPeers_trace [OF rules_ok(1)]]
  note p = applyPeers_wg [OF rules_ok(4)]
  have o: "opts_of s2 = opts_of (ensureDefaults s)" "lastRulesHash s2 = lastRulesHash s"
    by (subst rules_ok(2), simp add: opts_of_def ensureDefaults_def)+
  from rules_ok(3) show ?thesis
  proof (cases rule: applyRules_cases)
    case unchanged
    with rules_ok t p extends_trans [of w w1 w'] o have
      "extends w w'" "new w w' = [] @ new w1 w'" "list_all wg_event (new w1 w')"
      "lastRulesHash s' = sha256_hex e (Render (map peer_of_wire ps) (opts_of (ensureDefaults s)))"
      "lastRulesHash s' = lastRulesHash s"
      by (auto simp: wg_step_def)
    with rules_ok(1) show ?thesis by blast
  next
    case (loaded out)
    note l = Run_trace [OF loaded(1)]
    from t l extends_trans [of w w1 w2] have "extends w w2 \<and> new w w2 = new w1 w2" by simp
    with l p extends_trans [of w w2 w'] have "extends w w' \<and> new w w' = new w1 w2 @ new w2 w'"
      by (simp add: wg_step_def)
    with rules_ok loaded l p o have "extends w w'" "list_all wg_event (new w2 w')"
      "new w w' = [Ran (nft_cmd (Render (map peer_of_wire ps) (opts_of (ensureDefaults s)))) out None] @ new w2 w'"
      "lastRulesHash s' = sha256_hex e (Render (map peer_of_wire ps) (opts_of (ensureDefaults s)))"
      by (auto simp: wg_step_def)
    with rules_ok(1) show ?thesis by blast
  qed simp
qed

text \<open>The script of the last \<open>nft\<close> run that succeeded.\<close>

fun loaded_script :: "string option \<Rightarrow> event list \<Rightarrow> string option" where
  "loaded_script a [] = a"
| "loaded_script a (Ran c out None # evs) =
     loaded_script (if cmd_name c = ''nft'' then Some (cmd_stdin c) else a) evs"
| "loaded_script a (_ # evs) = loaded_script a evs"

lemma loaded_script_append: "loaded_script a (xs @ ys) = loaded_script (loaded_script a xs) ys"
  by (induction a xs rule: loaded_script.induct) auto

lemma loaded_script_wg: "list_all wg_event evs \<Longrightarrow> loaded_script a evs = a"
  by (induction a evs rule: loaded_script.induct) auto

definition cached :: "'w env \<Rightarrow> string option \<Rightarrow> string" where
  "cached e a = (case a of None \<Rightarrow> [] | Some scr \<Rightarrow> sha256_hex e scr)"

text \<open>The runs of an agent: cycles, between which the world may change.\<close>

inductive agent_run :: "'w env \<Rightarrow> Syncer \<Rightarrow> 'w world \<Rightarrow> bool" for e where
  start: "lastRulesHash s = [] \<Longrightarrow> trace w = [] \<Longrightarrow> agent_run e s w"
| cycle: "agent_run e s w \<Longrightarrow> SyncOnce e s w = (s', w', r) \<Longrightarrow> agent_run e s' w'"
| other: "agent_run e s w \<Longrightarrow> agent_run e s (w\<lparr>inner := x\<rparr>)"

lemma cached_hash:
  assumes "agent_run e s w"
  shows "lastRulesHash s = cached e (loaded_script None (trace w))"
  using assms
proof induction
  case (cycle s w s' w' r)
  from SyncOnce_trace [OF cycle.hyps(2)] have
    t: "trace w' = trace w @ new w w'" by (simp add: extends_def)
  from SyncOnce_trace [OF cycle.hyps(2)] consider
      "new w w' = []" "lastRulesHash s' = lastRulesHash s"
    | c out err where "new w w' = [Ran c out (Some err)]" "lastRulesHash s' = lastRulesHash s"
    | pre evs scr where "new w w' = pre @ evs" "list_all wg_event evs" "lastRulesHash s' = sha256_hex e scr"
        "pre = [] \<and> lastRulesHash s' = lastRulesHash s \<or> (\<exists>out. pre = [Ran (nft_cmd scr) out None])"
    by blast
  then show ?case
  proof cases
    case (3 pre evs scr)
    with cycle.IH t show ?thesis
      by (auto simp: loaded_script_append loaded_script_wg cached_def nft_cmd_def)
  qed (use cycle.IH t in \<open>simp_all add: loaded_script_append\<close>)
qed (simp_all add: cached_def)

text \<open>
  C30. The cached hash is always that of the ruleset the kernel last loaded: a failed \<open>nft\<close> run never
  makes the agent believe it enforces a policy.
\<close>

theorem cached_hash_is_loaded:
  assumes "agent_run e s w"
  shows "lastRulesHash s = cached e (loaded_script None (trace w))"
  using assms by (rule cached_hash)

text \<open>
  C28. Firewall first: when a cycle of an agent runs any \<open>wg\<close> command, every event of the cycle but a first
  load of rules is one of \<open>wg\<close> and its key files, and the script \<open>nft\<close> last loaded before it, over the
  whole history of the agent, is the one rendered from exactly the peers fetched in this cycle; when the
  load was skipped because of the cached hash, it is a script with the same SHA-256 as that one.
\<close>

theorem rules_before_peers:
  assumes "agent_run e s w" "\<And>t. sha256_hex e t \<noteq> []"
    and "SyncOnce e s w = (s', w', r)" "Ran c out x \<in> set (new w w')" "cmd_name c = ''wg''"
  shows "\<exists>w1 ps pre evs. fetchPeers e (ensureDefaults s) w = (w1, Inr ps)
     \<and> new w w' = pre @ evs \<and> list_all wg_event evs
     \<and> (let script = Render (map peer_of_wire ps) (opts_of (ensureDefaults s))
        in (\<exists>out. pre = [Ran (nft_cmd script) out None] \<and> loaded_script None (trace w @ pre) = Some script)
           \<or> pre = [] \<and> (\<exists>scr. loaded_script None (trace w) = Some scr \<and> sha256_hex e scr = sha256_hex e script))"
proof -
  from SyncOnce_trace [OF assms(3)] consider "new w w' = []"
    | c' out err where "new w w' = [Ran c' out (Some err)]" "cmd_name c' = ''nft''"
    | w1 ps pre evs where "fetchPeers e (ensureDefaults s) w = (w1, Inr ps)" "new w w' = pre @ evs"
      "list_all wg_event evs"
      "lastRulesHash s' = sha256_hex e (Render (map peer_of_wire ps) (opts_of (ensureDefaults s)))"
      "pre = [] \<and> lastRulesHash s' = lastRulesHash s
       \<or> (\<exists>out. pre = [Ran (nft_cmd (Render (map peer_of_wire ps) (opts_of (ensureDefaults s)))) out None])"
    by blast
  then show ?thesis
  proof cases
    case (3 w1 ps pre evs)
    let ?script = "Render (map peer_of_wire ps) (opts_of (ensureDefaults s))"
    have "(\<exists>out. pre = [Ran (nft_cmd ?script) out None] \<and> loaded_script None (trace w @ pre) = Some ?script)
       \<or> pre = [] \<and> (\<exists>scr. loaded_script None (trace w) = Some scr \<and> sha256_hex e scr = sha256_hex e ?script)"
      using 3(5)
    proof
      assume h: "pre = [] \<and> lastRulesHash s' = lastRulesHash s"
      with 3(4) cached_hash [OF assms(1)] have "cached e (loaded_script None (trace w)) = sha256_hex e ?script" by simp
      with assms(2) [of ?script] h show ?thesis by (cases "loaded_script None (trace w)") (simp_all add: cached_def)
    qed (auto simp: loaded_script_append nft_cmd_def)
    with 3(1-3) show ?thesis unfolding Let_def by blast
  qed (use assms(4,5) in auto)
qed

section \<open>What the kernel ends up with\<close>

text \<open>
  wg(8): \<open>set\<close> with \<open>allowed-ips\<close> and \<open>preshared-key\<close> replaces both of the peer, the key being read
  from the file (an empty file clears it), and \<open>remove\<close> deletes the peer.  The value of a peer is
  written as the code writes it, \<open>allowed|psk\<close>.
\<close>

record kernel =
  kfiles :: "string \<Rightarrow> string option"
  kpeers :: "string \<Rightarrow> string option"

definition key_in :: "(string \<Rightarrow> string option) \<Rightarrow> string \<Rightarrow> string" where
  "key_in fs f = (if f = DevNull then [] else case fs f of None \<Rightarrow> []
     | Some t \<Rightarrow> takeWhile (\<lambda>c. c \<noteq> char_of (10 :: nat)) t)"

fun replay :: "event \<Rightarrow> kernel \<Rightarrow> kernel" where
  "replay (Wrote f t) k = k\<lparr>kfiles := (kfiles k)(f \<mapsto> t)\<rparr>"
| "replay (Unlinked f) k = k\<lparr>kfiles := (kfiles k)(f := None)\<rparr>"
| "replay (Ran c out (Some err)) k = k"
| "replay (Ran c out None) k = (case cmd_args c of
     [s, dev, p, pub, a, ips, o', f] \<Rightarrow>
       if cmd_name c = ''wg'' \<and> s = ''set'' then k\<lparr>kpeers := (kpeers k)(pub \<mapsto> ips @ ''|'' @ key_in (kfiles k) f)\<rparr> else k
   | [s, dev, p, pub, r] \<Rightarrow>
       if cmd_name c = ''wg'' \<and> s = ''set'' \<and> r = ''remove'' then k\<lparr>kpeers := (kpeers k)(pub := None)\<rparr> else k
   | _ \<Rightarrow> k)"

definition after :: "event list \<Rightarrow> kernel \<Rightarrow> kernel" where
  "after evs k = fold replay evs k"

lemma after_simps [simp]:
  "after [] k = k" "after (x # xs) k = after xs (replay x k)" "after (xs @ ys) k = after ys (after xs k)"
  by (simp_all add: after_def)

lemma before_bar_app [simp]: "CHR ''|'' \<notin> set a \<Longrightarrow> before_bar (a @ CHR ''|'' # b) = a"
  unfolding before_bar_def by (rule takeWhile_tail [THEN trans]) (auto simp: takeWhile_eq_all_conv)

lemma key_line: "char_of (10 :: nat) \<notin> set psk \<Longrightarrow> takeWhile (\<lambda>c. c \<noteq> char_of (10 :: nat)) (psk @ nl) = psk"
  unfolding nl_def by (rule takeWhile_tail [THEN trans]) (auto simp: takeWhile_eq_all_conv)

text \<open>The documented behaviour of \<open>os.CreateTemp\<close> the agent relies on: the file is in the
  temporary directory.\<close>

definition temp_ok :: "'w env \<Rightarrow> bool" where
  "temp_ok e \<longleftrightarrow> (\<forall>w w' f. create_temp e w = (w', Inr f) \<longrightarrow> f \<noteq> DevNull)"

lemma write_psk_name: "temp_ok e \<Longrightarrow> write_psk e d w = (w', Inr f) \<Longrightarrow> f \<noteq> DevNull"
  by (auto simp: write_psk_def temp_ok_def split: prod.splits sum.splits option.splits)

lemma set_peer_effect:
  assumes "set_peer e dev psks pub ips w = (w', None)" "temp_ok e"
    and "\<And>psk. map_of psks pub = Some psk \<Longrightarrow> char_of (10 :: nat) \<notin> set psk"
  shows "kpeers (after (new w w') k) = (kpeers k)(pub \<mapsto> ips @ ''|'' @ mget psks pub)"
proof (cases "map_of psks pub")
  case None
  with assms(1) obtain out where "Run e (set_cmd dev pub ips DevNull) w = (w', out, None)"
    by (auto simp: set_peer_def split: prod.splits)
  from Run_trace [OF this] None show ?thesis
    by (simp add: set_cmd_def wg_cmd_def mget_def key_in_def)
next
  case (Some psk)
  obtain w1 r1 where w: "write_psk e (psk @ nl) w = (w1, r1)" by fastforce
  with assms(1) Some obtain f where f: "r1 = Inr f" by (cases r1) (auto simp: set_peer_def)
  obtain w2 out err where run: "Run e (set_cmd dev pub ips f) w1 = (w2, out, err)"
    by (cases "Run e (set_cmd dev pub ips f) w1")
  from assms(1) Some w f run have r: "w' = unlink f w2" "err = None" by (auto simp: set_peer_def)
  note t = write_psk_trace [OF w [unfolded f]] Run_trace [OF run] unlink_trace [of w2 f]
  then have "new w w' = [Wrote f (psk @ nl), Ran (set_cmd dev pub ips f) out None, Unlinked f]"
    using r extends_trans [of w1 w2 w'] extends_trans [of w w1 w'] by simp
  moreover have "f \<noteq> DevNull" using write_psk_name [OF assms(2)] w f by blast
  ultimately show ?thesis using Some assms(3)
    by (simp add: set_cmd_def wg_cmd_def mget_def key_in_def key_line)
qed

lemma set_loop_effect:
  assumes "set_loop e dev want psks have pubs n w = (w', Inr m)" "temp_ok e"
    and "\<And>pub psk. map_of psks pub = Some psk \<Longrightarrow> char_of (10 :: nat) \<notin> set psk"
  shows "kpeers (after (new w w') k) = (\<lambda>q. if q \<in> set pubs \<and> mget have q \<noteq> mget want q
     then Some (before_bar (mget want q) @ ''|'' @ mget psks q) else kpeers k q)"
  using assms
proof (induction e dev want psks "have" pubs n w arbitrary: k rule: set_loop.induct)
  case (2 e dev want psks "have" pub pubs n w)
  show ?case
  proof (cases "mget have pub = mget want pub")
    case True
    with 2(1) [OF refl True] 2(3-5) show ?thesis by (auto simp: fun_eq_iff)
  next
    case False
    obtain w1 r1 where w1: "set_peer e dev psks pub (before_bar (mget want pub)) w = (w1, r1)" by fastforce
    with 2(3) False have r1: "r1 = None" by (cases r1) auto
    with 2(3) False w1 have l: "set_loop e dev want psks have pubs (Suc n) w1 = (w', Inr m)" by simp
    from extends_trans [of w w1 w'] set_peer_wg [OF w1] set_loop_wg [OF l]
    have "new w w' = new w w1 @ new w1 w'" by (simp add: wg_step_def)
    with 2(2) [OF refl False w1 [unfolded r1, symmetric] refl l 2(4,5)]
      set_peer_effect [OF w1 [unfolded r1] 2(4,5)] False
    show ?thesis by (auto simp: fun_eq_iff)
  qed
qed simp

lemma remove_loop_effect:
  assumes "remove_loop e dev want pubs n w = (w', Inr m)"
  shows "kpeers (after (new w w') k) = (\<lambda>q. if q \<in> set pubs \<and> map_of want q = None then None else kpeers k q)"
  using assms
proof (induction e dev want pubs n w arbitrary: k rule: remove_loop.induct)
  case (2 e dev want pub pubs n w)
  show ?case
  proof (cases "map_of want pub")
    case (Some v)
    with 2 show ?thesis by (auto simp: fun_eq_iff)
  next
    case None
    obtain w1 out err where w1: "Run e (remove_cmd dev pub) w = (w1, out, err)"
      by (cases "Run e (remove_cmd dev pub) w")
    with 2(3) None have r: "err = None" "remove_loop e dev want pubs (Suc n) w1 = (w', Inr m)"
      by (cases err; simp)+
    from extends_trans [of w w1 w'] Run_trace [OF w1] remove_loop_wg [OF r(2)]
    have "new w w' = Ran (remove_cmd dev pub) out None # new w1 w'" by (simp add: wg_step_def r)
    with 2(2) [OF _ w1 [symmetric] refl r(1) r(2)] None show ?thesis
      by (auto simp: fun_eq_iff remove_cmd_def wg_cmd_def)
  qed
qed simp

section \<open>The wanted peers\<close>

definition wanted :: "Peer \<Rightarrow> bool" where
  "wanted p \<longleftrightarrow> PublicKey p \<noteq> [] \<and> (IPv4 p \<noteq> [] \<or> IPv6 p \<noteq> [])"
definition wanted_value :: "Peer \<Rightarrow> string" where
  "wanted_value p = join '','' (allowed_ips p) @ ''|'' @ PSK p"

lemma allowed_ips_Nil: "allowed_ips p = [] \<longleftrightarrow> IPv4 p = [] \<and> IPv6 p = []"
  by (simp add: allowed_ips_def flip: set_empty)

lemma want_of_snoc: "want_of (ps @ [p]) =
  (if wanted p then AList.update (PublicKey p) (wanted_value p) (want_of ps) else want_of ps)"
  by (auto simp: want_of_def wanted_def wanted_value_def allowed_ips_Nil)

lemma psks_of_snoc: "psks_of (ps @ [p]) =
  (if PSK p \<noteq> [] then AList.update (PublicKey p) (PSK p) (psks_of ps) else psks_of ps)"
  by (simp add: psks_of_def)

lemma want_of_iff:
  "distinct (map PublicKey ps) \<Longrightarrow>
     map_of (want_of ps) pub = Some v \<longleftrightarrow> (\<exists>p \<in> set ps. wanted p \<and> PublicKey p = pub \<and> v = wanted_value p)"
proof (induction ps rule: rev_induct)
  case Nil
  show ?case by (simp add: want_of_def)
next
  case (snoc p ps)
  then show ?case by (auto simp: want_of_snoc update_conv' image_iff)
qed

lemma psks_of_iff:
  "distinct (map PublicKey ps) \<Longrightarrow>
     map_of (psks_of ps) pub = Some v \<longleftrightarrow> (\<exists>p \<in> set ps. PSK p \<noteq> [] \<and> PublicKey p = pub \<and> v = PSK p)"
proof (induction ps rule: rev_induct)
  case Nil
  show ?case by (simp add: psks_of_def)
next
  case (snoc p ps)
  then show ?case by (auto simp: psks_of_snoc update_conv' image_iff)
qed

lemma distinct_want: "distinct (map fst (want_of ps))"
  by (induction ps rule: rev_induct) (auto simp: want_of_snoc distinct_update, simp add: want_of_def)

lemma distinct_dump: "distinct (map fst (parse_dump out))"
proof -
  have "distinct (map fst (foldl dump_line m ls))" if "distinct (map fst m)" for m ls
    using that by (induction ls arbitrary: m) (auto simp: dump_line_def Let_def distinct_update)
  then show ?thesis by (simp add: parse_dump_def)
qed

lemma dump_values: "v \<in> snd ` set (parse_dump out) \<Longrightarrow> v \<noteq> []"
proof -
  have "\<forall>v \<in> ran (map_of (foldl dump_line m ls)). v \<noteq> []" if "\<forall>v \<in> ran (map_of m). v \<noteq> []" for m ls
    using that
  proof (induction ls arbitrary: m)
    case (Cons l ls)
    have "\<forall>v \<in> ran (map_of (dump_line m l)). v \<noteq> []"
      using Cons.prems by (auto simp: dump_line_def Let_def update_conv' ran_def split: if_splits)
    from Cons.IH [OF this] show ?case by simp
  qed simp
  from this [of "[]"] have "\<forall>v \<in> ran (map_of (parse_dump out)). v \<noteq> []"
    unfolding parse_dump_def by simp
  then show "v \<in> snd ` set (parse_dump out) \<Longrightarrow> v \<noteq> []" using ran_distinct [OF distinct_dump] by metis
qed

lemma mapsEqual_map_of:
  assumes "mapsEqual a b" "distinct (map fst a)" "distinct (map fst b)" "\<forall>v \<in> snd ` set a. v \<noteq> []"
  shows "map_of a = map_of b"
proof -
  have sub: "map_of a \<subseteq>\<^sub>m map_of b"
  unfolding map_le_def
  proof (intro ballI)
    fix k assume "k \<in> dom (map_of a)"
    then obtain v where kv: "map_of a k = Some v" by blast
    then have "(k, v) \<in> set a" by (rule map_of_SomeD)
    with assms(1,4) have "mget b k = v" "v \<noteq> []" by (force simp: mapsEqual_def)+
    then show "map_of a k = map_of b k" by (simp add: kv mget_def split: option.splits)
  qed
  have "card (dom (map_of a)) = card (dom (map_of b))"
    using assms(1-3) by (simp add: dom_map_of_conv_image_fst card_image distinct_map distinct_card mapsEqual_def)
  with map_le_implies_dom_le [OF sub] have d: "dom (map_of a) = dom (map_of b)"
    by (intro card_subset_eq) (simp_all add: finite_dom_map_of)
  show ?thesis
  proof
    fix k show "map_of a k = map_of b k"
      using sub d unfolding map_le_def by (metis domIff)
  qed
qed

lemma join_no_bar: "\<forall>x \<in> set xs. CHR ''|'' \<notin> set x \<Longrightarrow> CHR ''|'' \<notin> set (join '','' xs)"
  by (induction "'',''" xs rule: join.induct) auto

lemma want_split:
  assumes "distinct (map PublicKey ps)" "map_of (want_of ps) q = Some v"
    and "\<forall>p \<in> set ps. CHR ''|'' \<notin> set (IPv4 p) \<and> CHR ''|'' \<notin> set (IPv6 p)"
  shows "before_bar v @ ''|'' @ mget (psks_of ps) q = v \<and> v \<noteq> []"
proof -
  from assms(1,2) want_of_iff obtain p where p: "p \<in> set ps" "PublicKey p = q" "v = wanted_value p" by blast
  have "mget (psks_of ps) q = PSK p"
  proof (cases "PSK p = []")
    case False
    with p assms(1) have "map_of (psks_of ps) q = Some (PSK p)" by (subst psks_of_iff) auto
    then show ?thesis by (simp add: mget_def)
  next
    case True
    have "map_of (psks_of ps) q \<noteq> Some x" for x
      using True p assms(1) by (auto simp: psks_of_iff distinct_map inj_on_def)
    with True show ?thesis by (auto simp: mget_def split: option.split)
  qed
  moreover have "CHR ''|'' \<notin> set (join '','' (allowed_ips p))"
    by (rule join_no_bar) (use assms(3) p(1) in \<open>auto simp: allowed_ips_def\<close>)
  ultimately show ?thesis using p by (simp add: wanted_value_def)
qed

text \<open>
  C29. A cycle that applies the peers without an error converges: on a kernel that behaves as wg(8)
  says and whose peers are what \<open>wg show dump\<close> reported, the commands of the cycle leave exactly the
  peers the controller wants, each with its own tunnel addresses and its own pre-shared key (none
  when the controller gives none).
\<close>

theorem applyPeers_converges:
  assumes "applyPeers e peers s w = (s', w', None)" "temp_ok e" "\<And>ks. set (order e ks) = set ks"
    and "currentPeers e s w = (w1, Inr have)" "kpeers k = map_of have"
    and "distinct (map PublicKey peers)"
    and "\<forall>p \<in> set peers. CHR ''|'' \<notin> set (IPv4 p) \<and> CHR ''|'' \<notin> set (IPv6 p)
           \<and> char_of (10 :: nat) \<notin> set (PSK p)"
  shows "kpeers (after (new w1 w') k) pub = Some v \<longleftrightarrow>
     (\<exists>p \<in> set peers. wanted p \<and> PublicKey p = pub \<and> v = wanted_value p)"
proof -
  have dump: "\<exists>out. have = parse_dump out"
    using assms(4) by (auto simp: currentPeers_def split: prod.splits option.splits)
  have nl: "char_of (10 :: nat) \<notin> set psk" if "map_of (psks_of peers) q = Some psk" for q psk
    using that assms(7) by (auto simp: psks_of_iff [OF assms(6)])
  have "kpeers (after (new w1 w') k) = map_of (want_of peers)"
    using assms(1)
  proof (cases rule: applyPeers_cases)
    case quiet
    with assms(4) have w: "w' = w1" "mapsEqual have (want_of peers)" by simp_all
    obtain out where "have = parse_dump out" using dump by blast
    with mapsEqual_map_of [OF w(2) _ distinct_want] distinct_dump dump_values
    have "map_of have = map_of (want_of peers)" by blast
    with assms(5) w show ?thesis by simp
  next
    case (removed w1' have' w2 n r')
    with assms(4) have h: "w1' = w1" "have' = have" by simp_all
    obtain m where m: "r' = Inr m" using removed(4) by (cases r') auto
    note l = removed(2) [unfolded h] and r = removed(3) [unfolded h m]
    have "new w1 w' = new w1 w2 @ new w2 w'"
      using set_loop_wg [OF l] remove_loop_wg [OF r] extends_trans [of w1 w2 w'] by (simp add: wg_step_def)
    moreover have sets: "kpeers (after (new w1 w2) k) = (\<lambda>q.
        if q \<in> set (order e (map fst (want_of peers))) \<and> mget have q \<noteq> mget (want_of peers) q
        then Some (before_bar (mget (want_of peers) q) @ ''|'' @ mget (psks_of peers) q) else kpeers k q)"
      by (rule set_loop_effect [OF l assms(2)]) (rule nl)
    ultimately have "kpeers (after (new w1 w') k) = (\<lambda>q. if q \<in> fst ` set have \<and> map_of (want_of peers) q = None
        then None else if q \<in> fst ` set (want_of peers) \<and> mget have q \<noteq> mget (want_of peers) q
        then Some (before_bar (mget (want_of peers) q) @ ''|'' @ mget (psks_of peers) q) else map_of have q)"
      by (simp add: remove_loop_effect [OF r] sets assms(3,5) cong: if_cong)
    also have "\<dots> = map_of (want_of peers)"
    proof
      fix q
      show "(if q \<in> fst ` set have \<and> map_of (want_of peers) q = None
        then None else if q \<in> fst ` set (want_of peers) \<and> mget have q \<noteq> mget (want_of peers) q
        then Some (before_bar (mget (want_of peers) q) @ ''|'' @ mget (psks_of peers) q) else map_of have q)
        = map_of (want_of peers) q"
      proof (cases "map_of (want_of peers) q")
        case None
        then have "q \<notin> fst ` set (want_of peers)" by (simp add: map_of_eq_None_iff)
        moreover have "q \<notin> fst ` set have \<Longrightarrow> map_of have q = None" by (simp add: map_of_eq_None_iff)
        ultimately show ?thesis using None by simp
      next
        case (Some v)
        then have "q \<in> fst ` set (want_of peers)" by (force dest: map_of_SomeD)
        moreover have "before_bar v @ ''|'' @ mget (psks_of peers) q = v \<and> v \<noteq> []"
          using want_split [OF assms(6) Some] assms(7) by simp
        ultimately show ?thesis using Some by (auto simp: mget_def split: option.splits)
      qed
    qed
    finally show ?thesis .
  qed simp_all
  then show ?thesis by (simp add: want_of_iff [OF assms(6)])
qed

section \<open>A concrete cycle\<close>

definition wire_phone :: peerWire where
  "wire_phone = \<lparr>w_device_id = ''dev-b'', w_public_key = ''pkB'', w_psk = ''secret'', w_ipv4 = ''10.8.0.2'',
     w_ipv6 = [], w_status = ''active'', w_policy_bound = False, w_dest_cidrs = [], w_rules = [],
     w_rewrites = [], w_nat_cidrs = []\<rparr>"

definition tab :: string where "tab = [char_of (9 :: nat)]"

definition old_dump :: string where
  "old_dump = ''wg0'' @ nl @ ''pkOld'' @ tab @ ''(none)'' @ tab @ tab @ ''10.8.0.9/32''"

definition demo_env :: "unit env" where
  "demo_env = \<lparr>runner = (\<lambda>c w. (w, if cmd_args c = [''show'', ''wg0'', ''dump''] then old_dump else [], None)),
     http_do = (\<lambda>r w. (w, Inr (200, ''body''))), decode = (\<lambda>b. Inr [wire_phone]),
     sha256_hex = (\<lambda>t. ''hash''), create_temp = (\<lambda>w. (w, Inr ''/tmp/wgpsk-1'')),
     write_temp = (\<lambda>f t w. (w, None)), clock = (\<lambda>w. 5 * second), order = (\<lambda>ks. ks)\<rparr>"

definition agent0 :: Syncer where
  "agent0 = \<lparr>ControllerURL = ''http://c/'', NodeToken = ''t'', WGIface = [], LogDeniedFlag = False, Interval = 0,
     lastRulesHash = [], lastPeerSet = [],
     stats = \<lparr>Polls = 0, PollErrors = 0, RuleApplies = 0, PeerApplies = 0, ApplyErrors = 0,
       LastSyncUnix = 0, PeerCount = 0\<rparr>\<rparr>"

definition world0 :: "unit world" where "world0 = \<lparr>inner = (), trace = []\<rparr>"

definition old_line :: string where
  "old_line = ''pkOld'' @ tab @ ''(none)'' @ tab @ tab @ ''10.8.0.9/32''"

lemma demo_trim: "trim_space old_dump = old_dump" "trim_space old_line = old_line"
  by (rule trim_space_plain, simp add: old_dump_def old_line_def plain_char_def)+

lemma demo_lines: "split_on (char_of (10 :: nat)) old_dump = [''wg0'', old_line]"
  by code_simp

lemma demo_dump_line: "dump_line [] old_line = [(''pkOld'', ''10.8.0.9/32|'')]"
  by code_simp+

lemma demo_dump: "parse_dump old_dump = [(''pkOld'', ''10.8.0.9/32|'')]"
  by (simp add: parse_dump_def demo_trim demo_lines demo_dump_line)

lemma demo_want: "want_of [peer_of_wire wire_phone] = [(''pkB'', ''10.8.0.2/32|secret'')]"
  by code_simp

lemma demo_psks: "psks_of [peer_of_wire wire_phone] = [(''pkB'', ''secret'')]"
  by code_simp

lemma demo_bar: "before_bar ''10.8.0.2/32|secret'' = ''10.8.0.2/32''"
  by code_simp

lemma demo_line: "char_of (10 :: nat) \<notin> set ''secret''"
  by code_simp

lemmas demo_values = demo_dump demo_want demo_psks demo_line demo_bar

lemma demo_env_sel [simp]:
  "runner demo_env c w = (w, if cmd_args c = [''show'', ''wg0'', ''dump''] then old_dump else [], None)"
  "http_do demo_env r w = (w, Inr (200, ''body''))" "decode demo_env b = Inr [wire_phone]"
  "sha256_hex demo_env t = ''hash''" "create_temp demo_env w = (w, Inr ''/tmp/wgpsk-1'')"
  "write_temp demo_env f t w = (w, None)" "order demo_env ks = ks"
  by (simp_all add: demo_env_def)

lemma demo_apply:
  assumes "WGIface s = ''wg0''" "lastPeerSet s = []"
  shows "\<exists>w'. currentPeers demo_env s w = (w', Inr (parse_dump old_dump))"
    "\<exists>s' w'. applyPeers demo_env [peer_of_wire wire_phone] s w = (s', w', None)
       \<and> list_ex (\<lambda>ev. case ev of Ran c _ _ \<Rightarrow> cmd_name c = ''wg'' | _ \<Rightarrow> False) (new w w')"
  using assms
  by (simp_all add: applyPeers_def currentPeers_def Run_def Let_def demo_values mapsEqual_def mget_def
      set_peer_def write_psk_def unlink_def set_cmd_def remove_cmd_def wg_cmd_def new_def)

lemma demo_rules:
  assumes "lastRulesHash s = []"
  shows "\<exists>s' w'. applyRules demo_env ps s w = (s', w', None) \<and> WGIface s' = WGIface s \<and> lastPeerSet s' = lastPeerSet s
    \<and> (\<exists>evs. trace w' = trace w @ evs)"
  using assms by (simp add: applyRules_def Let_def Run_def)

lemma demo_cycle:
  "\<exists>s' w'. SyncOnce demo_env agent0 world0 = (s', w', None)
     \<and> list_ex (\<lambda>ev. case ev of Ran c _ _ \<Rightarrow> cmd_name c = ''wg'' | _ \<Rightarrow> False) (new world0 w')"
proof -
  have f: "fetchPeers demo_env (ensureDefaults agent0) world0 = (world0, Inr [wire_phone])"
    by (simp add: fetchPeers_def Let_def)
  define s2 where "s2 = (ensureDefaults agent0)\<lparr>stats := (stats (ensureDefaults agent0))
      \<lparr>Polls := Polls (stats (ensureDefaults agent0)) + 1, PeerCount := length [wire_phone]\<rparr>\<rparr>"
  have s2: "lastRulesHash s2 = []" "WGIface s2 = ''wg0''" "lastPeerSet s2 = []"
    by (simp_all add: s2_def ensureDefaults_def agent0_def)
  obtain s3 w2 evs where r: "applyRules demo_env [peer_of_wire wire_phone] s2 world0 = (s3, w2, None)"
      "WGIface s3 = ''wg0''" "lastPeerSet s3 = []" "trace w2 = trace world0 @ evs"
    using demo_rules [OF s2(1), of "[peer_of_wire wire_phone]" world0] s2 by auto
  obtain s4 w3 where p: "applyPeers demo_env [peer_of_wire wire_phone] s3 w2 = (s4, w3, None)"
      "list_ex (\<lambda>ev. case ev of Ran c _ _ \<Rightarrow> cmd_name c = ''wg'' | _ \<Rightarrow> False) (new w2 w3)"
    using demo_apply(2) [OF r(2,3), of w2] by blast
  have "SyncOnce demo_env agent0 world0 = (s4\<lparr>stats := (stats s4)
      \<lparr>LastSyncUnix := clock demo_env (inner w3) div second\<rparr>\<rparr>, w3, None)"
    using r(1) p(1) by (simp add: SyncOnce_def f s2_def [symmetric, simplified] Let_def)
  moreover have "set (new w2 w3) \<subseteq> set (new world0 w3)"
    using r(4) by (auto simp: new_def world0_def set_drop_subset [THEN subsetD])
  ultimately show ?thesis using p(2) by (auto simp: list_ex_iff)
qed

lemma demo_start: "agent_run demo_env agent0 world0"
  by (rule agent_run.start) (simp_all add: agent0_def world0_def)

theorem cached_hash_is_loaded_witness:
  "\<exists>s w. agent_run demo_env s w \<and> trace w \<noteq> [] \<and>
     lastRulesHash s = cached demo_env (loaded_script None (trace w))"
proof -
  obtain s' w' r where c: "SyncOnce demo_env agent0 world0 = (s', w', r)" "new world0 w' \<noteq> []"
    using demo_cycle by fastforce
  then have "trace w' \<noteq> []" by (auto simp: new_def)
  moreover from agent_run.cycle [OF demo_start c(1)] have "agent_run demo_env s' w'" .
  ultimately show ?thesis using cached_hash_is_loaded [of demo_env s' w'] by blast
qed

theorem rules_before_peers_witness:
  "\<exists>s' w' r pre evs. SyncOnce demo_env agent0 world0 = (s', w', r) \<and> new world0 w' = pre @ evs
     \<and> list_all wg_event evs \<and> list_ex (\<lambda>ev. case ev of Ran c _ _ \<Rightarrow> True | _ \<Rightarrow> False) evs"
proof -
  obtain s' w' ev where c: "SyncOnce demo_env agent0 world0 = (s', w', None)" "ev \<in> set (new world0 w')"
      "case ev of Ran c _ _ \<Rightarrow> cmd_name c = ''wg'' | _ \<Rightarrow> False"
    using demo_cycle unfolding list_ex_iff by blast
  then obtain cm out x where m: "Ran cm out x \<in> set (new world0 w')" "cmd_name cm = ''wg''"
    by (cases ev) auto
  have "sha256_hex demo_env t \<noteq> []" for t by simp
  from rules_before_peers [OF demo_start this c(1) m] obtain w1 ps pre evs where
    p: "new world0 w' = pre @ evs" "list_all wg_event evs"
      "pre = [] \<or> (\<exists>script out. pre = [Ran (nft_cmd script) out None])"
    by (auto simp: Let_def)
  with m have "Ran cm out x \<in> set evs" by (auto simp: nft_cmd_def)
  then have "list_ex (\<lambda>ev. case ev of Ran c _ _ \<Rightarrow> True | _ \<Rightarrow> False) evs" by (force simp: list_ex_iff)
  with c(1) p show ?thesis by blast
qed

definition demo_kernel :: kernel where
  "demo_kernel = \<lparr>kfiles = (\<lambda>_. None), kpeers = map_of (parse_dump old_dump)\<rparr>"

theorem applyPeers_converges_witness:
  "\<exists>s' w' w1. applyPeers demo_env [peer_of_wire wire_phone] (ensureDefaults agent0) world0 = (s', w', None)
     \<and> kpeers (after (new w1 w') demo_kernel) ''pkB'' = Some ''10.8.0.2/32|secret''"
proof -
  obtain w1 where w1: "currentPeers demo_env (ensureDefaults agent0) world0 = (w1, Inr (parse_dump old_dump))"
    using demo_apply(1) [of "ensureDefaults agent0" world0] by (auto simp: ensureDefaults_def agent0_def)
  obtain s' w' where w': "applyPeers demo_env [peer_of_wire wire_phone] (ensureDefaults agent0) world0 = (s', w', None)"
    using demo_apply(2) [of "ensureDefaults agent0" world0] by (auto simp: ensureDefaults_def agent0_def)
  have t: "temp_ok demo_env" "\<And>ks. set (order demo_env ks) = set ks"
    by (simp_all add: temp_ok_def demo_env_def DevNull_def)
  have v: "wanted_value (peer_of_wire wire_phone) = ''10.8.0.2/32|secret''" by code_simp
  have "kpeers (after (new w1 w') demo_kernel) ''pkB'' = Some ''10.8.0.2/32|secret''"
    by (subst applyPeers_converges [OF w' t(1) t(2) w1])
      (use v demo_line in \<open>simp_all add: demo_kernel_def peer_of_wire_def wire_phone_def wanted_def\<close>)
  with w' show ?thesis by blast
qed

end
