(* ===== verification/DataPlane.thy ===== *)
theory DataPlane
  imports NetIP "HOL-Library.AList"
begin

text \<open>
  \<open>server/internal/dataplane\<close>: the in-memory WireGuard engine (engine.go) and the agent that
  reconciles it with the controller (sync.go).  The interface \<open>Engine\<close> is the locale
  \<open>wg_engine\<close>; the agent's lemmas are proved in it and the interpretation on the memory
  engine discharges its laws.  A map of peers is an association list with distinct keys; an expired
  or cancelled context is its error, an argument of each call.
\<close>

section \<open>Configurations and states\<close>

type_synonym key = bytes
type_synonym ctx = "string option" \<comment> \<open>\<open>ctx.Err()\<close>\<close>

record PeerConfig =
  cfg_key :: key
  cfg_psk :: key
  cfg_allowed :: "prefix list"
  cfg_keepalive :: "32 word"

record DeviceConfig =
  dc_private :: key
  dc_port :: int
  dc_peers :: "PeerConfig list"
  dc_replace :: bool

record PeerState =
  ps_key :: key
  ps_handshake :: time
  ps_rx :: "64 word"
  ps_tx :: "64 word"
  ps_endpoint :: string

record DeviceState =
  ds_key :: key
  ds_peers :: "PeerState list"

datatype engine_error = CtxErr string | ErrNoDevice | PeerNotFound

record memoryPeer =
  psk :: key
  allowedIPs :: "prefix list"
  persistentKeepalive :: "32 word"
  rxBytes :: "64 word"
  txBytes :: "64 word"
  lastHandshake :: time
  endpoint :: string

record memoryDev =
  dev_key :: key
  listenPort :: int
  peers :: "(key \<times> memoryPeer) list"

type_synonym MemoryEngine = "string \<Rightarrow> memoryDev option"

definition NewMemoryEngine :: MemoryEngine where "NewMemoryEngine = (\<lambda>_. None)"

definition zero_peer :: memoryPeer where
  "zero_peer = \<lparr>psk = replicate 32 0, allowedIPs = [], persistentKeepalive = 0, rxBytes = 0, txBytes = 0,
     lastHandshake = zero_time, endpoint = []\<rparr>"

text \<open>Both branches of \<open>Configure\<close> write the configured fields; they differ in the peers kept.\<close>

definition configured :: "memoryPeer \<Rightarrow> PeerConfig \<Rightarrow> memoryPeer" where
  "configured m p = m\<lparr>psk := cfg_psk p, allowedIPs := cfg_allowed p, persistentKeepalive := cfg_keepalive p\<rparr>"

definition existing :: "(key \<times> memoryPeer) list \<Rightarrow> key \<Rightarrow> memoryPeer" where
  "existing ps k = (case map_of ps k of None \<Rightarrow> zero_peer | Some m \<Rightarrow> m)"

definition Configure :: "ctx \<Rightarrow> string \<Rightarrow> DeviceConfig \<Rightarrow> MemoryEngine \<Rightarrow> MemoryEngine \<times> engine_error option" where
  "Configure c dev cfg e = (case c of
     Some err \<Rightarrow> (e, Some (CtxErr err))
   | None \<Rightarrow>
      (let d0 = (case e dev of None \<Rightarrow> \<lparr>dev_key = replicate 32 0, listenPort = 0, peers = []\<rparr> | Some d \<Rightarrow> d);
           d1 = d0\<lparr>dev_key := dc_private cfg, listenPort := dc_port cfg\<rparr>;
           ps = (if dc_replace cfg
             then foldl (\<lambda>new p. AList.update (cfg_key p) (configured (existing (peers d0) (cfg_key p)) p) new)
                    [] (dc_peers cfg)
             else foldl (\<lambda>old p. AList.update (cfg_key p) (configured (existing old (cfg_key p)) p) old)
                    (peers d0) (dc_peers cfg))
       in (e(dev \<mapsto> d1\<lparr>peers := ps\<rparr>), None)))"

definition peer_state :: "key \<times> memoryPeer \<Rightarrow> PeerState" where
  "peer_state = (\<lambda>(k, p). \<lparr>ps_key = k, ps_handshake = lastHandshake p, ps_rx = rxBytes p, ps_tx = txBytes p,
     ps_endpoint = endpoint p\<rparr>)"

definition Read :: "ctx \<Rightarrow> string \<Rightarrow> MemoryEngine \<Rightarrow> engine_error + DeviceState" where
  "Read c dev e = (case c of
     Some err \<Rightarrow> Inl (CtxErr err)
   | None \<Rightarrow> (case e dev of
        None \<Rightarrow> Inl ErrNoDevice
      | Some d \<Rightarrow> Inr \<lparr>ds_key = dev_key d, ds_peers = map peer_state (peers d)\<rparr>))"

definition InjectTelemetry :: "string \<Rightarrow> key \<Rightarrow> 64 word \<Rightarrow> 64 word \<Rightarrow> time \<Rightarrow> string \<Rightarrow> MemoryEngine
    \<Rightarrow> MemoryEngine \<times> engine_error option" where
  "InjectTelemetry dev k rx tx hs ep e = (case e dev of
     None \<Rightarrow> (e, Some ErrNoDevice)
   | Some d \<Rightarrow> (case map_of (peers d) k of
        None \<Rightarrow> (e, Some PeerNotFound)
      | Some p \<Rightarrow> (e(dev \<mapsto> d\<lparr>peers := AList.update k
            (p\<lparr>rxBytes := rx, txBytes := tx, lastHandshake := hs, endpoint := ep\<rparr>) (peers d)\<rparr>), None)))"

definition PeerCount :: "string \<Rightarrow> MemoryEngine \<Rightarrow> nat" where
  "PeerCount dev e = (case e dev of None \<Rightarrow> 0 | Some d \<Rightarrow> length (peers d))"

section \<open>The agent\<close>

record SyncPeersResult =
  res_version :: string
  res_peers :: "PeerConfig list"
  res_not_modified :: bool

record ReportSessionStat =
  st_key :: key
  st_handshake :: time
  st_rx :: "64 word"
  st_tx :: "64 word"
  st_mode :: string

record AgentConfig =
  ac_device :: string
  ac_private :: key
  ac_port :: int
  ac_interval :: time

definition NewAgentConfig :: "AgentConfig \<Rightarrow> AgentConfig" where
  "NewAgentConfig c = (if ac_interval c = 0 then c\<lparr>ac_interval := 30 * second\<rparr> else c)"

record Agent =
  currentVersion :: string
  syncCount :: "64 word"
  applyCount :: "64 word"
  reportCount :: "64 word"
  syncErrors :: "64 word"

definition NewAgent :: Agent where
  "NewAgent = \<lparr>currentVersion = [], syncCount = 0, applyCount = 0, reportCount = 0, syncErrors = 0\<rparr>"

text \<open>
  The two interfaces the agent is given: the engine and the controller.  A controller call may
  fail, and its answer depends on a world of its own.
\<close>

record 'e engine_ops =
  op_configure :: "ctx \<Rightarrow> string \<Rightarrow> DeviceConfig \<Rightarrow> 'e \<Rightarrow> 'e \<times> engine_error option"
  op_read :: "ctx \<Rightarrow> string \<Rightarrow> 'e \<Rightarrow> engine_error + DeviceState"

record 'w controller =
  SyncPeers :: "string \<Rightarrow> 'w \<Rightarrow> 'w \<times> (string + SyncPeersResult)"
  ReportSessions :: "ReportSessionStat list \<Rightarrow> 'w \<Rightarrow> 'w \<times> (string + nat \<times> nat)"

definition session_stats :: "DeviceState \<Rightarrow> ReportSessionStat list" where
  "session_stats st = [\<lparr>st_key = ps_key p, st_handshake = ps_handshake p, st_rx = ps_rx p, st_tx = ps_tx p,
     st_mode = []\<rparr>. p \<leftarrow> ds_peers st, ps_handshake p \<noteq> zero_time]"

definition report_step :: "'e engine_ops \<Rightarrow> 'w controller \<Rightarrow> AgentConfig \<Rightarrow> ctx \<Rightarrow> Agent \<times> 'e \<times> 'w \<Rightarrow> Agent \<times> 'e \<times> 'w" where
  "report_step ops ctl cfg c3 s = (case s of (a, e, w) \<Rightarrow>
     (case op_read ops c3 (ac_device cfg) e of
        Inl _ \<Rightarrow> (a, e, w)
      | Inr st \<Rightarrow>
          if ds_peers st = [] \<or> session_stats st = [] then (a, e, w)
          else case ReportSessions ctl (session_stats st) w of
            (w', Inl _) \<Rightarrow> (a, e, w')
          | (w', Inr _) \<Rightarrow> (a\<lparr>reportCount := reportCount a + 1\<rparr>, e, w')))"

definition reconcile :: "'e engine_ops \<Rightarrow> 'w controller \<Rightarrow> AgentConfig \<Rightarrow> ctx \<Rightarrow> ctx \<Rightarrow> Agent \<times> 'e \<times> 'w \<Rightarrow> Agent \<times> 'e \<times> 'w" where
  "reconcile ops ctl cfg c2 c3 s = (case s of (a0, e, w) \<Rightarrow>
     (let a = a0\<lparr>syncCount := syncCount a0 + 1\<rparr> in
      case SyncPeers ctl (currentVersion a) w of
        (w1, Inl _) \<Rightarrow> (a\<lparr>syncErrors := syncErrors a + 1\<rparr>, e, w1)
      | (w1, Inr res) \<Rightarrow>
          if res_not_modified res then report_step ops ctl cfg c3 (a, e, w1)
          else case op_configure ops c2 (ac_device cfg)
              \<lparr>dc_private = ac_private cfg, dc_port = ac_port cfg, dc_peers = res_peers res, dc_replace = True\<rparr> e of
            (e1, Some _) \<Rightarrow> (a, e1, w1)
          | (e1, None) \<Rightarrow> report_step ops ctl cfg c3
              (a\<lparr>applyCount := applyCount a + 1, currentVersion := res_version res\<rparr>, e1, w1)))"

definition CurrentVersion :: "Agent \<Rightarrow> string" where "CurrentVersion a = currentVersion a"

definition AgentStats :: "Agent \<Rightarrow> 64 word \<times> 64 word \<times> 64 word \<times> 64 word" where
  "AgentStats a = (syncCount a, applyCount a, reportCount a, syncErrors a)"

section \<open>The engine interface\<close>

text \<open>
  What the agent relies on: a failed \<open>Configure\<close> changes nothing; with \<open>ReplacePeers\<close> the device
  holds exactly the listed peers, and a peer that was there keeps its telemetry; other devices are
  left alone.  \<open>traffic\<close> is what the kernel does by itself: it changes telemetry, never the peers.
\<close>

definition peer_keys :: "DeviceState \<Rightarrow> key set" where "peer_keys st = ps_key ` set (ds_peers st)"

locale wg_engine =
  fixes ops :: "'e engine_ops" and traffic :: "'e \<Rightarrow> 'e \<Rightarrow> bool"
  assumes configure_failed: "op_configure ops c dev cfg e = (e', Some x) \<Longrightarrow> e' = e"
    and configure_replace: "op_configure ops c dev cfg e = (e', None) \<Longrightarrow> dc_replace cfg \<Longrightarrow>
      \<exists>st. op_read ops None dev e' = Inr st \<and> peer_keys st = cfg_key ` set (dc_peers cfg)"
    and configure_other: "op_configure ops c dev cfg e = (e', r) \<Longrightarrow> dev' \<noteq> dev \<Longrightarrow>
      op_read ops None dev' e' = op_read ops None dev' e"
    and traffic_keys: "traffic e e' \<Longrightarrow> op_read ops None dev e = Inr st \<Longrightarrow>
      \<exists>st'. op_read ops None dev e' = Inr st' \<and> peer_keys st' = peer_keys st"
begin

text \<open>The set of peers a device holds, as a reader sees it.\<close>

definition holds :: "string \<Rightarrow> 'e \<Rightarrow> key set \<Rightarrow> bool" where
  "holds dev e K \<longleftrightarrow> (\<exists>st. op_read ops None dev e = Inr st \<and> peer_keys st = K)"

lemma report_engine: "report_step ops ctl cfg c3 (a, e, w) = (a', e', w') \<Longrightarrow>
    e' = e \<and> currentVersion a' = currentVersion a \<and> applyCount a' = applyCount a"
  by (auto simp: report_step_def split: sum.splits prod.splits if_splits)

lemma reconcile_cases:
  assumes "reconcile ops ctl cfg c2 c3 (a, e, w) = (a', e', w')"
  shows "(e' = e \<and> currentVersion a' = currentVersion a \<and> applyCount a' = applyCount a) \<or>
    (\<exists>w1 res. SyncPeers ctl (currentVersion a) w = (w1, Inr res) \<and> \<not> res_not_modified res
       \<and> currentVersion a' = res_version res \<and> applyCount a' = applyCount a + 1
       \<and> holds (ac_device cfg) e' (cfg_key ` set (res_peers res)))"
proof -
  let ?a = "a\<lparr>syncCount := syncCount a + 1\<rparr>"
  obtain w1 r where s: "SyncPeers ctl (currentVersion a) w = (w1, r)" by fastforce
  show ?thesis
  proof (cases r)
    case (Inl x)
    with s assms show ?thesis by (auto simp: reconcile_def)
  next
    case (Inr res)
    let ?cfg = "\<lparr>dc_private = ac_private cfg, dc_port = ac_port cfg, dc_peers = res_peers res, dc_replace = True\<rparr>"
    obtain e1 x where c: "op_configure ops c2 (ac_device cfg) ?cfg e = (e1, x)" by fastforce
    show ?thesis
    proof (cases "res_not_modified res")
      case True
      with s Inr assms have "report_step ops ctl cfg c3 (?a, e, w1) = (a', e', w')"
        by (simp add: reconcile_def)
      from report_engine [OF this] show ?thesis by simp
    next
      case mod: False
      show ?thesis
      proof (cases x)
        case None
        with s Inr mod c assms have "report_step ops ctl cfg c3
            (?a\<lparr>applyCount := applyCount a + 1, currentVersion := res_version res\<rparr>, e1, w1) = (a', e', w')"
          by (simp add: reconcile_def)
        from report_engine [OF this] s Inr mod configure_replace [OF c [unfolded None]] show ?thesis
          by (auto simp: holds_def)
      next
        case (Some err)
        with s Inr mod c assms configure_failed [of c2 "ac_device cfg" ?cfg e e1 err] show ?thesis
          by (auto simp: reconcile_def)
      qed
    qed
  qed
qed

lemma traffic_holds: "traffic e e' \<Longrightarrow> holds dev e K \<Longrightarrow> holds dev e' K"
  using traffic_keys unfolding holds_def by metis

end

section \<open>The memory engine provides the interface\<close>

definition mem_ops :: "MemoryEngine engine_ops" where
  "mem_ops = \<lparr>op_configure = Configure, op_read = Read\<rparr>"

definition mem_traffic :: "MemoryEngine \<Rightarrow> MemoryEngine \<Rightarrow> bool" where
  "mem_traffic e e' \<longleftrightarrow> (\<exists>dev k rx tx hs ep. e' = fst (InjectTelemetry dev k rx tx hs ep e))"

lemma keys_peer_states: "ps_key ` set (map peer_state ps) = fst ` set ps"
  by (force simp: peer_state_def image_iff)

lemma replaced_keys:
  "fst ` set (foldl (\<lambda>new p. AList.update (cfg_key p) (f new p) new) m ps) = cfg_key ` set ps \<union> fst ` set m"
  by (induction ps arbitrary: m) (auto simp: dom_update)

lemma update_same_keys: "map_of ps k \<noteq> None \<Longrightarrow> fst ` set (AList.update k v ps) = fst ` set ps"
  by (auto simp: dom_update map_of_eq_None_iff)

interpretation mem: wg_engine mem_ops mem_traffic
proof
  fix c dev cfg e e' x
  show "op_configure mem_ops c dev cfg e = (e', Some x) \<Longrightarrow> e' = e"
    by (auto simp: mem_ops_def Configure_def Let_def split: option.splits)
next
  fix c dev cfg e e'
  assume "op_configure mem_ops c dev cfg e = (e', None)" "dc_replace cfg"
  then obtain d where "e' dev = Some d" "fst ` set (peers d) = cfg_key ` set (dc_peers cfg)"
    by (cases c) (auto simp del: set_map simp: mem_ops_def Configure_def Let_def replaced_keys)
  then show "\<exists>st. op_read mem_ops None dev e' = Inr st \<and> peer_keys st = cfg_key ` set (dc_peers cfg)"
    by (simp del: set_map add: mem_ops_def Read_def peer_keys_def keys_peer_states)
next
  fix c dev cfg e e' r dev'
  show "op_configure mem_ops c dev cfg e = (e', r) \<Longrightarrow> dev' \<noteq> dev \<Longrightarrow>
      op_read mem_ops None dev' e' = op_read mem_ops None dev' e"
    by (auto simp: mem_ops_def Configure_def Read_def Let_def split: option.splits)
next
  fix e e' dev st
  assume "mem_traffic e e'" "op_read mem_ops None dev e = Inr st"
  then obtain dv k rx tx hs ep d where
    t: "e' = fst (InjectTelemetry dv k rx tx hs ep e)" "e dev = Some d"
      "st = \<lparr>ds_key = dev_key d, ds_peers = map peer_state (peers d)\<rparr>"
    by (auto simp: mem_traffic_def mem_ops_def Read_def split: option.splits)
  show "\<exists>st'. op_read mem_ops None dev e' = Inr st' \<and> peer_keys st' = peer_keys st"
  proof (cases "dv = dev \<and> map_of (peers d) k \<noteq> None")
    case True
    with t show ?thesis
      by (auto simp: InjectTelemetry_def mem_ops_def Read_def peer_keys_def keys_peer_states
          update_same_keys simp del: set_map)
  next
    case False
    with t have "e' dev = e dev"
      by (auto simp: InjectTelemetry_def split: option.splits)
    with t show ?thesis by (auto simp: mem_ops_def Read_def)
  qed
qed

lemma mem_traffic_None: "mem_traffic e e' \<Longrightarrow> e dev = None \<Longrightarrow> e' dev = None"
  by (auto simp: mem_traffic_def InjectTelemetry_def split: option.split)

section \<open>Runs of the agent\<close>

text \<open>
  The agent's ticks with the kernel's traffic in between.  The last component is the controller's
  response the agent applied last, if any.
\<close>

inductive agent_ticks :: "'w controller \<Rightarrow> AgentConfig \<Rightarrow> Agent \<Rightarrow> MemoryEngine \<Rightarrow> 'w \<Rightarrow> SyncPeersResult option \<Rightarrow> bool"
  for ctl cfg where
  boot: "agent_ticks ctl cfg NewAgent NewMemoryEngine w None"
| applied: "agent_ticks ctl cfg a e w l \<Longrightarrow> reconcile mem_ops ctl cfg c2 c3 (a, e, w) = (a', e', w') \<Longrightarrow>
    SyncPeers ctl (currentVersion a) w = (w1, Inr res) \<Longrightarrow> applyCount a' \<noteq> applyCount a \<Longrightarrow>
    agent_ticks ctl cfg a' e' w' (Some res)"
| idle: "agent_ticks ctl cfg a e w l \<Longrightarrow> reconcile mem_ops ctl cfg c2 c3 (a, e, w) = (a', e', w') \<Longrightarrow>
    applyCount a' = applyCount a \<Longrightarrow> agent_ticks ctl cfg a' e' w' l"
| traffic: "agent_ticks ctl cfg a e w l \<Longrightarrow> mem_traffic e e' \<Longrightarrow> agent_ticks ctl cfg a e' w l"

text \<open>
  Whatever happened before (failed polls, expired contexts, refused configurations, traffic),
  the version the agent reports to the controller is the version of the peer list the device
  holds, so \<open>NotModified\<close> can never leave the device behind.
\<close>

theorem agent_version_matches_device:
  assumes "agent_ticks ctl cfg a e w l"
  shows "case l of None \<Rightarrow> currentVersion a = [] \<and> Read None (ac_device cfg) e = Inl ErrNoDevice
    | Some res \<Rightarrow> currentVersion a = res_version res \<and>
        (\<exists>st. Read None (ac_device cfg) e = Inr st \<and> peer_keys st = cfg_key ` set (res_peers res))"
proof -
  have read: "op_read mem_ops = Read" by (simp add: mem_ops_def)
  have "case l of None \<Rightarrow> currentVersion a = [] \<and> e (ac_device cfg) = None
    | Some res \<Rightarrow> currentVersion a = res_version res \<and> mem.holds (ac_device cfg) e (cfg_key ` set (res_peers res))"
    using assms
  proof induction
    case (boot w)
    show ?case by (simp add: NewAgent_def NewMemoryEngine_def)
  next
    case (applied a e w l c2 c3 a' e' w' w1 res)
    from mem.reconcile_cases [OF applied.hyps(2)] applied.hyps(3,4) show ?case by auto
  next
    case (idle a e w l c2 c3 a' e' w')
    from mem.reconcile_cases [OF idle.hyps(2)] idle.hyps(3) have "e' = e \<and> currentVersion a' = currentVersion a"
      by auto
    with idle.IH show ?case by (cases l) simp_all
  next
    case (traffic a e w l e')
    show ?case using traffic.IH mem.traffic_holds [OF traffic.hyps(2)] mem_traffic_None [OF traffic.hyps(2)]
      by (cases l) simp_all
  qed
  then show ?thesis by (auto simp: mem.holds_def read Read_def split: option.splits)
qed

lemma replaced_value:
  assumes "distinct (map cfg_key ps)"
  shows "map_of (foldl (\<lambda>new p. AList.update (cfg_key p) (configured (f (cfg_key p)) p) new) m ps) k =
    (case find (\<lambda>p. cfg_key p = k) ps of None \<Rightarrow> map_of m k | Some p \<Rightarrow> Some (configured (f k) p))"
  using assms
proof (induction ps arbitrary: m)
  case (Cons p ps)
  then have "cfg_key p = k \<Longrightarrow> find (\<lambda>p. cfg_key p = k) ps = None"
    by (auto simp: find_None_all image_iff)
  with Cons show ?case by (auto simp: update_conv' split: option.split)
qed simp

lemma configured_record:
  "configured m p = \<lparr>psk = cfg_psk p, allowedIPs = cfg_allowed p, persistentKeepalive = cfg_keepalive p,
     rxBytes = rxBytes m, txBytes = txBytes m, lastHandshake = lastHandshake m, endpoint = endpoint m\<rparr>"
  by (simp add: configured_def)

text \<open>
  A full replacement keeps the handshake, byte counters and endpoint of the peers that stay,
  starts new peers at zero, forgets the others, and takes key, allowed IPs and keepalive from the
  new configuration.
\<close>

theorem Configure_replaces:
  assumes "Configure None dev cfg e = (e', None)" "dc_replace cfg" "distinct (map cfg_key (dc_peers cfg))"
  shows "\<exists>d. e' dev = Some d \<and> map_of (peers d) k =
    (case find (\<lambda>p. cfg_key p = k) (dc_peers cfg) of
       None \<Rightarrow> None
     | Some p \<Rightarrow>
         (let old = (case e dev of None \<Rightarrow> zero_peer | Some d0 \<Rightarrow> existing (peers d0) k)
          in Some \<lparr>psk = cfg_psk p, allowedIPs = cfg_allowed p, persistentKeepalive = cfg_keepalive p,
               rxBytes = rxBytes old, txBytes = txBytes old, lastHandshake = lastHandshake old,
               endpoint = endpoint old\<rparr>))"
proof -
  define ps where "ps = (case e dev of None \<Rightarrow> [] | Some d0 \<Rightarrow> peers d0)"
  from assms(1,2) obtain d where d: "e' dev = Some d"
    "peers d = foldl (\<lambda>new p. AList.update (cfg_key p) (configured (existing ps (cfg_key p)) p) new) [] (dc_peers cfg)"
    by (cases "e dev") (auto simp: Configure_def Let_def ps_def)
  have "existing ps k = (case e dev of None \<Rightarrow> zero_peer | Some d0 \<Rightarrow> existing (peers d0) k)"
    by (simp add: ps_def existing_def split: option.split)
  with d(1) replaced_value [OF assms(3), of "existing ps" "[]" k, folded d(2)] show ?thesis
    by (intro exI [of _ d]) (simp add: configured_record Let_def split: option.split)
qed

text \<open>
  The sessions the agent reports are exactly the peers of the device that have completed a
  handshake, with the counters the engine read.
\<close>

theorem reports_only_handshaken:
  assumes "Read None dev e = Inr st" "e dev = Some d"
  shows "set (session_stats st) = {\<lparr>st_key = k, st_handshake = lastHandshake m, st_rx = rxBytes m,
     st_tx = txBytes m, st_mode = []\<rparr> | k m. (k, m) \<in> set (peers d) \<and> lastHandshake m \<noteq> zero_time}"
proof -
  from assms have "st = \<lparr>ds_key = dev_key d, ds_peers = map peer_state (peers d)\<rparr>" by (simp add: Read_def)
  then show ?thesis by (simp add: session_stats_def) (auto simp: peer_state_def)
qed

section \<open>Concrete runs\<close>

definition demo_ctl :: "nat controller" where
  "demo_ctl = \<lparr>SyncPeers = (\<lambda>v w. (w + 1, Inr \<lparr>res_version = ''v1'', res_peers =
       [\<lparr>cfg_key = [7], cfg_psk = [], cfg_allowed = [], cfg_keepalive = 25\<rparr>], res_not_modified = (v = ''v1'')\<rparr>)),
     ReportSessions = (\<lambda>st w. (w, Inr (1, 0)))\<rparr>"
definition demo_cfg :: AgentConfig where
  "demo_cfg = \<lparr>ac_device = ''wg0'', ac_private = [1], ac_port = 51820, ac_interval = 0\<rparr>"

lemma demo_tick:
  "\<exists>a e w. agent_ticks demo_ctl demo_cfg a e w
     (Some \<lparr>res_version = ''v1'', res_peers = [\<lparr>cfg_key = [7], cfg_psk = [], cfg_allowed = [], cfg_keepalive = 25\<rparr>],
        res_not_modified = False\<rparr>)"
proof -
  obtain a e w where r: "reconcile mem_ops demo_ctl demo_cfg None None (NewAgent, NewMemoryEngine, 0) = (a, e, w)"
    by (cases "reconcile mem_ops demo_ctl demo_cfg None None (NewAgent, NewMemoryEngine, 0)")
  then have "applyCount a \<noteq> applyCount NewAgent"
    by (auto simp: reconcile_def report_step_def demo_ctl_def demo_cfg_def NewAgent_def mem_ops_def
      Configure_def Read_def Let_def split: if_splits)
  from agent_ticks.applied [OF agent_ticks.boot r _ this, of 1] show ?thesis
    by (auto simp: demo_ctl_def NewAgent_def)
qed

theorem agent_version_matches_device_witness:
  "\<exists>(a :: Agent) (e :: MemoryEngine). currentVersion a = ''v1'' \<and> (\<exists>st. Read None ''wg0'' e = Inr st \<and> peer_keys st = {[7]})"
proof -
  obtain a e w where "agent_ticks demo_ctl demo_cfg a e w
     (Some \<lparr>res_version = ''v1'', res_peers = [\<lparr>cfg_key = [7], cfg_psk = [], cfg_allowed = [], cfg_keepalive = 25\<rparr>],
        res_not_modified = False\<rparr>)" using demo_tick by blast
  from agent_version_matches_device [OF this]
  have "currentVersion a = ''v1'' \<and> (\<exists>st. Read None ''wg0'' e = Inr st \<and> peer_keys st = {[7]})"
    by (auto simp: demo_cfg_def)
  then show ?thesis by blast
qed

definition demo_engine :: MemoryEngine where
  "demo_engine = NewMemoryEngine(''wg0'' \<mapsto> \<lparr>dev_key = [], listenPort = 0,
     peers = [([7], zero_peer\<lparr>rxBytes := 9, lastHandshake := 5\<rparr>), ([8], zero_peer)]\<rparr>)"
definition demo_dc :: DeviceConfig where
  "demo_dc = \<lparr>dc_private = [], dc_port = 1, dc_peers =
     [\<lparr>cfg_key = [7], cfg_psk = [3], cfg_allowed = [], cfg_keepalive = 25\<rparr>], dc_replace = True\<rparr>"

theorem Configure_replaces_witness:
  "\<exists>d. fst (Configure None ''wg0'' demo_dc demo_engine) ''wg0'' = Some d
     \<and> map_option rxBytes (map_of (peers d) [7]) = Some 9"
  using Configure_replaces [of "''wg0''" demo_dc demo_engine
      "fst (Configure None ''wg0'' demo_dc demo_engine)" "[7]"]
  by (auto simp: demo_dc_def demo_engine_def existing_def Let_def Configure_def)

theorem reports_only_handshaken_witness:
  "set (session_stats \<lparr>ds_key = [], ds_peers = map peer_state (peers (the (demo_engine ''wg0'')))\<rparr>)
     = {\<lparr>st_key = [7], st_handshake = 5, st_rx = 9, st_tx = 0, st_mode = []\<rparr>}"
  by (subst reports_only_handshaken [of "''wg0''" demo_engine])
    (auto simp: demo_engine_def Read_def zero_peer_def zero_time_def)

end
