(* ===== verification/RelayFrame.thy ===== *)
theory RelayFrame
  imports Base
begin

unbundle bit_operations_syntax

text \<open>
  The framing between phone, relay and gateway: \<open>server/internal/relay/conn.go\<close> and the client in
  \<open>server/internal/gateway/relayclient.go\<close>.  A connection is the list of bytes still to be read;
  a read that panics is the value \<open>Panic\<close>.  The round trips are proved once, in the locale
  \<open>ws_codec\<close>, and interpreted for both directions.
\<close>

section \<open>Reading bytes\<close>

datatype ws_error =
    EOF | UnexpectedEOF | FrameTooLarge | Fragmented | BadOpcode byte
  | FrameTooShort | HeaderExceeds | DataExceeds | HeaderTooLarge | DataTooLarge | ConnClosed

datatype 'a go = Ok 'a | Err ws_error | Panic

definition read_full :: "nat \<Rightarrow> bytes \<Rightarrow> (bytes \<times> bytes) go" where
  "read_full k s = (if k \<le> length s then Ok (take k s, drop k s)
     else if s = [] then Err EOF else Err UnexpectedEOF)"

definition slice :: "bytes \<Rightarrow> nat \<Rightarrow> nat \<Rightarrow> bytes go" where \<comment> \<open>\<open>msg[a:b]\<close>\<close>
  "slice msg a b = (if a \<le> b \<and> b \<le> length msg then Ok (take (b - a) (drop a msg)) else Panic)"

definition xor_mask :: "bytes \<Rightarrow> bytes \<Rightarrow> bytes" where
  "xor_mask key p = map (\<lambda>i. (p ! i) XOR (key ! (i mod 4))) [0 ..< length p]"

definition wsOpcodeBinary :: byte where "wsOpcodeBinary = 0x2"
definition wsOpcodeClose :: byte where "wsOpcodeClose = 0x8"
definition wsOpcodePing :: byte where "wsOpcodePing = 0x9"
definition wsOpcodePong :: byte where "wsOpcodePong = 0xA"

text \<open>The extended length that follows the second header byte.\<close>

definition read_length :: "byte \<Rightarrow> bytes \<Rightarrow> (64 word \<times> bytes) go" where
  "read_length l7 s =
     (if l7 = 126 then (case read_full 2 s of
          Ok (b, r) \<Rightarrow> Ok (ucast (get_be16 b), r) | Err e \<Rightarrow> Err e | Panic \<Rightarrow> Panic)
      else if l7 = 127 then (case read_full 8 s of
          Ok (b, r) \<Rightarrow> Ok (get_be64 b, r) | Err e \<Rightarrow> Err e | Panic \<Rightarrow> Panic)
      else Ok (ucast l7, s))"

text \<open>One frame: the FIN bit, the opcode, the unmasked payload and what is left of the stream.\<close>

definition read_ws_frame :: "bytes \<Rightarrow> (bool \<times> byte \<times> bytes \<times> bytes) go" where
  "read_ws_frame s = (case s of
     [] \<Rightarrow> Err EOF
   | [_] \<Rightarrow> Err EOF
   | hdr1 # hdr2 # s2 \<Rightarrow>
      (let fin = hdr1 AND 0x80 \<noteq> 0; opcode = hdr1 AND 0x0F; masked = hdr2 AND 0x80 \<noteq> 0 in
       case read_length (hdr2 AND 0x7F) s2 of
         Err e \<Rightarrow> Err e | Panic \<Rightarrow> Panic
       | Ok (ln, s3) \<Rightarrow>
          if ln > 2 ^ 20 then Err FrameTooLarge
          else case (if masked then read_full 4 s3 else Ok (replicate 4 0, s3)) of
            Err e \<Rightarrow> Err e | Panic \<Rightarrow> Panic
          | Ok (key, s4) \<Rightarrow> (case read_full (unat ln) s4 of
              Err e \<Rightarrow> Err e | Panic \<Rightarrow> Panic
            | Ok (p, s5) \<Rightarrow> Ok (fin, opcode, if masked then xor_mask key p else p, s5))))"

lemma read_full_length: "read_full k s = Ok (a, r) \<Longrightarrow> length r \<le> length s"
  by (auto simp: read_full_def split: if_splits)

lemma read_length_length: "read_length l s = Ok (n, r) \<Longrightarrow> length r \<le> length s"
  by (auto simp: read_length_def split: if_splits go.splits dest!: read_full_length)

lemma read_ws_frame_length: "read_ws_frame s = Ok (f, oc, p, r) \<Longrightarrow> length r < length s"
  by (auto simp: read_ws_frame_def Let_def split: list.splits go.splits if_splits
      dest!: read_length_length read_full_length)

function readWSMessage :: "bytes \<Rightarrow> (bytes \<times> bytes) go" where
  "readWSMessage s = (case read_ws_frame s of
     Err e \<Rightarrow> Err e | Panic \<Rightarrow> Panic
   | Ok (fin, opcode, payload, rest) \<Rightarrow>
       if opcode = wsOpcodeBinary then (if \<not> fin then Err Fragmented else Ok (payload, rest))
       else if opcode = wsOpcodeClose then Err EOF
       else if opcode = wsOpcodePing \<or> opcode = wsOpcodePong then readWSMessage rest
       else Err (BadOpcode opcode))"
  by pat_completeness auto
termination by (relation "measure length") (auto dest: read_ws_frame_length)

declare readWSMessage.simps [simp del]

section \<open>Writing messages\<close>

definition length_header :: "byte \<Rightarrow> nat \<Rightarrow> bytes" where \<comment> \<open>the mask bit and the payload length\<close>
  "length_header m n =
     (if n \<le> 125 then [m OR of_nat n]
      else if n \<le> 0xFFFF then (m OR 126) # be16 (of_nat n)
      else (m OR 127) # be64 (of_nat n))"

definition writeWSMessage :: "bytes \<Rightarrow> bytes" where
  "writeWSMessage payload = (0x80 OR wsOpcodeBinary) # length_header 0 (length payload) @ payload"

definition writeMaskedBinary :: "bytes \<Rightarrow> bytes \<Rightarrow> bytes" where \<comment> \<open>the random mask is the first argument\<close>
  "writeMaskedBinary key payload =
     (0x80 OR wsOpcodeBinary) # length_header 0x80 (length payload) @ key @ xor_mask key payload"

section \<open>The application frame\<close>

type_synonym frame = "byte \<times> bytes \<times> bytes" \<comment> \<open>type, header, data\<close>

definition frame_bytes :: "frame \<Rightarrow> bytes" where
  "frame_bytes = (\<lambda>(t, header, data).
     t # be16 (of_nat (length header)) @ header @ be16 (of_nat (length data)) @ data)"

text \<open>\<open>sendFrame\<close> of the relay: the guards and the bytes put on the connection.\<close>

definition sendFrame :: "bool \<Rightarrow> frame \<Rightarrow> ws_error + bytes" where
  "sendFrame closed fr = (case fr of (t, header, data) \<Rightarrow>
     if length header > 0xFFFF then Inl HeaderTooLarge
     else if length data > 0xFFFF then Inl DataTooLarge
     else if closed then Inl ConnClosed
     else Inr (writeWSMessage (frame_bytes fr)))"

definition client_sendFrame :: "bytes \<Rightarrow> bool \<Rightarrow> frame \<Rightarrow> ws_error + bytes" where
  "client_sendFrame key closed fr = (case fr of (t, header, data) \<Rightarrow>
     if length header > 0xFFFF \<or> length data > 0xFFFF then Inl HeaderTooLarge
     else if closed then Inl ConnClosed
     else Inr (writeMaskedBinary key (frame_bytes fr)))"

text \<open>
  The relay's parser.  \<open>3+hdrLen+2\<close> is computed in \<open>uint16\<close> before the conversion to \<open>int\<close>.
\<close>

definition parse_frame :: "bytes \<Rightarrow> frame go" where
  "parse_frame msg =
     (if length msg < 3 then Err FrameTooShort
      else let t = msg ! 0; hdrLen = get_be16 (take 2 (drop 1 msg)) in
        if unat (3 + hdrLen + 2) > length msg then Err HeaderExceeds
        else case slice msg 3 (3 + unat hdrLen) of
          Err e \<Rightarrow> Err e | Panic \<Rightarrow> Panic
        | Ok header \<Rightarrow>
          (let dataLenStart = 3 + unat hdrLen in
           case slice msg dataLenStart (dataLenStart + 2) of
             Err e \<Rightarrow> Err e | Panic \<Rightarrow> Panic
           | Ok dl \<Rightarrow>
             (let dataLen = unat (get_be16 dl); dataStart = dataLenStart + 2 in
              if dataStart + dataLen > length msg then Err DataExceeds
              else case slice msg dataStart (dataStart + dataLen) of
                Err e \<Rightarrow> Err e | Panic \<Rightarrow> Panic
              | Ok data \<Rightarrow> Ok (t, header, data))))"


text \<open>The gateway's parser computes the same bound in \<open>int\<close>.\<close>

definition client_parse_frame :: "bytes \<Rightarrow> frame go" where
  "client_parse_frame msg =
     (if length msg < 3 then Err FrameTooShort
      else let t = msg ! 0; hdrLen = unat (get_be16 (take 2 (drop 1 msg))) in
        if 3 + hdrLen + 2 > length msg then Err HeaderExceeds
        else case slice msg 3 (3 + hdrLen) of
          Err e \<Rightarrow> Err e | Panic \<Rightarrow> Panic
        | Ok header \<Rightarrow>
          (let dl = 3 + hdrLen in
           case slice msg dl (dl + 2) of
             Err e \<Rightarrow> Err e | Panic \<Rightarrow> Panic
           | Ok b \<Rightarrow>
             (let dataLen = unat (get_be16 b); start = dl + 2 in
              if start + dataLen > length msg then Err DataExceeds
              else case slice msg start (start + dataLen) of
                Err e \<Rightarrow> Err e | Panic \<Rightarrow> Panic
              | Ok data \<Rightarrow> Ok (t, header, data))))"

function client_readMessage :: "bytes \<Rightarrow> (bytes \<times> bytes) go" where
  "client_readMessage s = (case read_ws_frame s of
     Err e \<Rightarrow> Err e | Panic \<Rightarrow> Panic
   | Ok (fin, opcode, payload, rest) \<Rightarrow>
       if opcode = 0x2 then (if \<not> fin then Err Fragmented else Ok (payload, rest))
       else if opcode = 0x8 then Err EOF
       else if opcode = 0x9 \<or> opcode = 0xA then client_readMessage rest
       else Err (BadOpcode opcode))"
  by pat_completeness auto
termination by (relation "measure length") (auto dest: read_ws_frame_length)

declare client_readMessage.simps [simp del]

definition client_readFrame :: "bytes \<Rightarrow> (frame \<times> bytes) go" where
  "client_readFrame s = (case client_readMessage s of
     Err e \<Rightarrow> Err e | Panic \<Rightarrow> Panic
   | Ok (msg, rest) \<Rightarrow> (case client_parse_frame msg of
       Err e \<Rightarrow> Err e | Panic \<Rightarrow> Panic | Ok fr \<Rightarrow> Ok (fr, rest)))"

section \<open>Round trips\<close>

lemma length_xor_mask [simp]: "length (xor_mask key p) = length p"
  by (simp add: xor_mask_def)

lemma xor_mask_twice [codec_simps, simp]: "xor_mask key (xor_mask key p) = p"
  by (rule nth_equalityI) (simp_all add: xor_mask_def xor.assoc)

lemma read_full_app [codec_simps, simp]: "length a = k \<Longrightarrow> read_full k (a @ s) = Ok (a, s)"
  by (simp add: read_full_def)

lemma seven_bits:
  assumes "unat (w :: byte) < 128"
  shows "(0x80 OR w) AND 0x7F = w" "(0x80 OR w) AND 0x80 = 0x80" "w AND 0x7F = w" "w AND 0x80 = 0"
proof -
  have "take_bit 7 w = w"
    using assms by (simp add: word_unat_eq_iff unsigned_take_bit_eq take_bit_nat_eq_self_iff)
  then have w: "bit w n \<Longrightarrow> n < 7" for n by (metis bit_take_bit_iff)
  have b80: "bit (0x80 :: byte) n \<longleftrightarrow> n = 7" for n
  proof -
    have "bit (0x80 :: byte) n \<longleftrightarrow> bit (push_bit 7 (1 :: byte)) n" by simp
    then show ?thesis by (simp only: bit_push_bit_iff bit_1_iff) auto
  qed
  have b7f: "bit (0x7F :: byte) n \<longleftrightarrow> n < 7" for n
  proof -
    have "bit (0x7F :: byte) n \<longleftrightarrow> bit (mask 7 :: byte) n" by (simp add: mask_eq_exp_minus_1)
    then show ?thesis by (simp only: bit_mask_iff) auto
  qed
  show "(0x80 OR w) AND 0x7F = w" "w AND 0x7F = w"
    by (rule bit_word_eqI; unfold bit_or_iff bit_and_iff b7f b80; use w in blast)+
  show "(0x80 OR w) AND 0x80 = 0x80" "w AND 0x80 = 0"
    by (rule bit_word_eqI; unfold bit_or_iff bit_and_iff b80; use w in auto)+
qed

lemma unat_of_nat_byte: "n < 256 \<Longrightarrow> unat (of_nat n :: byte) = n"
  by (simp add: unsigned_of_nat take_bit_nat_eq_self_iff)

lemma unat_of_nat_64: "n \<le> 2 ^ 20 \<Longrightarrow> unat (of_nat n :: 64 word) = n"
proof -
  assume "n \<le> 2 ^ 20"
  then have "n < 2 ^ 64" by simp
  then show ?thesis by (simp add: unsigned_of_nat take_bit_nat_eq_self)
qed

lemma of_nat_le_2_20: "n \<le> 2 ^ 20 \<Longrightarrow> \<not> (of_nat n :: 64 word) > 2 ^ 20"
  by (simp add: word_less_nat_alt unat_of_nat_64 [unfolded power_def] unat_of_nat_64)

lemma length_header_read:
  assumes "n \<le> 2 ^ 20"
  shows "\<exists>b ext. length_header (if masked then 0x80 else 0) n = b # ext
    \<and> (b AND 0x80 \<noteq> 0) = masked \<and> read_length (b AND 0x7F) (ext @ s) = Ok (of_nat n, s)"
proof -
  have byte: "\<exists>b. b = (if masked then 0x80 else 0) OR w \<and> (b AND 0x80 \<noteq> 0) = masked \<and> b AND 0x7F = w"
    if "unat w < 128" for w :: byte
    using seven_bits [OF that] by (cases masked) auto
  consider "n \<le> 125" | "125 < n" "n \<le> 0xFFFF" | "0xFFFF < n" by linarith
  then show ?thesis
  proof cases
    case 1
    then have u: "unat (of_nat n :: byte) = n" by (intro unat_of_nat_byte) simp
    have "(of_nat n :: byte) \<noteq> 126" "(of_nat n :: byte) \<noteq> 127"
      using u 1 by (auto dest: arg_cong [where f = unat])
    moreover have "(ucast (of_nat n :: byte) :: 64 word) = of_nat n"
      by (rule word_unat_eq_iff [THEN iffD2])
        (use u 1 unat_of_nat_64 [OF assms] in \<open>simp add: unsigned_ucast_eq take_bit_nat_eq_self_iff\<close>)
    moreover have "unat (of_nat n :: byte) < 128" using u 1 by simp
    ultimately show ?thesis
      using byte [of "of_nat n"] 1 by (auto simp: length_header_def read_length_def)
  next
    case 2
    have "(ucast (of_nat n :: 16 word) :: 64 word) = of_nat n"
      by (rule word_unat_eq_iff [THEN iffD2])
        (use 2 unat_of_nat_64 [OF assms] in
          \<open>simp add: unsigned_ucast_eq unsigned_of_nat take_bit_nat_eq_self [of n 16] take_bit_nat_eq_self [of n 64]\<close>)
    moreover have "get_be16 (be16 (of_nat n)) = of_nat n" using get_be16_be16 [of _ "[]"] by simp
    ultimately show ?thesis
      using byte [of 126] 2 by (auto simp: length_header_def read_length_def)
  next
    case 3
    have "get_be64 (be64 (of_nat n)) = of_nat n" using get_be64_be64 [of _ "[]"] by simp
    then show ?thesis
      using byte [of 127] 3 by (auto simp: length_header_def read_length_def)
  qed
qed

lemma first_byte: "(0x80 OR wsOpcodeBinary) AND 0x80 \<noteq> 0" "(0x80 OR wsOpcodeBinary) AND 0x0F = wsOpcodeBinary"
  by (simp_all add: wsOpcodeBinary_def)

lemma read_written_frame:
  assumes "length p \<le> 2 ^ 20"
  shows "read_ws_frame (writeWSMessage p @ s) = Ok (True, wsOpcodeBinary, p, s)"
proof -
  from length_header_read [OF assms, of False "p @ s"] obtain b ext where
    "length_header 0 (length p) = b # ext" "b AND 0x80 = 0"
    "read_length (b AND 0x7F) (ext @ p @ s) = Ok (of_nat (length p), p @ s)" by auto
  with first_byte show ?thesis
    using of_nat_le_2_20 [OF assms] unat_of_nat_64 [OF assms]
    by (simp add: writeWSMessage_def read_ws_frame_def Let_def)
qed


lemma readers_agree: "client_readMessage s = readWSMessage s"
  by (induction s rule: readWSMessage.induct)
    (subst client_readMessage.simps, subst readWSMessage.simps,
     auto split: go.split simp: wsOpcodeBinary_def wsOpcodeClose_def wsOpcodePing_def wsOpcodePong_def)

section \<open>The parsers\<close>

definition wf_frame :: "frame \<Rightarrow> bool" where
  "wf_frame fr \<longleftrightarrow> length (fst (snd fr)) \<le> 0xFFFF \<and> length (snd (snd fr)) \<le> 0xFFFF"

definition header_length :: "bytes \<Rightarrow> nat" where
  "header_length msg = unat (get_be16 (take 2 (drop 1 msg)))"

lemma slice_not_Err [simp]: "slice msg a b \<noteq> Err e"
  by (simp add: slice_def)

lemma slice_in [simp]: "a \<le> b \<Longrightarrow> b \<le> length msg \<Longrightarrow> slice msg a b = Ok (take (b - a) (drop a msg))"
  by (simp add: slice_def)

lemma slice_out [simp]: "length msg < b \<Longrightarrow> slice msg a b = Panic"
  by (simp add: slice_def)

text \<open>What the bound of the relay amounts to: five more than the header length, modulo \<open>2 ^ 16\<close>.\<close>

lemma relay_bound: "unat (3 + h + 2 :: 16 word) = (if unat h \<ge> 0xFFFB then unat h - 0xFFFB else unat h + 5)"
proof -
  have "unat h \<le> 65535" using unsigned_less [of h, where 'a = nat] by simp
  then show ?thesis by (simp add: unat_word_ariths) (auto simp: mod_if)
qed

text \<open>What both parsers do once the header length is accepted.\<close>

definition parse_tail :: "bytes \<Rightarrow> nat \<Rightarrow> frame go" where
  "parse_tail msg hl = (case slice msg 3 (3 + hl) of
     Err e \<Rightarrow> Err e | Panic \<Rightarrow> Panic
   | Ok header \<Rightarrow> (case slice msg (3 + hl) (3 + hl + 2) of
       Err e \<Rightarrow> Err e | Panic \<Rightarrow> Panic
     | Ok dl \<Rightarrow>
         if 3 + hl + 2 + unat (get_be16 dl) > length msg then Err DataExceeds
         else case slice msg (3 + hl + 2) (3 + hl + 2 + unat (get_be16 dl)) of
           Err e \<Rightarrow> Err e | Panic \<Rightarrow> Panic
         | Ok data \<Rightarrow> Ok (msg ! 0, header, data)))"

lemma parse_frame_tail:
  "parse_frame msg = (if length msg < 3 then Err FrameTooShort
     else if unat (3 + get_be16 (take 2 (drop 1 msg)) + 2) > length msg then Err HeaderExceeds
     else parse_tail msg (header_length msg))"
  unfolding parse_frame_def parse_tail_def header_length_def Let_def by (rule refl)

lemma client_parse_frame_tail:
  "client_parse_frame msg = (if length msg < 3 then Err FrameTooShort
     else if 3 + header_length msg + 2 > length msg then Err HeaderExceeds
     else parse_tail msg (header_length msg))"
  unfolding client_parse_frame_def parse_tail_def header_length_def Let_def by (rule refl)

lemma parse_tail_short: "3 \<le> length msg \<Longrightarrow> length msg < hl + 5 \<Longrightarrow> parse_tail msg hl = Panic"
  by (cases "length msg < hl + 3") (simp_all add: parse_tail_def)

lemma parse_tail_safe: "hl + 5 \<le> length msg \<Longrightarrow> parse_tail msg hl \<noteq> Panic"
  by (simp add: parse_tail_def)

lemma parsers_agree:
  "parse_frame msg =
     (if length msg \<ge> 3 \<and> header_length msg \<ge> 0xFFFB \<and> header_length msg - 0xFFFB \<le> length msg
         \<and> length msg < header_length msg + 5
      then Panic else client_parse_frame msg)"
proof (cases "length msg < 3")
  case True
  then show ?thesis by (simp add: parse_frame_tail client_parse_frame_tail)
next
  case False
  have "header_length msg \<le> 65535" by (simp add: header_length_def unat_get_be16_le)
  then show ?thesis using False parse_tail_short [of msg "header_length msg"]
    unfolding parse_frame_tail client_parse_frame_tail relay_bound header_length_def [symmetric]
    by (cases "header_length msg < 0xFFFB"; cases "length msg < header_length msg + 5") auto
qed

lemma slice_mid: "a = length xs \<Longrightarrow> b = length xs + length ys \<Longrightarrow> slice (xs @ ys @ zs) a b = Ok ys"
  by simp

lemma unat_of_nat_16: "n \<le> 0xFFFF \<Longrightarrow> unat (of_nat n :: 16 word) = n"
  by (simp add: unsigned_of_nat take_bit_nat_eq_self_iff)

lemma get_be16_be16' [simp]: "get_be16 (be16 w) = w"
  using get_be16_be16 [of w "[]"] by simp

lemma client_parse_frame_bytes:
  assumes "wf_frame fr"
  shows "client_parse_frame (frame_bytes fr) = Ok fr"
proof -
  obtain t h d where fr: "fr = (t, h, d)" by (cases fr)
  let ?hl = "be16 (of_nat (length h))" and ?dl = "be16 (of_nat (length d))"
  have u: "unat (of_nat (length h) :: 16 word) = length h" "unat (of_nat (length d) :: 16 word) = length d"
    using assms by (simp_all add: wf_frame_def fr unat_of_nat_16)
  have m: "frame_bytes fr = t # ?hl @ h @ ?dl @ d" by (simp add: frame_bytes_def fr)
  have hd: "slice (frame_bytes fr) 3 (3 + length h) = Ok h"
    using slice_mid [of 3 "t # ?hl" "3 + length h" h "?dl @ d"] by (simp add: m)
  have dl: "slice (frame_bytes fr) (3 + length h) (3 + length h + 2) = Ok ?dl"
    using slice_mid [of "3 + length h" "t # ?hl @ h" "3 + length h + 2" ?dl d] by (simp add: m)
  have dt: "slice (frame_bytes fr) (3 + length h + 2) (3 + length h + 2 + length d) = Ok d"
    using slice_mid [of "3 + length h + 2" "t # ?hl @ h @ ?dl" "3 + length h + 2 + length d" d "[]"] by (simp add: m)
  have len: "length (frame_bytes fr) = 3 + length h + 2 + length d" by (simp add: m)
  have hlen: "header_length (frame_bytes fr) = length h" by (simp add: header_length_def m u)
  have first: "frame_bytes fr ! 0 = t" by (simp add: m)
  have "parse_tail (frame_bytes fr) (length h) = Ok (t, h, d)"
    unfolding parse_tail_def hd go.case dl get_be16_be16' u dt first by (simp add: len)
  then show ?thesis unfolding client_parse_frame_tail hlen len by (simp add: fr)
qed


lemma length_frame_bytes: "wf_frame fr \<Longrightarrow> length (frame_bytes fr) \<le> 2 ^ 20"
  by (cases fr) (simp add: wf_frame_def frame_bytes_def)

lemma client_parse_safe: "client_parse_frame msg \<noteq> Panic"
  using parse_tail_safe [of "header_length msg" msg] by (auto simp: client_parse_frame_tail)

lemma read_full_safe: "read_full k s \<noteq> Panic"
  by (simp add: read_full_def)

lemma read_length_safe: "read_length l s \<noteq> Panic"
  using read_full_safe by (auto simp: read_length_def split: go.split)

lemma read_ws_frame_safe: "read_ws_frame s \<noteq> Panic"
  using read_full_safe read_length_safe
  by (auto simp: read_ws_frame_def Let_def split: list.split go.split)

lemma readWSMessage_safe: "readWSMessage s \<noteq> Panic"
  by (induction s rule: readWSMessage.induct, subst readWSMessage.simps)
    (auto split: go.split simp: read_ws_frame_safe)

section \<open>The codec\<close>

fun read_frames :: "(bytes \<Rightarrow> (frame \<times> bytes) go) \<Rightarrow> nat \<Rightarrow> bytes \<Rightarrow> (frame list \<times> bytes) go" where
  "read_frames rd 0 s = Ok ([], s)"
| "read_frames rd (Suc n) s = (case rd s of
     Err e \<Rightarrow> Err e | Panic \<Rightarrow> Panic
   | Ok (fr, r) \<Rightarrow> (case read_frames rd n r of
       Err e \<Rightarrow> Err e | Panic \<Rightarrow> Panic | Ok (frs, r') \<Rightarrow> Ok (fr # frs, r')))"

text \<open>
  One direction of the link: the sender's writer (with the mask it drew), the receiver's message
  reader and its frame parser.
\<close>

locale ws_codec =
  fixes wr :: "bytes \<Rightarrow> bytes \<Rightarrow> bytes" and rd :: "bytes \<Rightarrow> (bytes \<times> bytes) go" and parse :: "bytes \<Rightarrow> frame go"
    and recv :: "bytes \<Rightarrow> (frame \<times> bytes) go"
  assumes rd_wr: "length key = 4 \<Longrightarrow> length p \<le> 2 ^ 20 \<Longrightarrow> rd (wr key p @ s) = Ok (p, s)"
    and parse_bytes: "wf_frame fr \<Longrightarrow> parse (frame_bytes fr) = Ok fr"
    and recv_def: "recv s = (case rd s of Err e \<Rightarrow> Err e | Panic \<Rightarrow> Panic
      | Ok (msg, r) \<Rightarrow> (case parse msg of Err e \<Rightarrow> Err e | Panic \<Rightarrow> Panic | Ok fr \<Rightarrow> Ok (fr, r)))"
begin

lemma one_frame: "length key = 4 \<Longrightarrow> wf_frame fr \<Longrightarrow> recv (wr key (frame_bytes fr) @ s) = Ok (fr, s)"
  using rd_wr [OF _ length_frame_bytes] by (simp add: recv_def parse_bytes)

lemma stream:
  "\<forall>(key, fr) \<in> set xs. length key = 4 \<and> wf_frame fr \<Longrightarrow>
   read_frames recv (length xs) (concat (map (\<lambda>(key, fr). wr key (frame_bytes fr)) xs) @ s) = Ok (map snd xs, s)"
  by (induction xs) (auto simp: one_frame)

end

lemma read_written: "length p \<le> 2 ^ 20 \<Longrightarrow> readWSMessage (writeWSMessage p @ s) = Ok (p, s)"
  by (subst readWSMessage.simps) (simp add: read_written_frame)



interpretation down: ws_codec "\<lambda>key. writeWSMessage" client_readMessage client_parse_frame client_readFrame
  by unfold_locales (simp_all add: read_written readers_agree client_parse_frame_bytes client_readFrame_def)

lemma read_full_lengths: "read_full k s = Ok (a, r) \<Longrightarrow> length a = k \<and> length r + k = length s"
  by (auto simp: read_full_def split: if_splits)

lemma read_ws_frame_bound:
  "read_ws_frame s = Ok (f, oc, p, r) \<Longrightarrow> length p \<le> 2 ^ 20 \<and> length r + length p < length s"
  by (auto simp: read_ws_frame_def Let_def word_less_nat_alt split: list.splits go.splits if_splits
      dest!: read_full_lengths read_length_length)

section \<open>Properties of the framing\<close>


text \<open>
  Relay to gateway: the client reads any sequence of frames the relay sends back in order and
  unchanged.
\<close>

theorem client_reads_relay_frames:
  assumes "\<forall>fr \<in> set frs. wf_frame fr"
  shows "read_frames client_readFrame (length frs)
      (concat (map (\<lambda>fr. writeWSMessage (frame_bytes fr)) frs) @ s) = Ok (frs, s)"
proof -
  have "\<forall>(key, fr) \<in> set (map (Pair (replicate 4 0)) frs). length key = 4 \<and> wf_frame fr"
    using assms by auto
  from down.stream [OF this, of s] show ?thesis by (simp add: comp_def)
qed

lemma client_rejects_header:
  assumes "length msg \<ge> 3" "length msg < header_length msg + 5"
  shows "client_parse_frame msg = Err HeaderExceeds"
  using assms by (simp add: client_parse_frame_def header_length_def Let_def)

text \<open>
  C34. The relay's parser panics on exactly one class of messages: those of at least three bytes whose
  header length is at least \<open>0xFFFB\<close>, so that the 16-bit bound wraps around and the guard passes, while the
  slice expression reaches past the end of the message. The gateway's parser, which computes the bound in
  \<open>int\<close>, never panics, reports the oversized header on each of those messages, and gives the relay's
  result on every other one.
\<close>

theorem relay_parser_panics:
  "client_parse_frame msg \<noteq> Panic
   \<and> (parse_frame msg = Panic \<longleftrightarrow> length msg \<ge> 3 \<and> header_length msg \<ge> 0xFFFB
        \<and> header_length msg - 0xFFFB \<le> length msg \<and> length msg < header_length msg + 5)
   \<and> client_parse_frame msg = (if parse_frame msg = Panic then Err HeaderExceeds else parse_frame msg)"
  using parsers_agree [of msg] client_parse_safe [of msg] client_rejects_header [of msg] by simp

text \<open>
  The gateway's reader never panics, whatever bytes the relay sends.
\<close>

theorem client_never_panics: "client_readFrame s \<noteq> Panic"
  using readWSMessage_safe client_parse_safe
  by (auto simp: client_readFrame_def readers_agree split: go.split)

text \<open>
  No message of more than a mebibyte is accepted, and an accepted message consumes part of the
  stream: the announced 64-bit length alone never makes the reader keep more than that.
\<close>

theorem message_bound:
  assumes "readWSMessage s = Ok (p, r)"
  shows "length p \<le> 2 ^ 20 \<and> length r + length p < length s"
proof -
  show ?thesis using assms
  proof (induction s rule: readWSMessage.induct)
    case (1 s)
    obtain f oc q r' where fr: "read_ws_frame s = Ok (f, oc, q, r')"
      using 1(2) by (subst (asm) readWSMessage.simps) (auto split: go.splits)
    show ?case
    proof (cases "oc = wsOpcodeBinary")
      case True
      with 1(2) fr have "p = q" "r = r'" by (subst (asm) readWSMessage.simps; simp split: if_splits)+
      with read_ws_frame_bound [OF fr] show ?thesis by simp
    next
      case False
      with 1(2) fr have "readWSMessage r' = Ok (p, r)" "oc \<noteq> wsOpcodeClose" "oc = wsOpcodePing \<or> oc = wsOpcodePong"
        by (subst (asm) readWSMessage.simps; simp split: if_splits)+
      with 1(1) [OF fr refl refl refl False] read_ws_frame_bound [OF fr] show ?thesis by force
    qed
  qed
qed

section \<open>Concrete frames\<close>

definition demo_frame :: frame where "demo_frame = (2, [7, 7], [1, 2, 3])"


theorem client_reads_relay_frames_witness:
  "read_frames client_readFrame 1 (writeWSMessage (frame_bytes demo_frame) @ [9]) = Ok ([demo_frame], [9])"
  using client_reads_relay_frames [of "[demo_frame]" "[9]"]
  by (simp add: demo_frame_def wf_frame_def)

theorem message_bound_witness:
  "length (frame_bytes demo_frame) \<le> 2 ^ 20"
  using message_bound [OF read_written [of "frame_bytes demo_frame" "[]"]]
  by (simp add: demo_frame_def frame_bytes_def)

theorem relay_parser_panics_witness: "parse_frame [2, 0xFF, 0xFC, 0] = Panic"
proof -
  have "get_be16 [0xFF, 0xFC] = 0xFFFC" by (simp add: get_be16_def)
  then have "header_length [2, 0xFF, 0xFC, 0] = 0xFFFC" by (simp add: header_length_def)
  then show ?thesis by (simp add: relay_parser_panics)
qed

end
