(* ===== verification/RelayHub.thy ===== *)
theory RelayHub
  imports RelayFrame
begin

text \<open>
  \<open>server/internal/relay/hub.go\<close> and \<open>handlers.go\<close>: the relay's tables of connections, the two
  WebSocket handlers and the forwarding between them.  A connection is its number.  A handler is
  split at its blocking read: \<open>accept\<close>, one step per frame, and one step (\<open>unwind\<close>) for each of the
  deferred calls, which take their locks one after the other; the step relation \<open>hub_step\<close> interleaves the steps of all handlers.
\<close>

section \<open>State\<close>

record hub =
  dataNode :: "string \<Rightarrow> nat option"
  mobile :: "string \<Rightarrow> nat option"
  nodeForMobile :: "string \<Rightarrow> string option"
  closed :: "nat set"                       \<comment> \<open>\<open>conn.closed\<close>\<close>

definition NewHub :: hub where
  "NewHub = \<lparr>dataNode = (\<lambda>_. None), mobile = (\<lambda>_. None), nodeForMobile = (\<lambda>_. None), closed = {}\<rparr>"

definition close :: "nat \<Rightarrow> hub \<Rightarrow> hub" where
  "close c h = h\<lparr>closed := insert c (closed h)\<rparr>"

definition registerDataNode :: "string \<Rightarrow> nat \<Rightarrow> hub \<Rightarrow> hub" where
  "registerDataNode nodeID c h =
     (let h1 = (case dataNode h nodeID of Some old \<Rightarrow> close old h | None \<Rightarrow> h)
      in h1\<lparr>dataNode := (dataNode h1)(nodeID \<mapsto> c)\<rparr>)"

definition cleanupDataNode :: "string \<Rightarrow> nat \<Rightarrow> hub \<Rightarrow> hub" where
  "cleanupDataNode nodeID c h =
     (if dataNode h nodeID = Some c then h\<lparr>dataNode := (dataNode h)(nodeID := None)\<rparr> else h)"

definition registerMobile :: "string \<Rightarrow> string \<Rightarrow> nat \<Rightarrow> hub \<Rightarrow> hub" where
  "registerMobile sessionID nodeID c h =
     (let h1 = (case mobile h sessionID of Some old \<Rightarrow> close old h | None \<Rightarrow> h)
      in h1\<lparr>mobile := (mobile h1)(sessionID \<mapsto> c), nodeForMobile := (nodeForMobile h1)(sessionID \<mapsto> nodeID)\<rparr>)"

definition cleanupMobile :: "string \<Rightarrow> nat \<Rightarrow> hub \<Rightarrow> hub" where
  "cleanupMobile sessionID c h =
     (if mobile h sessionID = Some c
      then h\<lparr>mobile := (mobile h)(sessionID := None), nodeForMobile := (nodeForMobile h)(sessionID := None)\<rparr>
      else h)"

section \<open>Forwarding\<close>

definition frameTypeHello :: byte where "frameTypeHello = 1"
definition frameTypeData :: byte where "frameTypeData = 2"
definition frameTypeError :: byte where "frameTypeError = 3"
definition frameTypePing :: byte where "frameTypePing = 4"

type_synonym send = "nat \<times> frame" \<comment> \<open>a frame given to a connection's \<open>sendFrame\<close>\<close>

datatype forward_error = NoTargetNode

definition forwardFromMobile :: "string \<Rightarrow> bytes \<Rightarrow> hub \<Rightarrow> forward_error + send list" where
  "forwardFromMobile sessionID packet h =
     (case nodeForMobile h sessionID of
        None \<Rightarrow> Inl NoTargetNode
      | Some nodeID \<Rightarrow> (case dataNode h nodeID of
          None \<Rightarrow> Inr []
        | Some dest \<Rightarrow> Inr [(dest, (frameTypeData, bytes_of_string sessionID, packet))]))"

definition forwardFromDataNode :: "string \<Rightarrow> string \<Rightarrow> bytes \<Rightarrow> hub \<Rightarrow> send list" where
  "forwardFromDataNode nodeID sessionID packet h =
     (case mobile h sessionID of
        None \<Rightarrow> []
      | Some dest \<Rightarrow> [(dest, (frameTypeData, [], packet))])"

text \<open>What a connection really puts on the wire: \<open>sendFrame\<close> refuses a closed connection and an
  oversized field.\<close>

definition delivered :: "hub \<Rightarrow> send list \<Rightarrow> send list" where
  "delivered h xs = [x. x \<leftarrow> xs, (case sendFrame (fst x \<in> closed h) (snd x) of Inl _ \<Rightarrow> False | Inr _ \<Rightarrow> True)]"

section \<open>The handlers\<close>

definition extractBearer :: "string \<Rightarrow> string \<Rightarrow> string" where \<comment> \<open>Authorization header, query token\<close>
  "extractBearer h q =
     (if h \<noteq> [] \<and> has_prefix (to_lower h) ''bearer '' then trim_space (drop 7 h) else q)"

datatype upgrade = Unauthorized | NotUpgraded | Accepted string

definition authenticate :: "(string \<Rightarrow> string option) \<Rightarrow> string \<Rightarrow> bool \<Rightarrow> upgrade" where
  \<comment> \<open>\<open>VerifyDataNode\<close> or \<open>VerifyMobile\<close>, the token, whether the WebSocket upgrade succeeds\<close>
  "authenticate verify token ws =
     (if token = [] then Unauthorized
      else case verify token of
        None \<Rightarrow> Unauthorized
      | Some ident \<Rightarrow> if ws then Accepted ident else NotUpgraded)"

text \<open>One frame of a data-node connection, and of a mobile connection after its hello.\<close>

definition node_frame :: "string \<Rightarrow> nat \<Rightarrow> frame \<Rightarrow> hub \<Rightarrow> send list" where
  "node_frame nodeID c fr h = (case fr of (t, header, data) \<Rightarrow>
     if t = frameTypeData then forwardFromDataNode nodeID (string_of_bytes header) data h
     else if t = frameTypePing then [(c, (frameTypePing, [], []))]
     else [])"

definition mobile_frame :: "string \<Rightarrow> nat \<Rightarrow> frame \<Rightarrow> hub \<Rightarrow> send list" where
  "mobile_frame sessionID c fr h = (case fr of (t, header, data) \<Rightarrow>
     if t = frameTypeData then (case forwardFromMobile sessionID data h of Inl _ \<Rightarrow> [] | Inr xs \<Rightarrow> xs)
     else if t = frameTypePing then [(c, (frameTypePing, [], []))]
     else [])"

text \<open>The first frame of a mobile connection: the target node, or the reason to hang up.\<close>

datatype hello = TimedOut | ReadFailed | Frame frame

definition mobile_hello :: "nat \<Rightarrow> hello \<Rightarrow> string option \<times> send list" where
  "mobile_hello c r = (case r of
     TimedOut \<Rightarrow> (None, [(c, (frameTypeError, [], bytes_of_string ''hello timeout''))])
   | ReadFailed \<Rightarrow> (None, [])
   | Frame (t, header, data) \<Rightarrow>
       if t \<noteq> frameTypeHello then (None, [(c, (frameTypeError, [], bytes_of_string ''first frame must be hello''))])
       else if data = [] then (None, [(c, (frameTypeError, [], bytes_of_string ''hello missing node_id''))])
       else (Some (string_of_bytes data), [(c, (frameTypeHello, [], bytes_of_string ''ok''))]))"

section \<open>The relay as a transition system\<close>

text \<open>
  Where a handler stands.  \<open>NodeClosed\<close> is a data node's handler that has run \<open>c.close()\<close> and not yet
  its cleanup; \<open>Leaving\<close> a mobile handler that has only \<open>c.close()\<close> left to run.
\<close>

datatype role = Node string | NodeClosed string | Waiting string | Mobile string string | Leaving

record relay =
  rhub :: hub
  handlers :: "nat \<Rightarrow> role option"    \<comment> \<open>the running handlers\<close>
  next_conn :: nat                    \<comment> \<open>a number no connection has yet\<close>

text \<open>
  The deferred calls of a handler that returns, one at a time and last first: a data node's handler
  closes its connection and then cleans up, a mobile handler cleans up and then closes.
\<close>

definition unwind :: "nat \<Rightarrow> role \<Rightarrow> hub \<Rightarrow> hub \<times> role option" where
  "unwind c r h = (case r of
     Node n \<Rightarrow> (close c h, Some (NodeClosed n))
   | NodeClosed n \<Rightarrow> (cleanupDataNode n c h, None)
   | Waiting s \<Rightarrow> (close c h, None)
   | Mobile s n \<Rightarrow> (cleanupMobile s c h, Some Leaving)
   | Leaving \<Rightarrow> (close c h, None))"

inductive hub_step :: "relay \<Rightarrow> send list \<Rightarrow> relay \<Rightarrow> bool" where
  accept_node: "authenticate verify token ws = Accepted n \<Longrightarrow>
    hub_step r [] \<lparr>rhub = registerDataNode n (next_conn r) (rhub r),
      handlers = (handlers r)(next_conn r \<mapsto> Node n), next_conn = Suc (next_conn r)\<rparr>"
| accept_mobile: "authenticate verify token ws = Accepted s \<Longrightarrow>
    hub_step r [] \<lparr>rhub = rhub r, handlers = (handlers r)(next_conn r \<mapsto> Waiting s),
      next_conn = Suc (next_conn r)\<rparr>"
| hello_ok: "handlers r c = Some (Waiting s) \<Longrightarrow> mobile_hello c fr = (Some n, xs) \<Longrightarrow>
    hub_step r xs (r\<lparr>rhub := registerMobile s n c (rhub r), handlers := (handlers r)(c \<mapsto> Mobile s n)\<rparr>)"
| hello_bad: "handlers r c = Some (Waiting s) \<Longrightarrow> mobile_hello c fr = (None, xs) \<Longrightarrow>
    hub_step r xs (r\<lparr>handlers := (handlers r)(c \<mapsto> Leaving)\<rparr>)"
| node_data: "handlers r c = Some (Node n) \<Longrightarrow> hub_step r (node_frame n c fr (rhub r)) r"
| mobile_data: "handlers r c = Some (Mobile s n) \<Longrightarrow> hub_step r (mobile_frame s c fr (rhub r)) r"
| hang_up: "handlers r c = Some rl \<Longrightarrow> unwind c rl (rhub r) = (h, rl') \<Longrightarrow>
    hub_step r [] (r\<lparr>rhub := h, handlers := (handlers r)(c := rl')\<rparr>)"

inductive reachable :: "relay \<Rightarrow> bool" where
  boot: "reachable \<lparr>rhub = NewHub, handlers = (\<lambda>_. None), next_conn = 0\<rparr>"
| step: "reachable r \<Longrightarrow> hub_step r xs r' \<Longrightarrow> reachable r'"

inductive_cases hub_stepE: "hub_step r xs r'"

section \<open>The invariant\<close>

definition nodes_ok :: "relay \<Rightarrow> bool" where
  "nodes_ok r \<longleftrightarrow> (\<forall>n c. dataNode (rhub r) n = Some c \<longrightarrow>
     handlers r c = Some (Node n) \<and> c \<notin> closed (rhub r) \<or> handlers r c = Some (NodeClosed n) \<and> c \<in> closed (rhub r))"

definition mobiles_ok :: "relay \<Rightarrow> bool" where
  "mobiles_ok r \<longleftrightarrow> (\<forall>s c. mobile (rhub r) s = Some c \<longrightarrow>
     (\<exists>n. handlers r c = Some (Mobile s n) \<and> nodeForMobile (rhub r) s = Some n) \<and> c \<notin> closed (rhub r))"

definition fresh_ok :: "relay \<Rightarrow> bool" where
  "fresh_ok r \<longleftrightarrow> (\<forall>c. handlers r c \<noteq> None \<or> c \<in> closed (rhub r) \<longrightarrow> c < next_conn r)
     \<and> (\<forall>c s. handlers r c = Some (Waiting s) \<longrightarrow> c \<notin> closed (rhub r))
     \<and> (\<forall>c n. handlers r c = Some (NodeClosed n) \<longrightarrow> c \<in> closed (rhub r))"

definition bound_ok :: "relay \<Rightarrow> bool" where
  "bound_ok r \<longleftrightarrow> (\<forall>s. mobile (rhub r) s = None \<longleftrightarrow> nodeForMobile (rhub r) s = None)"

definition relay_inv :: "relay \<Rightarrow> bool" where
  "relay_inv r \<longleftrightarrow> nodes_ok r \<and> mobiles_ok r \<and> fresh_ok r \<and> bound_ok r"

lemmas relay_inv_defs = relay_inv_def nodes_ok_def mobiles_ok_def fresh_ok_def bound_ok_def

lemma registerDataNode_sel [simp]:
  "dataNode (registerDataNode n c h) = (dataNode h)(n \<mapsto> c)"
  "mobile (registerDataNode n c h) = mobile h"
  "nodeForMobile (registerDataNode n c h) = nodeForMobile h"
  "closed (registerDataNode n c h) = closed h \<union> set_option (dataNode h n)"
  by (auto simp: registerDataNode_def close_def Let_def split: option.split)

lemma registerMobile_sel [simp]:
  "dataNode (registerMobile s n c h) = dataNode h"
  "mobile (registerMobile s n c h) = (mobile h)(s \<mapsto> c)"
  "nodeForMobile (registerMobile s n c h) = (nodeForMobile h)(s \<mapsto> n)"
  "closed (registerMobile s n c h) = closed h \<union> set_option (mobile h s)"
  by (auto simp: registerMobile_def close_def Let_def split: option.split)

lemma unwind_sel:
  assumes "unwind c rl h = (h', rl')"
  shows "dataNode h' = (\<lambda>n. if rl = NodeClosed n \<and> dataNode h n = Some c then None else dataNode h n)"
    "mobile h' = (\<lambda>s. if (\<exists>n. rl = Mobile s n) \<and> mobile h s = Some c then None else mobile h s)"
    "nodeForMobile h' = (\<lambda>s. if (\<exists>n. rl = Mobile s n) \<and> mobile h s = Some c then None else nodeForMobile h s)"
    "closed h' = (if (\<exists>n. rl = NodeClosed n) \<or> (\<exists>s n. rl = Mobile s n) then closed h else insert c (closed h))"
    "rl' = (case rl of Node n \<Rightarrow> Some (NodeClosed n) | Mobile s n \<Rightarrow> Some Leaving | _ \<Rightarrow> None)"
  using assms by (auto simp: unwind_def cleanupDataNode_def cleanupMobile_def close_def fun_eq_iff split: role.split_asm if_split_asm)

lemma relay_invD:
  assumes "relay_inv r"
  shows "dataNode (rhub r) n = Some c \<Longrightarrow>
      handlers r c = Some (Node n) \<and> c \<notin> closed (rhub r) \<or> handlers r c = Some (NodeClosed n) \<and> c \<in> closed (rhub r)"
    and "mobile (rhub r) s = Some c \<Longrightarrow>
      (\<exists>n. handlers r c = Some (Mobile s n) \<and> nodeForMobile (rhub r) s = Some n) \<and> c \<notin> closed (rhub r)"
    and "handlers r c = Some rl \<Longrightarrow> c < next_conn r" "c \<in> closed (rhub r) \<Longrightarrow> c < next_conn r"
    and "handlers r c = Some (Waiting s) \<Longrightarrow> c \<notin> closed (rhub r)"
    and "mobile (rhub r) s = None \<longleftrightarrow> nodeForMobile (rhub r) s = None"
    and "handlers r c = Some (NodeClosed n) \<Longrightarrow> c \<in> closed (rhub r)"
  using assms unfolding relay_inv_defs by blast+

lemma relay_inv_distinct:
  assumes "relay_inv r"
  shows "dataNode (rhub r) n = Some d \<Longrightarrow> mobile (rhub r) s \<noteq> Some d"
    and "mobile (rhub r) s = Some d \<Longrightarrow> mobile (rhub r) s' = Some d \<Longrightarrow> s = s'"
    and "dataNode (rhub r) n = Some d \<Longrightarrow> dataNode (rhub r) n' = Some d \<Longrightarrow> n = n'"
  using relay_invD(1) [OF assms, of n d] relay_invD(1) [OF assms, of n' d]
    relay_invD(2) [OF assms, of s d] relay_invD(2) [OF assms, of s' d] by auto

lemma inv_accept_node:
  assumes "relay_inv r"
  shows "relay_inv \<lparr>rhub = registerDataNode n (next_conn r) (rhub r),
      handlers = (handlers r)(next_conn r \<mapsto> Node n), next_conn = Suc (next_conn r)\<rparr>" (is "relay_inv ?r")
proof -
  note inv = relay_invD [OF assms]
  have new: "handlers r (next_conn r) = None" "next_conn r \<notin> closed (rhub r)"
    using inv(3) [where c = "next_conn r"] inv(4) [where c = "next_conn r"]
    by (cases "handlers r (next_conn r)"; auto)+
  have tab: "dataNode (rhub r) n' = Some d \<Longrightarrow> d < next_conn r \<and> (\<forall>s. handlers r d \<noteq> Some (Waiting s))" for n' d
    using inv(1) [of n' d] inv(3) [where c = d] by auto
  have "nodes_ok ?r"
    unfolding nodes_ok_def
  proof (intro allI impI)
    fix n' d assume d: "dataNode (rhub ?r) n' = Some d"
    show "handlers ?r d = Some (Node n') \<and> d \<notin> closed (rhub ?r) \<or> handlers ?r d = Some (NodeClosed n') \<and> d \<in> closed (rhub ?r)"
    proof (cases "n' = n")
      case True
      with d new tab [of n d] show ?thesis by auto
    next
      case False
      then have "dataNode (rhub r) n' = Some d" "dataNode (rhub r) n \<noteq> Some d"
        using d relay_inv_distinct(3) [OF assms, of n d n'] by auto
      with inv(1) [of n' d] tab [of n' d] show ?thesis by auto
    qed
  qed
  moreover have "mobiles_ok ?r"
    unfolding mobiles_ok_def using new inv(2) relay_inv_distinct(1) [OF assms, of n] by fastforce
  moreover have "fresh_ok ?r"
    unfolding fresh_ok_def using new tab inv(3,4,5,7) by (auto simp: less_Suc_eq)
  moreover have "bound_ok ?r" unfolding bound_ok_def using inv(6) by simp
  ultimately show ?thesis unfolding relay_inv_def by blast
qed

lemma inv_accept_mobile:
  assumes "relay_inv r"
  shows "relay_inv \<lparr>rhub = rhub r, handlers = (handlers r)(next_conn r \<mapsto> Waiting s), next_conn = Suc (next_conn r)\<rparr>"
proof -
  note inv = relay_invD [OF assms]
  have "handlers r (next_conn r) = None" "next_conn r \<notin> closed (rhub r)"
    using inv(3) [where c = "next_conn r"] inv(4) [where c = "next_conn r"]
    by (cases "handlers r (next_conn r)"; auto)+
  moreover have "dataNode (rhub r) n' \<noteq> Some (next_conn r)" "mobile (rhub r) s \<noteq> Some (next_conn r)" for n' s
    using calculation inv(1,2) by (metis option.discI)+
  ultimately show ?thesis
    using inv relay_inv_distinct [OF assms] unfolding relay_inv_defs
    by (auto simp: less_Suc_eq dest: inv(3,4) split: if_splits)
qed

lemma inv_hello:
  assumes "relay_inv r" "handlers r c = Some (Waiting s)"
  shows "relay_inv (r\<lparr>rhub := registerMobile s n c (rhub r), handlers := (handlers r)(c \<mapsto> Mobile s n)\<rparr>)"
proof -
  note inv = relay_invD [OF assms(1)]
  have "c \<notin> closed (rhub r)" using inv(5) assms(2) .
  moreover have "dataNode (rhub r) n' \<noteq> Some c" "mobile (rhub r) s' \<noteq> Some c" for n' s'
    using assms(2) inv(1) [of n' c] inv(2) [of s' c] by auto
  moreover have "mobile (rhub r) s' = Some d \<Longrightarrow> d < next_conn r \<and> (\<forall>s''. handlers r d \<noteq> Some (Waiting s''))"
    for s' d using inv(2) [of s' d] inv(3) [where c = d] by auto
  ultimately show ?thesis
    using inv assms(2) relay_inv_distinct [OF assms(1)] unfolding relay_inv_defs
    by (auto dest: inv(3,4) split: if_splits)
qed

lemma inv_leave:
  assumes "relay_inv r" "handlers r c = Some (Waiting s)"
  shows "relay_inv (r\<lparr>handlers := (handlers r)(c \<mapsto> Leaving)\<rparr>)"
proof -
  note inv = relay_invD [OF assms(1)]
  have "dataNode (rhub r) n' \<noteq> Some c" "mobile (rhub r) s' \<noteq> Some c" for n' s'
    using assms(2) inv(1) [of n' c] inv(2) [of s' c] by auto
  then show ?thesis using inv assms(2) unfolding relay_inv_defs by (auto dest: inv(3,4) split: if_splits)
qed

lemma inv_unwind:
  assumes "relay_inv r" "handlers r c = Some rl" "unwind c rl (rhub r) = (h, rl')"
  shows "relay_inv (r\<lparr>rhub := h, handlers := (handlers r)(c := rl')\<rparr>)"
proof -
  note inv = relay_invD [OF assms(1)] and sel = unwind_sel [OF assms(3)]
  have n: "dataNode (rhub r) n' = Some c \<Longrightarrow> rl = Node n' \<or> rl = NodeClosed n'" for n' using inv(1) [of n' c] assms(2) by auto
  have m: "mobile (rhub r) s' = Some c \<Longrightarrow> \<exists>n. rl = Mobile s' n" for s'
    using inv(2) [of s' c] assms(2) by auto
  have "nodes_ok (r\<lparr>rhub := h, handlers := (handlers r)(c := rl')\<rparr>)"
    unfolding nodes_ok_def using n inv(1) by (auto simp: sel(1,4,5) split: role.split if_splits)
  moreover have "mobiles_ok (r\<lparr>rhub := h, handlers := (handlers r)(c := rl')\<rparr>)"
    unfolding mobiles_ok_def using m inv(2) by (auto simp: sel(2-5) split: role.split if_splits)
  moreover have "fresh_ok (r\<lparr>rhub := h, handlers := (handlers r)(c := rl')\<rparr>)"
    unfolding fresh_ok_def using inv(3,4,5,7) assms(2) by (auto simp: sel(4,5) split: role.split_asm if_splits)
  moreover have "bound_ok (r\<lparr>rhub := h, handlers := (handlers r)(c := rl')\<rparr>)"
    unfolding bound_ok_def using inv(6) by (auto simp: sel(2,3))
  ultimately show ?thesis by (simp add: relay_inv_def)
qed

lemma reachable_inv: "reachable r \<Longrightarrow> relay_inv r"
proof (induction rule: reachable.induct)
  case boot
  show ?case by (simp add: relay_inv_defs NewHub_def)
next
  case (step r xs r')
  from step.hyps(2) show ?case
    by (cases rule: hub_stepE)
      (use step.IH inv_accept_node inv_accept_mobile inv_hello inv_leave inv_unwind in \<open>auto split: if_splits\<close>)
qed

section \<open>Properties of the relay\<close>

text \<open>
  C31. In every reachable state of the relay, however its handlers and their deferred calls interleave, the
  two mobile tables have the same sessions; a registered mobile connection is open and its handler serves
  exactly that session and target; a registered data node's connection is open and its handler serves that
  node, or it is closed and its handler is between its two deferred calls, with the cleanup that takes it
  out of the table still to come.
\<close>

theorem relay_tables_consistent:
  assumes "reachable r"
  shows "(mobile (rhub r) s = None \<longleftrightarrow> nodeForMobile (rhub r) s = None)
    \<and> (dataNode (rhub r) n = Some c \<longrightarrow> c \<notin> closed (rhub r) \<and> handlers r c = Some (Node n)
         \<or> c \<in> closed (rhub r) \<and> handlers r c = Some (NodeClosed n))
    \<and> (mobile (rhub r) s = Some d \<longrightarrow> d \<notin> closed (rhub r)
         \<and> (\<exists>m. handlers r d = Some (Mobile s m) \<and> nodeForMobile (rhub r) s = Some m))"
  using relay_invD [OF reachable_inv [OF assms]] by blast

text \<open>
  Routing: a data frame of a registered mobile session reaches the connection of the node the
  session named in its hello, tagged with the session and with the packet unchanged, and nobody
  else; it is dropped exactly when that node is offline or its connection already closed.
\<close>

theorem mobile_data_routed:
  assumes "reachable r" "handlers r c = Some (Mobile s n)" "mobile (rhub r) s = Some c"
    and "length s \<le> 0xFFFF" "length packet \<le> 0xFFFF"
  shows "delivered (rhub r) (mobile_frame s c (frameTypeData, hdr, packet) (rhub r)) =
    (case dataNode (rhub r) n of None \<Rightarrow> []
     | Some dest \<Rightarrow> if dest \<in> closed (rhub r) then [] else [(dest, (frameTypeData, bytes_of_string s, packet))])"
proof -
  note inv = relay_invD [OF reachable_inv [OF assms(1)]]
  have "nodeForMobile (rhub r) s = Some n" using inv(2) [OF assms(3)] assms(2) by simp
  with assms(4,5) show ?thesis
    by (auto simp: mobile_frame_def forwardFromMobile_def delivered_def sendFrame_def split: option.split)
qed

text \<open>
  C32. A handler that ends takes only itself out of the tables: each of its deferred calls, in whatever
  state the other handlers brought the relay to since the one before, leaves every registration of another
  connection, a newer one for the same node or session included; and after the last one its connection is
  closed and registered nowhere.
\<close>

theorem stale_cleanup_harmless:
  assumes "reachable r" "handlers r c = Some rl" "unwind c rl (rhub r) = (h, rl')"
  shows "(\<forall>n. dataNode h n = (if dataNode (rhub r) n = Some c \<and> rl \<noteq> Node n then None else dataNode (rhub r) n))
    \<and> (\<forall>s. mobile h s = (if mobile (rhub r) s = Some c then None else mobile (rhub r) s))
    \<and> (\<forall>s. nodeForMobile h s = (if mobile (rhub r) s = Some c then None else nodeForMobile (rhub r) s))
    \<and> (case rl' of None \<Rightarrow> c \<in> closed h \<and> (\<forall>n. dataNode h n \<noteq> Some c) \<and> (\<forall>s. mobile h s \<noteq> Some c)
       | Some q \<Rightarrow> snd (unwind c q h) = None)"
proof -
  note inv = relay_invD [OF reachable_inv [OF assms(1)]] and sel = unwind_sel [OF assms(3)]
  have n: "dataNode (rhub r) n = Some c \<Longrightarrow> rl = Node n \<or> rl = NodeClosed n" for n using inv(1) [of n c] assms(2) by auto
  have m: "mobile (rhub r) s = Some c \<Longrightarrow> \<exists>n. rl = Mobile s n" for s
    using inv(2) [of s c] assms(2) by auto
  have d: "\<forall>n. dataNode h n = (if dataNode (rhub r) n = Some c \<and> rl \<noteq> Node n then None else dataNode (rhub r) n)"
    using n by (auto simp: sel(1))
  moreover have t: "\<forall>s. mobile h s = (if mobile (rhub r) s = Some c then None else mobile (rhub r) s)" using m by (auto simp: sel(2))
  moreover have "\<forall>s. nodeForMobile h s = (if mobile (rhub r) s = Some c then None else nodeForMobile (rhub r) s)"
    using m by (auto simp: sel(3))
  moreover have "case rl' of None \<Rightarrow> c \<in> closed h \<and> (\<forall>n. dataNode h n \<noteq> Some c) \<and> (\<forall>s. mobile h s \<noteq> Some c)
       | Some q \<Rightarrow> snd (unwind c q h) = None"
  proof (cases rl)
    case (NodeClosed n)
    with inv(7) [of c n] assms(2) d t show ?thesis by (auto simp: sel(4,5))
  qed (use d t in \<open>auto simp: sel(4,5) unwind_def\<close>)
  ultimately show ?thesis by blast
qed

text \<open>The window between the two deferred calls of a data node: the table names a closed connection.\<close>

lemma closed_node_registered:
  "reachable r \<Longrightarrow> dataNode (rhub r) n = Some c \<Longrightarrow> handlers r c = Some (Node n) \<Longrightarrow>
    \<exists>r'. reachable r' \<and> dataNode (rhub r') n = Some c \<and> c \<in> closed (rhub r')"
  by (intro exI [of _ "r\<lparr>rhub := close c (rhub r), handlers := (handlers r)(c \<mapsto> NodeClosed n)\<rparr>"] conjI
      reachable.step [OF _ hub_step.hang_up [of r c "Node n"]]) (simp_all add: unwind_def close_def)

text \<open>
  The other direction is not bound to the target: any connected data node reaches any mobile
  session by naming it, whichever node that session chose in its hello.
\<close>

theorem node_reaches_any_session:
  assumes "reachable r" "mobile (rhub r) s = Some d" "length packet \<le> 0xFFFF"
  shows "delivered (rhub r) (node_frame n c (frameTypeData, bytes_of_string s, packet) (rhub r))
    = [(d, (frameTypeData, [], packet))]"
  using assms relay_invD(2) [OF reachable_inv [OF assms(1)] assms(2)]
  by (simp add: node_frame_def forwardFromDataNode_def delivered_def sendFrame_def)

section \<open>A concrete relay\<close>

text \<open>A node, and two connections of one session, of which the second replaces the first.\<close>

definition demo_hub :: hub where
  "demo_hub = registerMobile ''s'' ''n'' 2 (registerMobile ''s'' ''n'' 1 (registerDataNode ''n'' 0 NewHub))"
definition demo_relay :: relay where
  "demo_relay = \<lparr>rhub = demo_hub, handlers = [0 \<mapsto> Node ''n'', 1 \<mapsto> Mobile ''s'' ''n'', 2 \<mapsto> Mobile ''s'' ''n''],
     next_conn = 3\<rparr>"

lemma hello_accepted: "mobile_hello c (Frame (frameTypeHello, [], bytes_of_string ''n''))
  = (Some ''n'', [(c, (frameTypeHello, [], bytes_of_string ''ok''))])"
  by (simp add: mobile_hello_def) (simp add: bytes_of_string_def)

lemma auth_ok: "authenticate (\<lambda>_. Some x) ''t'' True = Accepted x"
  by (simp add: authenticate_def)

lemma demo_reachable: "reachable demo_relay"
proof -
  define r1 where "r1 = \<lparr>rhub = registerDataNode ''n'' 0 NewHub, handlers = [0 \<mapsto> Node ''n''], next_conn = 1\<rparr>"
  define r2 where "r2 = \<lparr>rhub = rhub r1, handlers = (handlers r1)(1 \<mapsto> Waiting ''s''), next_conn = 2\<rparr>"
  define r3 where "r3 = r2\<lparr>rhub := registerMobile ''s'' ''n'' 1 (rhub r2), handlers := (handlers r2)(1 \<mapsto> Mobile ''s'' ''n'')\<rparr>"
  define r4 where "r4 = \<lparr>rhub = rhub r3, handlers = (handlers r3)(2 \<mapsto> Waiting ''s''), next_conn = 3\<rparr>"
  define r5 where "r5 = r4\<lparr>rhub := registerMobile ''s'' ''n'' 2 (rhub r4), handlers := (handlers r4)(2 \<mapsto> Mobile ''s'' ''n'')\<rparr>"
  have "reachable r1" unfolding r1_def
    using reachable.step [OF reachable.boot hub_step.accept_node [OF auth_ok [of "''n''"]]] by simp
  then have "reachable r2" unfolding r2_def
    by (rule reachable.step) (use hub_step.accept_mobile [OF auth_ok [of "''s''"], of r1] in \<open>simp add: r1_def numeral_2_eq_2\<close>)
  then have "reachable r3" unfolding r3_def
    by (rule reachable.step) (rule hub_step.hello_ok [OF _ hello_accepted], simp add: r2_def)
  then have "reachable r4" unfolding r4_def
    by (rule reachable.step)
      (use hub_step.accept_mobile [OF auth_ok [of "''s''"], of r3] in \<open>simp add: r3_def r2_def\<close>)
  then have "reachable r5" unfolding r5_def
    by (rule reachable.step) (rule hub_step.hello_ok [OF _ hello_accepted], simp add: r4_def)
  moreover have "r5 = demo_relay"
    by (simp add: r5_def r4_def r3_def r2_def r1_def demo_relay_def demo_hub_def fun_upd_twist)
  ultimately show ?thesis by simp
qed

lemma demo_hub_tables: "mobile demo_hub ''s'' = Some 2" "dataNode demo_hub ''n'' = Some 0" "0 \<notin> closed demo_hub"
  by (simp_all add: demo_hub_def NewHub_def)

theorem relay_tables_consistent_witness: "nodeForMobile demo_hub ''s'' \<noteq> None \<and> 2 \<notin> closed demo_hub"
  using relay_tables_consistent [OF demo_reachable, of "''s''" "''n''" 0 2] demo_hub_tables
  by (auto simp: demo_relay_def)

theorem mobile_data_routed_witness:
  "delivered demo_hub (mobile_frame ''s'' 2 (frameTypeData, [], [9]) demo_hub)
     = [(0, (frameTypeData, bytes_of_string ''s'', [9]))]"
  using mobile_data_routed [OF demo_reachable, of 2 "''s''" "''n''" "[9]" "[]"] demo_hub_tables
  by (simp add: demo_relay_def)

theorem stale_cleanup_harmless_witness: "mobile (fst (unwind 1 (Mobile ''s'' ''n'') demo_hub)) ''s'' = Some 2"
  using stale_cleanup_harmless [OF demo_reachable, of 1 "Mobile ''s'' ''n''"] demo_hub_tables
  by (cases "unwind 1 (Mobile ''s'' ''n'') demo_hub") (simp add: demo_relay_def)

theorem node_reaches_any_session_witness:
  "delivered demo_hub (node_frame ''other'' 7 (frameTypeData, bytes_of_string ''s'', [9]) demo_hub)
     = [(2, (frameTypeData, [], [9]))]"
  using node_reaches_any_session [OF demo_reachable, of "''s''" 2 "[9]" "''other''" 7] demo_hub_tables
  by (simp add: demo_relay_def)

end
