(* ===== verification/Ident.thy ===== *)
theory Ident
  imports NetIP
begin

text \<open>
  \<open>server/internal/domain/id.go\<close>: the 16-byte UUIDv7 identifiers.  \<open>new_id\<close> is \<open>NewID\<close> with its
  package state (last millisecond, 12-bit counter) passed explicitly, the clock and the random
  bytes as arguments; the text and database encodings and the IP byte helpers follow.
\<close>

unbundle bit_operations_syntax

type_synonym ID = bytes \<comment> \<open>\<open>[16]byte\<close>; \<open>valid_id\<close> is the length\<close>

definition valid_id :: "ID \<Rightarrow> bool" where "valid_id i \<longleftrightarrow> length i = 16"

definition Zero :: ID where "Zero = replicate 16 0"

definition IsZero :: "ID \<Rightarrow> bool" where "IsZero i = list_all (\<lambda>b. b = 0) i"

section \<open>NewID\<close>

record id_state =
  lastMS :: int
  lastRandA :: "16 word"

definition id_init :: id_state where "id_init = \<lparr>lastMS = 0, lastRandA = 0\<rparr>"

text \<open>The locked section: the timestamp and counter of the next identifier.\<close>

definition next_stamp :: "id_state \<Rightarrow> int \<Rightarrow> (byte \<times> byte) option \<Rightarrow> id_state" where
  "next_stamp g now seed =
     (if now = lastMS g then
        (if lastRandA g = 0x0FFF then \<lparr>lastMS = lastMS g + 1, lastRandA = 0\<rparr>
         else \<lparr>lastMS = now, lastRandA = lastRandA g + 1\<rparr>)
      else if now < lastMS g then \<lparr>lastMS = lastMS g + 1, lastRandA = 0\<rparr>
      else \<lparr>lastMS = now,
            lastRandA = (case seed of
               Some (s0, s1) \<Rightarrow> (push_bit 4 (ucast s0) OR drop_bit 4 (ucast s1)) AND 0x0FFF
             | None \<Rightarrow> 0)\<rparr>)"

definition id_bytes :: "int \<Rightarrow> 16 word \<Rightarrow> bytes \<Rightarrow> ID" where
  "id_bytes now rA tail =
     [word_of_int (drop_bit 40 now), word_of_int (drop_bit 32 now), word_of_int (drop_bit 24 now),
      word_of_int (drop_bit 16 now), word_of_int (drop_bit 8 now), word_of_int now,
      0x70 OR (ucast (drop_bit 8 rA) AND 0x0F), ucast rA]
     @ ((hd tail AND 0x3F) OR 0x80) # tl tail"

text \<open>\<open>tail\<close> are the eight bytes \<open>rand.Read\<close> gives; \<open>None\<close> is its error, on which the code panics.\<close>

definition new_id :: "id_state \<Rightarrow> int \<Rightarrow> (byte \<times> byte) option \<Rightarrow> bytes option \<Rightarrow> ID option \<times> id_state" where
  "new_id g now seed tail =
     (let g' = next_stamp g now seed
      in (map_option (id_bytes (lastMS g') (lastRandA g')) tail, g'))"

definition TimestampMS :: "ID \<Rightarrow> int" where
  "TimestampMS i =
     (if drop_bit 4 (i ! 6) \<noteq> 0x7 then 0
      else push_bit 40 (uint (i ! 0)) OR push_bit 32 (uint (i ! 1)) OR push_bit 24 (uint (i ! 2))
           OR push_bit 16 (uint (i ! 3)) OR push_bit 8 (uint (i ! 4)) OR uint (i ! 5))"

section \<open>Hexadecimal text\<close>

definition hex_byte :: "byte \<Rightarrow> string" where
  "hex_byte b = [hex_char (unat b div 16), hex_char (unat b mod 16)]"

definition hex_encode :: "bytes \<Rightarrow> string" where \<comment> \<open>\<open>hex.EncodeToString\<close>\<close>
  "hex_encode bs = concat (map hex_byte bs)"

fun hex_decode :: "string \<Rightarrow> bytes option" where \<comment> \<open>\<open>hex.Decode\<close>\<close>
  "hex_decode [] = Some []"
| "hex_decode [_] = None"
| "hex_decode (a # b # s) =
     (case (hex_val a, hex_val b) of
        (Some x, Some y) \<Rightarrow> map_option (Cons (of_nat (16 * x + y))) (hex_decode s)
      | _ \<Rightarrow> None)"

definition String :: "ID \<Rightarrow> string" where
  "String i =
     (if IsZero i then ''00000000-0000-0000-0000-000000000000''
      else hex_encode (take 4 i) @ ''-'' @ hex_encode (take 2 (drop 4 i)) @ ''-''
         @ hex_encode (take 2 (drop 6 i)) @ ''-'' @ hex_encode (take 2 (drop 8 i)) @ ''-''
         @ hex_encode (drop 10 i))"

definition HexString :: "ID \<Rightarrow> string" where
  "HexString i = to_upper (hex_encode i)"

datatype id_error = WrongHexLength nat | BadHex | ScanLength nat | ScanKind | IPLength

definition ParseID :: "string \<Rightarrow> id_error + ID" where
  "ParseID s =
     (let stripped = filter (\<lambda>c. c \<noteq> CHR ''-'') s
      in if length stripped \<noteq> 32 then Inl (WrongHexLength (length stripped))
         else case hex_decode stripped of None \<Rightarrow> Inl BadHex | Some i \<Rightarrow> Inr i)"

section \<open>Database and text marshalling\<close>

datatype sql_src = SNull | SBytes bytes | SString string | SOther

text \<open>\<open>Scan\<close> writes its receiver: the result is the receiver afterwards and the error.\<close>

definition Scan :: "ID \<Rightarrow> sql_src \<Rightarrow> ID \<times> id_error option" where
  "Scan i src = (case src of
      SNull \<Rightarrow> (Zero, None)
    | SBytes v \<Rightarrow> if length v \<noteq> 16 then (i, Some (ScanLength (length v))) else (v, None)
    | SString s \<Rightarrow> (case ParseID s of Inl e \<Rightarrow> (i, Some e) | Inr j \<Rightarrow> (j, None))
    | SOther \<Rightarrow> (i, Some ScanKind))"

definition Bytes :: "ID \<Rightarrow> bytes" where "Bytes i = i"
definition Value :: "ID \<Rightarrow> bytes" where "Value i = Bytes i"
definition MarshalText :: "ID \<Rightarrow> bytes" where "MarshalText i = bytes_of_string (String i)"

definition UnmarshalText :: "ID \<Rightarrow> bytes \<Rightarrow> ID \<times> id_error option" where
  "UnmarshalText i text =
     (case ParseID (string_of_bytes text) of Inl e \<Rightarrow> (i, Some e) | Inr j \<Rightarrow> (j, None))"

definition IPToBytes :: "addr \<Rightarrow> bytes option" where \<comment> \<open>\<open>None\<close> is the nil slice\<close>
  "IPToBytes a = (case a of NoAddr \<Rightarrow> None | V4 w \<Rightarrow> Some (as4 w) | V6 w _ \<Rightarrow> Some (as16 w))"

definition IPFromBytes :: "bytes \<Rightarrow> id_error + addr" where
  "IPFromBytes b =
     (if length b = 4 then Inr (from4 b)
      else if length b = 16 then Inr (unmap (from16 b))
      else Inl IPLength)"

section \<open>Hexadecimal round trips\<close>

lemma hex_val_hex_char: "d < 16 \<Longrightarrow> hex_val (hex_char d) = Some d"
  by (simp add: hex_val_def hex_char_def is_digit_iff less_eq_char_def of_char_of)

lemma hex_val_upper: "d < 16 \<Longrightarrow> hex_val (upper_char (hex_char d)) = Some d"
  by (simp add: hex_val_def hex_char_def upper_char_def is_lower_def is_digit_iff less_eq_char_def of_char_of)

lemma hex_char_not_dash: "d < 16 \<Longrightarrow> hex_char d \<noteq> CHR ''-''"
  by (auto dest: hex_val_hex_char simp: hex_val_def is_digit_iff less_eq_char_def)

lemma byte_div_mod: "of_nat (16 * (unat b div 16) + unat b mod 16) = (b :: byte)"
  by (simp only: mult_div_mod_eq) simp

lemma byte_nibbles: "unat (b :: byte) div 16 < 16" "unat (b :: byte) mod 16 < 16"
  using unsigned_less [of b, where 'a = nat] by auto

lemma hex_decode_encode [codec_simps]: "hex_decode (hex_encode bs) = Some bs"
proof (induction bs)
  case (Cons b bs)
  then show ?case
    using byte_div_mod [of b] byte_nibbles [of b]
    by (simp add: hex_encode_def hex_byte_def hex_val_hex_char)
qed (simp add: hex_encode_def)

lemma hex_decode_upper [codec_simps]: "hex_decode (to_upper (hex_encode bs)) = Some bs"
proof (induction bs)
  case (Cons b bs)
  then show ?case
    using byte_div_mod [of b] byte_nibbles [of b]
    by (simp add: hex_encode_def hex_byte_def hex_val_upper to_upper_def)
qed (simp add: hex_encode_def to_upper_def)

lemma length_hex_encode [simp]: "length (hex_encode bs) = 2 * length bs"
  by (induction bs) (auto simp: hex_encode_def hex_byte_def)

lemma hex_encode_append: "hex_encode (xs @ ys) = hex_encode xs @ hex_encode ys"
  by (simp add: hex_encode_def)

lemma filter_dash_hex [simp]: "filter (\<lambda>c. c \<noteq> CHR ''-'') (hex_encode bs) = hex_encode bs"
  using byte_nibbles by (auto simp: hex_encode_def hex_byte_def filter_id_conv hex_char_not_dash)

lemma hex_decode_length: "hex_decode s = Some bs \<Longrightarrow> length s = 2 * length bs"
  by (induction s arbitrary: bs rule: hex_decode.induct) (auto split: option.splits)

lemma IsZero_iff: "valid_id i \<Longrightarrow> IsZero i \<longleftrightarrow> i = Zero"
  by (auto simp: IsZero_def Zero_def valid_id_def list_all_iff intro: replicate_eqI)

lemma take_drop_glue: "take n (drop k xs) @ drop (k + n) xs = drop k xs"
  by (metis add.commute append_take_drop_id drop_drop)

lemma hex_encode_Zero: "hex_encode Zero = ''00000000000000000000000000000000''"
  by code_simp

lemma String_parts:
  assumes "valid_id i"
  shows "filter (\<lambda>c. c \<noteq> CHR ''-'') (String i) = hex_encode i"
proof (cases "IsZero i")
  case True
  then have "i = Zero" using assms IsZero_iff by blast
  with True show ?thesis by (simp add: String_def hex_encode_Zero)
next
  case False
  have "take 4 i @ take 2 (drop 4 i) @ take 2 (drop 6 i) @ take 2 (drop 8 i) @ drop 10 i = i"
    using take_drop_glue [of 2 8 i] take_drop_glue [of 2 6 i] take_drop_glue [of 2 4 i]
      append_take_drop_id [of 4 i] by simp
  then have "hex_encode i = hex_encode (take 4 i) @ hex_encode (take 2 (drop 4 i))
      @ hex_encode (take 2 (drop 6 i)) @ hex_encode (take 2 (drop 8 i)) @ hex_encode (drop 10 i)"
    by (metis hex_encode_append)
  with False show ?thesis
    by (simp add: String_def)
qed

lemma to_upper_no_dash:
  "filter (\<lambda>c. c \<noteq> CHR ''-'') (to_upper (hex_encode i)) = to_upper (hex_encode i)"
  "length (to_upper s) = length s"
proof -
  have "upper_char c \<noteq> CHR ''-''" if "c \<in> set (hex_encode i)" for c
  proof -
    from that obtain b where "c = hex_char (unat (b :: byte) div 16) \<or> c = hex_char (unat b mod 16)"
      by (auto simp: hex_encode_def hex_byte_def)
    then have "\<exists>d. hex_val (upper_char c) = Some d"
      using byte_nibbles [of b] hex_val_upper by blast
    then show ?thesis by (auto simp: hex_val_def is_digit_iff less_eq_char_def)
  qed
  then show "filter (\<lambda>c. c \<noteq> CHR ''-'') (to_upper (hex_encode i)) = to_upper (hex_encode i)"
    by (auto simp: to_upper_def filter_id_conv)
qed (simp add: to_upper_def)

text \<open>
  An identifier survives its canonical text form, the upper-case hexadecimal form and the
  database column: parsing what was printed gives the identifier back.
\<close>

theorem id_text_roundtrip:
  assumes "valid_id i"
  shows "ParseID (String i) = Inr i \<and> ParseID (HexString i) = Inr i
    \<and> UnmarshalText j (MarshalText i) = (i, None) \<and> Scan j (SBytes (Value i)) = (i, None)"
proof (intro conjI)
  have len: "length (hex_encode i) = 32" using assms by (simp add: valid_id_def)
  show s: "ParseID (String i) = Inr i"
    using len by (simp add: ParseID_def String_parts [OF assms] hex_decode_encode)
  show "UnmarshalText j (MarshalText i) = (i, None)"
    using s by (simp add: UnmarshalText_def MarshalText_def)
  show "Scan j (SBytes (Value i)) = (i, None)"
    using assms by (simp add: Scan_def Value_def Bytes_def valid_id_def)
  show "ParseID (HexString i) = Inr i"
    using len hex_decode_upper [of i] by (simp add: ParseID_def HexString_def to_upper_no_dash)
qed

theorem id_text_roundtrip_witness:
  "ParseID (String ([1, 0x9a] @ replicate 14 0xf0)) = Inr ([1, 0x9a] @ replicate 14 0xf0)"
  using id_text_roundtrip [of "[1, 0x9a] @ replicate 14 0xf0" Zero] by (simp add: valid_id_def)

section \<open>Monotonicity of NewID\<close>

text \<open>
  The invariant of the generator: the counter has 12 bits and the timestamp 48.  A stamp is read
  as one number, the timestamp in front of the counter.
\<close>

definition id_inv :: "id_state \<Rightarrow> bool" where
  "id_inv g \<longleftrightarrow> lastRandA g \<le> 0x0FFF"

definition stamp :: "id_state \<Rightarrow> int" where
  "stamp g = lastMS g * 4096 + uint (lastRandA g)"

lemma id_inv_init [simp]: "id_inv id_init"
  by (simp add: id_inv_def id_init_def)

lemma and_0FFF_le: "(w :: 16 word) AND 0x0FFF \<le> 0x0FFF"
  by (rule word_and_le1)

lemma next_stamp_inv: "id_inv g \<Longrightarrow> id_inv (next_stamp g now seed)"
proof -
  assume inv: "id_inv g"
  have "lastRandA g + 1 \<le> 0x0FFF" if "lastRandA g \<noteq> 0x0FFF"
    using inv that unfolding id_inv_def by unat_arith
  with inv show ?thesis
    by (auto simp: next_stamp_def id_inv_def and_0FFF_le split: option.splits prod.splits)
qed

lemma next_stamp_increases: "id_inv g \<Longrightarrow> stamp g < stamp (next_stamp g now seed)"
proof -
  assume inv: "id_inv g"
  have le: "uint (lastRandA g) \<le> 4095"
    using inv by (simp add: id_inv_def word_le_def)
  have suc: "uint (lastRandA g + 1) = uint (lastRandA g) + 1" if "lastRandA g \<noteq> 0x0FFF"
    using le by (simp add: uint_plus_if')
  have pos: "0 \<le> uint (r :: 16 word)" for r by simp
  show ?thesis
    using le suc pos by (auto simp: next_stamp_def stamp_def add_strict_increasing2 intro: add_less_le_mono)
      (smt (verit) pos)+
qed

text \<open>The byte order of big-endian encodings is the numeric order.\<close>

lemma be_bytes_take_bit: "be_bytes k (take_bit (8 * k) w) = be_bytes k w"
proof -
  have "be_bytes j (take_bit (8 * k) w) = be_bytes j w" if "j \<le> k" for j
    using that
  proof (induction j)
    case (Suc j)
    then have "(ucast (drop_bit (8 * j) (take_bit (8 * k) w)) :: byte) = ucast (drop_bit (8 * j) w)"
      by (intro bit_word_eqI) (auto simp: bit_simps)
    with Suc show ?case by simp
  qed simp
  then show ?thesis by simp
qed

lemma be_bytes_less:
  fixes a b :: "'a::len word"
  shows "unat a mod 2 ^ (8 * k) < unat b mod 2 ^ (8 * k) \<Longrightarrow> be_bytes k a < be_bytes k b"
proof (induction k)
  case (Suc k)
  let ?m = "2 ^ (8 * k) :: nat"
  have split: "n mod 2 ^ (8 * Suc k) = ?m * (n div ?m mod 256) + n mod ?m" for n :: nat
    using mod_mult2_eq [of n ?m 256] by (simp add: power_add mult.commute)
  have head: "unat (ucast (drop_bit (8 * k) w) :: byte) = unat w div ?m mod 256" for w :: "'a word"
  proof -
    have "unat (ucast (drop_bit (8 * k) w) :: byte) = take_bit 8 (unat (drop_bit (8 * k) w))"
      by (simp add: unsigned_ucast_eq)
    also have "\<dots> = take_bit 8 (drop_bit (8 * k) (unat w))"
      by (simp add: unat_drop_bit_eq)
    finally show ?thesis by (simp only: take_bit_eq_mod drop_bit_eq_div) simp
  qed
  let ?ha = "unat a div ?m mod 256" and ?hb = "unat b div ?m mod 256"
  have lt: "?m * ?ha + unat a mod ?m < ?m * ?hb + unat b mod ?m"
    using Suc.prems by (simp only: split)
  have "unat a mod ?m < ?m" "unat b mod ?m < ?m" by simp_all
  then consider "?ha < ?hb" | "?ha = ?hb" "unat a mod ?m < unat b mod ?m"
  proof -
    assume that: "?ha < ?hb \<Longrightarrow> thesis" "?ha = ?hb \<Longrightarrow> unat a mod ?m < unat b mod ?m \<Longrightarrow> thesis"
      and m: "unat a mod ?m < ?m" "unat b mod ?m < ?m"
    have "?ha \<le> ?hb"
    proof (rule ccontr)
      assume "\<not> ?ha \<le> ?hb"
      then have "Suc ?hb \<le> ?ha" by simp
      then have "?m * Suc ?hb \<le> ?m * ?ha" by (rule mult_le_mono2)
      then have "?m + ?m * ?hb \<le> ?m * ?ha" by simp
      with lt m show False by linarith
    qed
    with that lt show thesis by (cases "?ha = ?hb") auto
  qed
  then show ?case
  proof cases
    case 1
    then show ?thesis by (simp add: word_less_nat_alt head)
  next
    case 2
    then have "be_bytes k a < be_bytes k b" using Suc.IH by blast
    with 2(1) show ?thesis by (simp add: word_less_nat_alt head word_unat_eq_iff)
  qed
qed simp

lemma word_of_int_drop_bit_ucast:
  assumes "n + 8 \<le> 64"
  shows "(word_of_int (drop_bit n m) :: byte) = ucast (drop_bit n (word_of_int m :: 64 word))"
  using assms by (intro bit_word_eqI) (auto simp: bit_simps)

lemma id_bytes_prefix:
  "id_bytes m r t = be_bytes 6 (word_of_int m :: 64 word)
     @ [0x70 OR (ucast (drop_bit 8 r) AND 0x0F), ucast r] @ ((hd t AND 0x3F) OR 0x80) # tl t"
  using word_of_int_drop_bit_ucast [of 0 m]
  by (simp add: id_bytes_def word_of_int_drop_bit_ucast numeral_eq_Suc)

lemma version_bytes: "list_all (\<lambda>n. 0x70 OR (word_of_nat n AND 0x0F) = (0x70 + word_of_nat n :: byte)) [0 ..< 16]"
  by code_simp

lemma version_byte:
  assumes "h \<le> 15"
  shows "0x70 OR (h AND 0x0F) = 0x70 + (h :: byte)"
proof -
  have "unat h \<in> set [0 ..< 16]" using assms by (simp add: word_le_nat_alt)
  with version_bytes have "0x70 OR (word_of_nat (unat h) AND 0x0F) = (0x70 + word_of_nat (unat h) :: byte)"
    unfolding list_all_iff by blast
  then show ?thesis by simp
qed

lemma two_bytes_less: "(a :: byte) < b \<or> (a = b \<and> c < d) \<Longrightarrow> [a, c] < [b, d]"
  by auto

lemma counter_bytes_less:
  assumes "r < s" "s \<le> 0x0FFF"
  shows "[0x70 OR (ucast (drop_bit 8 r) AND 0x0F), ucast r]
       < [0x70 OR (ucast (drop_bit 8 s) AND 0x0F), ucast (s :: 16 word) :: byte]"
proof -
  have hi: "unat (ucast (drop_bit 8 x) :: byte) = unat x div 256 \<and> unat x div 256 \<le> 15"
    if "x \<le> 0x0FFF" for x :: "16 word"
  proof -
    have x: "unat x \<le> 4095" using that by (simp add: word_le_nat_alt)
    have "unat (ucast (drop_bit 8 x) :: byte) = take_bit 8 (drop_bit 8 (unat x))"
      by (simp add: unsigned_ucast_eq unat_drop_bit_eq)
    with x show ?thesis by (auto simp: take_bit_eq_mod drop_bit_eq_div)
  qed
  have r: "r \<le> 0x0FFF" using assms by order
  have ver: "0x70 OR (ucast (drop_bit 8 x) AND 0x0F) = 0x70 + (ucast (drop_bit 8 x) :: byte)"
    if "x \<le> 0x0FFF" for x :: "16 word"
    using hi [OF that] by (intro version_byte) (simp add: word_le_nat_alt)
  have lo: "unat (ucast x :: byte) = unat x mod 256" for x :: "16 word"
    by (simp add: unsigned_ucast_eq take_bit_eq_mod)
  have lt: "unat r < unat s" using assms by (simp add: word_less_nat_alt)
  have plus: "unat (0x70 + (ucast (drop_bit 8 x) :: byte)) = 112 + unat x div 256"
    if "x \<le> 0x0FFF" for x :: "16 word"
    using hi [OF that] by (simp add: unat_word_ariths)
  have "unat r div 256 < unat s div 256 \<or> unat r div 256 = unat s div 256 \<and> unat r mod 256 < unat s mod 256"
    using lt div_le_mono [of "unat r" "unat s" 256] mult_div_mod_eq [of 256 "unat r"]
      mult_div_mod_eq [of 256 "unat s"] by (cases "unat r div 256 = unat s div 256") (linarith, simp)
  then show ?thesis
  proof
    assume "unat r div 256 < unat s div 256"
    then have "0x70 + (ucast (drop_bit 8 r) :: byte) < 0x70 + ucast (drop_bit 8 s)"
      by (simp only: word_less_nat_alt plus [OF r] plus [OF assms(2)])
    then show ?thesis
      unfolding ver [OF r] ver [OF assms(2)] by (rule two_bytes_less [OF disjI1])
  next
    assume eq: "unat r div 256 = unat s div 256 \<and> unat r mod 256 < unat s mod 256"
    then have "(ucast (drop_bit 8 r) :: byte) = ucast (drop_bit 8 s)"
      using hi [OF r] hi [OF assms(2)] by (simp only: word_unat_eq_iff)
    moreover have "(ucast r :: byte) < ucast s"
      using eq by (simp only: word_less_nat_alt lo)
    ultimately have "0x70 + (ucast (drop_bit 8 r) :: byte) = 0x70 + ucast (drop_bit 8 s) \<and> (ucast r :: byte) < ucast s"
      by (simp only: simp_thms)
    then show ?thesis
      unfolding ver [OF r] ver [OF assms(2)] by (rule two_bytes_less [OF disjI2])
  qed
qed

lemma list_less_append: "xs < ys \<Longrightarrow> length xs = length ys \<Longrightarrow> xs @ us < ys @ (vs :: 'a::linorder list)"
  by (induction xs ys rule: list_induct2') auto

lemma list_less_same_prefix: "us < vs \<Longrightarrow> xs @ us < xs @ (vs :: 'a::linorder list)"
  by (induction xs) auto

lemma id_bytes_less:
  assumes "stamp g < stamp h" "id_inv g" "id_inv h" "0 \<le> lastMS g" "lastMS h < 2 ^ 48"
  shows "id_bytes (lastMS g) (lastRandA g) t < id_bytes (lastMS h) (lastRandA h) u"
proof -
  have r: "uint (lastRandA g) \<le> 4095" "uint (lastRandA h) \<le> 4095" "0 \<le> uint (lastRandA g)" "0 \<le> uint (lastRandA h)"
    using assms by (auto simp: id_inv_def word_le_def)
  from assms(1) r consider "lastMS g < lastMS h" | "lastMS g = lastMS h" "lastRandA g < lastRandA h"
  proof -
    assume that: "lastMS g < lastMS h \<Longrightarrow> thesis" "lastMS g = lastMS h \<Longrightarrow> lastRandA g < lastRandA h \<Longrightarrow> thesis"
      and lt: "stamp g < stamp h" and r: "uint (lastRandA g) \<le> 4095" "uint (lastRandA h) \<le> 4095"
        "0 \<le> uint (lastRandA g)" "0 \<le> uint (lastRandA h)"
    from lt r have "lastMS g \<le> lastMS h" unfolding stamp_def by linarith
    with that lt show thesis by (cases "lastMS g = lastMS h") (auto simp: stamp_def word_less_def)
  qed
  then show ?thesis
  proof cases
    case 1
    have ms: "unat (word_of_int m :: 64 word) mod 2 ^ (8 * 6) = nat m" if "0 \<le> m" "m < 2 ^ 48" for m
      using that by (simp add: unat_eq_nat_uint uint_word_of_int)
    have "be_bytes 6 (word_of_int (lastMS g) :: 64 word) < be_bytes 6 (word_of_int (lastMS h) :: 64 word)"
      using 1 assms ms [of "lastMS g"] ms [of "lastMS h"] by (intro be_bytes_less) simp
    then show ?thesis by (auto simp: id_bytes_prefix intro: list_less_append)
  next
    case 2
    from counter_bytes_less [OF 2(2)] assms(3)
    have "[0x70 OR (ucast (drop_bit 8 (lastRandA g)) AND 0x0F), ucast (lastRandA g)]
        < [0x70 OR (ucast (drop_bit 8 (lastRandA h)) AND 0x0F), ucast (lastRandA h) :: byte]"
      by (simp add: id_inv_def)
    from list_less_same_prefix [OF list_less_append [OF this]] 2(1) show ?thesis
      unfolding id_bytes_prefix by simp
  qed
qed

fun mint :: "id_state \<Rightarrow> (int \<times> (byte \<times> byte) option \<times> bytes) list \<Rightarrow> ID list" where
  \<comment> \<open>a sequence of calls of \<open>NewID\<close>, with what the clock and the random source give each\<close>
  "mint g [] = []"
| "mint g ((now, seed, t) # calls) =
     (case new_id g now seed (Some t) of
        (Some i, g') \<Rightarrow> i # mint g' calls
      | (None, g') \<Rightarrow> mint g' calls)"

lemma next_stamp_ms: "lastMS g \<le> lastMS (next_stamp g now seed)
    \<and> lastMS (next_stamp g now seed) \<le> max now (lastMS g + 1)"
  by (auto simp: next_stamp_def)

lemma mint_above:
  assumes "id_inv g" "0 \<le> lastMS g" "lastMS g + int (length calls) < 2 ^ 48"
    and "\<forall>(now, _) \<in> set calls. now + int (length calls) < 2 ^ 48"
  shows "sorted_wrt (<) (mint g calls) \<and> (\<forall>i \<in> set (mint g calls). \<forall>t. id_bytes (lastMS g) (lastRandA g) t < i)"
  using assms
proof (induction calls arbitrary: g)
  case (Cons call calls)
  obtain now seed t where call: "call = (now, seed, t)" by (cases call)
  let ?h = "next_stamp g now seed"
  note ms = next_stamp_ms [of g now seed]
  have inv: "id_inv ?h" using Cons.prems(1) by (rule next_stamp_inv)
  have top: "lastMS ?h + int (length calls) < 2 ^ 48"
    using ms Cons.prems(3,4) by (auto simp: call max_def split: if_splits)
  have IH: "sorted_wrt (<) (mint ?h calls) \<and> (\<forall>i \<in> set (mint ?h calls). \<forall>t. id_bytes (lastMS ?h) (lastRandA ?h) t < i)"
    using Cons.prems(2,4) ms inv top by (intro Cons.IH) (auto simp: call)
  have less: "id_bytes (lastMS g) (lastRandA g) u < id_bytes (lastMS ?h) (lastRandA ?h) v" for u v
    using Cons.prems ms top next_stamp_increases [OF Cons.prems(1), of now seed] inv
    by (intro id_bytes_less) auto
  show ?case
    using IH less [of _ t] by (auto simp: call new_id_def Let_def intro: less_trans)
qed simp

text \<open>
  C35. The identifiers of one process are strictly increasing as byte strings, whatever the clock
  does (standing still, jumping back) and however many calls fall into one millisecond, as long as
  the timestamps fit their 48 bits; so no identifier is issued twice.
\<close>

theorem new_id_strictly_increasing:
  assumes "\<forall>(now, _) \<in> set calls. now + int (length calls) < 2 ^ 48"
    and "int (length calls) < 2 ^ 48"
  shows "sorted_wrt (<) (mint id_init calls) \<and> distinct (mint id_init calls)"
proof -
  have "sorted_wrt (<) (mint id_init calls)"
    using mint_above [of id_init calls] assms by (simp add: id_init_def id_inv_def)
  then show ?thesis by (simp add: strict_sorted_iff)
qed

theorem new_id_strictly_increasing_witness:
  "sorted_wrt (<) (mint id_init [(7, None, replicate 8 1), (7, Some (0xff, 0xff), replicate 8 0), (3, None, replicate 8 9)])"
  using new_id_strictly_increasing [of "[(7, None, replicate 8 1), (7, Some (0xff, 0xff), replicate 8 0), (3, None, replicate 8 9)]"]
  by simp

end
