(* ===== verification/Tables.thy ===== *)
theory Tables
  imports Ident
begin

text \<open>
  The rows of the database tables several components read and write, and the Go structs they are
  scanned into (\<open>internal/devices/types.go\<close>, \<open>internal/policies/policies.go\<close>).  A table is the list
  of its rows; SELECT is a filter, UPDATE a map, INSERT an append.  A nullable column is an option.
\<close>

datatype Status = StatusPendingAttest | StatusActive | StatusSuspended | StatusRevoked

datatype AppFilterMode = AppFilterOff | AppFilterInclude | AppFilterExclude

datatype DeploymentMode = DeploymentStandalone | DeploymentEmbedded

datatype PSKSource = PSKClassical | PSKPQCHybrid | PSKManual

record Device =
  d_id :: ID
  d_tenant :: ID
  d_user :: ID
  d_install :: string
  d_name :: string
  d_platform :: string
  d_os_version :: string
  d_app_version :: string
  d_model :: string
  d_os_sdk :: int
  d_status :: Status
  d_last_seen :: "time option"
  d_created :: time
  d_filter_mode :: AppFilterMode
  d_filter_packages :: "string list"
  d_deployment :: DeploymentMode
  d_host_package :: string
  d_policy :: "ID option" \<comment> \<open>columns the \<open>Device\<close> struct does not carry\<close>
  d_group :: "ID option"
  d_access_expires :: "time option"
  d_deleted :: "time option"

record DeviceKey =
  k_id :: ID
  k_device :: ID
  k_public :: bytes
  k_ipv4 :: "bytes option"
  k_ipv6 :: "bytes option"
  k_activated :: time
  k_expires :: "time option"
  k_revoked :: "time option"

record PSKRow =
  p_id :: ID
  p_device_key :: ID
  p_psk :: bytes
  p_source :: PSKSource
  p_activated :: time
  p_expires :: "time option"
  p_revoked :: "time option"

record Tenant = \<comment> \<open>the pool columns of \<open>tenants\<close>\<close>
  t_id :: ID
  t_v4 :: bytes
  t_v4_bits :: int
  t_v6 :: "bytes option"
  t_v6_bits :: "int option"
  t_expiry_days :: int
  t_min_os_sdk :: int
  t_deleted :: "time option"

record Group =
  g_id :: ID
  g_tenant :: ID
  g_name :: string
  g_descr :: "string option"
  g_policy :: "ID option"
  g_deleted :: "time option"

text \<open>\<open>WHERE id = ? AND deleted_at IS NULL LIMIT 1\<close>.\<close>

definition live_device :: "Device list \<Rightarrow> ID \<Rightarrow> Device option" where
  "live_device ds i = find (\<lambda>d. d_id d = i \<and> d_deleted d = None) ds"

end
