(* ===== verification/Enrollment.thy ===== *)
theory Enrollment
  imports Tables
begin

text \<open>
  Enrolment: the tokens of \<open>server/internal/devices/enrollment_token.go\<close> and the device-initiated
  requests of \<open>enrollment_request.go\<close>, with the approval handler of
  \<open>server/internal/httpapi/enrollment_request.go\<close>.  The tables \<open>enrollment_tokens\<close> and
  \<open>enrollment_requests\<close> are lists of rows; the two indexes that matter (primary key, unique hash)
  are checked by the inserts.  SHA-256, the base64 text of the secret, the random bytes, new
  identifiers and both clocks (Go's and the database's) are arguments.
\<close>

section \<open>Tokens\<close>

record EnrollmentToken =
  et_id :: ID
  et_tenant :: ID
  et_name :: string
  et_hash :: bytes
  et_policy :: "ID option"
  et_max :: int
  et_used :: int
  et_expires :: time
  et_revoked :: "time option"
  et_by :: "ID option"
  et_created :: time

definition token_status :: "EnrollmentToken \<Rightarrow> time \<Rightarrow> string" where
  "token_status t now =
     (if et_revoked t \<noteq> None then ''revoked''
      else if now > et_expires t then ''expired''
      else if et_max t > 0 \<and> et_used t \<ge> et_max t then ''used_up''
      else ''active'')"

datatype enroll_error =
    TenantZero | NameEmpty | NegativeUses | Entropy | DuplicateRow
  | ErrTokenUnusable | TokenNotFound | NoSharedPassword | ErrEnrollPassword | MissingField
  | BadInstallID | ErrRequestNotPending | NoRows


definition CreateEnrollmentToken :: "(string \<Rightarrow> bytes) \<Rightarrow> (bytes \<Rightarrow> string) \<Rightarrow> ID \<Rightarrow> bytes option \<Rightarrow> time
    \<Rightarrow> ID \<Rightarrow> ID \<Rightarrow> string \<Rightarrow> ID option \<Rightarrow> int \<Rightarrow> time \<Rightarrow> EnrollmentToken list
    \<Rightarrow> (enroll_error + EnrollmentToken \<times> string) \<times> EnrollmentToken list" where
  "CreateEnrollmentToken sha b64 newID entropy now tenantID createdBy name policyID maxUses ttl0 rows =
     (if IsZero tenantID then (Inl TenantZero, rows)
      else if name = [] then (Inl NameEmpty, rows)
      else if maxUses < 0 then (Inl NegativeUses, rows)
      else let ttl = (if ttl0 \<le> 0 then 24 * hour else ttl0) in
       case entropy of
         None \<Rightarrow> (Inl Entropy, rows)
       | Some raw \<Rightarrow>
          (let secret = ''aidot_'' @ b64 raw;
               tok = \<lparr>et_id = newID, et_tenant = tenantID, et_name = name, et_hash = sha secret,
                 et_policy = policyID, et_max = maxUses, et_used = 0, et_expires = now + ttl,
                 et_revoked = None, et_by = (if IsZero createdBy then None else Some createdBy),
                 et_created = now\<rparr>
           in if \<exists>t \<in> set rows. et_id t = newID \<or> et_hash t = sha secret then (Inl DuplicateRow, rows)
              else (Inr (tok, secret), rows @ [tok])))"

definition ListEnrollmentTokens :: "ID \<Rightarrow> EnrollmentToken list \<Rightarrow> EnrollmentToken list" where
  "ListEnrollmentTokens tenantID rows =
     rev (sort_key et_created (filter (\<lambda>t. et_tenant t = tenantID) rows))"

definition RevokeEnrollmentToken :: "time \<Rightarrow> ID \<Rightarrow> ID \<Rightarrow> EnrollmentToken list
    \<Rightarrow> enroll_error option \<times> EnrollmentToken list" where
  "RevokeEnrollmentToken dbnow tenantID i rows =
     (let hit = (\<lambda>t. et_id t = i \<and> et_tenant t = tenantID \<and> et_revoked t = None)
      in (if \<exists>t \<in> set rows. hit t then None else Some TokenNotFound,
          map (\<lambda>t. if hit t then t\<lparr>et_revoked := Some dbnow\<rparr> else t) rows))"

text \<open>The WHERE clause the check and the redemption share.\<close>

definition token_usable :: "time \<Rightarrow> bytes \<Rightarrow> EnrollmentToken \<Rightarrow> bool" where
  "token_usable dbnow h t \<longleftrightarrow> et_hash t = h \<and> et_revoked t = None \<and> et_expires t > dbnow
     \<and> (et_max t = 0 \<or> et_used t < et_max t)"

definition RedeemEnrollmentToken :: "(string \<Rightarrow> bytes) \<Rightarrow> time \<Rightarrow> string \<Rightarrow> EnrollmentToken list
    \<Rightarrow> (enroll_error + ID \<times> ID option) \<times> EnrollmentToken list" where
  "RedeemEnrollmentToken sha dbnow secret rows =
     (let h = sha secret;
          rows' = map (\<lambda>t. if token_usable dbnow h t then t\<lparr>et_used := et_used t + 1\<rparr> else t) rows
      in if \<not> (\<exists>t \<in> set rows. token_usable dbnow h t) then (Inl ErrTokenUnusable, rows)
         else case find (\<lambda>t. et_hash t = h) rows' of
           None \<Rightarrow> (Inl NoRows, rows')
         | Some t \<Rightarrow> (Inr (et_tenant t, et_policy t), rows'))"

definition CheckEnrollmentToken :: "(string \<Rightarrow> bytes) \<Rightarrow> time \<Rightarrow> string \<Rightarrow> bool \<Rightarrow> EnrollmentToken list
    \<Rightarrow> (enroll_error + ID \<times> ID option) \<times> EnrollmentToken list" where
  "CheckEnrollmentToken sha dbnow secret consume rows =
     (if consume then RedeemEnrollmentToken sha dbnow secret rows
      else case find (token_usable dbnow (sha secret)) rows of
        None \<Rightarrow> (Inl ErrTokenUnusable, rows)
      | Some t \<Rightarrow> (Inr (et_tenant t, et_policy t), rows))"

section \<open>Requests\<close>

record EnrollmentRequest =
  er_id :: ID
  er_tenant :: ID
  er_install :: string
  er_name :: string
  er_platform :: string
  er_pubkey :: string
  er_code :: string
  er_status :: string
  er_policy :: "ID option"
  er_device :: "ID option"
  er_grant :: "string option"
  er_expires :: time
  er_decided :: "time option"
  er_decided_by :: "ID option"
  er_created :: time

text \<open>\<open>utf8.RuneCountInString\<close> of a valid string: the bytes that do not continue a rune.\<close>

definition rune_count :: "string \<Rightarrow> nat" where
  "rune_count s = length (filter (\<lambda>c. of_char c div 64 \<noteq> (2 :: nat)) s)"

definition validateInstallID :: "(string \<Rightarrow> bool) \<Rightarrow> string \<Rightarrow> bool" where \<comment> \<open>\<open>utf8.ValidString\<close>\<close>
  "validateInstallID valid_utf8 i \<longleftrightarrow> valid_utf8 i \<and> 1 \<le> rune_count i \<and> rune_count i \<le> 36"

definition six_digits :: "nat \<Rightarrow> string" where \<comment> \<open>\<open>%06d\<close>\<close>
  "six_digits n = replicate (6 - length (nat_str n)) (CHR ''0'') @ nat_str n"

definition newVerificationCode :: "bytes option \<Rightarrow> string option" where
  "newVerificationCode entropy = map_option (\<lambda>b. six_digits (unat (get_be64 b) mod 1000000)) entropy"

definition enrollmentRequestTTL :: time where "enrollmentRequestTTL = 10 * minute"

definition supersede :: "time \<Rightarrow> ID \<Rightarrow> string \<Rightarrow> EnrollmentRequest list \<Rightarrow> EnrollmentRequest list" where
  "supersede dbnow tenantID installID rows =
     map (\<lambda>r. if er_tenant r = tenantID \<and> er_install r = installID \<and> er_status r = ''pending''
              then r\<lparr>er_status := ''rejected'', er_decided := Some dbnow\<rparr> else r) rows"

definition unnamed_device :: string where \<comment> \<open>the UTF-8 text of the default display name\<close>
  "unnamed_device = map char_of [0xEC, 0x9D, 0xB4, 0xEB, 0xA6, 0x84, 0x20, 0xEC, 0x97, 0x86, 0xEB, 0x8A,
     0x94, 0x20, 0xEA, 0xB8, 0xB0, 0xEA, 0xB8, 0xB0 :: nat]"

definition CreateEnrollmentRequest :: "(string \<Rightarrow> bool) \<Rightarrow> ID \<Rightarrow> ID \<Rightarrow> bytes option \<Rightarrow> time \<Rightarrow> time
    \<Rightarrow> ID \<Rightarrow> string \<Rightarrow> string \<Rightarrow> string \<Rightarrow> string \<Rightarrow> string \<Rightarrow> string \<Rightarrow> EnrollmentRequest list
    \<Rightarrow> (enroll_error + EnrollmentRequest) \<times> EnrollmentRequest list" where
  "CreateEnrollmentRequest valid_utf8 defaultTenant newID entropy now dbnow
     tenant0 shared supplied installID name0 platform0 pubkey rows =
     (let tenantID = (if IsZero tenant0 then defaultTenant else tenant0) in
      if shared = [] then (Inl NoSharedPassword, rows)
      else if shared \<noteq> supplied then (Inl ErrEnrollPassword, rows)
      else if installID = [] \<or> pubkey = [] then (Inl MissingField, rows)
      else if \<not> validateInstallID valid_utf8 installID then (Inl BadInstallID, rows)
      else case newVerificationCode entropy of
        None \<Rightarrow> (Inl Entropy, rows)
      | Some code \<Rightarrow>
         (let req = \<lparr>er_id = newID, er_tenant = tenantID, er_install = installID,
                er_name = (if name0 = [] then unnamed_device else name0),
                er_platform = (if platform0 = [] then ''android'' else platform0), er_pubkey = pubkey,
                er_code = code, er_status = ''pending'', er_policy = None, er_device = None, er_grant = None,
                er_expires = now + enrollmentRequestTTL, er_decided = None, er_decided_by = None,
                er_created = now\<rparr>;
              rows' = supersede dbnow tenantID installID rows
          in if \<exists>r \<in> set rows'. er_id r = newID then (Inl DuplicateRow, rows')
             else (Inr req, rows' @ [req])))"

definition GetEnrollmentRequest :: "ID \<Rightarrow> EnrollmentRequest list \<Rightarrow> enroll_error + EnrollmentRequest" where
  "GetEnrollmentRequest i rows =
     (case find (\<lambda>r. er_id r = i) rows of None \<Rightarrow> Inl ErrRequestNotPending | Some r \<Rightarrow> Inr r)"

definition ListEnrollmentRequests :: "ID \<Rightarrow> EnrollmentRequest list \<Rightarrow> EnrollmentRequest list" where
  "ListEnrollmentRequests tenantID rows =
     take 100 (rev (sort_key er_created (filter (\<lambda>r. er_tenant r = tenantID) rows)))"

text \<open>A conditional UPDATE: the rows, and \<open>ErrRequestNotPending\<close> when none was affected.\<close>

definition update_requests where
  "update_requests hit f rows =
     (if \<exists>r \<in> set rows. hit r then None else Some ErrRequestNotPending, map (\<lambda>r. if hit r then f r else r) rows)"

definition MarkApprovedWithGrant :: "time \<Rightarrow> ID \<Rightarrow> ID \<Rightarrow> ID option \<Rightarrow> string \<Rightarrow> EnrollmentRequest list
    \<Rightarrow> enroll_error option \<times> EnrollmentRequest list" where
  "MarkApprovedWithGrant dbnow i decidedBy policyID grant rows =
     update_requests (\<lambda>r. er_id r = i \<and> er_status r = ''pending'' \<and> er_expires r > dbnow)
       (\<lambda>r. r\<lparr>er_status := ''approved'', er_policy := policyID, er_grant := Some grant,
          er_decided := Some dbnow, er_decided_by := Some decidedBy\<rparr>) rows"

definition MarkApproved :: "time \<Rightarrow> ID \<Rightarrow> ID \<Rightarrow> ID \<Rightarrow> ID option \<Rightarrow> EnrollmentRequest list
    \<Rightarrow> enroll_error option \<times> EnrollmentRequest list" where
  "MarkApproved dbnow i deviceID decidedBy policyID rows =
     update_requests (\<lambda>r. er_id r = i \<and> er_status r = ''pending'' \<and> er_expires r > dbnow)
       (\<lambda>r. r\<lparr>er_status := ''approved'', er_device := Some deviceID, er_policy := policyID,
          er_decided := Some dbnow, er_decided_by := Some decidedBy\<rparr>) rows"

definition RejectEnrollmentRequest :: "time \<Rightarrow> ID \<Rightarrow> ID \<Rightarrow> ID \<Rightarrow> EnrollmentRequest list
    \<Rightarrow> enroll_error option \<times> EnrollmentRequest list" where
  "RejectEnrollmentRequest dbnow tenantID i decidedBy rows =
     update_requests (\<lambda>r. er_id r = i \<and> er_tenant r = tenantID \<and> er_status r = ''pending'')
       (\<lambda>r. r\<lparr>er_status := ''rejected'', er_decided := Some dbnow, er_decided_by := Some decidedBy\<rparr>) rows"

text \<open>\<open>TakeGrant\<close> in its two statements: the read, and the compare-and-clear.\<close>

definition read_grant :: "ID \<Rightarrow> EnrollmentRequest list \<Rightarrow> enroll_error + string" where
  "read_grant i rows = (case find (\<lambda>r. er_id r = i) rows of
     None \<Rightarrow> Inl NoRows
   | Some r \<Rightarrow> Inr (case er_grant r of None \<Rightarrow> [] | Some g \<Rightarrow> g))"

definition clear_grant :: "ID \<Rightarrow> string \<Rightarrow> EnrollmentRequest list \<Rightarrow> string \<times> EnrollmentRequest list" where
  "clear_grant i g rows =
     (let hit = (\<lambda>r. er_id r = i \<and> er_grant r = Some g)
      in if \<exists>r \<in> set rows. hit r then (g, map (\<lambda>r. if hit r then r\<lparr>er_grant := None\<rparr> else r) rows) else ([], rows))"

definition TakeGrant :: "ID \<Rightarrow> EnrollmentRequest list \<Rightarrow> (enroll_error + string) \<times> EnrollmentRequest list" where
  "TakeGrant i rows = (case read_grant i rows of
     Inl x \<Rightarrow> (Inl x, rows)
   | Inr [] \<Rightarrow> (Inr [], rows)
   | Inr g \<Rightarrow> (case clear_grant i g rows of (got, rows') \<Rightarrow> (Inr got, rows')))"

definition Pending :: "time \<Rightarrow> EnrollmentRequest \<Rightarrow> bool" where
  "Pending now r \<longleftrightarrow> er_status r = ''pending'' \<and> now < er_expires r"

text \<open>The approval handler: the request is re-read, a single-use token is minted, and the request is
  marked with the token as its grant.\<close>

datatype approval = Conflict | ServerError enroll_error | Approved

definition approveEnrollmentRequest :: "(string \<Rightarrow> bytes) \<Rightarrow> (bytes \<Rightarrow> string) \<Rightarrow> ID \<Rightarrow> bytes option \<Rightarrow> time \<Rightarrow> time
    \<Rightarrow> ID \<Rightarrow> ID \<Rightarrow> ID \<Rightarrow> ID option \<Rightarrow> EnrollmentToken list \<times> EnrollmentRequest list
    \<Rightarrow> approval \<times> EnrollmentToken list \<times> EnrollmentRequest list" where
  "approveEnrollmentRequest sha b64 newID entropy now dbnow userTenant userID i policyID db =
     (case db of (toks, reqs) \<Rightarrow>
      (case GetEnrollmentRequest i reqs of
        Inl _ \<Rightarrow> (Conflict, toks, reqs)
      | Inr req \<Rightarrow>
          if er_tenant req \<noteq> userTenant \<or> \<not> Pending now req then (Conflict, toks, reqs)
          else case CreateEnrollmentToken sha b64 newID entropy now userTenant userID
              (map char_of [0xEC, 0x8A, 0xB9, 0xEC, 0x9D, 0xB8, 0x3A, 0x20 :: nat] @ er_name req)
              policyID 1 (5 * minute) toks of
            (Inl x, toks') \<Rightarrow> (ServerError x, toks', reqs)
          | (Inr (_, secret), toks') \<Rightarrow> (case MarkApprovedWithGrant dbnow i userID policyID secret reqs of
              (Some _, reqs') \<Rightarrow> (Conflict, toks', reqs')
            | (None, reqs') \<Rightarrow> (Approved, toks', reqs'))))"

section \<open>Tokens are not over-used\<close>

text \<open>
  The runs of the token table: tokens are created, checked, redeemed and revoked at any times.  The
  log has the hash of the secret of every successful redemption.
\<close>

inductive token_run :: "(string \<Rightarrow> bytes) \<Rightarrow> EnrollmentToken list \<Rightarrow> bytes list \<Rightarrow> bool" for sha where
  empty: "token_run sha [] []"
| create: "token_run sha rows log \<Longrightarrow>
    CreateEnrollmentToken sha b64 newID entropy now ten by name pol uses ttl rows = (r, rows') \<Longrightarrow>
    token_run sha rows' log"
| revoke: "token_run sha rows log \<Longrightarrow> RevokeEnrollmentToken t ten i rows = (r, rows') \<Longrightarrow> token_run sha rows' log"
| check: "token_run sha rows log \<Longrightarrow> CheckEnrollmentToken sha t secret False rows = (r, rows') \<Longrightarrow>
    token_run sha rows' log"
| redeem: "token_run sha rows log \<Longrightarrow> CheckEnrollmentToken sha t secret True rows = (Inr a, rows') \<Longrightarrow>
    token_run sha rows' (sha secret # log)"
| refused: "token_run sha rows log \<Longrightarrow> CheckEnrollmentToken sha t secret True rows = (Inl x, rows') \<Longrightarrow>
    token_run sha rows' log"

definition uses_of :: "bytes list \<Rightarrow> bytes \<Rightarrow> int" where
  "uses_of log h = int (length (filter (\<lambda>x. x = h) log))"

definition token_inv :: "EnrollmentToken list \<Rightarrow> bytes list \<Rightarrow> bool" where
  "token_inv rows log \<longleftrightarrow> distinct (map et_hash rows) \<and> set log \<subseteq> et_hash ` set rows \<and>
     (\<forall>t \<in> set rows. et_used t = uses_of log (et_hash t) \<and> 0 \<le> et_max t \<and> (et_max t > 0 \<longrightarrow> et_used t \<le> et_max t))"

lemma uses_of_Cons: "uses_of (x # log) h = (if x = h then 1 else 0) + uses_of log h"
  by (simp add: uses_of_def)

lemma uses_of_notin: "h \<notin> set log \<Longrightarrow> uses_of log h = 0"
  by (induction log) (auto simp: uses_of_def)

lemma Redeem_None: "\<not> (\<exists>t \<in> set rows. token_usable n (sha s) t) \<Longrightarrow>
    RedeemEnrollmentToken sha n s rows = (Inl ErrTokenUnusable, rows)"
  by (simp add: RedeemEnrollmentToken_def Let_def)

lemma Redeem_Some:
  assumes "distinct (map et_hash rows)" "t \<in> set rows" "token_usable n (sha s) t"
  shows "RedeemEnrollmentToken sha n s rows = (Inr (et_tenant t, et_policy t),
     map (\<lambda>u. if u = t then u\<lparr>et_used := et_used u + 1\<rparr> else u) rows)"
proof -
  have only: "u \<in> set rows \<Longrightarrow> et_hash u = sha s \<Longrightarrow> u = t" for u
    using assms by (auto simp: distinct_map inj_on_def token_usable_def)
  have rows: "map (\<lambda>t. if token_usable n (sha s) t then t\<lparr>et_used := et_used t + 1\<rparr> else t) rows
      = map (\<lambda>u. if u = t then u\<lparr>et_used := et_used u + 1\<rparr> else u) rows"
  proof (rule map_cong [OF refl])
    fix u assume u: "u \<in> set rows"
    show "(if token_usable n (sha s) u then u\<lparr>et_used := et_used u + 1\<rparr> else u)
        = (if u = t then u\<lparr>et_used := et_used u + 1\<rparr> else u)"
    proof (cases "u = t")
      case False
      then have "et_hash u \<noteq> sha s" using only u by blast
      with False show ?thesis by (simp add: token_usable_def)
    qed (simp add: assms(3))
  qed
  let ?rows = "map (\<lambda>u. if u = t then u\<lparr>et_used := et_used u + 1\<rparr> else u) rows"
  obtain u where u: "find (\<lambda>t. et_hash t = sha s) ?rows = Some u"
  proof (cases "find (\<lambda>t. et_hash t = sha s) ?rows")
    case None
    then have "\<forall>x \<in> set ?rows. et_hash x \<noteq> sha s" by (simp only: find_None_all)
    moreover have "t\<lparr>et_used := et_used t + 1\<rparr> \<in> set ?rows" using assms(2) by force
    ultimately have "et_hash (t\<lparr>et_used := et_used t + 1\<rparr>) \<noteq> sha s" by blast
    then show thesis using assms(3) by (simp add: token_usable_def)
  qed blast
  then have "u \<in> set ?rows" "et_hash u = sha s" using find_Some_in [OF u] by simp_all
  then obtain v where v: "v \<in> set rows" "u = (if v = t then v\<lparr>et_used := et_used v + 1\<rparr> else v)" by auto
  then have "et_hash v = sha s" using \<open>et_hash u = sha s\<close> by (simp split: if_splits)
  with only v(1) have "v = t" by blast
  with v(2) have "et_tenant u = et_tenant t \<and> et_policy u = et_policy t" by simp
  moreover have "\<exists>t \<in> set rows. token_usable n (sha s) t" using assms(2,3) by blast
  ultimately show ?thesis using u by (simp add: RedeemEnrollmentToken_def Let_def rows)
qed

lemma Create_cases:
  assumes "CreateEnrollmentToken sha b64 newID entropy now ten by name pol uses ttl rows = (r, rows')"
  shows "rows' = rows \<or> (\<exists>tok. rows' = rows @ [tok] \<and> et_hash tok \<notin> et_hash ` set rows
    \<and> et_used tok = 0 \<and> 0 \<le> et_max tok)"
  using assms by (force simp: CreateEnrollmentToken_def Let_def split: if_splits option.splits)

lemma token_run_inv: "token_run sha rows log \<Longrightarrow> token_inv rows log"
proof (induction rule: token_run.induct)
  case empty
  show ?case by (simp add: token_inv_def)
next
  case (create rows log b64 newID entropy now ten "by" name pol uses ttl r rows')
  show ?case
  proof (cases "rows' = rows")
    case False
    with Create_cases [OF create.hyps(2)] obtain tok where tok: "rows' = rows @ [tok]"
      "et_hash tok \<notin> et_hash ` set rows" "et_used tok = 0" "0 \<le> et_max tok" by blast
    with create.IH have "et_hash tok \<notin> set log" by (auto simp: token_inv_def)
    with create.IH tok show ?thesis by (auto simp: token_inv_def uses_of_notin)
  qed (use create.IH in simp)
next
  case (revoke rows log t ten i r rows')
  then have rows': "rows' = map (\<lambda>u. if et_id u = i \<and> et_tenant u = ten \<and> et_revoked u = None
      then u\<lparr>et_revoked := Some t\<rparr> else u) rows"
    by (simp add: RevokeEnrollmentToken_def Let_def)
  have "map et_hash rows' = map et_hash rows" by (simp add: rows' comp_def if_distrib cong: if_cong)
  moreover have "\<forall>u \<in> set rows'. \<exists>v \<in> set rows. et_hash u = et_hash v \<and> et_used u = et_used v \<and> et_max u = et_max v"
    by (auto simp: rows')
  ultimately show ?case using revoke.IH unfolding token_inv_def by (metis list.set_map)
next
  case (check rows log t secret r rows')
  then show ?case by (auto simp: CheckEnrollmentToken_def split: option.splits)
next
  case (refused rows log t secret x rows')
  show ?case
  proof (cases "\<exists>t' \<in> set rows. token_usable t (sha secret) t'")
    case True
    then obtain u where "u \<in> set rows" "token_usable t (sha secret) u" by blast
    with refused Redeem_Some [of rows u t sha secret] show ?thesis
      by (simp add: CheckEnrollmentToken_def token_inv_def)
  next
    case False
    with refused Redeem_None [of rows t sha secret] show ?thesis by (simp add: CheckEnrollmentToken_def)
  qed
next
  case (redeem rows log t secret a rows')
  then obtain u where u: "u \<in> set rows" "token_usable t (sha secret) u"
    using Redeem_None [of rows t sha secret] by (auto simp: CheckEnrollmentToken_def)
  from redeem.IH have d: "distinct (map et_hash rows)" by (simp add: token_inv_def)
  from redeem.hyps(2) Redeem_Some [of rows u t sha secret, OF d u]
  have rows': "rows' = map (\<lambda>v. if v = u then v\<lparr>et_used := et_used v + 1\<rparr> else v) rows"
    by (simp add: CheckEnrollmentToken_def)
  have h: "map et_hash rows' = map et_hash rows" by (simp add: rows' comp_def if_distrib cong: if_cong)
  have used: "\<forall>v \<in> set rows'. et_used v = uses_of (sha secret # log) (et_hash v) \<and> 0 \<le> et_max v
      \<and> (et_max v > 0 \<longrightarrow> et_used v \<le> et_max v)"
  proof
    fix v assume "v \<in> set rows'"
    then obtain w where w: "w \<in> set rows" "v = (if w = u then w\<lparr>et_used := et_used w + 1\<rparr> else w)"
      by (auto simp: rows')
    have inv: "et_used w = uses_of log (et_hash w) \<and> 0 \<le> et_max w \<and> (et_max w > 0 \<longrightarrow> et_used w \<le> et_max w)"
      using redeem.IH w(1) unfolding token_inv_def by blast
    show "et_used v = uses_of (sha secret # log) (et_hash v) \<and> 0 \<le> et_max v \<and> (et_max v > 0 \<longrightarrow> et_used v \<le> et_max v)"
    proof (cases "w = u")
      case True
      with w(2) inv u(2) show ?thesis by (auto simp: uses_of_Cons token_usable_def)
    next
      case False
      with d u(1) w(1) have "et_hash w \<noteq> et_hash u" by (auto simp: distinct_map inj_on_def)
      with False w(2) inv u(2) show ?thesis by (auto simp: uses_of_Cons token_usable_def)
    qed
  qed
  have "et_hash ` set rows' = et_hash ` set rows" using h by (metis list.set_map)
  moreover have "sha secret \<in> et_hash ` set rows" using u by (metis image_eqI token_usable_def)
  moreover have "set log \<subseteq> et_hash ` set rows" using redeem.IH by (simp add: token_inv_def)
  ultimately have "set (sha secret # log) \<subseteq> et_hash ` set rows'" by auto
  moreover have "distinct (map et_hash rows')" unfolding h by (rule d)
  ultimately show ?case using used unfolding token_inv_def by blast
qed

text \<open>
  C14. Over any history of creations, checks, redemptions and revocations, the use count of a token
  is the number of redemptions that succeeded with its secret, and never exceeds \<open>max_uses\<close> when
  that is not zero.
\<close>

theorem token_never_overused:
  assumes "token_run sha rows log" "t \<in> set rows"
  shows "et_used t = uses_of log (et_hash t) \<and> (et_max t > 0 \<longrightarrow> et_used t \<le> et_max t)"
  using token_run_inv [OF assms(1)] assms(2) unfolding token_inv_def by blast

text \<open>
  In every table a history produces, checking a secret without consuming it changes nothing and
  answers what redeeming it at that moment would answer: the same refusal, or the same tenant and
  policy.
\<close>

theorem check_predicts_redeem:
  assumes "token_run sha rows log"
  shows "CheckEnrollmentToken sha n secret False rows = (fst (RedeemEnrollmentToken sha n secret rows), rows)"
proof (cases "\<exists>t \<in> set rows. token_usable n (sha secret) t")
  case True
  have d: "distinct (map et_hash rows)" using token_run_inv [OF assms] by (simp add: token_inv_def)
  from True obtain u where u: "find (token_usable n (sha secret)) rows = Some u"
    by (cases "find (token_usable n (sha secret)) rows") (auto simp: find_None_all)
  with Redeem_Some [of rows u n sha secret] d find_Some_in [OF u] show ?thesis
    by (simp add: CheckEnrollmentToken_def)
next
  case False
  then have "find (token_usable n (sha secret)) rows = None" by (simp add: find_None_all)
  with Redeem_None [of rows n sha secret] False show ?thesis by (simp add: CheckEnrollmentToken_def)
qed

text \<open>The word the console shows agrees with the redemption except in the instant of expiry.\<close>

lemma status_active_iff:
  "et_hash t = h \<Longrightarrow> 0 \<le> et_max t \<Longrightarrow>
     token_usable n h t \<longleftrightarrow> token_status t n = ''active'' \<and> n \<noteq> et_expires t"
  by (auto simp: token_usable_def token_status_def)

section \<open>A grant is handed out once\<close>

text \<open>
  Pollers of one request, interleaved statement by statement: each reads the grant and later
  compares and clears it; meanwhile admins decide and phones ask.  \<open>given\<close> are the grants returned.
\<close>

record polling =
  reqs :: "EnrollmentRequest list"
  reads :: "nat \<Rightarrow> string option"
  given :: "string list"

inductive poll_step :: "ID \<Rightarrow> polling \<Rightarrow> polling \<Rightarrow> bool" for i where
  read: "read_grant i (reqs p) = Inr g \<Longrightarrow> g \<noteq> [] \<Longrightarrow> poll_step i p (p\<lparr>reads := (reads p)(c \<mapsto> g)\<rparr>)"
| clear: "reads p c = Some g \<Longrightarrow> clear_grant i g (reqs p) = (got, rows') \<Longrightarrow>
    poll_step i p \<lparr>reqs = rows', reads = (reads p)(c := None),
      given = (if got = [] then given p else got # given p)\<rparr>"
| approve: "MarkApprovedWithGrant t j who pol grant (reqs p) = (r, rows') \<Longrightarrow>
    poll_step i p (p\<lparr>reqs := rows'\<rparr>)"
| approve_device: "MarkApproved t j dev who pol (reqs p) = (r, rows') \<Longrightarrow> poll_step i p (p\<lparr>reqs := rows'\<rparr>)"
| reject: "RejectEnrollmentRequest t ten j who (reqs p) = (r, rows') \<Longrightarrow> poll_step i p (p\<lparr>reqs := rows'\<rparr>)"
| ask: "CreateEnrollmentRequest u8 dt newID ent n t ten sh su ins nm pl pk (reqs p) = (r, rows') \<Longrightarrow>
    poll_step i p (p\<lparr>reqs := rows'\<rparr>)"

inductive polls :: "ID \<Rightarrow> polling \<Rightarrow> bool" for i where
  none: "polls i \<lparr>reqs = [], reads = (\<lambda>_. None), given = []\<rparr>"
| more: "polls i p \<Longrightarrow> poll_step i p p' \<Longrightarrow> polls i p'"

definition undecided :: "EnrollmentRequest \<Rightarrow> bool" where
  "undecided r \<longleftrightarrow> er_status r = ''pending'' \<and> er_grant r = None"

definition poll_ok :: "ID \<Rightarrow> EnrollmentRequest list \<Rightarrow> (nat \<Rightarrow> string option) \<Rightarrow> string list \<Rightarrow> bool" where
  "poll_ok i rows rd gv \<longleftrightarrow> distinct (map er_id rows) \<and>
     (\<forall>r \<in> set rows. er_status r = ''pending'' \<longrightarrow> er_grant r = None) \<and>
     (\<forall>c g. rd c = Some g \<longrightarrow> g \<noteq> []) \<and>
     (gv = [] \<or> (length gv = 1 \<and> i \<in> er_id ` set rows
        \<and> (\<forall>r \<in> set rows. er_id r = i \<longrightarrow> er_status r \<noteq> ''pending'' \<and> er_grant r = None)))"

lemma update_requests_set: "update_requests hit f rows = (r, rows') \<Longrightarrow> rows' = map (\<lambda>r. if hit r then f r else r) rows"
  by (simp add: update_requests_def)

text \<open>An update that touches pending rows only and makes them decided keeps the invariant.\<close>

lemma inv_decide:
  assumes "poll_ok i rows rd gv" "\<And>r. hit r \<Longrightarrow> er_status r = ''pending''"
    and "\<And>r. er_id (f r) = er_id r" "\<And>r. er_status (f r) \<noteq> ''pending''"
  shows "poll_ok i (map (\<lambda>r. if hit r then f r else r) rows) rd gv"
proof -
  let ?rows = "map (\<lambda>r. if hit r then f r else r) rows"
  have ids: "map er_id ?rows = map er_id rows" using assms(3) by simp
  then have set_ids: "er_id ` set ?rows = er_id ` set rows" by (metis list.set_map)
  have old: "distinct (map er_id rows)" "\<forall>r \<in> set rows. er_status r = ''pending'' \<longrightarrow> er_grant r = None"
      "\<forall>c g. rd c = Some g \<longrightarrow> g \<noteq> []"
      "gv = [] \<or> (length gv = 1 \<and> i \<in> er_id ` set rows
        \<and> (\<forall>r \<in> set rows. er_id r = i \<longrightarrow> er_status r \<noteq> ''pending'' \<and> er_grant r = None))"
    using assms(1) unfolding poll_ok_def by blast+
  have new2: "\<forall>r \<in> set ?rows. er_status r = ''pending'' \<longrightarrow> er_grant r = None"
    using old(2) assms(4) by (auto split: if_splits)
  have new4: "gv = [] \<or> (length gv = 1 \<and> i \<in> er_id ` set ?rows
        \<and> (\<forall>r \<in> set ?rows. er_id r = i \<longrightarrow> er_status r \<noteq> ''pending'' \<and> er_grant r = None))"
  proof (cases "gv = []")
    case False
    with old(4) have g: "length gv = 1" "i \<in> er_id ` set rows"
      "\<forall>r \<in> set rows. er_id r = i \<longrightarrow> er_status r \<noteq> ''pending'' \<and> er_grant r = None" by blast+
    have "\<forall>r \<in> set ?rows. er_id r = i \<longrightarrow> er_status r \<noteq> ''pending'' \<and> er_grant r = None"
    proof (intro ballI impI)
      fix r assume r: "r \<in> set ?rows" "er_id r = i"
      then obtain q where q: "q \<in> set rows" "r = (if hit q then f q else q)" by auto
      with r(2) assms(3) have "er_id q = i" by (simp split: if_splits)
      with g(3) q(1) have "er_status q \<noteq> ''pending'' \<and> er_grant q = None" by blast
      with assms(2) q(2) show "er_status r \<noteq> ''pending'' \<and> er_grant r = None" by (simp split: if_splits)
    qed
    with g(1,2) set_ids show ?thesis by simp
  qed simp
  show ?thesis
    unfolding poll_ok_def ids using old(1,3) new2 new4 by (intro conjI)
qed

lemma inv_clear:
  assumes ok: "poll_ok i rows rd gv" and g: "rd c = Some g" and c: "clear_grant i g rows = (got, rows')"
  shows "poll_ok i rows' (rd(c := None)) (if got = [] then gv else got # gv)"
proof (cases "\<exists>r \<in> set rows. er_id r = i \<and> er_grant r = Some g")
  case False
  with c have "got = []" "rows' = rows" by (auto simp: clear_grant_def Let_def)
  with ok show ?thesis unfolding poll_ok_def by simp
next
  case True
  then obtain q where q: "q \<in> set rows" "er_id q = i" "er_grant q = Some g" by blast
  from c True have r: "got = g" "rows' = map (\<lambda>r. if er_id r = i \<and> er_grant r = Some g then r\<lparr>er_grant := None\<rparr> else r) rows"
    by (auto simp: clear_grant_def Let_def)
  have ne: "g \<noteq> []" and d: "distinct (map er_id rows)"
    and pend: "\<forall>r \<in> set rows. er_status r = ''pending'' \<longrightarrow> er_grant r = None"
    using ok g unfolding poll_ok_def by blast+
  have "gv = []" using ok q unfolding poll_ok_def by fastforce
  have only: "r \<in> set rows \<Longrightarrow> er_id r = i \<Longrightarrow> r = q" for r
    using d q(1,2) by (auto simp: distinct_map inj_on_def)
  have ids: "map er_id rows' = map er_id rows" by (simp add: r(2))
  have "er_status q \<noteq> ''pending''" using pend q by auto
  have "\<forall>r \<in> set rows'. er_id r = i \<longrightarrow> er_status r \<noteq> ''pending'' \<and> er_grant r = None"
  proof (intro ballI impI)
    fix r assume "r \<in> set rows'" "er_id r = i"
    then obtain u where u: "u \<in> set rows" "r = (if er_id u = i \<and> er_grant u = Some g then u\<lparr>er_grant := None\<rparr> else u)"
      unfolding r(2) set_map by blast
    with \<open>er_id r = i\<close> have "er_id u = i" by (simp split: if_splits)
    with only u(1) have "u = q" by blast
    with u(2) q(2,3) \<open>er_status q \<noteq> ''pending''\<close> show "er_status r \<noteq> ''pending'' \<and> er_grant r = None" by simp
  qed
  moreover have "\<forall>r \<in> set rows'. er_status r = ''pending'' \<longrightarrow> er_grant r = None"
    using pend by (auto simp: r(2) split: if_splits)
  moreover have "i \<in> er_id ` set rows'" using ids q(1,2) by (metis image_eqI list.set_map)
  moreover have "\<forall>c' g'. (rd(c := None)) c' = Some g' \<longrightarrow> g' \<noteq> []"
    using ok unfolding poll_ok_def by (simp add: fun_upd_def)
  ultimately show ?thesis unfolding poll_ok_def ids using d ne r(1) \<open>gv = []\<close> by simp
qed

lemma supersede_ok: "poll_ok i rows rd gv \<Longrightarrow> poll_ok i (supersede t ten ins rows) rd gv"
  unfolding supersede_def by (rule inv_decide) auto

lemma Create_request_cases:
  assumes "CreateEnrollmentRequest u8 dt newID ent n t ten sh su ins nm pl pk rows = (r, rows')"
  shows "rows' = rows \<or> (\<exists>ten'. rows' = supersede t ten' ins rows)
    \<or> (\<exists>ten' req. rows' = supersede t ten' ins rows @ [req] \<and> er_status req = ''pending'' \<and> er_grant req = None
         \<and> er_tenant req = ten' \<and> er_install req = ins
         \<and> er_id req \<notin> er_id ` set (supersede t ten' ins rows))"
  using assms by (force simp: CreateEnrollmentRequest_def Let_def split: if_splits option.splits)

lemma inv_append:
  assumes "poll_ok i rows rd gv" "er_id req \<notin> er_id ` set rows" "er_status req = ''pending''" "er_grant req = None"
  shows "poll_ok i (rows @ [req]) rd gv"
  using assms unfolding poll_ok_def by auto

lemma poll_step_ok:
  assumes "poll_step i p p'" "poll_ok i (reqs p) (reads p) (given p)"
  shows "poll_ok i (reqs p') (reads p') (given p')"
  using assms(1)
proof cases
  case (read g c)
  with assms(2) show ?thesis by (simp add: poll_ok_def)
next
  case (clear c g got rows')
  with inv_clear [OF assms(2)] show ?thesis by simp
next
  case (approve t j who pol grant r rows')
  then have "rows' = map (\<lambda>r. if er_id r = j \<and> er_status r = ''pending'' \<and> er_expires r > t
      then r\<lparr>er_status := ''approved'', er_policy := pol, er_grant := Some grant, er_decided := Some t,
        er_decided_by := Some who\<rparr> else r) (reqs p)"
    unfolding MarkApprovedWithGrant_def by (intro update_requests_set)
  moreover have "poll_ok i \<dots> (reads p) (given p)" by (rule inv_decide [OF assms(2)]) auto
  ultimately show ?thesis using approve(1) by simp
next
  case (approve_device t j dev who pol r rows')
  then have "rows' = map (\<lambda>r. if er_id r = j \<and> er_status r = ''pending'' \<and> er_expires r > t
      then r\<lparr>er_status := ''approved'', er_device := Some dev, er_policy := pol, er_decided := Some t,
        er_decided_by := Some who\<rparr> else r) (reqs p)"
    unfolding MarkApproved_def by (intro update_requests_set)
  moreover have "poll_ok i \<dots> (reads p) (given p)" by (rule inv_decide [OF assms(2)]) auto
  ultimately show ?thesis using approve_device(1) by simp
next
  case (reject t ten j who r rows')
  then have "rows' = map (\<lambda>r. if er_id r = j \<and> er_tenant r = ten \<and> er_status r = ''pending''
      then r\<lparr>er_status := ''rejected'', er_decided := Some t, er_decided_by := Some who\<rparr> else r) (reqs p)"
    unfolding RejectEnrollmentRequest_def by (intro update_requests_set)
  moreover have "poll_ok i \<dots> (reads p) (given p)" by (rule inv_decide [OF assms(2)]) auto
  ultimately show ?thesis using reject(1) by simp
next
  case (ask u8 dt newID ent n t ten sh su ins nm pl pk r rows')
  from Create_request_cases [OF ask(2)] have "poll_ok i rows' (reads p) (given p)"
    using assms(2) supersede_ok [OF assms(2)] inv_append by metis
  with ask(1) show ?thesis by simp
qed

lemma polls_ok: "polls i p \<Longrightarrow> poll_ok i (reqs p) (reads p) (given p)"
  by (induction rule: polls.induct) (simp add: poll_ok_def, rule poll_step_ok)

text \<open>
  C13. However many pollers of a request interleave, statement by statement, with each other and
  with approvals, rejections and new requests, its grant is returned to at most one of them.
\<close>

theorem grant_given_once: "polls i p \<Longrightarrow> length (given p) \<le> 1"
  using polls_ok [of i p] by (auto simp: poll_ok_def)

section \<open>One pending request per installation\<close>

definition one_pending :: "EnrollmentRequest list \<Rightarrow> bool" where
  "one_pending rows \<longleftrightarrow> distinct (map (\<lambda>r. (er_tenant r, er_install r)) (filter (\<lambda>r. er_status r = ''pending'') rows))"

lemma one_pending_decide:
  assumes "\<And>r. hit r \<Longrightarrow> er_status (f r) \<noteq> ''pending''" "one_pending rows"
  shows "one_pending (map (\<lambda>r. if hit r then f r else r) rows)"
proof -
  have "filter (\<lambda>r. er_status r = ''pending'') (map (\<lambda>r. if hit r then f r else r) rows)
      = filter (\<lambda>r. \<not> hit r) (filter (\<lambda>r. er_status r = ''pending'') rows)"
    using assms(1) by (induction rows) auto
  with assms(2) show ?thesis by (simp only: one_pending_def distinct_map_filter)
qed

lemma one_pending_same:
  assumes "\<And>r. er_status (f r) = er_status r \<and> er_tenant (f r) = er_tenant r \<and> er_install (f r) = er_install r"
  shows "one_pending (map f rows) = one_pending rows"
proof -
  have "map (\<lambda>r. (er_tenant r, er_install r)) (filter (\<lambda>r. er_status r = ''pending'') (map f rows))
    = map (\<lambda>r. (er_tenant r, er_install r)) (filter (\<lambda>r. er_status r = ''pending'') rows)"
    by (induction rows) (simp_all add: assms)
  then show ?thesis by (simp only: one_pending_def)
qed

lemma one_pending_clear:
  assumes "clear_grant i g rows = (got, rows')"
  shows "one_pending rows' = one_pending rows"
proof (cases "\<exists>r \<in> set rows. er_id r = i \<and> er_grant r = Some g")
  case True
  from assms True have "rows' = map (\<lambda>r. if er_id r = i \<and> er_grant r = Some g then r\<lparr>er_grant := None\<rparr> else r) rows"
    by (auto simp: clear_grant_def Let_def)
  moreover have "one_pending \<dots> = one_pending rows" by (rule one_pending_same) simp
  ultimately show ?thesis by simp
next
  case False
  with assms have "rows' = rows" by (auto simp: clear_grant_def Let_def)
  then show ?thesis by simp
qed

lemma supersede_no_pending:
  "r \<in> set (supersede t ten ins rows) \<Longrightarrow> er_status r = ''pending'' \<Longrightarrow> \<not> (er_tenant r = ten \<and> er_install r = ins)"
proof -
  assume "r \<in> set (supersede t ten ins rows)" and p: "er_status r = ''pending''"
  then obtain u where u: "r = (if er_tenant u = ten \<and> er_install u = ins \<and> er_status u = ''pending''
      then u\<lparr>er_status := ''rejected'', er_decided := Some t\<rparr> else u)"
    unfolding supersede_def set_map by (elim imageE)
  show ?thesis
  proof (cases "er_tenant u = ten \<and> er_install u = ins \<and> er_status u = ''pending''")
    case True
    with u p show ?thesis by simp
  next
    case False
    with u have "r = u" by (simp only: if_False)
    with False p show ?thesis by auto
  qed
qed

lemma one_pending_step:
  assumes "poll_step i p p'" "one_pending (reqs p)"
  shows "one_pending (reqs p')"
  using assms(1)
proof cases
  case (clear c g got rows')
  then have "one_pending rows'" using one_pending_clear assms(2) by blast
  with clear(1) show ?thesis by simp
next
  case (approve t j who pol grant r rows')
  then have "rows' = map (\<lambda>r. if er_id r = j \<and> er_status r = ''pending'' \<and> er_expires r > t
      then r\<lparr>er_status := ''approved'', er_policy := pol, er_grant := Some grant, er_decided := Some t,
        er_decided_by := Some who\<rparr> else r) (reqs p)"
    unfolding MarkApprovedWithGrant_def by (intro update_requests_set)
  moreover have "one_pending \<dots>" by (rule one_pending_decide [OF _ assms(2)]) simp
  ultimately show ?thesis using approve(1) by simp
next
  case (approve_device t j dev who pol r rows')
  then have "rows' = map (\<lambda>r. if er_id r = j \<and> er_status r = ''pending'' \<and> er_expires r > t
      then r\<lparr>er_status := ''approved'', er_device := Some dev, er_policy := pol, er_decided := Some t,
        er_decided_by := Some who\<rparr> else r) (reqs p)"
    unfolding MarkApproved_def by (intro update_requests_set)
  moreover have "one_pending \<dots>" by (rule one_pending_decide [OF _ assms(2)]) simp
  ultimately show ?thesis using approve_device(1) by simp
next
  case (reject t ten j who r rows')
  then have "rows' = map (\<lambda>r. if er_id r = j \<and> er_tenant r = ten \<and> er_status r = ''pending''
      then r\<lparr>er_status := ''rejected'', er_decided := Some t, er_decided_by := Some who\<rparr> else r) (reqs p)"
    unfolding RejectEnrollmentRequest_def by (intro update_requests_set)
  moreover have "one_pending \<dots>" by (rule one_pending_decide [OF _ assms(2)]) simp
  ultimately show ?thesis using reject(1) by simp
next
  case (ask u8 dt newID ent n t ten sh su ins nm pl pk r rows')
  have s: "one_pending (supersede t ten' ins (reqs p))" for ten'
    unfolding supersede_def by (rule one_pending_decide [OF _ assms(2)]) simp
  from Create_request_cases [OF ask(2)] consider "rows' = reqs p" | ten' where "rows' = supersede t ten' ins (reqs p)"
    | ten' req where "rows' = supersede t ten' ins (reqs p) @ [req]" "er_tenant req = ten'" "er_install req = ins"
    by blast
  then have "one_pending rows'"
  proof cases
    case (3 ten' req)
    have "(er_tenant req, er_install req) \<notin>
        (\<lambda>r. (er_tenant r, er_install r)) ` set (filter (\<lambda>r. er_status r = ''pending'') (supersede t ten' ins (reqs p)))"
      using supersede_no_pending [of _ t ten' ins "reqs p"] unfolding 3(2,3) by fastforce
    with s [of ten'] 3(1) show ?thesis by (simp add: one_pending_def)
  qed (use s assms(2) in auto)
  with ask(1) show ?thesis by simp
qed (use assms(2) in simp)

text \<open>
  In every state the requests table reaches, at most one request of an installation is pending,
  so the six digits an admin compares are those of the phone's last attempt.
\<close>

theorem pending_request_unique:
  assumes "polls i p"
  shows "distinct (map (\<lambda>r. (er_tenant r, er_install r)) (filter (\<lambda>r. er_status r = ''pending'') (reqs p)))"
proof -
  have "one_pending (reqs p)"
    using assms by induction (simp add: one_pending_def, rule one_pending_step)
  then show ?thesis by (simp add: one_pending_def)
qed

section \<open>Concrete tokens and requests\<close>

definition demo_sha :: "string \<Rightarrow> bytes" where "demo_sha s = bytes_of_string s"
definition demo_id :: "byte \<Rightarrow> ID" where "demo_id b = replicate 15 0 @ [b]"

definition demo_token :: EnrollmentToken where
  "demo_token = \<lparr>et_id = demo_id 1, et_tenant = demo_id 9, et_name = ''ward'', et_hash = demo_sha ''aidot_x'',
     et_policy = None, et_max = 1, et_used = 0, et_expires = 24 * hour, et_revoked = None, et_by = None, et_created = 0\<rparr>"

lemma demo_created: "token_run demo_sha [demo_token] []"
proof (rule token_run.create [OF token_run.empty])
  show "CreateEnrollmentToken demo_sha (\<lambda>_. ''x'') (demo_id 1) (Some []) 0 (demo_id 9) Zero ''ward'' None 1 0 []
      = (Inr (demo_token, ''aidot_x''), [demo_token])"
    by (simp add: CreateEnrollmentToken_def demo_token_def Let_def demo_id_def IsZero_def Zero_def list_all_iff)
qed

lemma demo_usable: "token_usable 0 (demo_sha ''aidot_x'') demo_token"
  by (simp add: token_usable_def demo_token_def hour_def minute_def second_def)

lemma demo_redeemed: "token_run demo_sha [demo_token\<lparr>et_used := 1\<rparr>] [demo_sha ''aidot_x'']"
proof -
  have "CheckEnrollmentToken demo_sha 0 ''aidot_x'' True [demo_token]
      = (Inr (et_tenant demo_token, et_policy demo_token), [demo_token\<lparr>et_used := 1\<rparr>])"
    using Redeem_Some [of "[demo_token]" demo_token 0 demo_sha "''aidot_x''"] demo_usable
    by (simp add: CheckEnrollmentToken_def demo_token_def)
  from token_run.redeem [OF demo_created this] show ?thesis .
qed

theorem token_never_overused_witness: "uses_of [demo_sha ''aidot_x''] (et_hash demo_token) = 1"
  using token_never_overused [OF demo_redeemed, of "demo_token\<lparr>et_used := 1\<rparr>"] by simp

theorem check_predicts_redeem_witness:
  "CheckEnrollmentToken demo_sha 0 ''aidot_x'' False [demo_token\<lparr>et_used := 1\<rparr>]
    = (Inl ErrTokenUnusable, [demo_token\<lparr>et_used := 1\<rparr>])"
  using check_predicts_redeem [OF demo_redeemed, of 0 "''aidot_x''"]
    Redeem_None [of "[demo_token\<lparr>et_used := 1\<rparr>]" 0 demo_sha "''aidot_x''"]
  by (simp add: token_usable_def demo_token_def)

definition demo_request :: EnrollmentRequest where
  "demo_request = \<lparr>er_id = demo_id 5, er_tenant = demo_id 9, er_install = ''inst'', er_name = ''p'',
     er_platform = ''android'', er_pubkey = ''k'', er_code = six_digits 0, er_status = ''pending'', er_policy = None,
     er_device = None, er_grant = None, er_expires = enrollmentRequestTTL, er_decided = None,
     er_decided_by = None, er_created = 0\<rparr>"

lemma demo_asked: "polls (demo_id 5) \<lparr>reqs = [demo_request], reads = (\<lambda>_. None), given = []\<rparr>"
proof -
  have z: "get_be64 [] = 0" by (simp add: get_be64_def)
  have "CreateEnrollmentRequest (\<lambda>_. True) Zero (demo_id 5) (Some []) 0 0 (demo_id 9) ''pw'' ''pw'' ''inst'' ''p'' [] ''k'' []
      = (Inr demo_request, [demo_request])"
    by (simp add: CreateEnrollmentRequest_def Let_def demo_request_def demo_id_def IsZero_def validateInstallID_def
        rune_count_def newVerificationCode_def z supersede_def)
  from polls.more [OF polls.none poll_step.ask, of _ _ _ _ _ _ _ _ _ _ _ _ _ _ "[demo_request]"] this
  show ?thesis by fastforce
qed

theorem pending_request_unique_witness:
  "distinct (map (\<lambda>r. (er_tenant r, er_install r)) (filter (\<lambda>r. er_status r = ''pending'') [demo_request]))"
  using pending_request_unique [OF demo_asked] by simp

lemma demo_given:
  "\<exists>p. polls (demo_id 5) p \<and> given p = [''grant'']"
proof -
  let ?r = "demo_request\<lparr>er_status := ''approved'', er_policy := None, er_grant := Some ''grant'', er_decided := Some 1,
      er_decided_by := Some (demo_id 3)\<rparr>"
  have a: "MarkApprovedWithGrant 1 (demo_id 5) (demo_id 3) None ''grant'' [demo_request] = (None, [?r])"
    by (simp add: MarkApprovedWithGrant_def update_requests_def demo_request_def enrollmentRequestTTL_def
        minute_def second_def)
  have p1: "polls (demo_id 5) \<lparr>reqs = [?r], reads = (\<lambda>_. None), given = []\<rparr>"
    using polls.more [OF demo_asked poll_step.approve] a by fastforce
  have p2: "polls (demo_id 5) \<lparr>reqs = [?r], reads = [0 \<mapsto> ''grant''], given = []\<rparr>"
    using polls.more [OF p1 poll_step.read, of "''grant''" 0] by (simp add: read_grant_def demo_request_def)
  have c: "clear_grant (demo_id 5) ''grant'' [?r] = (''grant'', [?r\<lparr>er_grant := None\<rparr>])"
    by (simp add: clear_grant_def Let_def demo_request_def)
  from polls.more [OF p2 poll_step.clear, of 0 "''grant''" "''grant''"] c show ?thesis by fastforce
qed

theorem grant_given_once_witness: "\<exists>p. polls (demo_id 5) p \<and> given p \<noteq> [] \<and> length (given p) \<le> 1"
proof -
  obtain p where p: "polls (demo_id 5) p" "given p = [''grant'']" using demo_given by blast
  with grant_given_once [OF p(1)] show ?thesis by auto
qed

end
