(* ===== verification/IPAlloc.thy ===== *)
theory IPAlloc
  imports Tables
begin

text \<open>
  \<open>server/internal/devices/ipalloc.go\<close>: the allocation of tunnel addresses from a tenant's pool,
  by a linear walk over the host numbers that skips the addresses of unrevoked keys.  The locale
  \<open>allocator\<close> states what the device service relies on; both walks are interpretations of it.
\<close>

unbundle bit_operations_syntax

datatype alloc_error = NotIPv4 | NotIPv6 | TooNarrow | ErrPoolExhausted

section \<open>Addresses in use\<close>

text \<open>
  The query of the allocators: the addresses of unrevoked keys of the tenant's devices
  (soft-deleted devices included), of the expected length.
\<close>

definition used_ipv4 :: "Device list \<Rightarrow> DeviceKey list \<Rightarrow> ID \<Rightarrow> bytes list" where
  "used_ipv4 ds ks tenant =
     [b. k \<leftarrow> ks, d \<leftarrow> ds, d_id d = k_device k \<and> d_tenant d = tenant \<and> k_revoked k = None,
         b \<leftarrow> (case k_ipv4 k of None \<Rightarrow> [] | Some b \<Rightarrow> [b]), length b = 4]"

definition used_ipv6 :: "Device list \<Rightarrow> DeviceKey list \<Rightarrow> ID \<Rightarrow> bytes list" where
  "used_ipv6 ds ks tenant =
     [b. k \<leftarrow> ks, d \<leftarrow> ds, d_id d = k_device k \<and> d_tenant d = tenant \<and> k_revoked k = None,
         b \<leftarrow> (case k_ipv6 k of None \<Rightarrow> [] | Some b \<Rightarrow> [b]), length b = 16]"

section \<open>IPv4\<close>

text \<open>\<open>for i := 2; i < hostCount-1; i++\<close> on 32-bit words.\<close>

function walk4 :: "bytes list \<Rightarrow> 32 word \<Rightarrow> 32 word \<Rightarrow> 32 word \<Rightarrow> 32 word option" where
  "walk4 used startU limit i =
     (if i < limit then
        (if as4 (startU + i) \<in> set used then walk4 used startU limit (i + 1) else Some (startU + i))
      else None)"
  by pat_completeness auto
termination
proof (relation "measure (\<lambda>(used, startU, limit, i). unat (limit - i))", goal_cases)
  case (2 used startU limit i)
  then have "unat (limit - (i + 1)) < unat (limit - i)" by unat_arith
  then show ?case by simp
qed simp

declare walk4.simps [simp del]

definition host_count :: "nat \<Rightarrow> 32 word" where
  "host_count bits = push_bit (32 - bits) 1"

definition allocateIPv4 :: "bytes list \<Rightarrow> prefix \<Rightarrow> alloc_error + addr" where
  "allocateIPv4 used pool =
     (case paddr pool of
        V4 startU \<Rightarrow>
          if pbits pool < 0 \<or> 30 < pbits pool then Inl TooNarrow
          else (case walk4 used startU (host_count (nat (pbits pool)) - 1) 2 of
                  None \<Rightarrow> Inl ErrPoolExhausted
                | Some w \<Rightarrow> Inr (V4 w))
      | _ \<Rightarrow> Inl NotIPv4)"

section \<open>IPv6\<close>

text \<open>
  The addition of \<open>i\<close> to the last eight bytes, from the last byte up, with its carry; the bytes
  are given last first.
\<close>

fun add_carry :: "bytes \<Rightarrow> 64 word \<Rightarrow> bytes" where
  "add_carry [] carry = []"
| "add_carry (b # bs) carry =
     (if carry > 0 then
        (let sum = ucast b + (carry AND 0xFF) :: 64 word
         in ucast (sum AND 0xFF) # add_carry bs (drop_bit 8 carry + drop_bit 8 sum))
      else b # bs)"

definition candidate6 :: "bytes \<Rightarrow> 64 word \<Rightarrow> bytes" where
  "candidate6 base i = take 8 base @ rev (add_carry (rev (drop 8 base)) i)"

function walk6 :: "bytes list \<Rightarrow> prefix \<Rightarrow> bytes \<Rightarrow> 64 word \<Rightarrow> alloc_error + addr" where
  "walk6 used pool base i =
     (if i < 2 ^ 60 then
        (let c = candidate6 base i
         in if \<not> contains pool (from16 c) then Inl ErrPoolExhausted
            else if c \<in> set used then walk6 used pool base (i + 1)
            else Inr (unmap (from16 c)))
      else Inl ErrPoolExhausted)"
  by pat_completeness auto
termination
proof (relation "measure (\<lambda>(used, pool, base, i). unat (2 ^ 60 - i))", goal_cases)
  case (2 used pool base i)
  then have "i < 2 ^ 60" by simp
  then have "unat (2 ^ 60 - (i + 1)) < unat (2 ^ 60 - i)" by unat_arith
  then show ?case by simp
qed simp

declare walk6.simps [simp del]

definition allocateIPv6 :: "bytes list \<Rightarrow> prefix \<Rightarrow> alloc_error + addr" where
  "allocateIPv6 used pool =
     (case paddr pool of
        V6 w _ \<Rightarrow> walk6 used pool (as16 w) 2
      | _ \<Rightarrow> Inl NotIPv6)"

section \<open>What the walks compute\<close>

lemma walk4_find:
  "walk4 used s limit i =
     map_option (\<lambda>j. s + of_nat j) (find (\<lambda>j. as4 (s + of_nat j) \<notin> set used) [unat i ..< unat limit])"
proof (induction used s limit i rule: walk4.induct)
  case (1 used s limit i)
  show ?case
  proof (cases "i < limit")
    case True
    then have "unat (i + 1) = Suc (unat i)" "unat i < unat limit" by unat_arith+
    with True "1.IH" show ?thesis by (simp add: walk4.simps [of used s limit i] upt_conv_Cons)
  next
    case False
    then have "\<not> unat i < unat limit" by unat_arith
    with False show ?thesis by (simp add: walk4.simps [of used s limit i])
  qed
qed

lemma unat_host_count:
  assumes "0 < b" "b \<le> 32" shows "unat (host_count b) = 2 ^ (32 - b)"
proof -
  have "host_count b = of_nat (2 ^ (32 - b))" by (simp add: host_count_def)
  moreover have "(2 :: nat) ^ (32 - b) < 2 ^ 32" using assms by (intro power_strict_increasing) auto
  ultimately show ?thesis by (simp only: unat_of_nat) simp
qed

lemma unat_last_host:
  assumes "b \<le> 30" shows "unat (host_count b - 1) = 2 ^ (32 - b) - 1"
proof (cases "b = 0")
  case True
  then show ?thesis by (simp add: host_count_def)
next
  case False
  with assms have h: "unat (host_count b) = 2 ^ (32 - b)" by (intro unat_host_count) auto
  then have "0 < unat (host_count b)" by simp
  then have "unat (host_count b - 1) = unat (host_count b) - 1" by unat_arith
  with h show ?thesis by simp
qed

lemma as4_inject: "as4 v = as4 w \<longleftrightarrow> v = w"
  by (metis from4_as4 addr.inject(1))

lemma as16_inject: "as16 v = as16 w \<longleftrightarrow> v = w"
  by (metis from16_as16 addr.inject(2))

text \<open>The abstract specification of the IPv4 pool: its host addresses, lowest first.\<close>

definition hosts4 :: "prefix \<Rightarrow> 32 word list" where
  "hosts4 pool = (case paddr pool of
      V4 s \<Rightarrow> if 0 \<le> pbits pool \<and> pbits pool \<le> 30
               then map (\<lambda>j. s + of_nat j) [2 ..< 2 ^ (32 - nat (pbits pool)) - 1] else []
    | _ \<Rightarrow> [])"

lemma allocateIPv4_find:
  assumes "is4 (paddr pool)" "0 \<le> pbits pool" "pbits pool \<le> 30"
  shows "allocateIPv4 used pool =
    (case find (\<lambda>w. as4 w \<notin> set used) (hosts4 pool) of
       None \<Rightarrow> Inl ErrPoolExhausted | Some w \<Rightarrow> Inr (V4 w))"
proof -
  obtain s where s: "paddr pool = V4 s" using assms(1) by (auto simp: is4_def split: addr.splits)
  have "unat (2 :: 32 word) = 2" by simp
  moreover have "unat (host_count (nat (pbits pool)) - 1) = 2 ^ (32 - nat (pbits pool)) - 1"
    using assms by (intro unat_last_host) auto
  ultimately show ?thesis
    using assms by (simp add: allocateIPv4_def s walk4_find hosts4_def find_map comp_def option.map_comp
        split: option.splits)
qed

lemma allocateIPv4_cases:
  "allocateIPv4 used pool = Inr a \<Longrightarrow> \<exists>w. a = V4 w \<and> w \<in> set (hosts4 pool) \<and> as4 w \<notin> set used"
proof -
  assume r: "allocateIPv4 used pool = Inr a"
  then have "is4 (paddr pool)" "0 \<le> pbits pool" "pbits pool \<le> 30"
    by (auto simp: allocateIPv4_def is4_def split: addr.splits if_splits)
  from r allocateIPv4_find [OF this] show ?thesis
    by (auto split: option.splits dest: find_Some_in)
qed

lemma add_carry_length [simp]: "length (add_carry bs c) = length bs"
  by (induction bs c rule: add_carry.induct) (simp_all add: Let_def)

lemma length_candidate6: "length base = 16 \<Longrightarrow> length (candidate6 base i) = 16"
  by (simp add: candidate6_def)

lemma walk6_ok:
  "walk6 used pool base i = Inr a \<Longrightarrow>
     \<exists>j. i \<le> j \<and> j < 2 ^ 60 \<and> a = unmap (from16 (candidate6 base j)) \<and> candidate6 base j \<notin> set used
       \<and> contains pool (from16 (candidate6 base j))"
proof (induction used pool base i rule: walk6.induct)
  case (1 used pool base i)
  show ?case
  proof (cases "i < 2 ^ 60 \<and> contains pool (from16 (candidate6 base i)) \<and> candidate6 base i \<in> set used")
    case True
    with "1.prems" have "walk6 used pool base (i + 1) = Inr a"
      by (simp add: walk6.simps [of used pool base i] Let_def)
    with "1.IH" True obtain j where j: "i + 1 \<le> j" "j < 2 ^ 60" "a = unmap (from16 (candidate6 base j))"
      "candidate6 base j \<notin> set used" "contains pool (from16 (candidate6 base j))"
      by blast
    have "i \<noteq> - 1" using True by auto
    then have "i + 1 \<noteq> 0" by (simp add: add_eq_0_iff2)
    then have "unat (i + 1) = Suc (unat i)" by (simp add: unatSuc add.commute)
    with j(1) have "i \<le> j" by (simp add: word_le_nat_alt)
    with j show ?thesis by blast
  next
    case False
    with "1.prems" show ?thesis
      by (auto simp: walk6.simps [of used pool base i] Let_def split: if_splits)
  qed
qed

section \<open>The interface of an allocator\<close>

text \<open>
  What the device service relies on: an allocated address is a host of the pool and is not in
  use, and only a full pool refuses.  \<open>alloc_many\<close> is a client: a sequence of registrations, each
  of which makes its address used.
\<close>

fun alloc_many :: "('a list \<Rightarrow> 'a option) \<Rightarrow> 'a list \<Rightarrow> nat \<Rightarrow> 'a list option" where
  "alloc_many alloc used 0 = Some []"
| "alloc_many alloc used (Suc n) =
     (case alloc used of
        None \<Rightarrow> None
      | Some a \<Rightarrow> map_option (Cons a) (alloc_many alloc (a # used) n))"

locale allocator =
  fixes alloc :: "'a list \<Rightarrow> 'a option"
    and host :: "'a \<Rightarrow> bool"
  assumes fresh: "alloc used = Some a \<Longrightarrow> a \<notin> set used"
    and in_pool: "alloc used = Some a \<Longrightarrow> host a"
begin

lemma many_distinct:
  "alloc_many alloc used n = Some as \<Longrightarrow>
     length as = n \<and> distinct as \<and> set as \<inter> set used = {} \<and> (\<forall>a \<in> set as. host a)"
proof (induction n arbitrary: used as)
  case (Suc n)
  then obtain a bs where a: "alloc used = Some a" and bs: "alloc_many alloc (a # used) n = Some bs"
    and as: "as = a # bs"
    by (auto split: option.splits)
  with Suc.IH [OF bs] fresh [OF a] in_pool [OF a] show ?case by auto
qed simp

end

locale full_allocator = allocator +
  assumes exhausted: "alloc used = None \<Longrightarrow> host a \<Longrightarrow> a \<in> set used"
begin

lemma many_succeeds:
  assumes "finite {a. host a}" "n + card {a \<in> set used. host a} \<le> card {a. host a}"
  shows "alloc_many alloc used n \<noteq> None"
  using assms(2)
proof (induction n arbitrary: used)
  case (Suc n)
  show ?case
  proof (cases "alloc used")
    case None
    then have "{a. host a} = {a \<in> set used. host a}" using exhausted by auto
    with Suc.prems show ?thesis by simp
  next
    case (Some a)
    then have "{b \<in> set (a # used). host b} = insert a {b \<in> set used. host b}"
      using in_pool by auto
    then have "card {b \<in> set (a # used). host b} \<le> Suc (card {b \<in> set used. host b})"
      using card_insert_le_m1 by (simp add: card_insert_if)
    then have "alloc_many alloc (a # used) n \<noteq> None"
      using Suc.prems by (intro Suc.IH) linarith
    with Some show ?thesis by simp
  qed
qed simp

end

text \<open>The walks as allocators of address bytes.\<close>

definition alloc4_bytes :: "prefix \<Rightarrow> bytes list \<Rightarrow> bytes option" where
  "alloc4_bytes pool used = (case allocateIPv4 used pool of Inr (V4 w) \<Rightarrow> Some (as4 w) | _ \<Rightarrow> None)"

definition alloc6_bytes :: "prefix \<Rightarrow> bytes list \<Rightarrow> bytes option" where
  "alloc6_bytes pool used = (case allocateIPv6 used pool of Inr (V6 w _) \<Rightarrow> Some (as16 w) | _ \<Rightarrow> None)"

lemma allocateIPv4_None:
  assumes "alloc4_bytes pool used = None" "w \<in> set (hosts4 pool)"
  shows "as4 w \<in> set used"
proof -
  have "is4 (paddr pool)" "0 \<le> pbits pool" "pbits pool \<le> 30"
    using assms(2) by (auto simp: hosts4_def is4_def split: addr.splits if_splits)
  from allocateIPv4_find [OF this, of used] assms show ?thesis
    by (auto simp: alloc4_bytes_def find_None_all split: option.splits)
qed

interpretation v4: full_allocator "alloc4_bytes pool" "\<lambda>b. b \<in> as4 ` set (hosts4 pool)" for pool
proof unfold_locales
  fix used a
  assume "alloc4_bytes pool used = Some a"
  then obtain w where "allocateIPv4 used pool = Inr (V4 w)" "a = as4 w"
    by (auto simp: alloc4_bytes_def split: sum.splits addr.splits)
  with allocateIPv4_cases show "a \<notin> set used" "a \<in> as4 ` set (hosts4 pool)" by blast+
next
  fix used a
  assume "alloc4_bytes pool used = None" "a \<in> as4 ` set (hosts4 pool)"
  then show "a \<in> set used" using allocateIPv4_None by blast
qed

lemma allocateIPv6_cases:
  assumes "allocateIPv6 used pool = Inr a"
  shows "\<exists>c. length c = 16 \<and> a = unmap (from16 c) \<and> c \<notin> set used \<and> contains pool (from16 c)"
proof -
  obtain w z where "paddr pool = V6 w z" "walk6 used pool (as16 w) 2 = Inr a"
    using assms by (auto simp: allocateIPv6_def split: addr.splits)
  with walk6_ok [of used pool "as16 w" 2 a] length_candidate6 [of "as16 w"] show ?thesis by auto
qed

interpretation v6: allocator "alloc6_bytes pool" "\<lambda>b. length b = 16 \<and> contains pool (from16 b)" for pool
proof unfold_locales
  fix used a
  assume "alloc6_bytes pool used = Some a"
  then obtain w z where r: "allocateIPv6 used pool = Inr (V6 w z)" and a: "a = as16 w"
    by (auto simp: alloc6_bytes_def split: sum.splits addr.splits)
  from allocateIPv6_cases [OF r] obtain c where c: "length c = 16" "V6 w z = unmap (from16 c)"
    "c \<notin> set used" "contains pool (from16 c)" by blast
  then have "w = get_be 0 c" by (auto simp: unmap_def from16_def split: if_splits)
  with a c as16_from16 have "a = c" by simp
  with c show "a \<notin> set used" "length a = 16 \<and> contains pool (from16 a)" by simp_all
qed

section \<open>Properties\<close>

text \<open>
  \<open>allocateIPv4\<close> on a masked IPv4 pool of at least four addresses returns the lowest free host:
  inside the pool, in no unrevoked key, neither network, gateway nor broadcast address, with every
  smaller host in use; and it reports exhaustion exactly when every host is in use.
\<close>

theorem allocateIPv4_lowest_free:
  assumes "paddr pool = V4 net" "masked pool = pool" "0 \<le> pbits pool" "pbits pool \<le> 30"
  shows "case allocateIPv4 used pool of
      Inr a \<Rightarrow> \<exists>j. a = V4 (net + of_nat j) \<and> 2 \<le> j \<and> j < 2 ^ (32 - nat (pbits pool)) - 1
               \<and> contains pool a \<and> as4 (net + of_nat j) \<notin> set used
               \<and> unat (net + of_nat j) = unat net + j
               \<and> (\<forall>i. 2 \<le> i \<and> i < j \<longrightarrow> as4 (net + of_nat i) \<in> set used)
    | Inl e \<Rightarrow> e = ErrPoolExhausted \<and> (\<forall>w \<in> set (hosts4 pool). as4 w \<in> set used)"
proof (cases "find (\<lambda>w. as4 w \<notin> set used) (hosts4 pool)")
  case None
  with allocateIPv4_find [of pool used] assms show ?thesis by (simp add: is4_def find_None_all)
next
  case (Some w)
  let ?N = "2 ^ (32 - nat (pbits pool)) - 1 :: nat"
  have hosts: "hosts4 pool = map (\<lambda>j. net + of_nat j) [2 ..< ?N]"
    using assms by (simp add: hosts4_def)
  from Some obtain k where k: "k < length (hosts4 pool)" "w = hosts4 pool ! k" "as4 w \<notin> set used"
    "\<forall>i < k. as4 (hosts4 pool ! i) \<in> set used"
    by (auto simp: find_Some_iff)
  have j: "w = net + of_nat (2 + k)" "2 + k < ?N" using k(1,2) hosts by auto
  have low: "as4 (net + of_nat i) \<in> set used" if "2 \<le> i" "i < 2 + k" for i
  proof -
    have "hosts4 pool ! (i - 2) = net + of_nat i" "i - 2 < k" using that j hosts by auto
    with k(4) show ?thesis by metis
  qed
  have net: "mask_word (nat (pbits pool)) net = net"
    using assms by (simp add: masked_def prefix_valid_def) (metis addr.inject(1) prefix.select_convs(1) prefix.surjective prefix.update_convs(1))
  have fit: "mask_word (nat (pbits pool)) (net + of_nat (2 + k)) = net \<and> unat (net + of_nat (2 + k)) = unat net + (2 + k)"
    using j(2) assms by (intro mask_word_add net) auto
  then have "contains pool (V4 w)"
    using assms j net by (simp add: contains_def prefix_valid_def)
  moreover have "allocateIPv4 used pool = Inr (V4 w)"
    using allocateIPv4_find [of pool used] Some assms by (simp add: is4_def)
  ultimately show ?thesis
    using j k(3) low fit by (auto intro!: exI [of _ "2 + k"])
qed

theorem allocateIPv4_lowest_free_witness:
  "case allocateIPv4 [as4 0x0A4E0002] \<lparr>paddr = V4 0x0A4E0000, pbits = 24\<rparr> of
      Inr a \<Rightarrow> \<exists>j. a = V4 (0x0A4E0000 + of_nat j) \<and> 2 \<le> j \<and> j < 2 ^ 8 - 1
               \<and> contains \<lparr>paddr = V4 0x0A4E0000, pbits = 24\<rparr> a
    | Inl e \<Rightarrow> False"
proof -
  have m: "masked \<lparr>paddr = V4 0x0A4E0000, pbits = 24\<rparr> = \<lparr>paddr = V4 0x0A4E0000, pbits = 24\<rparr>"
    by (simp add: masked_def prefix_valid_def mask_word_def)
  have "allocateIPv4 [as4 0x0A4E0002] \<lparr>paddr = V4 0x0A4E0000, pbits = 24\<rparr> = Inr (V4 0x0A4E0003)"
    by code_simp
  then show ?thesis
    using allocateIPv4_lowest_free [where used = "[as4 0x0A4E0002]" and net = "0x0A4E0000", OF _ m] by auto
qed

text \<open>
  C27. However many keys are issued one after the other from one pool, no two get the same tunnel
  address and none gets an address already in use, for IPv4 and for IPv6; and as long as the IPv4
  pool has that many free hosts, every one of them is served.
\<close>

theorem issued_addresses_distinct:
  "(\<forall>as. alloc_many (alloc4_bytes pool) used n = Some as \<longrightarrow> distinct as \<and> set as \<inter> set used = {})
   \<and> (\<forall>as. alloc_many (alloc6_bytes pool) used n = Some as \<longrightarrow>
        distinct as \<and> set as \<inter> set used = {} \<and> (\<forall>a \<in> set as. contains pool (from16 a)))
   \<and> (n + card {a \<in> set used. a \<in> as4 ` set (hosts4 pool)} \<le> card (as4 ` set (hosts4 pool))
        \<longrightarrow> alloc_many (alloc4_bytes pool) used n \<noteq> None)"
proof -
  have "finite {a. a \<in> as4 ` set (hosts4 pool)}" by simp
  from v4.many_succeeds [OF this, of n used]
  show ?thesis using v4.many_distinct v6.many_distinct by (auto simp: image_def)
qed

theorem issued_addresses_distinct_witness:
  "distinct [as4 0x0A4E0003, as4 0x0A4E0004]"
proof -
  have "alloc_many (alloc4_bytes \<lparr>paddr = V4 0x0A4E0000, pbits = 24\<rparr>) [as4 0x0A4E0002] 2
      = Some [as4 0x0A4E0003, as4 0x0A4E0004]" by code_simp
  with issued_addresses_distinct show ?thesis by blast
qed

text \<open>The byte-wise addition with carry computes the addition of 64-bit numbers.\<close>

fun le_val :: "bytes \<Rightarrow> nat" where \<comment> \<open>value of bytes given least significant first\<close>
  "le_val [] = 0"
| "le_val (b # bs) = unat b + 256 * le_val bs"

lemma carry_arith:
  fixes t A v c b M :: nat
  assumes "A mod M = (v + (c div 256 + t div 256)) mod M" "t = b + c mod 256"
  shows "(t mod 256 + 256 * A) mod (256 * M) = (b + 256 * v + c) mod (256 * M)"
proof -
  have digit: "(t mod 256 + 256 * X) mod (256 * M) = t mod 256 + 256 * (X mod M)" for X
    by (simp add: mod_mult2_eq)
  have "256 * (c div 256) + c mod 256 = c" "256 * (t div 256) + t mod 256 = t" by simp_all
  then have "t mod 256 + 256 * (v + (c div 256 + t div 256)) = b + 256 * v + c"
    using assms(2) by (simp only: distrib_left)
  with digit [of A] digit [of "v + (c div 256 + t div 256)"] assms(1) show ?thesis by metis
qed

lemma add_carry_val:
  "le_val (add_carry bs c) mod 256 ^ length bs = (le_val bs + unat c) mod 256 ^ length bs"
proof (induction bs c rule: add_carry.induct)
  case (2 b bs carry)
  show ?case
  proof (cases "carry > 0")
    case True
    let ?s = "ucast b + (carry AND 0xFF) :: 64 word" and ?M = "256 ^ length bs :: nat"
    have ff: "x AND 0xFF = take_bit 8 x" for x :: "64 word"
      by (simp add: take_bit_eq_mask mask_eq_exp_minus_1)
    have low: "unat (carry AND 0xFF) = unat carry mod 256"
      unfolding ff unsigned_take_bit_eq by (simp add: take_bit_eq_mod)
    have b: "unat (ucast b :: 64 word) = unat b" "unat b < 256"
      using unsigned_less [of b, where 'a = nat] by (simp_all add: unsigned_ucast_eq take_bit_nat_eq_self)
    have s: "unat ?s = unat b + unat carry mod 256"
      using b low by (simp add: unat_word_ariths)
    have hi: "unat (drop_bit 8 carry + drop_bit 8 ?s) = unat carry div 256 + unat ?s div 256"
    proof -
      have "unat carry < 2 ^ 64" using unsigned_less [of carry, where 'a = nat] by simp
      then have "unat carry div 256 + unat ?s div 256 < 2 ^ 64" using s b by auto
      then show ?thesis by (simp add: unat_word_ariths unat_drop_bit_eq drop_bit_eq_div)
    qed
    have lo: "unat (ucast (?s AND 0xFF) :: byte) = unat ?s mod 256"
      unfolding ff unsigned_ucast_eq unsigned_take_bit_eq by (simp add: take_bit_eq_mod)
    have IH: "le_val (add_carry bs (drop_bit 8 carry + drop_bit 8 ?s)) mod ?M
        = (le_val bs + (unat carry div 256 + unat ?s div 256)) mod ?M"
      using "2.IH" [OF True refl] hi by simp
    show ?thesis
      using True carry_arith [OF IH s] lo by (simp add: Let_def)
  qed (simp add: word_gt_0)
qed simp

lemma le_val_less: "le_val bs < 256 ^ length bs"
proof (induction bs)
  case (Cons b bs)
  have "unat b < 256" using unsigned_less [of b, where 'a = nat] by simp
  with Cons have "unat b + 256 * le_val bs < 256 * Suc (le_val bs)" "Suc (le_val bs) \<le> 256 ^ length bs"
    by simp_all
  then show ?case by (simp add: order.strict_trans2)
qed simp

text \<open>
  The candidate of the IPv6 walk is the pool address plus \<open>i\<close>: the byte-by-byte addition with
  carry adds to the low 64 bits, modulo \<open>2^64\<close>, and leaves the upper 64 bits alone.
\<close>

theorem candidate6_adds:
  assumes "length base = 16"
  shows "take 8 (candidate6 base i) = take 8 base \<and>
    le_val (rev (drop 8 (candidate6 base i))) = (le_val (rev (drop 8 base)) + unat i) mod 2 ^ 64"
proof -
  have len: "length (rev (drop 8 base)) = 8" using assms by simp
  have "le_val (add_carry (rev (drop 8 base)) i) < 256 ^ 8"
    using le_val_less [of "add_carry (rev (drop 8 base)) i"] len by simp
  then show ?thesis
    using add_carry_val [of "rev (drop 8 base)" i] assms len by (simp add: candidate6_def)
qed

theorem candidate6_adds_witness:
  "le_val (rev (drop 8 (candidate6 [1, 2, 3, 4, 5, 6, 7, 8, 255, 255, 255, 255, 255, 255, 255, 255] 2))) = 1"
  (is "le_val (rev (drop 8 (candidate6 ?b 2))) = 1")
proof -
  have len: "length ?b = 16" by simp
  have "le_val (rev (drop 8 ?b)) + unat (2 :: 64 word) = 2 ^ 64 + 1" by simp
  then show ?thesis
    using candidate6_adds [OF len, of 2, THEN conjunct2] by (simp only:) simp
qed

end
