(* ===== verification/Gates.thy ===== *)
theory Gates
  imports GoText Ident
begin

text \<open>
  The two admission gates of registration (\<open>devices/attestation_gate.go\<close>,
  \<open>devices/playintegrity_gate.go\<close>) and the verdict policy of Play Integrity tokens
  (\<open>playintegrity/playintegrity.go\<close>).  What verifies a certificate chain, issues challenges and
  decodes a token are functions of the gates' records, as in the code.
\<close>

section \<open>Play Integrity verdicts\<close>

definition VerdictOK :: string where "VerdictOK = ''ok''"
definition VerdictWarning :: string where "VerdictWarning = ''warning''"
definition VerdictFail :: string where "VerdictFail = ''fail''"

record TokenPayload =
  tp_request_package :: string
  tp_nonce :: string
  tp_app_verdict :: string
  tp_package :: string
  tp_device_verdict :: "string list"

record PIConfig =
  pc_decoder :: "string \<Rightarrow> string + TokenPayload"
  pc_expected_package :: string
  pc_min_integrity :: int
  pc_allow_sideloaded :: bool

record VerifyResult =
  vr_verdict :: string
  vr_reasons :: "string list"
  vr_labels :: "string list"
  vr_package :: string

definition rank :: "string \<Rightarrow> int" where
  "rank label = (if label = ''MEETS_STRONG_INTEGRITY'' then 3
     else if label = ''MEETS_DEVICE_INTEGRITY'' then 2
     else if label = ''MEETS_BASIC_INTEGRITY'' then 1 else 0)"

definition meetsDeviceIntegrity :: "string list \<Rightarrow> int \<Rightarrow> bool" where
  "meetsDeviceIntegrity labels least =
     (foldl (\<lambda>best l. if rank l > best then rank l else best) 0 labels \<ge> least)"

definition demoteTo :: "string \<Rightarrow> VerifyResult \<Rightarrow> VerifyResult" where
  "demoteTo v r = (if vr_verdict r = VerdictOK then r\<lparr>vr_verdict := v\<rparr> else r)"

definition add_reason :: "string \<Rightarrow> VerifyResult \<Rightarrow> VerifyResult" where
  "add_reason t r = r\<lparr>vr_reasons := vr_reasons r @ [t]\<rparr>"

definition fail_with :: "string \<Rightarrow> VerifyResult \<Rightarrow> VerifyResult" where
  "fail_with t r = add_reason t (r\<lparr>vr_verdict := VerdictFail\<rparr>)"

text \<open>The four checks of \<open>Verify\<close>, in its order.\<close>

definition check_package :: "PIConfig \<Rightarrow> TokenPayload \<Rightarrow> VerifyResult \<Rightarrow> VerifyResult" where
  "check_package cfg p r =
     (if tp_request_package p \<noteq> pc_expected_package cfg
      then fail_with (''requestPackageName='' @ go_quote (tp_request_package p) @ '', expected ''
             @ go_quote (pc_expected_package cfg)) r
      else r)"

definition check_nonce :: "string \<Rightarrow> TokenPayload \<Rightarrow> VerifyResult \<Rightarrow> VerifyResult" where
  "check_nonce expected p r =
     (if tp_nonce p \<noteq> expected then fail_with ''nonce mismatch (replay protection)'' r else r)"

definition check_app :: "PIConfig \<Rightarrow> TokenPayload \<Rightarrow> VerifyResult \<Rightarrow> VerifyResult" where
  "check_app cfg p r = (let v = tp_app_verdict p in
     if v = ''PLAY_RECOGNIZED'' then r
     else if v = ''UNRECOGNIZED_VERSION'' then
       (if pc_allow_sideloaded cfg then add_reason ''UNRECOGNIZED_VERSION (allowed)'' (demoteTo VerdictWarning r)
        else fail_with ''UNRECOGNIZED_VERSION not allowed'' r)
     else if v = ''UNEVALUATED'' \<or> v = [] then
       add_reason ''appRecognitionVerdict missing or unevaluated'' (demoteTo VerdictWarning r)
     else fail_with (''unrecognised appRecognitionVerdict: '' @ v) r)"

definition check_device :: "PIConfig \<Rightarrow> TokenPayload \<Rightarrow> VerifyResult \<Rightarrow> VerifyResult" where
  "check_device cfg p r =
     (if \<not> meetsDeviceIntegrity (tp_device_verdict p) (pc_min_integrity cfg)
      then fail_with (''deviceIntegrity '' @ v_strings (tp_device_verdict p) @ '' below required level ''
             @ int_str (pc_min_integrity cfg)) r
      else r)"

definition Verify :: "PIConfig \<Rightarrow> string \<Rightarrow> string \<Rightarrow> string + VerifyResult" where
  "Verify cfg token expectedNonce = (case pc_decoder cfg token of
     Inl e \<Rightarrow> Inl (''decode token: '' @ e)
   | Inr p \<Rightarrow> Inr (check_device cfg p (check_app cfg p (check_nonce expectedNonce p (check_package cfg p
        \<lparr>vr_verdict = VerdictOK, vr_reasons = [], vr_labels = tp_device_verdict p, vr_package = tp_package p\<rparr>)))))"

text \<open>\<open>New\<close> of the package: the defaults of a configuration.\<close>

datatype pi_config_error = NoPackageName

definition NewPIConfig :: "PIConfig \<Rightarrow> pi_config_error + PIConfig" where
  "NewPIConfig cfg = (if pc_expected_package cfg = [] then Inl NoPackageName
     else Inr (if pc_min_integrity cfg = 0 then cfg\<lparr>pc_min_integrity := 2\<rparr> else cfg))"

section \<open>Attestation gate\<close>

record Result = \<comment> \<open>\<open>attestation.Result\<close>\<close>
  res_level :: string
  res_package :: string
  res_fingerprint :: bytes
  res_root :: "(string \<times> bool) option" \<comment> \<open>boot state, locked\<close>

record AttestationGate =
  ag_mode :: string
  VerifyAndConsume :: "(ID \<Rightarrow> ID \<Rightarrow> bytes \<Rightarrow> string + Result) option"
  ag_verifier :: "(bytes \<Rightarrow> bytes \<Rightarrow> string + Result) option"
  ChallengeFor :: "string \<Rightarrow> string + bytes"
  has_consume :: bool
  ExpectedPackages :: "string list"

record AttestationOutcome =
  ao_verified :: bool
  ao_mode :: string
  ao_level :: string
  ao_boot :: string
  ao_locked :: bool
  ao_package :: string
  ao_fingerprint :: string
  ao_reason :: string

datatype gate_error =
    AttestationFailed string
  | NoAttestationVerifier
  | PlayIntegrityFailed string "string list"
  | NoPlayIntegrityVerifier

definition no_outcome :: "string \<Rightarrow> AttestationOutcome" where
  "no_outcome mode = \<lparr>ao_verified = False, ao_mode = mode, ao_level = [], ao_boot = [], ao_locked = False,
     ao_package = [], ao_fingerprint = [], ao_reason = []\<rparr>"

definition decide :: "AttestationGate \<Rightarrow> AttestationOutcome \<Rightarrow> gate_error option" where
  "decide g out = (if ag_mode g = ''enforce'' then Some (AttestationFailed (ao_reason out)) else None)"

definition refuse :: "AttestationGate \<Rightarrow> AttestationOutcome \<Rightarrow> string \<Rightarrow> AttestationOutcome \<times> gate_error option" where
  "refuse g out why = (let out' = out\<lparr>ao_reason := why\<rparr> in (out', decide g out'))"

definition fromResult :: "AttestationGate \<Rightarrow> AttestationOutcome \<Rightarrow> Result \<Rightarrow> AttestationOutcome \<times> gate_error option" where
  "fromResult g out0 res =
     (let out1 = out0\<lparr>ao_level := res_level res, ao_package := res_package res,
            ao_fingerprint := hex_encode (take 8 (res_fingerprint res))\<rparr>;
          out = (case res_root res of None \<Rightarrow> out1
                 | Some (boot, locked) \<Rightarrow> out1\<lparr>ao_boot := boot, ao_locked := locked\<rparr>)
      in if ExpectedPackages g \<noteq> [] \<and> res_package res \<notin> set (ExpectedPackages g)
         then refuse g out (''attested package '' @ go_quote (res_package res) @ '' is not in the expected set'')
         else (out\<lparr>ao_verified := True\<rparr>, None))"

text \<open>The last component says whether \<open>ConsumeChallenge\<close> was called for the installation.\<close>

definition verify :: "AttestationGate \<Rightarrow> string \<Rightarrow> ID \<Rightarrow> ID \<Rightarrow> bytes
    \<Rightarrow> (AttestationOutcome \<times> gate_error option) \<times> bool" where
  "verify g installID tenantID userID chain =
     (let out = no_outcome (ag_mode g) in
      if ag_mode g = [] \<or> ag_mode g = ''off''
      then ((out\<lparr>ao_reason := ''attestation disabled''\<rparr>, None), False)
      else case VerifyAndConsume g of
        Some v \<Rightarrow>
          if chain = [] then (refuse g out ''device sent no attestation chain'', False)
          else (case v tenantID userID chain of
             Inl e \<Rightarrow> (refuse g out e, False)
           | Inr res \<Rightarrow> (fromResult g out res, False))
      | None \<Rightarrow> (case ag_verifier g of
          None \<Rightarrow> ((out\<lparr>ao_reason := ''no verifier configured''\<rparr>,
                  if ag_mode g = ''enforce'' then Some NoAttestationVerifier else None), False)
        | Some vc \<Rightarrow>
          if chain = [] then (refuse g out ''device sent no attestation chain'', False)
          else (case ChallengeFor g installID of
             Inl e \<Rightarrow> (refuse g out (''no outstanding challenge for this install: '' @ e), False)
           | Inr [] \<Rightarrow> (refuse g out ''no challenge was issued; cannot prove freshness'', False)
           | Inr ch \<Rightarrow> (case vc chain ch of
               Inl e \<Rightarrow> (refuse g out e, False)
             | Inr res \<Rightarrow> (fromResult g out res, has_consume g)))))"

text \<open>\<open>(admit, outcome)\<close>, or the refusal.\<close>

definition runAttestationWithOutcome :: "AttestationGate option \<Rightarrow> string \<Rightarrow> ID \<Rightarrow> ID \<Rightarrow> bytes
    \<Rightarrow> gate_error + bool \<times> AttestationOutcome" where
  "runAttestationWithOutcome gate installID tenantID userID chain = (case gate of
     None \<Rightarrow> Inr (True, no_outcome ''off'')
   | Some g \<Rightarrow>
       if ag_mode g = [] \<or> ag_mode g = ''off'' then Inr (True, no_outcome ''off'')
       else (case fst (verify g installID tenantID userID chain) of
          (out, Some e) \<Rightarrow> Inl e
        | (out, None) \<Rightarrow> Inr (ao_verified out \<or> ag_mode g = ''permissive'', out)))"

section \<open>Play Integrity gate\<close>

record PlayIntegrityGate =
  pg_mode :: string
  pg_verifier :: "PIConfig option"
  NonceFor :: "(ID \<Rightarrow> ID \<Rightarrow> string + string) option"
  TreatWarningAsFailure :: bool

record PlayIntegrityOutcome =
  po_evaluated :: bool
  po_verdict :: string
  po_reasons :: "string list"
  po_labels :: "string list"
  po_package :: string

definition no_pi :: PlayIntegrityOutcome where
  "no_pi = \<lparr>po_evaluated = False, po_verdict = [], po_reasons = [], po_labels = [], po_package = []\<rparr>"

definition pi_decide :: "PlayIntegrityGate \<Rightarrow> PlayIntegrityOutcome \<Rightarrow> gate_error option" where
  "pi_decide g out =
     (let failing = (po_verdict out = VerdictFail \<or> (po_verdict out = VerdictWarning \<and> TreatWarningAsFailure g))
      in if pg_mode g = ''enforce'' \<and> failing then Some (PlayIntegrityFailed (po_verdict out) (po_reasons out))
         else None)"

definition pi_refuse :: "PlayIntegrityGate \<Rightarrow> string \<Rightarrow> PlayIntegrityOutcome \<times> gate_error option" where
  "pi_refuse g why = (let out = no_pi\<lparr>po_verdict := VerdictFail, po_reasons := [why]\<rparr> in (out, pi_decide g out))"

definition Evaluate :: "PlayIntegrityGate \<Rightarrow> ID \<Rightarrow> ID \<Rightarrow> string \<Rightarrow> PlayIntegrityOutcome \<times> gate_error option" where
  "Evaluate g tenantID userID token =
     (if pg_mode g = [] \<or> pg_mode g = ''off'' then (no_pi, None)
      else case pg_verifier g of
        None \<Rightarrow> (no_pi, if pg_mode g = ''enforce'' then Some NoPlayIntegrityVerifier else None)
      | Some v \<Rightarrow>
          if trim_space token = [] then pi_refuse g ''device sent no integrity token''
          else (case (case NonceFor g of None \<Rightarrow> Inr [] | Some f \<Rightarrow> f tenantID userID) of
             Inl e \<Rightarrow> pi_refuse g (''no outstanding challenge: '' @ e)
           | Inr nonce \<Rightarrow> (case Verify v token nonce of
               Inl e \<Rightarrow> pi_refuse g (''token decode failed: '' @ e)
             | Inr res \<Rightarrow>
                 (let out = \<lparr>po_evaluated = True, po_verdict = vr_verdict res, po_reasons = vr_reasons res,
                        po_labels = vr_labels res, po_package = vr_package res\<rparr>
                  in (out, if vr_verdict res = VerdictOK then None else pi_decide g out)))))"

definition runPlayIntegrity :: "PlayIntegrityGate option \<Rightarrow> ID \<Rightarrow> ID \<Rightarrow> string \<Rightarrow> gate_error + PlayIntegrityOutcome" where
  "runPlayIntegrity gate tenantID userID token = (case gate of
     None \<Rightarrow> Inr no_pi
   | Some g \<Rightarrow> (case Evaluate g tenantID userID token of (out, Some e) \<Rightarrow> Inl e | (out, None) \<Rightarrow> Inr out))"

section \<open>What the gates record\<close>

text \<open>\<open>fingerprintBytes\<close>: 64 hexadecimal digits or NULL.\<close>

definition fingerprintBytes :: "string \<Rightarrow> bytes option" where
  "fingerprintBytes hexFP = (if length hexFP \<noteq> 64 then None else hex_decode hexFP)"

definition nullIfEmpty :: "string \<Rightarrow> string option" where
  "nullIfEmpty s = (if s = [] then None else Some s)"

definition record_verdict :: "AttestationOutcome \<Rightarrow> PlayIntegrityOutcome \<Rightarrow> string" where
  "record_verdict att pi =
     (if ao_mode att \<noteq> [] \<and> ao_mode att \<noteq> ''off'' \<and> \<not> ao_verified att then ''fail''
      else if po_verdict pi = VerdictFail then ''fail''
      else if po_verdict pi = VerdictWarning \<or> ao_reason att \<noteq> [] then ''warning'' else ''ok'')"

text \<open>\<open>strings.Trim (s, ";")\<close>.\<close>

definition trim_semi :: "string \<Rightarrow> string" where
  "trim_semi s = rev (dropWhile (\<lambda>c. c = CHR '';'') (rev (dropWhile (\<lambda>c. c = CHR '';'') s)))"

definition record_notes :: "AttestationOutcome \<Rightarrow> PlayIntegrityOutcome \<Rightarrow> string" where
  "record_notes att pi = take 2000 (trim_semi (trim_space (join ''; '' (ao_reason att # po_reasons pi))))"

section \<open>Lemmas\<close>

lemma verdicts_distinct [simp]:
  "VerdictOK \<noteq> VerdictWarning" "VerdictOK \<noteq> VerdictFail" "VerdictWarning \<noteq> VerdictFail"
  "VerdictWarning \<noteq> VerdictOK" "VerdictFail \<noteq> VerdictOK" "VerdictFail \<noteq> VerdictWarning"
  by (simp_all add: VerdictOK_def VerdictWarning_def VerdictFail_def)

lemma fail_with_sel [simp]:
  "vr_verdict (fail_with t r) = VerdictFail" "vr_reasons (fail_with t r) = vr_reasons r @ [t]"
  by (simp_all add: fail_with_def add_reason_def)

lemma add_reason_sel [simp]:
  "vr_verdict (add_reason t r) = vr_verdict r" "vr_reasons (add_reason t r) = vr_reasons r @ [t]"
  by (simp_all add: add_reason_def)

lemma demoteTo_sel [simp]:
  "vr_verdict (demoteTo v r) = (if vr_verdict r = VerdictOK then v else vr_verdict r)"
  "vr_reasons (demoteTo v r) = vr_reasons r"
  by (simp_all add: demoteTo_def)

text \<open>The policy of a token as two predicates: what refuses it, and what only weakens it.\<close>

definition token_refused :: "PIConfig \<Rightarrow> string \<Rightarrow> TokenPayload \<Rightarrow> bool" where
  "token_refused cfg nonce p \<longleftrightarrow>
     tp_request_package p \<noteq> pc_expected_package cfg \<or> tp_nonce p \<noteq> nonce
     \<or> tp_app_verdict p \<notin> {''PLAY_RECOGNIZED'', ''UNRECOGNIZED_VERSION'', ''UNEVALUATED'', []}
     \<or> (tp_app_verdict p = ''UNRECOGNIZED_VERSION'' \<and> \<not> pc_allow_sideloaded cfg)
     \<or> (0 < pc_min_integrity cfg \<and> (\<forall>l \<in> set (tp_device_verdict p). rank l < pc_min_integrity cfg))"

lemma foldl_best:
  "foldl (\<lambda>best l. if rank l > best then rank l else best) b labels \<ge> m
     \<longleftrightarrow> b \<ge> m \<or> (\<exists>l \<in> set labels. rank l \<ge> m)"
  by (induction labels arbitrary: b) auto

lemma meetsDeviceIntegrity_iff:
  "meetsDeviceIntegrity labels m \<longleftrightarrow> m \<le> 0 \<or> (\<exists>l \<in> set labels. m \<le> rank l)"
  by (simp add: meetsDeviceIntegrity_def foldl_best)

lemmas pi_checks = check_package_def check_nonce_def check_app_def check_device_def Let_def
  meetsDeviceIntegrity_iff

lemma hex_encode_short [simp]: "length (hex_encode bs) = 2 * length bs"
  by (rule length_hex_encode)

lemma verify_fingerprint:
  "fst (verify g i t u chain) = (out, e) \<Longrightarrow> length (ao_fingerprint out) \<le> 16"
  by (auto simp: verify_def Let_def refuse_def fromResult_def no_outcome_def
      split: if_split_asm option.split_asm sum.split_asm list.split_asm)

text \<open>
  The Play Integrity verdict is \<open>fail\<close> exactly when the package, the nonce, the application
  verdict or the device level refuses the token, \<open>warning\<close> exactly when nothing refuses it and the
  application was not plainly recognised, and \<open>ok\<close> otherwise; an \<open>ok\<close> has no reasons and the other
  verdicts have at least one.
\<close>

theorem integrity_verdict:
  assumes "pc_decoder cfg token = Inr p"
  shows "\<exists>r. Verify cfg token nonce = Inr r
    \<and> vr_verdict r = (if token_refused cfg nonce p then VerdictFail
        else if tp_app_verdict p = ''PLAY_RECOGNIZED'' then VerdictOK else VerdictWarning)
    \<and> (vr_reasons r = [] \<longleftrightarrow> vr_verdict r = VerdictOK)"
proof -
  define r0 where "r0 = \<lparr>vr_verdict = VerdictOK, vr_reasons = [], vr_labels = tp_device_verdict p, vr_package = tp_package p\<rparr>"
  define r1 where "r1 = check_nonce nonce p (check_package cfg p r0)"
  have r1: "vr_verdict r1 = (if tp_request_package p \<noteq> pc_expected_package cfg \<or> tp_nonce p \<noteq> nonce then VerdictFail else VerdictOK)"
    "vr_reasons r1 = [] \<longleftrightarrow> \<not> (tp_request_package p \<noteq> pc_expected_package cfg \<or> tp_nonce p \<noteq> nonce)"
    by (simp_all add: r1_def r0_def check_package_def check_nonce_def)
  define r2 where "r2 = check_app cfg p r1"
  have r2: "vr_verdict r2 = (if vr_verdict r1 = VerdictFail
        \<or> tp_app_verdict p \<notin> {''PLAY_RECOGNIZED'', ''UNRECOGNIZED_VERSION'', ''UNEVALUATED'', []}
        \<or> (tp_app_verdict p = ''UNRECOGNIZED_VERSION'' \<and> \<not> pc_allow_sideloaded cfg) then VerdictFail
      else if tp_app_verdict p = ''PLAY_RECOGNIZED'' then VerdictOK else VerdictWarning)"
    "vr_reasons r2 = [] \<longleftrightarrow> vr_reasons r1 = [] \<and> tp_app_verdict p = ''PLAY_RECOGNIZED''"
    using r1(1) by (auto simp: r2_def check_app_def Let_def)
  have "Verify cfg token nonce = Inr (check_device cfg p r2)"
    using assms by (simp add: Verify_def r2_def r1_def r0_def)
  moreover have "vr_verdict (check_device cfg p r2) = (if token_refused cfg nonce p then VerdictFail
        else if tp_app_verdict p = ''PLAY_RECOGNIZED'' then VerdictOK else VerdictWarning)"
    unfolding check_device_def token_refused_def meetsDeviceIntegrity_iff
    using r1(1) r2(1) by (auto simp: not_le)
  moreover have "vr_reasons (check_device cfg p r2) = [] \<longleftrightarrow> vr_verdict (check_device cfg p r2) = VerdictOK"
    unfolding check_device_def using r1 r2 by auto
  ultimately show ?thesis by blast
qed

text \<open>
  C19. Under \<open>enforce\<close> the attestation gate admits a device only on evidence: the verifier accepted
  its chain for this registration, and the attested package is an expected one. Under \<open>permissive\<close>
  it refuses nobody.
\<close>

theorem enforced_attestation:
  assumes "runAttestationWithOutcome (Some g) i t u chain = Inr (admit, out)" "ag_mode g = ''enforce''"
  shows "admit \<and> ao_verified out \<and> chain \<noteq> []
    \<and> (\<exists>res. (ExpectedPackages g = [] \<or> res_package res \<in> set (ExpectedPackages g))
         \<and> ((\<exists>v. VerifyAndConsume g = Some v \<and> v t u chain = Inr res)
            \<or> (\<exists>vc ch. ag_verifier g = Some vc \<and> ChallengeFor g i = Inr ch \<and> ch \<noteq> [] \<and> vc chain ch = Inr res)))"
proof -
  obtain e b where v: "verify g i t u chain = ((out, None), b)" and a: "admit = ao_verified out"
    using assms by (cases "verify g i t u chain")
      (auto simp: runAttestationWithOutcome_def split: prod.splits option.splits)
  have no: "refuse g o' why \<noteq> (out, None)" for o' why
    using assms(2) by (simp add: refuse_def decide_def Let_def)
  have yes: "ao_verified out \<and> (ExpectedPackages g = [] \<or> res_package res \<in> set (ExpectedPackages g))"
    if "fromResult g o' res = (out, None)" for o' res
    using that no by (auto simp: fromResult_def Let_def split: if_split_asm)
  show ?thesis
  proof (cases "VerifyAndConsume g")
    case (Some w)
    with v assms(2) no have c: "chain \<noteq> []" by (auto simp: verify_def Let_def)
    with v assms(2) no Some obtain res where "w t u chain = Inr res" "fromResult g (no_outcome (ag_mode g)) res = (out, None)"
      by (auto simp: verify_def Let_def split: sum.splits)
    with yes c a Some show ?thesis by blast
  next
    case None
    with v assms(2) no obtain vc where vc: "ag_verifier g = Some vc" "chain \<noteq> []"
      by (auto simp: verify_def Let_def split: option.splits if_split_asm)
    with v assms(2) no None obtain ch res where "ChallengeFor g i = Inr ch" "ch \<noteq> []" "vc chain ch = Inr res"
        "fromResult g (no_outcome (ag_mode g)) res = (out, None)"
      by (auto simp: verify_def Let_def split: sum.splits list.splits)
    with yes vc a show ?thesis by blast
  qed
qed

text \<open>
  The certificate fingerprint of an attestation is never stored: the gate reports sixteen digits,
  and the column takes sixty-four or NULL.
\<close>

theorem fingerprint_never_stored:
  assumes "runAttestationWithOutcome gate i t u chain = Inr (admit, out)"
  shows "fingerprintBytes (ao_fingerprint out) = None"
proof -
  have "length (ao_fingerprint out) \<le> 16"
    using assms verify_fingerprint
    by (cases gate) (auto simp: runAttestationWithOutcome_def no_outcome_def split: prod.splits option.splits if_split_asm)
  then show ?thesis by (simp add: fingerprintBytes_def)
qed

section \<open>Concrete evidence\<close>

definition sideloaded :: TokenPayload where
  "sideloaded = \<lparr>tp_request_package = ''com.a'', tp_nonce = ''n'', tp_app_verdict = ''UNRECOGNIZED_VERSION'',
     tp_package = ''com.a'', tp_device_verdict = [''MEETS_BASIC_INTEGRITY'', ''MEETS_DEVICE_INTEGRITY'']\<rparr>"

definition demo_pi :: PIConfig where
  "demo_pi = \<lparr>pc_decoder = (\<lambda>t. if t = ''tok'' then Inr sideloaded else Inl ''bad''), pc_expected_package = ''com.a'',
     pc_min_integrity = 2, pc_allow_sideloaded = True\<rparr>"

theorem integrity_verdict_witness: "\<exists>r. Verify demo_pi ''tok'' ''n'' = Inr r \<and> vr_verdict r = VerdictWarning"
proof -
  have d: "pc_decoder demo_pi ''tok'' = Inr sideloaded" by (simp add: demo_pi_def)
  have "\<not> token_refused demo_pi ''n'' sideloaded"
    by (simp add: token_refused_def demo_pi_def sideloaded_def rank_def)
  moreover have "tp_app_verdict sideloaded \<noteq> ''PLAY_RECOGNIZED''" by (simp add: sideloaded_def)
  ultimately show ?thesis using integrity_verdict [OF d, of "''n''"] by auto
qed

definition demo_result :: Result where
  "demo_result = \<lparr>res_level = ''TEE'', res_package = ''com.a'', res_fingerprint = replicate 32 7,
     res_root = Some (''Verified'', True)\<rparr>"

definition demo_gate :: AttestationGate where
  "demo_gate = \<lparr>ag_mode = ''enforce'', VerifyAndConsume = None,
     ag_verifier = Some (\<lambda>chain ch. if chain = [1] \<and> ch = [9] then Inr demo_result else Inl ''bad''),
     ChallengeFor = (\<lambda>i. Inr [9]), has_consume = True, ExpectedPackages = [''com.a'']\<rparr>"

lemma demo_attested:
  "\<exists>out. runAttestationWithOutcome (Some demo_gate) ''i'' Zero Zero [1] = Inr (True, out) \<and> ao_level out = ''TEE''"
  by (simp add: runAttestationWithOutcome_def demo_gate_def verify_def Let_def fromResult_def demo_result_def)

theorem enforced_attestation_witness:
  "\<exists>out. runAttestationWithOutcome (Some demo_gate) ''i'' Zero Zero [1] = Inr (True, out) \<and> ao_verified out"
proof -
  obtain out where r: "runAttestationWithOutcome (Some demo_gate) ''i'' Zero Zero [1] = Inr (True, out)"
    using demo_attested by blast
  moreover have "ag_mode demo_gate = ''enforce''" by (simp add: demo_gate_def)
  ultimately show ?thesis using enforced_attestation by blast
qed

theorem fingerprint_never_stored_witness:
  "\<exists>out. runAttestationWithOutcome (Some demo_gate) ''i'' Zero Zero [1] = Inr (True, out)
     \<and> fingerprintBytes (ao_fingerprint out) = None"
  using demo_attested fingerprint_never_stored by blast

end
