(* ===== verification/Certs.thy ===== *)
theory Certs
  imports Ident
begin

text \<open>
  The client certificates of devices (\<open>auth/mtls.go\<close>): issuance from a public key and from a signing
  request.  The signature over the template, the hash, the PEM armour and the check of the request's
  own signature belong to \<open>crypto/x509\<close> and are arguments.
\<close>

datatype curve = P256 | P384 | P521 | OtherCurve string

datatype public_key = ECDSA curve bytes | RSA nat bytes | Ed25519 bytes | OtherKey string

record CSR =
  csr_key :: public_key
  csr_signature :: "string option" \<comment> \<open>the error of \<open>CheckSignature\<close>\<close>
  csr_subject :: string
  csr_uris :: "string list"

record template = \<comment> \<open>\<open>x509.Certificate\<close>, as filled in by \<open>Issue\<close>\<close>
  serial :: "128 word"
  common_name :: string
  organization :: "string list"
  not_before :: time
  not_after :: time
  client_auth_only :: bool
  is_ca :: bool
  uris :: "string list"

record IssuanceResult =
  ir_serial :: bytes
  ir_fingerprint :: bytes
  ir_not_before :: time
  ir_not_after :: time
  ir_pem :: bytes

record CA =
  sign :: "template \<Rightarrow> public_key \<Rightarrow> string + bytes"
  fingerprint256 :: "bytes \<Rightarrow> bytes"
  pem_cert :: "bytes \<Rightarrow> bytes"

datatype ca_error =
  ZeroDevice | NilKey | SerialError | SignError string | NilCSR | BadCSRSignature string
  | CurveNotAllowed string | RSATooShort nat | KeyTypeNotAllowed string

definition MaxClientCertLifetime :: time where "MaxClientCertLifetime = 24 * hour"

definition newSerial :: "128 word option \<Rightarrow> ca_error + 128 word" where
  "newSerial entropy = (case entropy of None \<Rightarrow> Inl SerialError | Some n \<Rightarrow> Inr (if n = 0 then 1 else n))"

definition serial_bytes :: "128 word \<Rightarrow> bytes" where
  "serial_bytes n = replicate 4 0 @ be_bytes 16 n"

definition device_uri :: "ID \<Rightarrow> string" where
  "device_uri i = ''urn:aidotvpn:device:'' @ String i"

definition cert_template :: "ID \<Rightarrow> 128 word \<Rightarrow> time \<Rightarrow> time \<Rightarrow> template" where
  "cert_template i n nb na = \<lparr>serial = n, common_name = String i, organization = [''AidotVpn''],
     not_before = nb, not_after = na, client_auth_only = True, is_ca = False, uris = [device_uri i]\<rparr>"

definition Issue :: "CA \<Rightarrow> 128 word option \<Rightarrow> time \<Rightarrow> ID \<Rightarrow> public_key option \<Rightarrow> time \<Rightarrow> time \<Rightarrow> ca_error + IssuanceResult" where
  "Issue ca entropy clock i key nb0 lifetime0 =
     (if IsZero i then Inl ZeroDevice
      else case key of None \<Rightarrow> Inl NilKey | Some k \<Rightarrow>
       (let nb = (if nb0 = zero_time then clock else nb0);
            lifetime = (if lifetime0 \<le> 0 \<or> lifetime0 > MaxClientCertLifetime then MaxClientCertLifetime else lifetime0);
            na = nb + lifetime
        in and_then (newSerial entropy) (\<lambda>n.
           case sign ca (cert_template i n nb na) k of
             Inl e \<Rightarrow> Inl (SignError e)
           | Inr der \<Rightarrow> Inr \<lparr>ir_serial = serial_bytes n, ir_fingerprint = fingerprint256 ca der,
               ir_not_before = nb, ir_not_after = na, ir_pem = pem_cert ca der\<rparr>)))"

definition validateCSRPublicKey :: "public_key \<Rightarrow> ca_error option" where
  "validateCSRPublicKey k = (case k of
     ECDSA c _ \<Rightarrow> (case c of OtherCurve n \<Rightarrow> Some (CurveNotAllowed n) | _ \<Rightarrow> None)
   | RSA bits _ \<Rightarrow> if bits < 2048 then Some (RSATooShort bits) else None
   | Ed25519 _ \<Rightarrow> None
   | OtherKey t \<Rightarrow> Some (KeyTypeNotAllowed t))"

definition IssueFromCSR :: "CA \<Rightarrow> 128 word option \<Rightarrow> time \<Rightarrow> ID \<Rightarrow> CSR option \<Rightarrow> time \<Rightarrow> time \<Rightarrow> ca_error + IssuanceResult" where
  "IssueFromCSR ca entropy clock i csr nb lifetime =
     (if IsZero i then Inl ZeroDevice
      else case csr of None \<Rightarrow> Inl NilCSR | Some c \<Rightarrow>
       (case csr_signature c of Some e \<Rightarrow> Inl (BadCSRSignature e)
        | None \<Rightarrow> (case validateCSRPublicKey (csr_key c) of
            Some e \<Rightarrow> Inl e
          | None \<Rightarrow> Issue ca entropy clock i (Some (csr_key c)) nb lifetime)))"

lemma length_serial_bytes [simp]: "length (serial_bytes n) = 20"
  by (simp add: serial_bytes_def)

lemma get_be_zeros: "get_be 0 (replicate k 0 @ bs) = get_be 0 bs"
  by (induction k) simp_all

lemma serial_bytes_value: "get_be 0 (serial_bytes n) = n"
  by (simp add: serial_bytes_def get_be_zeros get_be_be_bytes take_bit_word_eq_self)

lemma admissible_key:
  "validateCSRPublicKey k = None \<Longrightarrow> (case k of ECDSA c _ \<Rightarrow> c \<in> {P256, P384, P521} | RSA bits _ \<Rightarrow> 2048 \<le> bits
     | Ed25519 _ \<Rightarrow> True | OtherKey _ \<Rightarrow> False)"
  by (auto simp: validateCSRPublicKey_def split: public_key.split curve.split_asm if_split_asm)

text \<open>
  C23. A certificate issued on a signing request binds the request's key to the device the controller
  chose: the key was proven by the request's signature and is ECDSA on P-256, P-384 or P-521, RSA of at
  least 2048 bits, or Ed25519; subject and SAN of the request play no role. The certificate is no CA, is for
  client authentication, is valid for a positive time of at most 24 hours, and its stored serial is twenty
  bytes holding the certificate's nonzero serial number.
\<close>

theorem csr_certificate:
  assumes "IssueFromCSR ca entropy clock i (Some c) nb lifetime = Inr r"
  shows "csr_signature c = None
    \<and> (case csr_key c of ECDSA cv _ \<Rightarrow> cv \<in> {P256, P384, P521} | RSA bits _ \<Rightarrow> 2048 \<le> bits
       | Ed25519 _ \<Rightarrow> True | OtherKey _ \<Rightarrow> False)
    \<and> (\<exists>t der. sign ca t (csr_key c) = Inr der \<and> ir_fingerprint r = fingerprint256 ca der
        \<and> common_name t = String i \<and> uris t = [''urn:aidotvpn:device:'' @ String i]
        \<and> \<not> is_ca t \<and> client_auth_only t
        \<and> not_before t = ir_not_before r \<and> not_after t = ir_not_after r
        \<and> ir_not_before r < ir_not_after r \<and> ir_not_after r \<le> ir_not_before r + 24 * hour
        \<and> length (ir_serial r) = 20 \<and> get_be 0 (ir_serial r) = serial t \<and> serial t \<noteq> 0)"
proof -
  from assms have ok: "csr_signature c = None" "validateCSRPublicKey (csr_key c) = None" "\<not> IsZero i"
      and iss: "Issue ca entropy clock i (Some (csr_key c)) nb lifetime = Inr r"
    by (auto simp: IssueFromCSR_def split: if_split_asm option.split_asm)
  define b where "b = (if nb = zero_time then clock else nb)"
  define l where "l = (if lifetime \<le> 0 \<or> lifetime > MaxClientCertLifetime then MaxClientCertLifetime else lifetime)"
  have l: "0 < l" "l \<le> 24 * hour"
    by (auto simp: l_def MaxClientCertLifetime_def hour_def minute_def second_def)
  have "Issue ca entropy clock i (Some (csr_key c)) nb lifetime = and_then (newSerial entropy) (\<lambda>n.
      case sign ca (cert_template i n b (b + l)) (csr_key c) of Inl e \<Rightarrow> Inl (SignError e)
      | Inr der \<Rightarrow> Inr \<lparr>ir_serial = serial_bytes n, ir_fingerprint = fingerprint256 ca der, ir_not_before = b,
          ir_not_after = b + l, ir_pem = pem_cert ca der\<rparr>)"
    using ok(3) by (simp only: Issue_def b_def l_def Let_def if_False option.case simp_thms)
  with iss obtain n where n: "newSerial entropy = Inr n"
      and m: "(case sign ca (cert_template i n b (b + l)) (csr_key c) of Inl e \<Rightarrow> Inl (SignError e)
      | Inr der \<Rightarrow> Inr \<lparr>ir_serial = serial_bytes n, ir_fingerprint = fingerprint256 ca der, ir_not_before = b,
          ir_not_after = b + l, ir_pem = pem_cert ca der\<rparr>) = Inr r"
    by (auto simp: and_then_Inr)
  from m obtain der where der: "sign ca (cert_template i n b (b + l)) (csr_key c) = Inr der"
      and r: "r = \<lparr>ir_serial = serial_bytes n, ir_fingerprint = fingerprint256 ca der, ir_not_before = b,
        ir_not_after = b + l, ir_pem = pem_cert ca der\<rparr>"
    by (cases "sign ca (cert_template i n b (b + l)) (csr_key c)") simp_all
  from n have "n \<noteq> 0" by (auto simp: newSerial_def split: option.split_asm if_split_asm)
  with ok(1) admissible_key [OF ok(2)] der l show ?thesis
    by (intro conjI exI [of _ "cert_template i n b (b + l)"] exI [of _ der])
      (simp_all add: r cert_template_def device_uri_def serial_bytes_value)
qed

definition demo_ca :: CA where
  "demo_ca = \<lparr>sign = (\<lambda>t k. Inr (be_bytes 2 (serial t))), fingerprint256 = (\<lambda>d. d), pem_cert = (\<lambda>d. d)\<rparr>"

definition demo_csr :: CSR where
  "demo_csr = \<lparr>csr_key = ECDSA P256 [1], csr_signature = None, csr_subject = ''root'', csr_uris = [''urn:x'']\<rparr>"

theorem csr_certificate_witness:
  "\<exists>r. IssueFromCSR demo_ca (Some 0) 5 (replicate 16 7) (Some demo_csr) zero_time (100 * hour) = Inr r
     \<and> length (ir_serial r) = 20 \<and> ir_not_after r \<le> ir_not_before r + 24 * hour"
proof -
  have "\<not> IsZero (replicate 16 7)" by (simp add: IsZero_def list_all_iff)
  then obtain r where r: "IssueFromCSR demo_ca (Some 0) 5 (replicate 16 7) (Some demo_csr) zero_time (100 * hour) = Inr r"
    by (simp add: IssueFromCSR_def demo_csr_def validateCSRPublicKey_def Issue_def Let_def newSerial_def demo_ca_def)
  with csr_certificate [OF r] show ?thesis by blast
qed

end
