(* ===== verification/Pqc.thy ===== *)
theory Pqc
  imports Ident
begin

text \<open>
  The post-quantum part of the pre-shared keys (\<open>pqc/pqc.go\<close>, \<open>pqc/store.go\<close>): the size checks around
  ML-KEM-768 and HKDF, and the table of tenant key pairs.  The two primitives are the standard
  library's and are arguments, collected in \<open>crypto\<close>.
\<close>

record crypto =
  parse_decap :: "bytes \<Rightarrow> string option"             \<comment> \<open>the error of \<open>NewDecapsulationKey768\<close>\<close>
  decap :: "bytes \<Rightarrow> bytes \<Rightarrow> string + bytes"          \<comment> \<open>key, ciphertext\<close>
  parse_encap :: "bytes \<Rightarrow> string option"
  encap :: "bytes \<Rightarrow> bytes \<Rightarrow> bytes \<times> bytes"           \<comment> \<open>key, randomness; secret and ciphertext\<close>
  hkdf :: "bytes \<Rightarrow> string \<Rightarrow> bytes \<Rightarrow> string + bytes" \<comment> \<open>key material, salt, info\<close>

definition EncapKeySize :: nat where "EncapKeySize = 1184"
definition CiphertextSize :: nat where "CiphertextSize = 1088"
definition SharedSecretSize :: nat where "SharedSecretSize = 32"
definition AlgorithmMLKEM768 :: string where "AlgorithmMLKEM768 = ''ml-kem-768''"

datatype pqc_error =
    CiphertextLength nat | ParseDecap string | DecapFailed string | EncapLength nat | ParseEncap string
  | ClassicalLength | SharedLength nat | HKDF string
  | ErrNoKeypair | WrongAlgorithm string | KeyGen string | StoreKeypair

section \<open>Primitives with their checks\<close>

definition Decapsulate :: "crypto \<Rightarrow> bytes \<Rightarrow> bytes \<Rightarrow> pqc_error + bytes" where
  "Decapsulate c dk ct =
     (if length ct \<noteq> CiphertextSize then Inl (CiphertextLength (length ct))
      else case parse_decap c dk of Some e \<Rightarrow> Inl (ParseDecap e)
      | None \<Rightarrow> (case decap c dk ct of Inl e \<Rightarrow> Inl (DecapFailed e) | Inr ss \<Rightarrow> Inr ss))"

definition Encapsulate :: "crypto \<Rightarrow> bytes \<Rightarrow> bytes \<Rightarrow> pqc_error + bytes \<times> bytes" where
  "Encapsulate c ek rnd =
     (if length ek \<noteq> EncapKeySize then Inl (EncapLength (length ek))
      else case parse_encap c ek of Some e \<Rightarrow> Inl (ParseEncap e) | None \<Rightarrow> Inr (encap c ek rnd))"

definition HybridPSK :: "crypto \<Rightarrow> bytes \<Rightarrow> bytes \<Rightarrow> bytes \<Rightarrow> pqc_error + bytes" where
  "HybridPSK c classical shared deviceID =
     (if length classical \<noteq> 32 then Inl ClassicalLength
      else if length shared \<noteq> SharedSecretSize then Inl (SharedLength (length shared))
      else case hkdf c (classical @ shared) ''aidotvpn-pqc-v1'' deviceID of Inl e \<Rightarrow> Inl (HKDF e) | Inr k \<Rightarrow> Inr k)"

section \<open>The store\<close>

record KemRow =
  kem_tenant :: ID
  kem_algorithm :: string
  kem_public :: bytes
  kem_secret :: bytes

definition kem_row :: "KemRow list \<Rightarrow> ID \<Rightarrow> KemRow option" where
  "kem_row rows t = find (\<lambda>r. kem_tenant r = t) rows"

definition EncapKey :: "KemRow list \<Rightarrow> ID \<Rightarrow> pqc_error + bytes" where
  "EncapKey rows t = (case kem_row rows t of
     None \<Rightarrow> Inl ErrNoKeypair
   | Some r \<Rightarrow> if kem_algorithm r \<noteq> AlgorithmMLKEM768 then Inl (WrongAlgorithm (kem_algorithm r))
       else if length (kem_public r) \<noteq> EncapKeySize then Inl (EncapLength (length (kem_public r)))
       else Inr (kem_public r))"

text \<open>
  \<open>EnsureKeypair\<close> in its two statements: the read, and the guarded insert with the key pair generated
  in between; \<open>None\<close> is an answer the read already gives.
\<close>

definition ensure_read :: "KemRow list \<Rightarrow> ID \<Rightarrow> (pqc_error + bytes) option" where
  "ensure_read rows t = (case EncapKey rows t of Inl ErrNoKeypair \<Rightarrow> None | r \<Rightarrow> Some r)"

definition ensure_insert :: "string + bytes \<times> bytes \<Rightarrow> ID \<Rightarrow> KemRow list \<Rightarrow> (pqc_error + bytes) \<times> KemRow list" where
  "ensure_insert gen t rows = (case gen of
     Inl e \<Rightarrow> (Inl (KeyGen e), rows)
   | Inr (ek, dk) \<Rightarrow>
       if kem_row rows t \<noteq> None
       then (case EncapKey rows t of Inr k \<Rightarrow> (Inr k, rows) | Inl _ \<Rightarrow> (Inl StoreKeypair, rows))
       else (Inr ek, rows @ [\<lparr>kem_tenant = t, kem_algorithm = AlgorithmMLKEM768, kem_public = ek, kem_secret = dk\<rparr>]))"

definition EnsureKeypair :: "string + bytes \<times> bytes \<Rightarrow> ID \<Rightarrow> KemRow list \<Rightarrow> (pqc_error + bytes) \<times> KemRow list" where
  "EnsureKeypair gen t rows = (case ensure_read rows t of Some r \<Rightarrow> (r, rows) | None \<Rightarrow> ensure_insert gen t rows)"

definition DeriveShared :: "crypto \<Rightarrow> KemRow list \<Rightarrow> ID \<Rightarrow> bytes \<Rightarrow> pqc_error + bytes" where
  "DeriveShared c rows t ct =
     (if length ct \<noteq> CiphertextSize then Inl (CiphertextLength (length ct))
      else case kem_row rows t of None \<Rightarrow> Inl ErrNoKeypair | Some r \<Rightarrow> Decapsulate c (kem_secret r) ct)"

definition Rotate :: "string + bytes \<times> bytes \<Rightarrow> ID \<Rightarrow> KemRow list \<Rightarrow> pqc_error option \<times> KemRow list" where
  "Rotate gen t rows = (case gen of
     Inl e \<Rightarrow> (Some (KeyGen e), rows)
   | Inr (ek, dk) \<Rightarrow>
       (if kem_row rows t = None then Some ErrNoKeypair else None,
        map (\<lambda>r. if kem_tenant r = t
               then r\<lparr>kem_algorithm := AlgorithmMLKEM768, kem_public := ek, kem_secret := dk\<rparr> else r) rows))"

section \<open>Both ends derive the same key\<close>

text \<open>
  What FIPS 203 promises of a key pair: decapsulation recovers the encapsulated secret, and the sizes
  of ML-KEM-768.
\<close>

definition kem_pair :: "crypto \<Rightarrow> bytes \<Rightarrow> bytes \<Rightarrow> bool" where
  "kem_pair c ek dk \<longleftrightarrow> length ek = EncapKeySize \<and> parse_encap c ek = None \<and> parse_decap c dk = None
     \<and> (\<forall>rnd ss ct. encap c ek rnd = (ss, ct) \<longrightarrow>
          length ct = CiphertextSize \<and> length ss = SharedSecretSize \<and> decap c dk ct = Inr ss)"

lemma EncapKey_Inr:
  "EncapKey rows t = Inr ek \<longleftrightarrow> (\<exists>r. kem_row rows t = Some r \<and> kem_algorithm r = AlgorithmMLKEM768
     \<and> kem_public r = ek \<and> length ek = EncapKeySize)"
  by (auto simp: EncapKey_def split: option.splits if_splits)

text \<open>
  The controller and a device of the tenant agree on the hybrid pre-shared key: what the controller
  decapsulates from the device's ciphertext is the device's secret, so the key it derives for a device
  and a classical key is the device's own, and the derivation fails only on a classical key of
  another size or in HKDF itself.
\<close>

theorem hybrid_psk_agreement:
  assumes "EncapKey rows t = Inr ek" "\<And>r. r \<in> set rows \<Longrightarrow> kem_pair c (kem_public r) (kem_secret r)"
    and "Encapsulate c ek rnd = Inr (ss, ct)"
  shows "DeriveShared c rows t ct = Inr ss
    \<and> (\<forall>psk dev. HybridPSK c psk ss dev = (if length psk \<noteq> 32 then Inl ClassicalLength
         else case hkdf c (psk @ ss) ''aidotvpn-pqc-v1'' dev of Inl e \<Rightarrow> Inl (HKDF e) | Inr k \<Rightarrow> Inr k))"
proof -
  obtain r where r: "kem_row rows t = Some r" "kem_public r = ek"
    using assms(1) by (auto simp: EncapKey_Inr)
  then have p: "kem_pair c ek (kem_secret r)"
    using assms(2) [of r] by (auto simp: kem_row_def find_Some_iff)
  have "encap c ek rnd = (ss, ct)"
    using assms(3) by (auto simp: Encapsulate_def split: if_split_asm option.split_asm)
  with p have ct: "length ct = CiphertextSize" "length ss = SharedSecretSize" "decap c (kem_secret r) ct = Inr ss"
      "parse_decap c (kem_secret r) = None"
    by (auto simp: kem_pair_def)
  then show ?thesis using r(1) by (simp add: DeriveShared_def Decapsulate_def HybridPSK_def)
qed

section \<open>Concurrent first use\<close>

text \<open>
  Any number of callers of \<open>EnsureKeypair\<close> for a tenant, statement by statement: \<open>waiting\<close> of them have
  read that there is no pair and hold a generated one. Other tenants' rows come and go in between.
\<close>

inductive ensuring :: "ID \<Rightarrow> KemRow list \<Rightarrow> nat \<Rightarrow> (pqc_error + bytes) list \<Rightarrow> bool" for t where
  start: "ensuring t [] 0 []"
| answered: "ensuring t rows waiting ans \<Longrightarrow> ensure_read rows t = Some r \<Longrightarrow> ensuring t rows waiting (r # ans)"
| missing: "ensuring t rows waiting ans \<Longrightarrow> ensure_read rows t = None \<Longrightarrow> ensuring t rows (Suc waiting) ans"
| inserted: "ensuring t rows (Suc waiting) ans \<Longrightarrow> (\<And>ek dk. gen = Inr (ek, dk) \<Longrightarrow> length ek = EncapKeySize) \<Longrightarrow>
    ensure_insert gen t rows = (r, rows') \<Longrightarrow> ensuring t rows' waiting (r # ans)"
| other: "ensuring t rows waiting ans \<Longrightarrow> u \<noteq> t \<Longrightarrow> ensure_insert gen u rows = (r, rows') \<Longrightarrow>
    ensuring t rows' waiting ans"

lemma kem_row_snoc:
  "kem_row (rows @ [r]) t = (case kem_row rows t of Some q \<Rightarrow> Some q | None \<Rightarrow> if kem_tenant r = t then Some r else None)"
  by (induction rows) (simp_all add: kem_row_def)

lemma ensure_insert_cases:
  assumes "ensure_insert gen t rows = (r, rows')"
  obtains "rows' = rows" "r = EncapKey rows t \<or> (\<exists>e. r = Inl e)"
  | ek dk where "gen = Inr (ek, dk)" "kem_row rows t = None" "r = Inr ek"
      "rows' = rows @ [\<lparr>kem_tenant = t, kem_algorithm = AlgorithmMLKEM768, kem_public = ek, kem_secret = dk\<rparr>]"
  using assms by (cases "EncapKey rows t") (auto simp: ensure_insert_def split: sum.split_asm prod.split_asm if_split_asm)

lemma ensure_read_Some: "ensure_read rows t = Some r \<Longrightarrow> EncapKey rows t = r"
  by (cases "EncapKey rows t") (auto simp: ensure_read_def split: pqc_error.split_asm)

lemma other_insert:
  assumes "ensure_insert gen u rows = (r, rows')" "u \<noteq> t"
  shows "kem_row rows' t = kem_row rows t"
  using assms(1) by (cases rule: ensure_insert_cases) (use assms(2) in \<open>auto simp: kem_row_snoc split: option.split\<close>)

lemma ensuring_answers: "ensuring t rows waiting ans \<Longrightarrow> Inr k \<in> set ans \<Longrightarrow> EncapKey rows t = Inr k"
proof (induction arbitrary: k rule: ensuring.induct)
  case (answered rows waiting ans r)
  with ensure_read_Some [OF answered.hyps(2)] show ?case by auto
next
  case (inserted rows waiting ans gen r rows')
  from inserted.hyps(3) show ?case
  proof (cases rule: ensure_insert_cases)
    case 1
    with inserted.IH inserted.prems show ?thesis by auto
  next
    case (2 ek dk)
    have "Inr k' \<notin> set ans" for k' using inserted.IH [of k'] 2(2) by (auto simp: EncapKey_Inr)
    with inserted.prems 2(3) have "k = ek" by auto
    with 2 inserted.hyps(2) show ?thesis by (auto simp: EncapKey_Inr kem_row_snoc)
  qed
next
  case (other rows waiting ans u gen r rows')
  with other_insert [OF other.hyps(3,2)] show ?case by (simp add: EncapKey_def)
qed simp_all

text \<open>
  All callers that race to create a tenant's key pair end with one and the same public key, the
  stored one: nobody is handed a key whose secret half was lost.
\<close>

theorem one_tenant_keypair:
  assumes "ensuring t rows waiting ans" "Inr k \<in> set ans" "Inr k' \<in> set ans"
  shows "k = k' \<and> EncapKey rows t = Inr k"
  using ensuring_answers [OF assms(1,2)] ensuring_answers [OF assms(1,3)] by simp

section \<open>A toy primitive and a race\<close>

definition toy :: crypto where
  "toy = \<lparr>parse_decap = (\<lambda>k. None), decap = (\<lambda>k ct. Inr (take 32 ct)), parse_encap = (\<lambda>k. None),
     encap = (\<lambda>k rnd. (take 32 (rnd @ replicate 32 0), take 32 (rnd @ replicate 32 0) @ replicate 1056 0)),
     hkdf = (\<lambda>ikm salt info. Inr (take 32 ikm))\<rparr>"

lemma toy_pair: "length ek = EncapKeySize \<Longrightarrow> kem_pair toy ek dk"
  by (simp add: kem_pair_def toy_def CiphertextSize_def SharedSecretSize_def min_def)

theorem hybrid_psk_agreement_witness:
  "\<exists>ss ct. Encapsulate toy (replicate 1184 5) [1] = Inr (ss, ct) \<and>
     DeriveShared toy [\<lparr>kem_tenant = Zero, kem_algorithm = ''ml-kem-768'', kem_public = replicate 1184 5, kem_secret = []\<rparr>]
       Zero ct = Inr ss"
proof -
  let ?rows = "[\<lparr>kem_tenant = Zero, kem_algorithm = ''ml-kem-768'', kem_public = replicate 1184 5, kem_secret = []\<rparr>]"
  have k: "EncapKey ?rows Zero = Inr (replicate 1184 5)"
    by (simp add: EncapKey_def kem_row_def AlgorithmMLKEM768_def EncapKeySize_def)
  have p: "\<And>r. r \<in> set ?rows \<Longrightarrow> kem_pair toy (kem_public r) (kem_secret r)"
    by (simp add: toy_pair EncapKeySize_def)
  obtain ss ct where e: "Encapsulate toy (replicate 1184 5) [1] = Inr (ss, ct)"
    by (simp add: Encapsulate_def EncapKeySize_def toy_def)
  with hybrid_psk_agreement [OF k p e] show ?thesis by blast
qed

lemma demo_race:
  "\<exists>rows ans. ensuring Zero rows 0 ans \<and> ans = [Inr (replicate 1184 1), Inr (replicate 1184 1)]"
proof -
  let ?row = "\<lparr>kem_tenant = Zero, kem_algorithm = AlgorithmMLKEM768, kem_public = replicate 1184 1, kem_secret = []\<rparr>"
  have n: "ensure_read [] Zero = None" by (simp add: ensure_read_def EncapKey_def kem_row_def)
  have two: "ensuring Zero [] (Suc (Suc 0)) []"
    by (intro ensuring.missing ensuring.start n)
  have one: "ensuring Zero [?row] (Suc 0) [Inr (replicate 1184 1)]"
    by (rule ensuring.inserted [OF two, where gen = "Inr (replicate 1184 1, [])"])
      (simp_all add: ensure_insert_def kem_row_def EncapKeySize_def)
  have "ensuring Zero [?row] 0 [Inr (replicate 1184 1), Inr (replicate 1184 1)]"
    by (rule ensuring.inserted [OF one, where gen = "Inr (replicate 1184 2, [])"])
      (simp_all add: ensure_insert_def kem_row_def EncapKey_def EncapKeySize_def)
  then show ?thesis by blast
qed

theorem one_tenant_keypair_witness:
  "\<exists>rows. ensuring Zero rows 0 [Inr (replicate 1184 1), Inr (replicate 1184 1)] \<and> EncapKey rows Zero = Inr (replicate 1184 1)"
proof -
  obtain rows where r: "ensuring Zero rows 0 [Inr (replicate 1184 1), Inr (replicate 1184 1)]" using demo_race by blast
  from one_tenant_keypair [OF r, of "replicate 1184 1" "replicate 1184 1"] r show ?thesis by auto
qed

end
