(* ===== verification/DeviceRepo.thy ===== *)
theory DeviceRepo
  imports Tables Gates IPAlloc Certs Pqc "HOL-Library.AList"
begin

text \<open>
  The statements of the device repository (\<open>devices/repo.go\<close>, \<open>devices/certs.go\<close>,
  \<open>devices/state_token.go\<close>, \<open>recordAttestation\<close>) over one record of tables.  A statement either
  fails on a unique key, which the callers answer by rolling back, or returns the changed tables;
  UPDATE reports the rows it changed, as MariaDB does unless told otherwise.
\<close>

section \<open>Tables\<close>

record CertRow =
  c_id :: ID
  c_device :: ID
  c_serial :: bytes
  c_fingerprint :: bytes
  c_not_before :: time
  c_not_after :: time
  c_revoked :: "time option"
  c_reason :: "string option"

record AttRow = \<comment> \<open>\<open>attestation_records\<close>; the JSON payload is the two outcomes\<close>
  a_id :: ID
  a_device :: ID
  a_source :: string
  a_verdict :: string
  a_payload :: "AttestationOutcome \<times> PlayIntegrityOutcome"
  a_notes :: "string option"
  a_fingerprint :: "bytes option"
  a_integrity :: "string option"
  a_level :: "string option"

record DB =
  devices :: "Device list"
  dkeys :: "DeviceKey list"
  psks :: "PSKRow list"
  certs :: "CertRow list"
  attestations :: "AttRow list"
  state_tokens :: "(ID \<times> bytes) list"
  tenants :: "Tenant list"

datatype dev_error =
    NotFound | Duplicate string | Missing string
  | BadPool string | Alloc alloc_error | Gate gate_error
  | BadParam string | RevokedDevice | NoEntropy | NoKEM | KEMFailed pqc_error | HybridFailed pqc_error
  | CSRBlock | CSRParse string | CAFailed ca_error

section \<open>Scanning\<close>

text \<open>The columns the SELECTs leave out keep the zero value in the struct.\<close>

definition scanDevice :: "Device \<Rightarrow> Device" where
  "scanDevice d = d\<lparr>d_model := [], d_os_sdk := 0, d_policy := None, d_group := None, d_access_expires := None, d_deleted := None\<rparr>"

record KeyStruct =
  ks_id :: ID
  ks_device :: ID
  ks_public :: bytes
  ks_ipv4 :: addr
  ks_ipv6 :: addr
  ks_activated :: time
  ks_expires :: "time option"
  ks_revoked :: "time option"

definition scan_ip :: "nat \<Rightarrow> bytes option \<Rightarrow> addr" where
  "scan_ip n b = (case b of
     None \<Rightarrow> NoAddr
   | Some bs \<Rightarrow> if length bs = n then (case IPFromBytes bs of Inl _ \<Rightarrow> NoAddr | Inr a \<Rightarrow> a) else NoAddr)"

definition scanDeviceKey :: "DeviceKey \<Rightarrow> KeyStruct" where
  "scanDeviceKey k = \<lparr>ks_id = k_id k, ks_device = k_device k, ks_public = k_public k,
     ks_ipv4 = scan_ip 4 (k_ipv4 k), ks_ipv6 = scan_ip 16 (k_ipv6 k), ks_activated = k_activated k,
     ks_expires = k_expires k, ks_revoked = k_revoked k\<rparr>"

section \<open>Devices\<close>

definition findDeviceByInstall :: "DB \<Rightarrow> ID \<Rightarrow> string \<Rightarrow> Device option" where
  "findDeviceByInstall db userID installID =
     map_option scanDevice (find (\<lambda>d. d_user d = userID \<and> d_install d = installID) (devices db))"

definition findDeviceByID :: "DB \<Rightarrow> ID \<Rightarrow> Device option" where
  "findDeviceByID db i = map_option scanDevice (live_device (devices db) i)"

definition newest_first :: "Device list \<Rightarrow> Device list" where
  "newest_first ds = sort_key (\<lambda>d. - d_created d) ds"

definition listDevicesByTenant :: "DB \<Rightarrow> ID \<Rightarrow> Device list" where
  "listDevicesByTenant db tenantID =
     map scanDevice (newest_first (filter (\<lambda>d. d_tenant d = tenantID \<and> d_deleted d = None) (devices db)))"

definition listDevicesByUser :: "DB \<Rightarrow> ID \<Rightarrow> Device list" where
  "listDevicesByUser db userID =
     map scanDevice (newest_first (filter (\<lambda>d. d_user d = userID \<and> d_deleted d = None) (devices db)))"

text \<open>An UPDATE of the devices by identifier.\<close>

definition set_device :: "ID \<Rightarrow> (Device \<Rightarrow> Device) \<Rightarrow> DB \<Rightarrow> DB" where
  "set_device i f db = db\<lparr>devices := map (\<lambda>d. if d_id d = i then f d else d) (devices db)\<rparr>"

definition reactivateDevice :: "ID \<Rightarrow> DB \<Rightarrow> DB" where
  "reactivateDevice i = set_device i (\<lambda>d. d\<lparr>d_deleted := None, d_status := StatusActive, d_policy := None\<rparr>)"

definition insertDevice :: "ID \<Rightarrow> time \<Rightarrow> Device \<Rightarrow> DB \<Rightarrow> dev_error + Device \<times> DB" where
  "insertDevice newID clock d0 db =
     (let d1 = (if IsZero (d_id d0) then d0\<lparr>d_id := newID\<rparr> else d0);
          d = (if d_created d1 = zero_time then d1\<lparr>d_created := clock\<rparr> else d1)
      in if \<exists>r \<in> set (devices db). d_id r = d_id d \<or> (d_user r = d_user d \<and> d_install r = d_install d)
         then Inl (Duplicate ''devices'')
         else Inr (d, db\<lparr>devices := devices db @ [d\<lparr>d_last_seen := None, d_filter_mode := AppFilterOff,
                d_filter_packages := [], d_policy := None, d_group := None, d_access_expires := None, d_deleted := None\<rparr>]\<rparr>))"

definition updateDeviceStatus :: "ID \<Rightarrow> Status \<Rightarrow> time \<Rightarrow> DB \<Rightarrow> dev_error option \<times> DB" where
  "updateDeviceStatus i st dbnow db =
     (let hit = (\<lambda>d. d_id d = i \<and> d_deleted d = None) in
      (if \<exists>d \<in> set (devices db). hit d \<and> (d_status d \<noteq> st \<or> d_last_seen d \<noteq> Some dbnow) then None else Some NotFound,
       db\<lparr>devices := map (\<lambda>d. if hit d then d\<lparr>d_status := st, d_last_seen := Some dbnow\<rparr> else d) (devices db)\<rparr>))"

definition updateAppFilter :: "ID \<Rightarrow> AppFilterMode \<Rightarrow> string list \<Rightarrow> DB \<Rightarrow> dev_error option \<times> DB" where
  "updateAppFilter i mode packages db =
     (let hit = (\<lambda>d. d_id d = i \<and> d_deleted d = None) in
      (if \<exists>d \<in> set (devices db). hit d \<and> (d_filter_mode d \<noteq> mode \<or> d_filter_packages d \<noteq> packages)
       then None else Some NotFound,
       db\<lparr>devices := map (\<lambda>d. if hit d then d\<lparr>d_filter_mode := mode, d_filter_packages := packages\<rparr> else d)
            (devices db)\<rparr>))"

definition softDeleteDevice :: "ID \<Rightarrow> time \<Rightarrow> DB \<Rightarrow> DB" where
  "softDeleteDevice i dbnow =
     set_device i (\<lambda>d. if d_deleted d = None then d\<lparr>d_status := StatusRevoked, d_deleted := Some dbnow\<rparr> else d)"

section \<open>Keys and pre-shared keys\<close>

definition insertDeviceKey :: "ID \<Rightarrow> time \<Rightarrow> KeyStruct \<Rightarrow> DB \<Rightarrow> dev_error + KeyStruct \<times> DB" where
  "insertDeviceKey newID clock k0 db =
     (let k1 = (if IsZero (ks_id k0) then k0\<lparr>ks_id := newID\<rparr> else k0);
          k = (if ks_activated k1 = zero_time then k1\<lparr>ks_activated := clock\<rparr> else k1)
      in if \<exists>r \<in> set (dkeys db). k_id r = ks_id k \<or> k_public r = ks_public k then Inl (Duplicate ''device_keys'')
         else Inr (k, db\<lparr>dkeys := dkeys db @ [\<lparr>k_id = ks_id k, k_device = ks_device k, k_public = ks_public k,
                k_ipv4 = IPToBytes (ks_ipv4 k), k_ipv6 = IPToBytes (ks_ipv6 k),
                k_activated = ks_activated k, k_expires = ks_expires k, k_revoked = None\<rparr>]\<rparr>))"

definition revokeAllKeys :: "ID \<Rightarrow> time \<Rightarrow> DB \<Rightarrow> DB" where
  "revokeAllKeys i dbnow db =
     db\<lparr>dkeys := map (\<lambda>k. if k_device k = i \<and> k_revoked k = None then k\<lparr>k_revoked := Some dbnow\<rparr> else k) (dkeys db)\<rparr>"

definition findActiveKey :: "DB \<Rightarrow> ID \<Rightarrow> KeyStruct option" where
  "findActiveKey db i =
     (case sort_key (\<lambda>k. - k_activated k) (filter (\<lambda>k. k_device k = i \<and> k_revoked k = None) (dkeys db)) of
        [] \<Rightarrow> None | k # _ \<Rightarrow> Some (scanDeviceKey k))"

definition insertPSK :: "ID \<Rightarrow> time \<Rightarrow> PSKRow \<Rightarrow> DB \<Rightarrow> dev_error + PSKRow \<times> DB" where
  "insertPSK newID clock p0 db =
     (let p1 = (if IsZero (p_id p0) then p0\<lparr>p_id := newID\<rparr> else p0);
          p = (if p_activated p1 = zero_time then p1\<lparr>p_activated := clock\<rparr> else p1)
      in if \<exists>r \<in> set (psks db). p_id r = p_id p then Inl (Duplicate ''device_psks'')
         else Inr (p, db\<lparr>psks := psks db @ [p]\<rparr>))"

section \<open>Tenants\<close>

record TenantStruct =
  tn_id :: ID
  IPv4Pool :: string
  IPv6Pool :: string

definition findTenant :: "DB \<Rightarrow> ID \<Rightarrow> TenantStruct option" where
  "findTenant db i = map_option (\<lambda>t.
     \<lparr>tn_id = t_id t,
      IPv4Pool = (if length (t_v4 t) = 4
        then join ''.'' (map (\<lambda>b. nat_str (unat b)) (t_v4 t)) @ ''/'' @ int_str (t_v4_bits t) else []),
      IPv6Pool = (case (t_v6 t, t_v6_bits t) of
        (Some b, Some n) \<Rightarrow> if length b = 16
            then addr_str (case IPFromBytes b of Inl _ \<Rightarrow> NoAddr | Inr a \<Rightarrow> a) @ ''/'' @ int_str n else []
      | _ \<Rightarrow> [])\<rparr>)
     (find (\<lambda>t. t_id t = i \<and> t_deleted t = None) (tenants db))"

section \<open>Certificates, evidence, state tokens\<close>

definition recordClientCert :: "ID \<Rightarrow> ID \<Rightarrow> IssuanceResult option \<Rightarrow> DB \<Rightarrow> dev_error + DB" where
  "recordClientCert newID deviceID res db = (case res of
     None \<Rightarrow> Inr db
   | Some r \<Rightarrow>
       if ir_serial r = [] \<or> ir_fingerprint r = [] then Inl (Missing ''serial or fingerprint'')
       else if \<exists>c \<in> set (certs db). c_id c = newID \<or> c_serial c = ir_serial r \<or> c_fingerprint c = ir_fingerprint r
         then Inl (Duplicate ''client_certs'')
       else Inr (db\<lparr>certs := certs db @ [\<lparr>c_id = newID, c_device = deviceID, c_serial = ir_serial r,
              c_fingerprint = ir_fingerprint r, c_not_before = ir_not_before r, c_not_after = ir_not_after r,
              c_revoked = None, c_reason = None\<rparr>]\<rparr>))"

definition revocation_reason :: "string \<Rightarrow> string" where
  "revocation_reason r = take 128 (if r = [] then ''unspecified'' else r)"

definition revokeClientCerts :: "ID \<Rightarrow> string \<Rightarrow> time \<Rightarrow> DB \<Rightarrow> DB" where
  "revokeClientCerts i why dbnow db =
     db\<lparr>certs := map (\<lambda>c. if c_device c = i \<and> c_revoked c = None
        then c\<lparr>c_revoked := Some dbnow, c_reason := Some (revocation_reason why)\<rparr> else c) (certs db)\<rparr>"

definition ListClientCerts :: "DB \<Rightarrow> ID \<Rightarrow> CertRow list" where
  "ListClientCerts db i = sort_key (\<lambda>c. - c_not_before c) (filter (\<lambda>c. c_device c = i) (certs db))"

definition recordAttestation :: "ID \<Rightarrow> ID \<Rightarrow> AttestationOutcome \<Rightarrow> PlayIntegrityOutcome \<Rightarrow> DB \<Rightarrow> DB" where
  "recordAttestation newID deviceID att pi db =
     db\<lparr>attestations := attestations db @ [\<lparr>a_id = newID, a_device = deviceID,
       a_source = (if po_evaluated pi then ''play_integrity'' else ''none''),
       a_verdict = record_verdict att pi, a_payload = (att, pi),
       a_notes = nullIfEmpty (record_notes att pi), a_fingerprint = fingerprintBytes (ao_fingerprint att),
       a_integrity = nullIfEmpty (po_verdict pi), a_level = nullIfEmpty (ao_level att)\<rparr>]\<rparr>"

text \<open>\<open>INSERT ... ON DUPLICATE KEY UPDATE\<close>: one token hash per device.\<close>

definition issueStateToken :: "(bytes \<Rightarrow> string) \<Rightarrow> (string \<Rightarrow> bytes) \<Rightarrow> bytes option \<Rightarrow> ID \<Rightarrow> DB
    \<Rightarrow> dev_error + string \<times> DB" where
  "issueStateToken b64 sha entropy i db = (case entropy of
     None \<Rightarrow> Inl NoEntropy
   | Some raw \<Rightarrow> (let token = b64 raw in
       Inr (token, db\<lparr>state_tokens := AList.update i (sha token) (state_tokens db)\<rparr>)))"

end
