(* ===== verification/Devices.thy ===== *)
theory Devices
  imports DeviceRepo Enrollment
begin

text \<open>
  The device service (\<open>devices/service.go\<close>): registration, key rotation, revocation, the application
  filter and the listings.  A transaction is a function from tables to an error or the new tables;
  on an error the tables stay.  What an operation draws from clocks and random sources is in
  \<open>draws\<close>.
\<close>

section \<open>State and inputs\<close>

record Service =
  tenantID :: ID
  keyLifetime :: time
  attestation :: "AttestationGate option"
  playIntegrity :: "PlayIntegrityGate option"
  kem :: "KemRow list option"  \<comment> \<open>the store of tenant key pairs, when configured\<close>
  prims :: crypto
  authority :: CA
  CACertPEM :: bytes
  pem_decode :: "bytes \<Rightarrow> (string \<times> bytes) option"
  parse_csr :: "bytes \<Rightarrow> string + CSR"
  sha256 :: "string \<Rightarrow> bytes"
  raw_url_b64 :: "bytes \<Rightarrow> string"
  utf8 :: "string \<Rightarrow> bool"

record draws =
  dr_now :: time           \<comment> \<open>\<open>s.now()\<close>\<close>
  dr_clock :: time         \<comment> \<open>\<open>time.Now()\<close>\<close>
  dr_dbnow :: time         \<comment> \<open>\<open>NOW(6)\<close> of the server\<close>
  dr_device :: ID
  dr_record :: ID
  dr_key :: ID
  dr_psk :: ID
  dr_cert :: ID
  dr_psk_bytes :: "bytes option"
  dr_state :: "bytes option"
  dr_control_key :: "public_key option"
  dr_serial :: "128 word option"

definition NewService :: "Service \<Rightarrow> dev_error + Service" where
  "NewService s = (if IsZero (tenantID s) then Inl (Missing ''TenantID'')
     else Inr (if keyLifetime s \<le> 0 then s\<lparr>keyLifetime := 24 * hour\<rparr> else s))"

record Allocation =
  al_state_token :: string
  al_key :: KeyStruct
  al_psk :: PSKRow
  al_cert :: bytes
  al_cert_expires :: time
  al_ca :: bytes
  al_filter :: "AppFilterMode \<times> string list"

record RegisterParams =
  rp_tenant :: ID
  rp_user :: ID
  rp_install :: string
  rp_name :: string
  rp_platform :: string
  rp_os_version :: string
  rp_app_version :: string
  rp_model :: string
  rp_os_sdk :: int
  rp_public_key :: bytes
  rp_token :: string
  rp_chain :: bytes
  rp_mode :: string
  rp_host :: string
  rp_ciphertext :: bytes
  rp_csr :: bytes

record RotateKeyParams =
  ro_device :: ID
  ro_public_key :: bytes
  ro_ciphertext :: bytes
  ro_csr :: bytes

record audit_entry =
  au_tenant :: ID
  au_actor_kind :: string
  au_actor :: ID
  au_action :: string
  au_target :: ID

definition deployment_mode :: "string \<Rightarrow> DeploymentMode" where
  "deployment_mode m = (if m = ''embedded'' then DeploymentEmbedded else DeploymentStandalone)"

definition validateRegister :: "Service \<Rightarrow> RegisterParams \<Rightarrow> dev_error option" where
  "validateRegister s p =
     (if IsZero (rp_user p) then Some (BadParam ''UserID is zero'')
      else if \<not> validateInstallID (utf8 s) (rp_install p) then Some (BadParam ''install_id'')
      else if rp_name p = [] then Some (BadParam ''DisplayName is required'')
      else if length (rp_name p) > 128 then Some (BadParam ''DisplayName too long'')
      else if length (rp_public_key p) \<noteq> 32 then Some (BadParam ''DevicePublicKey must be 32 bytes'')
      else if rp_platform p \<notin> {''android'', ''ios'', ''linux'', ''macos'', ''windows'', ''other'', []}
        then Some (BadParam ''unknown platform'')
      else None)"

section \<open>Issuing\<close>

definition wrap :: "('a \<Rightarrow> 'e) \<Rightarrow> 'a + 'b \<Rightarrow> 'e + 'b" where
  "wrap f x = (case x of Inl e \<Rightarrow> Inl (f e) | Inr b \<Rightarrow> Inr b)"

lemma wrap_Inr [simp]: "wrap f x = Inr b \<longleftrightarrow> x = Inr b"
  by (cases x) (simp_all add: wrap_def)

definition issueClientCert :: "Service \<Rightarrow> draws \<Rightarrow> ID \<Rightarrow> bytes \<Rightarrow> dev_error + IssuanceResult" where
  "issueClientCert s d i csrPEM =
     (if csrPEM \<noteq> [] then
        (case pem_decode s csrPEM of
           None \<Rightarrow> Inl CSRBlock
         | Some (ty, blk) \<Rightarrow>
             if ty \<noteq> ''CERTIFICATE REQUEST'' then Inl CSRBlock
             else (case parse_csr s blk of
                Inl e \<Rightarrow> Inl (CSRParse e)
              | Inr c \<Rightarrow> wrap CAFailed (IssueFromCSR (authority s) (dr_serial d) (dr_clock d) i (Some c)
                    (dr_now d) (keyLifetime s))))
      else (case dr_control_key d of
         None \<Rightarrow> Inl NoEntropy
       | Some k \<Rightarrow> wrap CAFailed (Issue (authority s) (dr_serial d) (dr_clock d) i (Some k) (dr_now d) (keyLifetime s))))"

text \<open>The classical key, or the hybrid one when the device sent a ciphertext.\<close>

definition derive_psk :: "Service \<Rightarrow> draws \<Rightarrow> Device \<Rightarrow> bytes \<Rightarrow> dev_error + bytes \<times> PSKSource" where
  "derive_psk s d dev ct = (case dr_psk_bytes d of
     None \<Rightarrow> Inl NoEntropy
   | Some classical \<Rightarrow>
       if ct = [] then Inr (classical, PSKClassical)
       else (case kem s of
          None \<Rightarrow> Inl NoKEM
        | Some rows \<Rightarrow>
            and_then (wrap KEMFailed (DeriveShared (prims s) rows (d_tenant dev) ct)) (\<lambda>shared.
            and_then (wrap HybridFailed (HybridPSK (prims s) classical shared (Bytes (d_id dev)))) (\<lambda>hybrid.
              Inr (hybrid, PSKPQCHybrid)))))"

definition pick_v4 :: "DB \<Rightarrow> TenantStruct \<Rightarrow> addr \<Rightarrow> prefix \<Rightarrow> dev_error + addr" where
  "pick_v4 db tenant reserved pool =
     (if addr_valid reserved then Inr reserved
      else wrap Alloc (allocateIPv4 (used_ipv4 (devices db) (dkeys db) (tn_id tenant)) pool))"

definition pick_v6 :: "DB \<Rightarrow> TenantStruct \<Rightarrow> addr \<Rightarrow> dev_error + addr" where
  "pick_v6 db tenant reserved =
     (if IPv6Pool tenant = [] then Inr NoAddr
      else case parse_prefix (IPv6Pool tenant) of
        None \<Rightarrow> Inl (BadPool (IPv6Pool tenant))
      | Some pool \<Rightarrow>
          if addr_valid reserved then Inr reserved
          else wrap Alloc (allocateIPv6 (used_ipv6 (devices db) (dkeys db) (tn_id tenant)) pool))"

definition allocateAndIssueWithReserved :: "Service \<Rightarrow> draws \<Rightarrow> Device \<Rightarrow> bytes \<Rightarrow> TenantStruct \<Rightarrow> addr \<Rightarrow> addr
    \<Rightarrow> bytes \<Rightarrow> bytes \<Rightarrow> DB \<Rightarrow> dev_error + Allocation \<times> DB" where
  "allocateAndIssueWithReserved s d dev pub tenant r4 r6 csr ct db =
     (case parse_prefix (IPv4Pool tenant) of
        None \<Rightarrow> Inl (BadPool (IPv4Pool tenant))
      | Some pool4 \<Rightarrow>
         and_then (pick_v4 db tenant r4 pool4) (\<lambda>v4.
         and_then (pick_v6 db tenant r6) (\<lambda>v6.
         and_then (insertDeviceKey (dr_key d) (dr_clock d)
             \<lparr>ks_id = Zero, ks_device = d_id dev, ks_public = pub, ks_ipv4 = v4, ks_ipv6 = v6,
              ks_activated = dr_now d, ks_expires = Some (dr_now d + keyLifetime s), ks_revoked = None\<rparr> db) (\<lambda>(k, db1).
         and_then (derive_psk s d dev ct) (\<lambda>(pskBytes, source).
         and_then (insertPSK (dr_psk d) (dr_clock d)
             \<lparr>p_id = Zero, p_device_key = ks_id k, p_psk = pskBytes, p_source = source, p_activated = dr_now d,
              p_expires = Some (dr_now d + keyLifetime s), p_revoked = None\<rparr> db1) (\<lambda>(psk, db2).
         and_then (issueClientCert s d (d_id dev) csr) (\<lambda>cert.
         and_then (recordClientCert (dr_cert d) (d_id dev) (Some cert) db2) (\<lambda>db3.
           Inr (\<lparr>al_state_token = [], al_key = k, al_psk = psk, al_cert = ir_pem cert,
                 al_cert_expires = ir_not_after cert, al_ca = CACertPEM s,
                 al_filter = (AppFilterOff, [])\<rparr>, db3)))))))))"

definition allocateAndIssue :: "Service \<Rightarrow> draws \<Rightarrow> Device \<Rightarrow> bytes \<Rightarrow> TenantStruct \<Rightarrow> bytes \<Rightarrow> bytes \<Rightarrow> DB
    \<Rightarrow> dev_error + Allocation \<times> DB" where
  "allocateAndIssue s d dev pub tenant csr ct =
     allocateAndIssueWithReserved s d dev pub tenant NoAddr NoAddr csr ct"

section \<open>Registration\<close>

text \<open>The two gates, in the order the code runs them.\<close>

definition run_gates :: "Service \<Rightarrow> RegisterParams \<Rightarrow> dev_error + bool \<times> AttestationOutcome \<times> PlayIntegrityOutcome" where
  "run_gates s p =
     and_then (wrap Gate (runAttestationWithOutcome (attestation s) (rp_install p) (rp_tenant p) (rp_user p) (rp_chain p)))
       (\<lambda>(attested, att).
     and_then (wrap Gate (runPlayIntegrity (playIntegrity s) (rp_tenant p) (rp_user p) (rp_token p))) (\<lambda>pi.
       Inr (attested, att, pi)))"

definition register_new :: "Service \<Rightarrow> draws \<Rightarrow> RegisterParams \<Rightarrow> DB
    \<Rightarrow> dev_error + Device \<times> AttestationOutcome \<times> PlayIntegrityOutcome \<times> DB" where
  "register_new s d p db =
     and_then (run_gates s p) (\<lambda>(attested, att, pi).
     and_then (insertDevice (dr_device d) (dr_clock d)
        \<lparr>d_id = Zero, d_tenant = rp_tenant p, d_user = rp_user p, d_install = rp_install p, d_name = rp_name p,
         d_platform = rp_platform p, d_os_version = rp_os_version p, d_app_version = rp_app_version p,
         d_model = rp_model p, d_os_sdk = rp_os_sdk p,
         d_status = (if attested then StatusActive else StatusPendingAttest), d_last_seen = None,
         d_created = dr_now d, d_filter_mode = AppFilterOff, d_filter_packages = [],
         d_deployment = deployment_mode (rp_mode p), d_host_package = rp_host p,
         d_policy = None, d_group = None, d_access_expires = None, d_deleted = None\<rparr> db) (\<lambda>(dev, db').
       Inr (dev, att, pi, db')))"

definition refreshed :: "RegisterParams \<Rightarrow> Device \<Rightarrow> Device" where
  "refreshed p d = d\<lparr>d_name := rp_name p, d_platform := rp_platform p, d_os_version := rp_os_version p,
     d_app_version := rp_app_version p, d_model := rp_model p, d_os_sdk := rp_os_sdk p,
     d_deployment := deployment_mode (rp_mode p), d_host_package := rp_host p\<rparr>"

definition stale :: "RegisterParams \<Rightarrow> Device \<Rightarrow> bool" where
  "stale p dev \<longleftrightarrow> d_name dev \<noteq> rp_name p \<or> d_platform dev \<noteq> rp_platform p
     \<or> d_os_version dev \<noteq> rp_os_version p \<or> d_app_version dev \<noteq> rp_app_version p
     \<or> d_model dev \<noteq> rp_model p \<or> d_os_sdk dev \<noteq> rp_os_sdk p
     \<or> d_deployment dev \<noteq> deployment_mode (rp_mode p) \<or> d_host_package dev \<noteq> rp_host p"

definition register_existing :: "Service \<Rightarrow> draws \<Rightarrow> RegisterParams \<Rightarrow> Device \<Rightarrow> DB
    \<Rightarrow> dev_error + Device \<times> AttestationOutcome \<times> PlayIntegrityOutcome \<times> DB" where
  "register_existing s d p dev0 db =
     (let db1 = reactivateDevice (d_id dev0) db;
          dev1 = dev0\<lparr>d_status := StatusActive\<rparr>;
          db2 = revokeAllKeys (d_id dev1) (dr_dbnow d) db1
      in and_then (run_gates s p) (\<lambda>(attested, att, pi).
        let promote = (attested \<and> d_status dev1 = StatusPendingAttest);
            dev2 = (if promote then dev1\<lparr>d_status := StatusActive\<rparr> else dev1);
            db3 = (if promote then set_device (d_id dev1) (\<lambda>r. r\<lparr>d_status := StatusActive\<rparr>) db2 else db2)
        in Inr (if stale p dev2 then (refreshed p dev2, att, pi, set_device (d_id dev2) (refreshed p) db3)
                else (dev2, att, pi, db3))))"

definition register_tx :: "Service \<Rightarrow> draws \<Rightarrow> RegisterParams \<Rightarrow> TenantStruct \<Rightarrow> DB \<Rightarrow> dev_error + (Device \<times> Allocation) \<times> DB" where
  "register_tx s d p tenant db =
     and_then (case findDeviceByInstall db (rp_user p) (rp_install p) of
         None \<Rightarrow> register_new s d p db
       | Some dev \<Rightarrow> register_existing s d p dev db) (\<lambda>(dev, att, pi, db1).
     let db2 = recordAttestation (dr_record d) (d_id dev) att pi db1 in
     and_then (allocateAndIssue s d dev (rp_public_key p) tenant (rp_csr p) (rp_ciphertext p) db2) (\<lambda>(alloc, db3).
     and_then (issueStateToken (raw_url_b64 s) (sha256 s) (dr_state d) (d_id dev) db3) (\<lambda>(token, db4).
       Inr ((dev, alloc\<lparr>al_state_token := token, al_filter := (d_filter_mode dev, d_filter_packages dev)\<rparr>), db4))))"

definition Register :: "Service \<Rightarrow> draws \<Rightarrow> RegisterParams \<Rightarrow> DB \<Rightarrow> (dev_error + Device \<times> Allocation) \<times> DB \<times> audit_entry list" where
  "Register s d p0 db = (case validateRegister s p0 of
     Some e \<Rightarrow> (Inl e, db, [])
   | None \<Rightarrow>
      (let p = (if IsZero (rp_tenant p0) then p0\<lparr>rp_tenant := tenantID s\<rparr> else p0) in
       case findTenant db (rp_tenant p) of
         None \<Rightarrow> (Inl NotFound, db, [])
       | Some tenant \<Rightarrow> (case register_tx s d p tenant db of
           Inl e \<Rightarrow> (Inl e, db, [])
         | Inr ((dev, alloc), db') \<Rightarrow> (Inr (dev, alloc), db',
             [\<lparr>au_tenant = rp_tenant p, au_actor_kind = ''user'', au_actor = rp_user p,
               au_action = ''device.register'', au_target = d_id dev\<rparr>]))))"

section \<open>Rotation and revocation\<close>

definition rotate_tx :: "Service \<Rightarrow> draws \<Rightarrow> RotateKeyParams \<Rightarrow> Device \<Rightarrow> TenantStruct \<Rightarrow> DB \<Rightarrow> dev_error + Allocation \<times> DB" where
  "rotate_tx s d p dev tenant db =
     (let old = findActiveKey db (d_id dev);
          v4 = (case old of None \<Rightarrow> NoAddr | Some k \<Rightarrow> ks_ipv4 k);
          v6 = (case old of None \<Rightarrow> NoAddr | Some k \<Rightarrow> ks_ipv6 k);
          db1 = revokeAllKeys (d_id dev) (dr_dbnow d) db
      in and_then (allocateAndIssueWithReserved s d dev (ro_public_key p) tenant v4 v6 (ro_csr p) (ro_ciphertext p) db1)
        (\<lambda>(a, db2). Inr (a\<lparr>al_filter := (d_filter_mode dev, d_filter_packages dev)\<rparr>, db2)))"

definition RotateKey :: "Service \<Rightarrow> draws \<Rightarrow> RotateKeyParams \<Rightarrow> DB \<Rightarrow> (dev_error + Allocation) \<times> DB \<times> audit_entry list" where
  "RotateKey s d p db =
     (if IsZero (ro_device p) then (Inl (BadParam ''DeviceID is zero''), db, [])
      else if length (ro_public_key p) \<noteq> 32 then (Inl (BadParam ''NewDevicePublicKey must be 32 bytes''), db, [])
      else case findDeviceByID db (ro_device p) of
        None \<Rightarrow> (Inl NotFound, db, [])
      | Some dev \<Rightarrow>
          if d_status dev = StatusRevoked then (Inl RevokedDevice, db, [])
          else (case findTenant db (d_tenant dev) of
             None \<Rightarrow> (Inl NotFound, db, [])
           | Some tenant \<Rightarrow> (case rotate_tx s d p dev tenant db of
               Inl e \<Rightarrow> (Inl e, db, [])
             | Inr (a, db') \<Rightarrow> (Inr a, db',
                 [\<lparr>au_tenant = d_tenant dev, au_actor_kind = ''device'', au_actor = d_id dev,
                   au_action = ''device.rotate_key'', au_target = d_id dev\<rparr>]))))"

definition Revoke :: "time \<Rightarrow> ID \<Rightarrow> ID \<Rightarrow> string \<Rightarrow> DB \<Rightarrow> dev_error option \<times> DB \<times> audit_entry list" where
  "Revoke dbnow i actor why db =
     (if IsZero i then (Some (BadParam ''deviceID is zero''), db, [])
      else case findDeviceByID db i of
        None \<Rightarrow> (Some NotFound, db, [])
      | Some dev \<Rightarrow> (None, softDeleteDevice i dbnow (revokeClientCerts i why dbnow (revokeAllKeys i dbnow db)),
          [\<lparr>au_tenant = d_tenant dev, au_actor_kind = ''user'', au_actor = actor,
            au_action = ''device.revoke'', au_target = i\<rparr>]))"

section \<open>The application filter and the listings\<close>

definition package_char :: "char \<Rightarrow> bool" where
  "package_char c \<longleftrightarrow> is_lower c \<or> is_upper c \<or> is_digit c \<or> c = CHR ''.'' \<or> c = CHR ''_''"

definition validatePackageName :: "string \<Rightarrow> dev_error option" where
  "validatePackageName p =
     (if p = [] \<or> length p > 255 then Some (BadParam ''package length'')
      else if CHR ''.'' \<notin> set p then Some (BadParam ''package without a dot'')
      else if \<not> list_all package_char p then Some (BadParam ''package character'')
      else None)"

fun clean_packages :: "string list \<Rightarrow> string list \<Rightarrow> dev_error + string list" where
  "clean_packages clean [] = Inr clean"
| "clean_packages clean (raw # rest) =
     (let p = trim_space raw in
      if p = [] then clean_packages clean rest
      else case validatePackageName p of
        Some e \<Rightarrow> Inl e
      | None \<Rightarrow> clean_packages (if p \<in> set clean then clean else clean @ [p]) rest)"

definition filter_mode :: "string \<Rightarrow> AppFilterMode option" where
  "filter_mode m = (if m = ''off'' then Some AppFilterOff else if m = ''include'' then Some AppFilterInclude
     else if m = ''exclude'' then Some AppFilterExclude else None)"

definition UpdateAppFilter :: "ID \<Rightarrow> ID \<Rightarrow> string \<Rightarrow> string list \<Rightarrow> DB \<Rightarrow> dev_error option \<times> DB \<times> audit_entry list" where
  "UpdateAppFilter i actor mode packages db =
     (if IsZero i then (Some (BadParam ''deviceID is zero''), db, [])
      else case filter_mode mode of
        None \<Rightarrow> (Some (BadParam ''invalid mode''), db, [])
      | Some m \<Rightarrow> (case (if m = AppFilterOff then Inr [] else clean_packages [] packages) of
          Inl e \<Rightarrow> (Some e, db, [])
        | Inr clean \<Rightarrow> (case findDeviceByID db i of
            None \<Rightarrow> (Some NotFound, db, [])
          | Some dev \<Rightarrow> (case updateAppFilter i m clean db of
              (Some e, db') \<Rightarrow> (Some e, db', [])
            | (None, db') \<Rightarrow> (None, db',
                [\<lparr>au_tenant = d_tenant dev, au_actor_kind = ''user'', au_actor = actor,
                  au_action = ''device.app_filter.update'', au_target = i\<rparr>])))))"

definition ListMyDevices :: "ID \<Rightarrow> DB \<Rightarrow> dev_error + Device list" where
  "ListMyDevices userID db = (if IsZero userID then Inl (BadParam ''userID is zero'') else Inr (listDevicesByUser db userID))"

definition ListTenantDevices :: "ID \<Rightarrow> DB \<Rightarrow> dev_error + Device list" where
  "ListTenantDevices t db = (if IsZero t then Inl (BadParam ''tenantID is zero'') else Inr (listDevicesByTenant db t))"

definition Get :: "ID \<Rightarrow> DB \<Rightarrow> dev_error + Device" where
  "Get i db = (case findDeviceByID db i of None \<Rightarrow> Inl NotFound | Some d \<Rightarrow> Inr d)"

end
