(* ===== verification/DeviceInv.thy ===== *)
theory DeviceInv
  imports Devices
begin

text \<open>
  What every history of the device service keeps (\<open>devices/service.go\<close>): one live key per device,
  none for a revoked device, and no tunnel address twice among the live keys of a tenant; and what
  one operation guarantees.  The tables change by four moves, each with its preservation lemma.
\<close>

section \<open>The invariant\<close>

definition live :: "DeviceKey \<Rightarrow> bool" where "live k \<longleftrightarrow> k_revoked k = None"

definition same_tenant :: "Device list \<Rightarrow> DeviceKey \<Rightarrow> DeviceKey \<Rightarrow> bool" where
  "same_tenant ds k k' \<longleftrightarrow> (\<exists>d \<in> set ds. \<exists>d' \<in> set ds. d_id d = k_device k \<and> d_id d' = k_device k' \<and> d_tenant d = d_tenant d')"

text \<open>No two live keys of a tenant hold the same address of \<open>n\<close> bytes in the column \<open>f\<close>.\<close>

definition addr_unique :: "(DeviceKey \<Rightarrow> bytes option) \<Rightarrow> nat \<Rightarrow> Device list \<Rightarrow> DeviceKey list \<Rightarrow> bool" where
  "addr_unique f n ds ks \<longleftrightarrow> (\<forall>k \<in> set ks. \<forall>k' \<in> set ks. \<forall>b. live k \<and> live k' \<and> same_tenant ds k k'
     \<and> f k = Some b \<and> f k' = Some b \<and> length b = n \<longrightarrow> k = k')"

definition rows_ok :: "(ID \<Rightarrow> ID) \<Rightarrow> Device list \<Rightarrow> DeviceKey list \<Rightarrow> bool" where
  "rows_ok home ds ks \<longleftrightarrow> distinct (map d_id ds) \<and> distinct (map (\<lambda>d. (d_user d, d_install d)) ds)
     \<and> (\<forall>d \<in> set ds. d_tenant d = home (d_user d))
     \<and> distinct (map k_id ks) \<and> (\<forall>k \<in> set ks. k_device k \<in> d_id ` set ds)"

definition live_ok :: "Device list \<Rightarrow> DeviceKey list \<Rightarrow> bool" where
  "live_ok ds ks \<longleftrightarrow>
     (\<forall>k \<in> set ks. \<forall>k' \<in> set ks. live k \<and> live k' \<and> k_device k = k_device k' \<longrightarrow> k = k')
     \<and> (\<forall>k \<in> set ks. \<forall>d \<in> set ds. live k \<and> d_id d = k_device k \<longrightarrow> d_deleted d = None)"

definition dev_inv :: "(ID \<Rightarrow> ID) \<Rightarrow> Device list \<Rightarrow> DeviceKey list \<Rightarrow> bool" where
  "dev_inv home ds ks \<longleftrightarrow> rows_ok home ds ks \<and> live_ok ds ks
     \<and> addr_unique k_ipv4 4 ds ks \<and> addr_unique k_ipv6 16 ds ks"

lemmas dev_inv_defs = dev_inv_def rows_ok_def live_ok_def

section \<open>The four moves\<close>

text \<open>An UPDATE of devices that keeps their identity and undeletes rather than deletes.\<close>

definition same_row :: "Device \<Rightarrow> Device \<Rightarrow> bool" where
  "same_row d d' \<longleftrightarrow> d_id d' = d_id d \<and> d_user d' = d_user d \<and> d_install d' = d_install d \<and> d_tenant d' = d_tenant d"

lemma same_tenant_map:
  assumes "\<And>d. same_row d (f d)"
  shows "same_tenant (map f ds) = same_tenant ds"
  using assms by (intro ext) (simp add: same_tenant_def same_row_def)

lemma inv_map_devices:
  assumes "dev_inv home ds ks" "\<And>d. same_row d (f d)"
    and del: "\<And>d k. d \<in> set ds \<Longrightarrow> k \<in> set ks \<Longrightarrow> live k \<Longrightarrow> k_device k = d_id d \<Longrightarrow> d_deleted d = None \<Longrightarrow> d_deleted (f d) = None"
  shows "dev_inv home (map f ds) ks"
proof -
  have s: "d_id (f d) = d_id d" "d_user (f d) = d_user d" "d_install (f d) = d_install d" "d_tenant (f d) = d_tenant d" for d
    using assms(2) [of d] by (simp_all add: same_row_def)
  have "rows_ok home (map f ds) ks" using assms(1) by (simp add: dev_inv_def rows_ok_def s comp_def image_image)
  moreover have "live_ok (map f ds) ks"
    using assms(1) del unfolding dev_inv_def live_ok_def by (simp add: s)
  ultimately show ?thesis
    using assms(1) by (simp add: dev_inv_def addr_unique_def same_tenant_map [OF assms(2)])
qed

text \<open>Revoking keys.\<close>

definition revoked_at :: "ID \<Rightarrow> time \<Rightarrow> DeviceKey \<Rightarrow> DeviceKey" where
  "revoked_at i t k = (if k_device k = i \<and> k_revoked k = None then k\<lparr>k_revoked := Some t\<rparr> else k)"

lemma revokeAllKeys_sel [simp]:
  "devices (revokeAllKeys i t db) = devices db" "dkeys (revokeAllKeys i t db) = map (revoked_at i t) (dkeys db)"
  "certs (revokeAllKeys i t db) = certs db" "tenants (revokeAllKeys i t db) = tenants db"
  by (simp_all add: revokeAllKeys_def revoked_at_def [abs_def])

lemma revoked_at_sel [simp]:
  "k_id (revoked_at i t k) = k_id k" "k_device (revoked_at i t k) = k_device k"
  "k_ipv4 (revoked_at i t k) = k_ipv4 k" "k_ipv6 (revoked_at i t k) = k_ipv6 k"
  "k_public (revoked_at i t k) = k_public k"
  by (simp_all add: revoked_at_def)

lemma live_revoked_at: "live (revoked_at i t k) \<longleftrightarrow> live k \<and> k_device k \<noteq> i"
  by (auto simp: revoked_at_def live_def)

lemma revoked_at_id: "live (revoked_at i t k) \<Longrightarrow> revoked_at i t k = k"
  by (auto simp: revoked_at_def live_def)

lemma inv_revoke:
  assumes "dev_inv home ds ks"
  shows "dev_inv home ds (map (revoked_at i t) ks)"
proof -
  have old: "k \<in> set ks" if "k \<in> set (map (revoked_at i t) ks)" "live k" for k
    using that revoked_at_id by (metis (no_types, lifting) imageE set_map)
  have "rows_ok home ds (map (revoked_at i t) ks)"
    using assms by (simp add: dev_inv_def rows_ok_def comp_def)
  with assms old show ?thesis unfolding dev_inv_def live_ok_def addr_unique_def by meson
qed

text \<open>A new device.\<close>

lemma inv_add_device:
  assumes "dev_inv home ds ks" "d_id d \<notin> d_id ` set ds" "(d_user d, d_install d) \<notin> (\<lambda>d. (d_user d, d_install d)) ` set ds"
    and "d_tenant d = home (d_user d)"
  shows "dev_inv home (ds @ [d]) ks"
proof -
  have k: "k_device k \<noteq> d_id d" if "k \<in> set ks" for k
  proof -
    have "k_device k \<in> d_id ` set ds" using that assms(1) unfolding dev_inv_def rows_ok_def by blast
    with assms(2) show ?thesis by metis
  qed
  have t: "same_tenant (ds @ [d]) k k' = same_tenant ds k k'" if "k \<in> set ks" "k' \<in> set ks" for k k'
    using k [OF that(1)] k [OF that(2)] by (auto simp: same_tenant_def)
  have "rows_ok home (ds @ [d]) ks" using assms by (auto simp: dev_inv_def rows_ok_def)
  moreover have "live_ok (ds @ [d]) ks" using assms(1) k k [THEN not_sym] by (auto simp: dev_inv_def live_ok_def)
  moreover have "addr_unique f n (ds @ [d]) ks = addr_unique f n ds ks" for f n
    unfolding addr_unique_def using t by blast
  ultimately show ?thesis using assms(1) by (simp add: dev_inv_def)
qed

text \<open>A new key.\<close>

definition addr_free :: "(DeviceKey \<Rightarrow> bytes option) \<Rightarrow> nat \<Rightarrow> Device list \<Rightarrow> DeviceKey list \<Rightarrow> DeviceKey \<Rightarrow> bool" where
  "addr_free f n ds ks k \<longleftrightarrow> (\<forall>k' \<in> set ks. \<forall>b. live k' \<and> same_tenant ds k k' \<and> f k = Some b \<and> length b = n \<longrightarrow> f k' \<noteq> Some b)"

lemma same_tenant_sym: "same_tenant ds k k' = same_tenant ds k' k"
  unfolding same_tenant_def by metis

lemma unique_add:
  assumes "addr_unique f n ds ks" "addr_free f n ds ks k"
  shows "addr_unique f n ds (ks @ [k])"
  unfolding addr_unique_def
proof (intro ballI allI impI)
  fix a a' b
  assume m: "a \<in> set (ks @ [k])" "a' \<in> set (ks @ [k])"
    and p: "live a \<and> live a' \<and> same_tenant ds a a' \<and> f a = Some b \<and> f a' = Some b \<and> length b = n"
  have no: False if "c \<in> set ks" "live c" "same_tenant ds k c" "f k = Some b" "f c = Some b" for c
    using assms(2) that p unfolding addr_free_def by blast
  show "a = a'"
  proof (cases "a = k \<or> a' = k")
    case True
    with m p no same_tenant_sym [of ds a a'] show ?thesis by auto
  next
    case False
    with m p assms(1) show ?thesis unfolding addr_unique_def by auto
  qed
qed

lemma inv_add_key:
  assumes inv: "dev_inv home ds ks" and fresh: "k_id k \<notin> k_id ` set ks"
    and dev: "d \<in> set ds" "d_id d = k_device k" "d_deleted d = None"
    and none: "\<And>k'. k' \<in> set ks \<Longrightarrow> live k' \<Longrightarrow> k_device k' \<noteq> k_device k"
    and "addr_free k_ipv4 4 ds ks k" "addr_free k_ipv6 16 ds ks k"
  shows "dev_inv home ds (ks @ [k])"
proof -
  have rows: "rows_ok home ds ks" and lo: "live_ok ds ks" using inv by (simp_all add: dev_inv_def)
  have "rows_ok home ds (ks @ [k])" using rows fresh dev unfolding rows_ok_def by (force simp: image_iff)
  moreover have "d' = d" if "d' \<in> set ds" "d_id d' = k_device k" for d'
    using rows that dev by (auto simp: rows_ok_def distinct_map inj_on_def)
  note only = this
  have "live_ok ds (ks @ [k])"
    unfolding live_ok_def
  proof (intro conjI ballI impI)
    fix a a' assume m: "a \<in> set (ks @ [k])" "a' \<in> set (ks @ [k])" and l: "live a \<and> live a' \<and> k_device a = k_device a'"
    show "a = a'"
    proof (cases "a = k \<or> a' = k")
      case True
      with m l none [of a] none [of a'] show ?thesis by auto
    next
      case False
      with m l lo show ?thesis by (simp add: live_ok_def)
    qed
  next
    fix a d' assume m: "a \<in> set (ks @ [k])" "d' \<in> set ds" and l: "live a \<and> d_id d' = k_device a"
    show "d_deleted d' = None"
    proof (cases "a = k")
      case True
      with l m only dev(3) show ?thesis by simp
    next
      case False
      with m l lo show ?thesis by (simp add: live_ok_def)
    qed
  qed
  ultimately show ?thesis using inv unique_add assms(7,8) by (simp add: dev_inv_def)
qed

section \<open>The operations as moves\<close>

lemma used_ipv4_iff:
  "b \<in> set (used_ipv4 ds ks t) \<longleftrightarrow> (\<exists>k \<in> set ks. \<exists>d \<in> set ds. d_id d = k_device k \<and> d_tenant d = t \<and> live k
     \<and> k_ipv4 k = Some b \<and> length b = 4)"
  unfolding used_ipv4_def live_def by (force split: option.splits if_splits)

lemma used_ipv6_iff:
  "b \<in> set (used_ipv6 ds ks t) \<longleftrightarrow> (\<exists>k \<in> set ks. \<exists>d \<in> set ds. d_id d = k_device k \<and> d_tenant d = t \<and> live k
     \<and> k_ipv6 k = Some b \<and> length b = 16)"
  unfolding used_ipv6_def live_def by (force split: option.splits if_splits)

lemma pick_v4_fresh:
  assumes "pick_v4 db tenant NoAddr pool = Inr a" "IPToBytes a = Some b" "length b = 4"
  shows "b \<notin> set (used_ipv4 (devices db) (dkeys db) (tn_id tenant))"
proof -
  have r: "allocateIPv4 (used_ipv4 (devices db) (dkeys db) (tn_id tenant)) pool = Inr a"
    using assms(1) by (simp add: pick_v4_def addr_valid_def)
  with allocateIPv4_cases [OF r] assms(2) show ?thesis by (auto simp: IPToBytes_def)
qed

lemma pick_v6_fresh:
  assumes "pick_v6 db tenant NoAddr = Inr a" "IPToBytes a = Some b" "length b = 16"
  shows "b \<notin> set (used_ipv6 (devices db) (dkeys db) (tn_id tenant))"
proof -
  have "a \<noteq> NoAddr" using assms(2) by (auto simp: IPToBytes_def)
  with assms(1) obtain pool where "allocateIPv6 (used_ipv6 (devices db) (dkeys db) (tn_id tenant)) pool = Inr a"
    by (auto simp: pick_v6_def addr_valid_def split: if_split_asm option.split_asm)
  from allocateIPv6_cases [OF this] obtain c where c: "length c = 16" "a = unmap (from16 c)"
    "c \<notin> set (used_ipv6 (devices db) (dkeys db) (tn_id tenant))" by blast
  with assms(2,3) have "b = c"
    by (auto simp: unmap_def from16_def IPToBytes_def as16_from16 [unfolded as16_def] as16_def as4_def split: if_split_asm)
  with c show ?thesis by simp
qed

lemma insertDeviceKey_Inr:
  assumes "insertDeviceKey nid c k0 db = Inr (k, db')"
  shows "devices db' = devices db" "tenants db' = tenants db" "psks db' = psks db"
    "\<exists>row. dkeys db' = dkeys db @ [row] \<and> k_id row \<notin> k_id ` set (dkeys db) \<and> k_public row \<notin> k_public ` set (dkeys db)
       \<and> k_device row = ks_device k0 \<and> k_public row = ks_public k0 \<and> live row
       \<and> k_ipv4 row = IPToBytes (ks_ipv4 k0) \<and> k_ipv6 row = IPToBytes (ks_ipv6 k0) \<and> k_id row = ks_id k"
proof -
  let ?row = "\<lparr>k_id = ks_id k, k_device = ks_device k, k_public = ks_public k,
    k_ipv4 = IPToBytes (ks_ipv4 k), k_ipv6 = IPToBytes (ks_ipv6 k),
    k_activated = ks_activated k, k_expires = ks_expires k, k_revoked = None\<rparr>"
  from assms have k: "ks_device k = ks_device k0" "ks_public k = ks_public k0" "ks_ipv4 k = ks_ipv4 k0" "ks_ipv6 k = ks_ipv6 k0"
    and no: "\<not> (\<exists>r \<in> set (dkeys db). k_id r = ks_id k \<or> k_public r = ks_public k)"
    and db': "db' = db\<lparr>dkeys := dkeys db @ [?row]\<rparr>"
    by (auto simp: insertDeviceKey_def Let_def split: if_split_asm)
  show "devices db' = devices db" "tenants db' = tenants db" "psks db' = psks db" by (simp_all add: db')
  from no have "k_id ?row \<notin> k_id ` set (dkeys db)" "k_public ?row \<notin> k_public ` set (dkeys db)"
    by (simp_all add: image_iff) metis+
  then show "\<exists>row. dkeys db' = dkeys db @ [row] \<and> k_id row \<notin> k_id ` set (dkeys db) \<and> k_public row \<notin> k_public ` set (dkeys db)
       \<and> k_device row = ks_device k0 \<and> k_public row = ks_public k0 \<and> live row
       \<and> k_ipv4 row = IPToBytes (ks_ipv4 k0) \<and> k_ipv6 row = IPToBytes (ks_ipv6 k0) \<and> k_id row = ks_id k"
    by (intro exI [of _ ?row]) (simp add: db' k live_def)
qed

lemma insertPSK_Inr:
  assumes "insertPSK nid c p0 db = Inr (p, db')"
  shows "devices db' = devices db" "tenants db' = tenants db" "certs db' = certs db" "dkeys db' = dkeys db"
    "psks db' = psks db @ [p]" "p_source p = p_source p0" "p_psk p = p_psk p0" "p_device_key p = p_device_key p0"
  using assms by (auto simp: insertPSK_def Let_def split: if_split_asm)

lemma recordClientCert_Inr:
  assumes "recordClientCert nid i (Some r) db = Inr db'"
  shows "devices db' = devices db" "tenants db' = tenants db" "dkeys db' = dkeys db" "psks db' = psks db"
    "\<exists>c. certs db' = certs db @ [c] \<and> c_device c = i \<and> c_revoked c = None \<and> c_serial c = ir_serial r
       \<and> c_serial c \<notin> c_serial ` set (certs db)"
proof -
  let ?c = "\<lparr>c_id = nid, c_device = i, c_serial = ir_serial r, c_fingerprint = ir_fingerprint r,
    c_not_before = ir_not_before r, c_not_after = ir_not_after r, c_revoked = None, c_reason = None\<rparr>"
  from assms have no: "\<not> (\<exists>c \<in> set (certs db). c_serial c = ir_serial r)" and db': "db' = db\<lparr>certs := certs db @ [?c]\<rparr>"
    by (auto simp: recordClientCert_def split: if_split_asm)
  show "devices db' = devices db" "tenants db' = tenants db" "dkeys db' = dkeys db" "psks db' = psks db" by (simp_all add: db')
  from no have "c_serial ?c \<notin> c_serial ` set (certs db)" by (simp add: image_iff) metis
  then show "\<exists>c. certs db' = certs db @ [c] \<and> c_device c = i \<and> c_revoked c = None \<and> c_serial c = ir_serial r
       \<and> c_serial c \<notin> c_serial ` set (certs db)"
    by (intro exI [of _ ?c]) (simp add: db')
qed

lemma issue_effect:
  assumes "allocateAndIssueWithReserved s d dev pub tenant r4 r6 csr ct db = Inr (al, db')"
  shows "devices db' = devices db \<and> tenants db' = tenants db
    \<and> (\<exists>pool4 v4 v6 row k src. pick_v4 db tenant r4 pool4 = Inr v4 \<and> pick_v6 db tenant r6 = Inr v6
        \<and> dkeys db' = dkeys db @ [row] \<and> k_id row \<notin> k_id ` set (dkeys db) \<and> k_public row \<notin> k_public ` set (dkeys db)
        \<and> k_device row = d_id dev \<and> k_public row = pub \<and> live row
        \<and> k_ipv4 row = IPToBytes v4 \<and> k_ipv6 row = IPToBytes v6
        \<and> derive_psk s d dev ct = Inr (k, src)
        \<and> psks db' = psks db @ [al_psk al] \<and> p_psk (al_psk al) = k \<and> p_source (al_psk al) = src
        \<and> p_device_key (al_psk al) = k_id row)"
proof -
  let ?ks = "\<lambda>v4 v6. \<lparr>ks_id = Zero, ks_device = d_id dev, ks_public = pub, ks_ipv4 = v4, ks_ipv6 = v6,
              ks_activated = dr_now d, ks_expires = Some (dr_now d + keyLifetime s), ks_revoked = None\<rparr>"
  let ?p = "\<lambda>k kk src. \<lparr>p_id = Zero, p_device_key = ks_id k, p_psk = kk, p_source = src, p_activated = dr_now d,
              p_expires = Some (dr_now d + keyLifetime s), p_revoked = None\<rparr>"
  from assms obtain pool4 v4 v6 k db1 kk src psk db2 cert where
      v: "pick_v4 db tenant r4 pool4 = Inr v4" "pick_v6 db tenant r6 = Inr v6"
      and k: "insertDeviceKey (dr_key d) (dr_clock d) (?ks v4 v6) db = Inr (k, db1)"
      and kk: "derive_psk s d dev ct = Inr (kk, src)"
      and p: "insertPSK (dr_psk d) (dr_clock d) (?p k kk src) db1 = Inr (psk, db2)"
      and c: "recordClientCert (dr_cert d) (d_id dev) (Some cert) db2 = Inr db'"
      and al: "al_psk al = psk"
    by (auto simp: allocateAndIssueWithReserved_def and_then_Inr split: option.split_asm)
  from insertDeviceKey_Inr(4) [OF k] obtain row where row: "dkeys db1 = dkeys db @ [row]"
      "k_id row \<notin> k_id ` set (dkeys db)" "k_public row \<notin> k_public ` set (dkeys db)"
      "k_device row = d_id dev" "k_public row = pub" "live row" "k_ipv4 row = IPToBytes v4" "k_ipv6 row = IPToBytes v6"
      "k_id row = ks_id k"
    unfolding KeyStruct.simps by blast
  have same: "devices db' = devices db" "tenants db' = tenants db" "dkeys db' = dkeys db @ [row]"
    using insertDeviceKey_Inr(1,2) [OF k] insertPSK_Inr(1-4) [OF p] recordClientCert_Inr(1-3) [OF c] row(1) by simp_all
  have psk: "psks db' = psks db @ [al_psk al]" "p_psk (al_psk al) = kk" "p_source (al_psk al) = src"
      "p_device_key (al_psk al) = k_id row"
    using insertPSK_Inr(5-8) [OF p] recordClientCert_Inr(4) [OF c] al insertDeviceKey_Inr(3) [OF k] row(9) by simp_all
  show ?thesis
    by (intro conjI, fact same, fact same, rule exI [of _ pool4], rule exI [of _ v4], rule exI [of _ v6],
        rule exI [of _ row], rule exI [of _ kk], rule exI [of _ src], intro conjI)
      (fact same psk v kk row)+
qed

lemma free4:
  assumes "rows_ok home ds ks" "dd \<in> set ds" "d_id dd = k_device k" "d_tenant dd = t"
    and "\<And>b. k_ipv4 k = Some b \<Longrightarrow> length b = 4 \<Longrightarrow> b \<notin> set (used_ipv4 ds ks t)"
  shows "addr_free k_ipv4 4 ds ks k"
  unfolding addr_free_def
proof (intro ballI allI impI notI)
  fix k' b assume k': "k' \<in> set ks" "live k' \<and> same_tenant ds k k' \<and> k_ipv4 k = Some b \<and> length b = 4" "k_ipv4 k' = Some b"
  then obtain d d' where d: "d \<in> set ds" "d' \<in> set ds" "d_id d = k_device k" "d_id d' = k_device k'" "d_tenant d = d_tenant d'"
    unfolding same_tenant_def by blast
  then have "d = dd" using assms(1-3) by (auto simp: rows_ok_def distinct_map inj_on_def)
  with d k' assms(4) have "b \<in> set (used_ipv4 ds ks t)" unfolding used_ipv4_iff by metis
  with assms(5) k' show False by blast
qed

lemma free6:
  assumes "rows_ok home ds ks" "dd \<in> set ds" "d_id dd = k_device k" "d_tenant dd = t"
    and "\<And>b. k_ipv6 k = Some b \<Longrightarrow> length b = 16 \<Longrightarrow> b \<notin> set (used_ipv6 ds ks t)"
  shows "addr_free k_ipv6 16 ds ks k"
  unfolding addr_free_def
proof (intro ballI allI impI notI)
  fix k' b assume k': "k' \<in> set ks" "live k' \<and> same_tenant ds k k' \<and> k_ipv6 k = Some b \<and> length b = 16" "k_ipv6 k' = Some b"
  then obtain d d' where d: "d \<in> set ds" "d' \<in> set ds" "d_id d = k_device k" "d_id d' = k_device k'" "d_tenant d = d_tenant d'"
    unfolding same_tenant_def by blast
  then have "d = dd" using assms(1-3) by (auto simp: rows_ok_def distinct_map inj_on_def)
  with d k' assms(4) have "b \<in> set (used_ipv6 ds ks t)" unfolding used_ipv6_iff by metis
  with assms(5) k' show False by blast
qed

text \<open>Addresses a caller may ask to keep: those no live key of the tenant holds.\<close>

definition keepable :: "DB \<Rightarrow> ID \<Rightarrow> addr \<Rightarrow> addr \<Rightarrow> bool" where
  "keepable db t r4 r6 \<longleftrightarrow>
     (\<forall>b. IPToBytes r4 = Some b \<and> length b = 4 \<longrightarrow> b \<notin> set (used_ipv4 (devices db) (dkeys db) t))
     \<and> (\<forall>b. IPToBytes r6 = Some b \<and> length b = 16 \<longrightarrow> b \<notin> set (used_ipv6 (devices db) (dkeys db) t))"

lemma picked4:
  assumes "pick_v4 db tenant r4 pool = Inr a" "keepable db (tn_id tenant) r4 r6" "IPToBytes a = Some b" "length b = 4"
  shows "b \<notin> set (used_ipv4 (devices db) (dkeys db) (tn_id tenant))"
proof (cases "addr_valid r4")
  case True
  with assms show ?thesis by (simp add: pick_v4_def keepable_def)
next
  case False
  then have "r4 = NoAddr" by (simp add: addr_valid_def)
  with assms pick_v4_fresh show ?thesis by blast
qed

lemma picked6:
  assumes "pick_v6 db tenant r6 = Inr a" "keepable db (tn_id tenant) r4 r6" "IPToBytes a = Some b" "length b = 16"
  shows "b \<notin> set (used_ipv6 (devices db) (dkeys db) (tn_id tenant))"
proof (cases "addr_valid r6")
  case True
  with assms(1,3) have "a = r6" by (auto simp: pick_v6_def IPToBytes_def split: if_split_asm option.split_asm)
  with assms show ?thesis by (simp add: keepable_def)
next
  case False
  then have "r6 = NoAddr" by (simp add: addr_valid_def)
  with assms pick_v6_fresh show ?thesis by blast
qed

lemma inv_issue:
  assumes iss: "allocateAndIssueWithReserved s d dev pub tenant r4 r6 csr ct db = Inr (al, db')"
    and inv: "dev_inv home (devices db) (dkeys db)"
    and dd: "dd \<in> set (devices db)" "d_id dd = d_id dev" "d_deleted dd = None" "d_tenant dd = tn_id tenant"
    and none: "\<And>k. k \<in> set (dkeys db) \<Longrightarrow> live k \<Longrightarrow> k_device k \<noteq> d_id dev"
    and keep: "keepable db (tn_id tenant) r4 r6"
  shows "dev_inv home (devices db') (dkeys db')"
proof -
  from issue_effect [OF iss] obtain pool4 v4 v6 row where
      p: "pick_v4 db tenant r4 pool4 = Inr v4" "pick_v6 db tenant r6 = Inr v6"
      and db': "devices db' = devices db" "dkeys db' = dkeys db @ [row]"
      and row: "k_id row \<notin> k_id ` set (dkeys db)" "k_device row = d_id dev"
        "k_ipv4 row = IPToBytes v4" "k_ipv6 row = IPToBytes v6"
    by blast
  have rows: "rows_ok home (devices db) (dkeys db)" using inv by (simp add: dev_inv_def)
  have "addr_free k_ipv4 4 (devices db) (dkeys db) row"
    using free4 [OF rows dd(1) _ dd(4), of row] picked4 [OF p(1) keep] row dd(2) by simp
  moreover have "addr_free k_ipv6 16 (devices db) (dkeys db) row"
    using free6 [OF rows dd(1) _ dd(4), of row] picked6 [OF p(2) keep] row dd(2) by simp
  ultimately show ?thesis
    unfolding db' using none row dd by (intro inv_add_key [OF inv row(1) dd(1)]) simp_all
qed

lemma set_device_sel [simp]:
  "devices (set_device i f db) = map (\<lambda>d. if d_id d = i then f d else d) (devices db)"
  "dkeys (set_device i f db) = dkeys db" "tenants (set_device i f db) = tenants db"
  by (simp_all add: set_device_def)

lemma recordAttestation_sel [simp]:
  "devices (recordAttestation nid i att pi db) = devices db" "dkeys (recordAttestation nid i att pi db) = dkeys db"
  "tenants (recordAttestation nid i att pi db) = tenants db" "psks (recordAttestation nid i att pi db) = psks db"
  by (simp_all add: recordAttestation_def)

lemma issueStateToken_Inr:
  "issueStateToken b sha e i db = Inr (tok, db') \<Longrightarrow> devices db' = devices db \<and> dkeys db' = dkeys db \<and> psks db' = psks db"
  by (auto simp: issueStateToken_def Let_def split: option.split_asm)

text \<open>What a re-registration does to the device's row.\<close>

definition readmitted :: "RegisterParams \<Rightarrow> ID \<Rightarrow> Device \<Rightarrow> Device \<Rightarrow> bool" where
  "readmitted p i r r' \<longleftrightarrow> same_row r r' \<and> d_group r' = d_group r \<and>
     (if d_id r = i then d_deleted r' = None \<and> d_status r' = StatusActive \<and> d_policy r' = None else r' = r)"

lemma readmitted_exists:
  assumes "register_existing s d p dev0 db = Inr (dev, att, pi, db')"
  shows "d_id dev = d_id dev0 \<and> d_status dev = StatusActive
    \<and> dkeys db' = map (revoked_at (d_id dev0) (dr_dbnow d)) (dkeys db)
    \<and> (\<exists>f. devices db' = map f (devices db) \<and> (\<forall>r. readmitted p (d_id dev0) r (f r)))"
proof -
  let ?re = "\<lambda>r. if d_id r = d_id dev0 then r\<lparr>d_deleted := None, d_status := StatusActive, d_policy := None\<rparr> else r"
  let ?ref = "\<lambda>r. if d_id r = d_id dev0 then refreshed p r else r"
  let ?dev = "dev0\<lparr>d_status := StatusActive\<rparr>"
  let ?db2 = "revokeAllKeys (d_id dev0) (dr_dbnow d) (reactivateDevice (d_id dev0) db)"
  have "(dev, db') = (if stale p ?dev then (refreshed p ?dev, set_device (d_id dev0) (refreshed p) ?db2) else (?dev, ?db2))"
    using assms unfolding register_existing_def Let_def by (auto simp: and_then_Inr)
  then consider "dev = refreshed p ?dev" "db' = set_device (d_id dev0) (refreshed p) ?db2" | "dev = ?dev" "db' = ?db2"
    by (auto split: if_split_asm)
  then show ?thesis
  proof cases
    case 1
    then have "devices db' = map (\<lambda>r. ?ref (?re r)) (devices db)" by (simp add: reactivateDevice_def)
    moreover have "readmitted p (d_id dev0) r (?ref (?re r))" for r
      by (simp add: readmitted_def same_row_def refreshed_def)
    ultimately have "\<exists>f. devices db' = map f (devices db) \<and> (\<forall>r. readmitted p (d_id dev0) r (f r))" by blast
    moreover have "d_id dev = d_id dev0" "d_status dev = StatusActive"
        "dkeys db' = map (revoked_at (d_id dev0) (dr_dbnow d)) (dkeys db)"
      using 1 by (simp_all add: refreshed_def reactivateDevice_def)
    ultimately show ?thesis by blast
  next
    case 2
    then have "devices db' = map ?re (devices db)" by (simp add: reactivateDevice_def)
    moreover have "readmitted p (d_id dev0) r (?re r)" for r by (simp add: readmitted_def same_row_def)
    ultimately have "\<exists>f. devices db' = map f (devices db) \<and> (\<forall>r. readmitted p (d_id dev0) r (f r))" by blast
    moreover have "d_id dev = d_id dev0" "d_status dev = StatusActive"
        "dkeys db' = map (revoked_at (d_id dev0) (dr_dbnow d)) (dkeys db)"
      using 2 by (simp_all add: reactivateDevice_def)
    ultimately show ?thesis by blast
  qed
qed

lemma inv_existing:
  assumes "register_existing s d p dev0 db = Inr (dev, att, pi, db')" "dev_inv home (devices db) (dkeys db)"
  shows "dev_inv home (devices db') (dkeys db')"
    "\<And>k. k \<in> set (dkeys db') \<Longrightarrow> live k \<Longrightarrow> k_device k \<noteq> d_id dev"
    "\<And>r. r \<in> set (devices db) \<Longrightarrow> d_id r = d_id dev0 \<Longrightarrow>
       \<exists>r' \<in> set (devices db'). d_id r' = d_id dev \<and> d_deleted r' = None \<and> d_tenant r' = d_tenant r"
proof -
  from readmitted_exists [OF assms(1)] obtain f where f: "devices db' = map f (devices db)"
      "\<And>r. readmitted p (d_id dev0) r (f r)" and dev: "d_id dev = d_id dev0"
      and ks: "dkeys db' = map (revoked_at (d_id dev0) (dr_dbnow d)) (dkeys db)"
    by blast
  have s: "same_row r (f r)" "d_deleted r = None \<Longrightarrow> d_deleted (f r) = None" for r
    using f(2) [of r] by (auto simp: readmitted_def split: if_split_asm)
  show "dev_inv home (devices db') (dkeys db')"
    unfolding f(1) ks using s by (intro inv_map_devices inv_revoke assms(2)) auto
  show "k_device k \<noteq> d_id dev" if "k \<in> set (dkeys db')" "live k" for k
    using that by (auto simp: ks live_revoked_at dev)
  show "\<exists>r' \<in> set (devices db'). d_id r' = d_id dev \<and> d_deleted r' = None \<and> d_tenant r' = d_tenant r"
    if "r \<in> set (devices db)" "d_id r = d_id dev0" for r
    using that f(1) f(2) [of r] s(1) [of r] dev
    by (intro bexI [of _ "f r"]) (auto simp: readmitted_def same_row_def)
qed

lemma insertDevice_Inr:
  assumes "insertDevice nid c d0 db = Inr (d, db')"
  shows "dkeys db' = dkeys db"
    "\<exists>row. devices db' = devices db @ [row] \<and> d_id row = d_id d \<and> d_user row = d_user d0 \<and> d_install row = d_install d0
       \<and> d_tenant row = d_tenant d0 \<and> d_deleted row = None \<and> d_status row = d_status d0
       \<and> d_id row \<notin> d_id ` set (devices db)
       \<and> (d_user row, d_install row) \<notin> (\<lambda>d. (d_user d, d_install d)) ` set (devices db)"
proof -
  let ?row = "d\<lparr>d_last_seen := None, d_filter_mode := AppFilterOff, d_filter_packages := [], d_policy := None,
    d_group := None, d_access_expires := None, d_deleted := None\<rparr>"
  from assms have d: "d_user d = d_user d0" "d_install d = d_install d0" "d_tenant d = d_tenant d0" "d_status d = d_status d0"
    and no: "\<not> (\<exists>r \<in> set (devices db). d_id r = d_id d \<or> (d_user r = d_user d \<and> d_install r = d_install d))"
    and db': "db' = db\<lparr>devices := devices db @ [?row]\<rparr>"
    by (auto simp: insertDevice_def Let_def split: if_split_asm)
  show "dkeys db' = dkeys db" by (simp add: db')
  from no have "d_id ?row \<notin> d_id ` set (devices db)"
      "(d_user ?row, d_install ?row) \<notin> (\<lambda>d. (d_user d, d_install d)) ` set (devices db)"
    by (simp_all add: image_iff) metis+
  then show "\<exists>row. devices db' = devices db @ [row] \<and> d_id row = d_id d \<and> d_user row = d_user d0 \<and> d_install row = d_install d0
       \<and> d_tenant row = d_tenant d0 \<and> d_deleted row = None \<and> d_status row = d_status d0
       \<and> d_id row \<notin> d_id ` set (devices db)
       \<and> (d_user row, d_install row) \<notin> (\<lambda>d. (d_user d, d_install d)) ` set (devices db)"
    by (intro exI [of _ ?row]) (simp add: db' d)
qed

definition upsert :: "Service \<Rightarrow> draws \<Rightarrow> RegisterParams \<Rightarrow> DB \<Rightarrow> dev_error + Device \<times> AttestationOutcome \<times> PlayIntegrityOutcome \<times> DB" where
  "upsert s d p db = (case findDeviceByInstall db (rp_user p) (rp_install p) of
     None \<Rightarrow> register_new s d p db | Some dev \<Rightarrow> register_existing s d p dev db)"

lemma register_tx_Inr:
  assumes "register_tx s d p tenant db = Inr ((dev, al), db')"
  shows "\<exists>att pi db1 alloc db3. upsert s d p db = Inr (dev, att, pi, db1)
    \<and> allocateAndIssue s d dev (rp_public_key p) tenant (rp_csr p) (rp_ciphertext p)
        (recordAttestation (dr_record d) (d_id dev) att pi db1) = Inr (alloc, db3)
    \<and> devices db' = devices db3 \<and> dkeys db' = dkeys db3 \<and> psks db' = psks db3 \<and> al_psk al = al_psk alloc"
proof -
  from assms obtain dv att pi db1 alloc db3 tok db4 where
      u: "upsert s d p db = Inr (dv, att, pi, db1)"
      and a: "allocateAndIssue s d dv (rp_public_key p) tenant (rp_csr p) (rp_ciphertext p)
        (recordAttestation (dr_record d) (d_id dv) att pi db1) = Inr (alloc, db3)"
      and t: "issueStateToken (raw_url_b64 s) (sha256 s) (dr_state d) (d_id dv) db3 = Inr (tok, db4)"
      and r: "dev = dv" "al_psk al = al_psk alloc" "db' = db4"
    unfolding register_tx_def Let_def upsert_def [symmetric] by (auto simp: and_then_Inr)
  from issueStateToken_Inr [OF t] u a r show ?thesis by blast
qed

lemma find_install:
  assumes "findDeviceByInstall db u i = Some dev"
  shows "\<exists>r \<in> set (devices db). d_user r = u \<and> d_install r = i \<and> dev = scanDevice r"
  using assms by (auto simp: findDeviceByInstall_def dest: find_Some_in)

lemma scanDevice_sel [simp]:
  "d_id (scanDevice d) = d_id d" "d_user (scanDevice d) = d_user d" "d_tenant (scanDevice d) = d_tenant d"
  "d_status (scanDevice d) = d_status d" "d_install (scanDevice d) = d_install d"
  by (simp_all add: scanDevice_def)

lemma inv_upsert:
  assumes up: "upsert s d p db = Inr (dev, att, pi, db1)" and inv: "dev_inv home (devices db) (dkeys db)"
    and home: "rp_tenant p = home (rp_user p)"
  shows "dev_inv home (devices db1) (dkeys db1)
    \<and> (\<forall>k \<in> set (dkeys db1). live k \<longrightarrow> k_device k \<noteq> d_id dev)
    \<and> (\<exists>dd \<in> set (devices db1). d_id dd = d_id dev \<and> d_deleted dd = None \<and> d_tenant dd = rp_tenant p)"
proof (cases "findDeviceByInstall db (rp_user p) (rp_install p)")
  case (Some dev0)
  from find_install [OF Some] obtain r where r: "r \<in> set (devices db)" "d_user r = rp_user p" "dev0 = scanDevice r" by blast
  have e: "register_existing s d p dev0 db = Inr (dev, att, pi, db1)" using up Some by (simp add: upsert_def)
  have "d_tenant r = rp_tenant p" using inv r home by (simp add: dev_inv_def rows_ok_def)
  with inv_existing(3) [OF e inv r(1)] r(3) have "\<exists>dd \<in> set (devices db1). d_id dd = d_id dev \<and> d_deleted dd = None \<and> d_tenant dd = rp_tenant p"
    by simp
  with inv_existing(1,2) [OF e inv] show ?thesis by blast
next
  case None
  with up obtain attested where g: "insertDevice (dr_device d) (dr_clock d)
      \<lparr>d_id = Zero, d_tenant = rp_tenant p, d_user = rp_user p, d_install = rp_install p, d_name = rp_name p,
       d_platform = rp_platform p, d_os_version = rp_os_version p, d_app_version = rp_app_version p,
       d_model = rp_model p, d_os_sdk = rp_os_sdk p,
       d_status = (if attested then StatusActive else StatusPendingAttest), d_last_seen = None,
       d_created = dr_now d, d_filter_mode = AppFilterOff, d_filter_packages = [],
       d_deployment = deployment_mode (rp_mode p), d_host_package = rp_host p,
       d_policy = None, d_group = None, d_access_expires = None, d_deleted = None\<rparr> db = Inr (dev, db1)"
    unfolding upsert_def register_new_def by (auto simp: and_then_Inr)
  from insertDevice_Inr(2) [OF g] obtain row where row: "devices db1 = devices db @ [row]" "d_id row = d_id dev"
      "d_user row = rp_user p" "d_tenant row = rp_tenant p" "d_deleted row = None"
      "d_id row \<notin> d_id ` set (devices db)"
      "(d_user row, d_install row) \<notin> (\<lambda>d. (d_user d, d_install d)) ` set (devices db)"
    unfolding Device.simps by blast
  have ks: "dkeys db1 = dkeys db" using insertDevice_Inr(1) [OF g] .
  have "dev_inv home (devices db1) (dkeys db1)"
    unfolding row(1) ks using home row(3,4) by (intro inv_add_device [OF inv row(6,7)]) simp
  moreover have "k_device k \<noteq> d_id dev" if "k \<in> set (dkeys db1)" for k
  proof -
    have "k_device k \<in> d_id ` set (devices db)" using inv that ks unfolding dev_inv_def rows_ok_def by simp
    with row(2,6) show ?thesis by metis
  qed
  moreover have "row \<in> set (devices db1)" by (simp add: row(1))
  ultimately show ?thesis using row(2,4,5) by blast
qed

lemma inv_register:
  assumes "register_tx s d p tenant db = Inr ((dev, al), db')" "dev_inv home (devices db) (dkeys db)"
    and "rp_tenant p = home (rp_user p)" "tn_id tenant = rp_tenant p"
  shows "dev_inv home (devices db') (dkeys db')"
proof -
  from register_tx_Inr [OF assms(1)] obtain att pi db1 alloc db3 where
      u: "upsert s d p db = Inr (dev, att, pi, db1)"
      and a: "allocateAndIssue s d dev (rp_public_key p) tenant (rp_csr p) (rp_ciphertext p)
        (recordAttestation (dr_record d) (d_id dev) att pi db1) = Inr (alloc, db3)"
      and r: "devices db' = devices db3" "dkeys db' = dkeys db3"
    by blast
  from inv_upsert [OF u assms(2,3)] obtain dd where dd: "dd \<in> set (devices db1)" "d_id dd = d_id dev" "d_deleted dd = None"
      "d_tenant dd = rp_tenant p" and inv1: "dev_inv home (devices db1) (dkeys db1)"
      and none: "\<And>k. k \<in> set (dkeys db1) \<Longrightarrow> live k \<Longrightarrow> k_device k \<noteq> d_id dev" by blast
  show ?thesis
    unfolding r
    by (rule inv_issue [OF a [unfolded allocateAndIssue_def], where dd = dd])
      (use inv1 dd none assms(4) in \<open>simp_all add: keepable_def IPToBytes_def\<close>)
qed

lemma scan_ip4: "IPToBytes (scan_ip 4 x) = Some b \<Longrightarrow> x = Some b"
  by (auto simp: scan_ip_def IPFromBytes_def IPToBytes_def from4_def as4_from4 split: option.split_asm if_split_asm)

lemma scan_ip16: "IPToBytes (scan_ip 16 x) = Some b \<Longrightarrow> length b = 16 \<Longrightarrow> x = Some b"
  by (auto simp: scan_ip_def IPFromBytes_def IPToBytes_def from16_def unmap_def as16_from16 as4_def
      split: option.split_asm if_split_asm)

lemma findActiveKey_Some:
  assumes "findActiveKey db i = Some k"
  shows "\<exists>row \<in> set (dkeys db). live row \<and> k_device row = i \<and> k = scanDeviceKey row"
proof -
  let ?ks = "sort_key (\<lambda>k. - k_activated k) (filter (\<lambda>k. k_device k = i \<and> k_revoked k = None) (dkeys db))"
  have k: "?ks \<noteq> []" "k = scanDeviceKey (hd ?ks)"
    using assms unfolding findActiveKey_def by (cases ?ks; simp)+
  then have "hd ?ks \<in> set ?ks" by (intro hd_in_set)
  then have "hd ?ks \<in> set (dkeys db)" "live (hd ?ks)" "k_device (hd ?ks) = i" by (simp_all add: live_def)
  with k(2) show ?thesis by blast
qed

lemma findActiveKey_None:
  assumes "findActiveKey db i = None" "k \<in> set (dkeys db)" "live k"
  shows "k_device k \<noteq> i"
proof
  assume "k_device k = i"
  let ?ks = "sort_key (\<lambda>k. - k_activated k) (filter (\<lambda>k. k_device k = i \<and> k_revoked k = None) (dkeys db))"
  have "k \<in> set ?ks" using assms(2,3) \<open>k_device k = i\<close> by (simp add: live_def)
  moreover have "?ks = []" using assms(1) unfolding findActiveKey_def by (cases ?ks) simp_all
  ultimately show False by simp
qed

text \<open>The addresses of a device's live key are free once its keys are revoked.\<close>

lemma rotation_keepable:
  assumes inv: "dev_inv home (devices db) (dkeys db)" and r: "r \<in> set (devices db)" "d_id r = i"
  shows "keepable (revokeAllKeys i t db) (d_tenant r)
    (case findActiveKey db i of None \<Rightarrow> NoAddr | Some k \<Rightarrow> ks_ipv4 k)
    (case findActiveKey db i of None \<Rightarrow> NoAddr | Some k \<Rightarrow> ks_ipv6 k)"
proof (cases "findActiveKey db i")
  case (Some k)
  from findActiveKey_Some [OF this] obtain row where row: "row \<in> set (dkeys db)" "live row" "k_device row = i"
      and k: "ks_ipv4 k = scan_ip 4 (k_ipv4 row)" "ks_ipv6 k = scan_ip 16 (k_ipv6 row)"
    by (auto simp: scanDeviceKey_def)
  have other: "k' \<in> set (dkeys db)" "live k'" "k_device k' \<noteq> i" if "k' \<in> set (dkeys (revokeAllKeys i t db))" "live k'" for k'
  proof -
    from that(1) obtain c where c: "c \<in> set (dkeys db)" "k' = revoked_at i t c" unfolding revokeAllKeys_sel set_map by (rule imageE)
    with that(2) live_revoked_at [of i t c] revoked_at_id [of i t c]
    show "k' \<in> set (dkeys db)" "live k'" "k_device k' \<noteq> i" by simp_all
  qed
  have st: "same_tenant (devices db) row k'" if "d \<in> set (devices db)" "d_id d = k_device k'" "d_tenant d = d_tenant r" for k' d
    using that r row(3) unfolding same_tenant_def by metis
  have 4: "b \<notin> set (used_ipv4 (devices db) (dkeys (revokeAllKeys i t db)) (d_tenant r))"
    if "k_ipv4 row = Some b" "length b = 4" for b
  proof
    assume "b \<in> set (used_ipv4 (devices db) (dkeys (revokeAllKeys i t db)) (d_tenant r))"
    then obtain k' d where k': "k' \<in> set (dkeys (revokeAllKeys i t db))" "live k'" "k_ipv4 k' = Some b"
        and d: "d \<in> set (devices db)" "d_id d = k_device k'" "d_tenant d = d_tenant r"
      unfolding used_ipv4_iff by blast
    with other [OF k'(1,2)] st [OF d] row inv that have "row = k'" unfolding dev_inv_def addr_unique_def by blast
    with other(3) [OF k'(1,2)] row(3) show False by simp
  qed
  have 6: "b \<notin> set (used_ipv6 (devices db) (dkeys (revokeAllKeys i t db)) (d_tenant r))"
    if "k_ipv6 row = Some b" "length b = 16" for b
  proof
    assume "b \<in> set (used_ipv6 (devices db) (dkeys (revokeAllKeys i t db)) (d_tenant r))"
    then obtain k' d where k': "k' \<in> set (dkeys (revokeAllKeys i t db))" "live k'" "k_ipv6 k' = Some b"
        and d: "d \<in> set (devices db)" "d_id d = k_device k'" "d_tenant d = d_tenant r"
      unfolding used_ipv6_iff by blast
    with other [OF k'(1,2)] st [OF d] row inv that have "row = k'" unfolding dev_inv_def addr_unique_def by blast
    with other(3) [OF k'(1,2)] row(3) show False by simp
  qed
  show ?thesis
    unfolding keepable_def Some option.case k revokeAllKeys_sel(1) using 4 6 scan_ip4 scan_ip16 by blast
qed (simp add: keepable_def IPToBytes_def)

lemma inv_rotate:
  assumes rot: "rotate_tx s d p dev tenant db = Inr (a, db')" and inv: "dev_inv home (devices db) (dkeys db)"
    and r: "r \<in> set (devices db)" "d_deleted r = None" "dev = scanDevice r" and t: "tn_id tenant = d_tenant r"
  shows "dev_inv home (devices db') (dkeys db')"
proof -
  let ?db1 = "revokeAllKeys (d_id dev) (dr_dbnow d) db"
  from rot obtain a0 where iss: "allocateAndIssueWithReserved s d dev (ro_public_key p) tenant
      (case findActiveKey db (d_id dev) of None \<Rightarrow> NoAddr | Some k \<Rightarrow> ks_ipv4 k)
      (case findActiveKey db (d_id dev) of None \<Rightarrow> NoAddr | Some k \<Rightarrow> ks_ipv6 k)
      (ro_csr p) (ro_ciphertext p) ?db1 = Inr (a0, db')"
    unfolding rotate_tx_def Let_def and_then_Inr split_paired_Ex prod.case by blast
  have inv1: "dev_inv home (devices ?db1) (dkeys ?db1)" using inv_revoke [OF inv] by simp
  show ?thesis
  proof (rule inv_issue [OF iss inv1])
    show "r \<in> set (devices ?db1)" "d_deleted r = None" "d_tenant r = tn_id tenant" using r t by simp_all
    show "d_id r = d_id dev" by (simp add: r(3))
    show "k_device k \<noteq> d_id dev" if "k \<in> set (dkeys ?db1)" "live k" for k
      using that by (auto simp: live_revoked_at)
    show "keepable ?db1 (tn_id tenant) (case findActiveKey db (d_id dev) of None \<Rightarrow> NoAddr | Some k \<Rightarrow> ks_ipv4 k)
        (case findActiveKey db (d_id dev) of None \<Rightarrow> NoAddr | Some k \<Rightarrow> ks_ipv6 k)"
      unfolding t by (rule rotation_keepable [OF inv r(1)]) (simp add: r(3))
  qed
qed

end
