(* ===== verification/DeviceProps.thy ===== *)
theory DeviceProps
  imports DeviceInv
begin

text \<open>
  The properties of the device service: the invariant over its histories, and what rotation,
  revocation, the pre-shared keys and the application filter guarantee.
\<close>

section \<open>Histories\<close>

text \<open>
  Operations of the service in any order, with any configuration, gates and draws, while tenants are
  edited and devices get statuses and policies (an edit keeps identity and deletion). A registration names the tenant the user belongs to
  (\<open>users.tenant_id\<close>), which the HTTP layer takes from the session or the enrolment token.
\<close>

inductive service_run :: "(ID \<Rightarrow> ID) \<Rightarrow> DB \<Rightarrow> bool" for home where
  start: "devices db = [] \<Longrightarrow> dkeys db = [] \<Longrightarrow> service_run home db"
| register: "service_run home db \<Longrightarrow>
    (if IsZero (rp_tenant p) then tenantID s else rp_tenant p) = home (rp_user p) \<Longrightarrow>
    Register s d p db = (r, db', au) \<Longrightarrow> service_run home db'"
| rotate: "service_run home db \<Longrightarrow> RotateKey s d q db = (a, db', au) \<Longrightarrow> service_run home db'"
| revoke: "service_run home db \<Longrightarrow> Revoke t i actor why db = (e, db', au) \<Longrightarrow> service_run home db'"
| app_filter: "service_run home db \<Longrightarrow> UpdateAppFilter i actor mode pkgs db = (e, db', au) \<Longrightarrow> service_run home db'"
| set_status: "service_run home db \<Longrightarrow> updateDeviceStatus i st t db = (e, db') \<Longrightarrow> service_run home db'"
| edit: "service_run home db \<Longrightarrow> \<forall>d. same_row d (f d) \<and> d_deleted (f d) = d_deleted d \<Longrightarrow> service_run home (db\<lparr>devices := map f (devices db)\<rparr>)"
| edit_tenants: "service_run home db \<Longrightarrow> service_run home (db\<lparr>tenants := ts\<rparr>)"

lemma findTenant_id: "findTenant db i = Some t \<Longrightarrow> tn_id t = i"
  by (auto simp: findTenant_def find_Some_iff)

lemma findDeviceByID_Some:
  "findDeviceByID db i = Some dev \<Longrightarrow> \<exists>r \<in> set (devices db). d_id r = i \<and> d_deleted r = None \<and> dev = scanDevice r"
  by (auto simp: findDeviceByID_def live_device_def dest: find_Some_in)

lemma Register_cases:
  assumes "Register s d p0 db = (r, db', au)"
  obtains "db' = db" "\<exists>e. r = Inl e"
  | p tenant dev al where "p = (if IsZero (rp_tenant p0) then p0\<lparr>rp_tenant := tenantID s\<rparr> else p0)"
      "findTenant db (rp_tenant p) = Some tenant" "register_tx s d p tenant db = Inr ((dev, al), db')" "r = Inr (dev, al)"
proof -
  let ?p = "if IsZero (rp_tenant p0) then p0\<lparr>rp_tenant := tenantID s\<rparr> else p0"
  consider e where "(r, db', au) = (Inl e, db, [])"
    | tenant dev al where "findTenant db (rp_tenant ?p) = Some tenant" "register_tx s d ?p tenant db = Inr ((dev, al), db')"
        "r = Inr (dev, al)"
    using assms unfolding Register_def Let_def
    by (auto split: option.split_asm sum.split_asm prod.split_asm simp del: if_split)
  then show thesis
  proof cases
    case 1
    with that(1) show thesis by simp
  next
    case (2 tenant dev al)
    show thesis by (rule that(2) [OF refl 2])
  qed
qed

lemma RotateKey_cases:
  assumes "RotateKey s d p db = (a, db', au)"
  obtains "db' = db" "\<exists>e. a = Inl e"
  | r tenant al where "r \<in> set (devices db)" "d_id r = ro_device p" "d_deleted r = None"
      "findTenant db (d_tenant r) = Some tenant" "rotate_tx s d p (scanDevice r) tenant db = Inr (al, db')" "a = Inr al"
proof -
  consider e where "(a, db', au) = (Inl e, db, [])"
    | dev tenant al where "findDeviceByID db (ro_device p) = Some dev" "findTenant db (d_tenant dev) = Some tenant"
        "rotate_tx s d p dev tenant db = Inr (al, db')" "a = Inr al"
    using assms unfolding RotateKey_def
    by (auto split: option.split_asm sum.split_asm prod.split_asm if_split_asm)
  then show thesis
  proof cases
    case 1
    with that(1) show thesis by simp
  next
    case (2 dev tenant al)
    from findDeviceByID_Some [OF 2(1)] obtain r where r: "r \<in> set (devices db)" "d_id r = ro_device p" "d_deleted r = None"
      "dev = scanDevice r" by blast
    with 2 show thesis by (intro that(2) [OF r(1-3)]) simp_all
  qed
qed

lemma soft_delete_row: "same_row r (if d_deleted r = None then r\<lparr>d_status := StatusRevoked, d_deleted := Some t\<rparr> else r)"
  by (simp add: same_row_def)

lemma inv_Revoke:
  assumes "Revoke t i actor why db = (e, db', au)" "dev_inv home (devices db) (dkeys db)"
  shows "dev_inv home (devices db') (dkeys db')"
proof -
  let ?f = "\<lambda>d. if d_id d = i then (if d_deleted d = None then d\<lparr>d_status := StatusRevoked, d_deleted := Some t\<rparr> else d) else d"
  from assms(1) consider "db' = db" | "db' = softDeleteDevice i t (revokeClientCerts i why t (revokeAllKeys i t db))"
    by (auto simp: Revoke_def split: if_split_asm option.split_asm)
  then show ?thesis
  proof cases
    case 2
    then have "devices db' = map ?f (devices db)" "dkeys db' = map (revoked_at i t) (dkeys db)"
      by (simp_all add: softDeleteDevice_def revokeClientCerts_def)
    moreover have "dev_inv home (map ?f (devices db)) (map (revoked_at i t) (dkeys db))"
      by (rule inv_map_devices [OF inv_revoke [OF assms(2)]]) (auto simp: same_row_def live_revoked_at)
    ultimately show ?thesis by simp
  qed (use assms(2) in simp)
qed

lemma service_inv: "service_run home db \<Longrightarrow> dev_inv home (devices db) (dkeys db)"
proof (induction rule: service_run.induct)
  case (start db)
  then show ?case by (simp add: dev_inv_defs addr_unique_def)
next
  case (register db p s d r db' au)
  from register.hyps(3) show ?case
  proof (cases rule: Register_cases)
    case (2 p' tenant dev al)
    have h: "rp_tenant p' = home (rp_user p')" using register.hyps(2) 2(1) by (auto split: if_split_asm)
    show ?thesis by (rule inv_register [OF 2(3) register.IH h findTenant_id [OF 2(2)]])
  qed (use register.IH in simp)
next
  case (rotate db s d q a db' au)
  from rotate.hyps(2) show ?case
  proof (cases rule: RotateKey_cases)
    case (2 r tenant al)
    show ?thesis by (rule inv_rotate [OF 2(5) rotate.IH 2(1,3) refl]) (simp add: findTenant_id [OF 2(4)])
  qed (use rotate.IH in simp)
next
  case (revoke db t i actor why e db' au)
  then show ?case using inv_Revoke by blast
next
  case (app_filter db i actor mode pkgs e db' au)
  then consider "db' = db" | m clean e2 where "updateAppFilter i m clean db = (e2, db')"
    by (auto simp: UpdateAppFilter_def split: if_split_asm option.split_asm sum.split_asm prod.split_asm)
  then show ?case
  proof cases
    case 2
    then show ?thesis using app_filter.IH
      by (auto simp: updateAppFilter_def Let_def intro!: inv_map_devices simp: same_row_def)
  qed (use app_filter.IH in simp)
next
  case (set_status db i st t e db')
  then show ?case
    by (auto simp: updateDeviceStatus_def Let_def intro!: inv_map_devices simp: same_row_def)
next
  case (edit db f)
  then show ?case by simp (rule inv_map_devices, auto)
qed simp

text \<open>
  C15. Whatever sequence of registrations, rotations, revocations and edits the controller serves, one
  transaction after the other (two registrations at the same time may draw one address, see
  \<open>concurrent_allocation_collides\<close>), each device has at most one live key, a revoked device has none, and no two live keys of a tenant share
  an IPv4 or an IPv6 tunnel address.
\<close>

theorem live_keys_sound:
  assumes "service_run home db" "k \<in> set (dkeys db)" "k_revoked k = None"
  shows "(\<forall>d \<in> set (devices db). d_id d = k_device k \<longrightarrow> d_deleted d = None)
    \<and> (\<forall>k' \<in> set (dkeys db). k_revoked k' = None \<and> k' \<noteq> k \<longrightarrow> k_device k' \<noteq> k_device k
        \<and> (\<forall>d \<in> set (devices db). \<forall>d' \<in> set (devices db).
             d_id d = k_device k \<and> d_id d' = k_device k' \<and> d_tenant d = d_tenant d' \<longrightarrow>
             (\<forall>b. length b = 4 \<longrightarrow> \<not> (k_ipv4 k = Some b \<and> k_ipv4 k' = Some b))
             \<and> (\<forall>b. length b = 16 \<longrightarrow> \<not> (k_ipv6 k = Some b \<and> k_ipv6 k' = Some b))))"
proof -
  from service_inv [OF assms(1)] have "live_ok (devices db) (dkeys db)"
      "addr_unique k_ipv4 4 (devices db) (dkeys db)" "addr_unique k_ipv6 16 (devices db) (dkeys db)"
    by (simp_all add: dev_inv_def)
  with assms(2,3) show ?thesis
    unfolding live_ok_def addr_unique_def same_tenant_def live_def by blast
qed

section \<open>Rotation\<close>

lemma rotate_effect:
  assumes rot: "rotate_tx s d p (scanDevice r) tenant db = Inr (al, db')" and i: "d_id r = i"
  shows "\<exists>a0. allocateAndIssueWithReserved s d (scanDevice r) (ro_public_key p) tenant
      (case findActiveKey db i of None \<Rightarrow> NoAddr | Some k \<Rightarrow> ks_ipv4 k)
      (case findActiveKey db i of None \<Rightarrow> NoAddr | Some k \<Rightarrow> ks_ipv6 k)
      (ro_csr p) (ro_ciphertext p) (revokeAllKeys i (dr_dbnow d) db) = Inr (a0, db') \<and> al_psk al = al_psk a0"
  using rot unfolding rotate_tx_def Let_def and_then_Inr split_paired_Ex prod.case scanDevice_sel i by auto

lemma the_active_key:
  assumes "live_ok ds (dkeys db)" "row \<in> set (dkeys db)" "live row" "k_device row = i"
  shows "findActiveKey db i = Some (scanDeviceKey row)"
proof (cases "findActiveKey db i")
  case None
  with findActiveKey_None [OF None assms(2,3)] assms(4) show ?thesis by simp
next
  case (Some k)
  from findActiveKey_Some [OF Some] assms show ?thesis unfolding live_ok_def Some by blast
qed

text \<open>
  C16. Rotation keeps the device's address: the old key is revoked and exactly one new key is stored,
  live, with the new public key, which no key ever had before, and the IPv4 address of the old one;
  the new pre-shared key belongs to it. Devices and the keys of other devices stay as they are.
\<close>

theorem rotation_keeps_address:
  assumes "service_run home db" "RotateKey s d p db = (Inr al, db', au)"
    and "row \<in> set (dkeys db)" "k_revoked row = None" "k_device row = ro_device p" "k_ipv4 row = Some b" "length b = 4"
  shows "\<exists>new. dkeys db' = map (\<lambda>k. if k_device k = ro_device p \<and> k_revoked k = None
          then k\<lparr>k_revoked := Some (dr_dbnow d)\<rparr> else k) (dkeys db) @ [new]
      \<and> k_revoked new = None \<and> k_device new = ro_device p \<and> k_ipv4 new = Some b
      \<and> k_public new = ro_public_key p \<and> ro_public_key p \<notin> k_public ` set (dkeys db)
      \<and> devices db' = devices db \<and> al_psk al \<in> set (psks db') \<and> p_device_key (al_psk al) = k_id new"
  using assms(2)
proof (cases rule: RotateKey_cases)
  case (2 r tenant al')
  from rotate_effect [OF 2(5,2)] 2(6) obtain a0 where iss: "allocateAndIssueWithReserved s d (scanDevice r) (ro_public_key p) tenant
      (case findActiveKey db (ro_device p) of None \<Rightarrow> NoAddr | Some k \<Rightarrow> ks_ipv4 k)
      (case findActiveKey db (ro_device p) of None \<Rightarrow> NoAddr | Some k \<Rightarrow> ks_ipv6 k)
      (ro_csr p) (ro_ciphertext p) (revokeAllKeys (ro_device p) (dr_dbnow d) db) = Inr (a0, db')" and al: "al_psk al = al_psk a0"
    by blast
  have "live_ok (devices db) (dkeys db)" using service_inv [OF assms(1)] by (simp add: dev_inv_def)
  from the_active_key [OF this assms(3) _ assms(5)] assms(4)
  have act: "findActiveKey db (ro_device p) = Some (scanDeviceKey row)" by (simp add: live_def)
  have old: "ks_ipv4 (scanDeviceKey row) = from4 b" using assms(6,7) by (simp add: scanDeviceKey_def scan_ip_def IPFromBytes_def)
  have b: "IPToBytes (from4 b) = Some b" "addr_valid (from4 b)"
    using assms(7) by (simp_all add: from4_def IPToBytes_def addr_valid_def as4_from4)
  from issue_effect [OF iss] obtain pool4 v4 new where
      p4: "pick_v4 (revokeAllKeys (ro_device p) (dr_dbnow d) db) tenant (from4 b) pool4 = Inr v4"
      and ds: "devices db' = devices db"
      and ks: "dkeys db' = map (revoked_at (ro_device p) (dr_dbnow d)) (dkeys db) @ [new]"
      and new: "k_public new \<notin> k_public ` set (map (revoked_at (ro_device p) (dr_dbnow d)) (dkeys db))"
        "k_device new = ro_device p" "k_public new = ro_public_key p" "live new" "k_ipv4 new = IPToBytes v4"
      and psk: "psks db' = psks (revokeAllKeys (ro_device p) (dr_dbnow d) db) @ [al_psk a0]" "p_device_key (al_psk a0) = k_id new"
    unfolding act option.case old revokeAllKeys_sel scanDevice_sel 2(2) by blast
  have "v4 = from4 b" using p4 b(2) by (simp add: pick_v4_def)
  then have "k_ipv4 new = Some b" using new(5) b(1) by simp
  moreover have "ro_public_key p \<notin> k_public ` set (dkeys db)" using new(1,3) by (simp add: image_image)
  ultimately show ?thesis
    using ds ks new psk al by (intro exI [of _ new]) (simp add: revoked_at_def [abs_def] live_def)
qed simp

section \<open>Revocation\<close>

lemma Revoke_tables:
  assumes "Revoke t i actor why db = (None, db', au)"
  shows "devices db' = map (\<lambda>d. if d_id d = i then
      (if d_deleted d = None then d\<lparr>d_status := StatusRevoked, d_deleted := Some t\<rparr> else d) else d) (devices db)"
    "dkeys db' = map (revoked_at i t) (dkeys db)"
    "certs db' = map (\<lambda>c. if c_device c = i \<and> c_revoked c = None
      then c\<lparr>c_revoked := Some t, c_reason := Some (revocation_reason why)\<rparr> else c) (certs db)"
    "tenants db' = tenants db"
  using assms
  by (auto simp: Revoke_def softDeleteDevice_def revokeClientCerts_def set_device_def split: if_split_asm option.split_asm)

lemma Revoke_rest:
  assumes "Revoke t i actor why db = (None, db', au)"
  shows "psks db' = psks db" "attestations db' = attestations db" "state_tokens db' = state_tokens db"
  using assms
  by (auto simp: Revoke_def softDeleteDevice_def revokeClientCerts_def set_device_def revokeAllKeys_def
      split: if_split_asm option.split_asm)

lemma filter_map_unchanged: "(\<And>x. \<not> P x \<Longrightarrow> \<not> P (f x)) \<Longrightarrow> (\<And>x. P x \<Longrightarrow> f x = x) \<Longrightarrow> filter P (map f xs) = filter P xs"
  by (induction xs) auto

text \<open>
  C17. After a revocation the device is not found by its identifier and is in no list of a tenant or of a
  user (only a new registration of the same installation finds its row again), it has no live key and no
  live certificate, the certificates revoked now carry the operator's reason (cut to 128 bytes, never
  empty), those revoked before keep what they had, and no further rotation succeeds. Nothing of another
  device changed: not its row, its keys, its certificates; no pre-shared key, state token, attestation
  record or tenant changed at all.
\<close>

theorem revocation_complete:
  assumes "Revoke t i actor why db = (None, db', au)"
  shows "findDeviceByID db' i = None \<and> Devices.Get i db' = Inl NotFound
    \<and> (\<forall>ten. i \<notin> d_id ` set (listDevicesByTenant db' ten)) \<and> (\<forall>u. i \<notin> d_id ` set (listDevicesByUser db' u))
    \<and> (\<forall>k \<in> set (dkeys db'). k_device k = i \<longrightarrow> k_revoked k \<noteq> None)
    \<and> (\<forall>c \<in> set (certs db'). c_device c = i \<longrightarrow> c_revoked c \<noteq> None)
    \<and> (\<forall>c \<in> set (certs db). c_device c = i \<longrightarrow>
         (if c_revoked c = None
          then c\<lparr>c_revoked := Some t, c_reason := Some (take 128 (if why = [] then ''unspecified'' else why))\<rparr> else c) \<in> set (certs db'))
    \<and> (\<forall>s d p. ro_device p = i \<longrightarrow> (\<exists>e. fst (RotateKey s d p db') = Inl e))
    \<and> filter (\<lambda>d. d_id d \<noteq> i) (devices db') = filter (\<lambda>d. d_id d \<noteq> i) (devices db)
    \<and> filter (\<lambda>k. k_device k \<noteq> i) (dkeys db') = filter (\<lambda>k. k_device k \<noteq> i) (dkeys db)
    \<and> filter (\<lambda>c. c_device c \<noteq> i) (certs db') = filter (\<lambda>c. c_device c \<noteq> i) (certs db)
    \<and> psks db' = psks db \<and> state_tokens db' = state_tokens db \<and> attestations db' = attestations db \<and> tenants db' = tenants db"
proof -
  let ?sd = "\<lambda>d. if d_deleted d = None then d\<lparr>d_status := StatusRevoked, d_deleted := Some t\<rparr> else d"
  let ?rc = "\<lambda>c. if c_device c = i \<and> c_revoked c = None
      then c\<lparr>c_revoked := Some t, c_reason := Some (revocation_reason why)\<rparr> else c"
  note ds = Revoke_tables(1) [OF assms] and ks = Revoke_tables(2) [OF assms] and cs = Revoke_tables(3) [OF assms]
  have dead: "\<not> (d_id d = i \<and> d_deleted d = None)" if "d \<in> set (devices db')" for d
  proof -
    from that obtain r where "d = (if d_id r = i then ?sd r else r)" unfolding ds set_map by (rule imageE)
    then show ?thesis by (cases "d_id r = i"; cases "d_deleted r = None") simp_all
  qed
  then have gone: "findDeviceByID db' i = None"
    by (simp add: findDeviceByID_def live_device_def find_None_iff)
  moreover from gone have "Devices.Get i db' = Inl NotFound" by (simp add: Devices.Get_def)
  moreover have "i \<notin> d_id ` set (listDevicesByTenant db' ten)" for ten
  proof
    assume "i \<in> d_id ` set (listDevicesByTenant db' ten)"
    then obtain d where "d \<in> set (devices db')" "d_id d = i" "d_deleted d = None"
      by (auto simp: listDevicesByTenant_def newest_first_def)
    with dead [of d] show False by simp
  qed
  moreover have "i \<notin> d_id ` set (listDevicesByUser db' u)" for u
  proof
    assume "i \<in> d_id ` set (listDevicesByUser db' u)"
    then obtain d where "d \<in> set (devices db')" "d_id d = i" "d_deleted d = None"
      by (auto simp: listDevicesByUser_def newest_first_def)
    with dead [of d] show False by simp
  qed
  moreover have "\<forall>k \<in> set (dkeys db'). k_device k = i \<longrightarrow> k_revoked k \<noteq> None"
    unfolding ks set_map ball_simps by (simp add: revoked_at_def)
  moreover have "\<forall>c \<in> set (certs db'). c_device c = i \<longrightarrow> c_revoked c \<noteq> None"
    unfolding cs set_map ball_simps by simp
  moreover have "?rc c \<in> set (certs db')" if "c \<in> set (certs db)" for c
    using that by (simp add: cs)
  then have "\<forall>c \<in> set (certs db). c_device c = i \<longrightarrow>
         (if c_revoked c = None
          then c\<lparr>c_revoked := Some t, c_reason := Some (take 128 (if why = [] then ''unspecified'' else why))\<rparr> else c) \<in> set (certs db')"
    by (fastforce simp: revocation_reason_def)
  moreover have "\<exists>e. fst (RotateKey s d p db') = Inl e" if "ro_device p = i" for s d p
    using gone that by (simp add: RotateKey_def)
  moreover have "filter (\<lambda>d. d_id d \<noteq> i) (devices db') = filter (\<lambda>d. d_id d \<noteq> i) (devices db)"
    unfolding ds by (rule filter_map_other) (simp_all split: if_split_asm)
  moreover have "filter (\<lambda>k. k_device k \<noteq> i) (dkeys db') = filter (\<lambda>k. k_device k \<noteq> i) (dkeys db)"
    unfolding ks by (rule filter_map_other) (simp_all add: revoked_at_def)
  moreover have "filter (\<lambda>c. c_device c \<noteq> i) (certs db') = filter (\<lambda>c. c_device c \<noteq> i) (certs db)"
    unfolding cs by (rule filter_map_unchanged) simp_all
  ultimately show ?thesis using Revoke_rest [OF assms] Revoke_tables(4) [OF assms] by blast
qed

section \<open>Pre-shared keys\<close>










section \<open>Re-registration\<close>

text \<open>
  A device that registers again becomes active whatever its status was, and before its attestation is
  looked at: a suspension does not survive it, and the promotion after a passed attestation never
  runs.
\<close>

lemma reregistration_activates:
  assumes "Register s d p db = (Inr (dev, al), db', au)" "findDeviceByInstall db (rp_user p) (rp_install p) = Some dev0"
  shows "d_status dev = StatusActive \<and> d_id dev = d_id dev0"
  using assms(1)
proof (cases rule: Register_cases)
  case (2 p' tenant dev' al')
  from register_tx_Inr [OF 2(3)] 2(4) obtain att pi db1 where "upsert s d p' db = Inr (dev, att, pi, db1)" by blast
  moreover have "findDeviceByInstall db (rp_user p') (rp_install p') = Some dev0" using assms(2) by (simp add: 2(1))
  ultimately have "register_existing s d p' dev0 db = Inr (dev, att, pi, db1)" by (simp add: upsert_def)
  with readmitted_exists show ?thesis by blast
qed simp

text \<open>Two registrations that read the addresses in use before either stores its key pick the same one.\<close>

lemma concurrent_allocation_collides:
  assumes "used_ipv4 (devices db1) (dkeys db1) (tn_id t) = used_ipv4 (devices db) (dkeys db) (tn_id t)"
  shows "pick_v4 db t NoAddr pool = pick_v4 db1 t NoAddr pool"
  using assms by (simp add: pick_v4_def)

section \<open>The application filter\<close>

lemma clean_packages_Inr:
  assumes "clean_packages acc pkgs = Inr clean" "distinct acc" "\<forall>p \<in> set acc. validatePackageName p = None"
  shows "distinct clean \<and> (\<forall>p \<in> set clean. validatePackageName p = None)
    \<and> set clean = set acc \<union> {trim_space raw |raw. raw \<in> set pkgs \<and> trim_space raw \<noteq> []}"
  using assms
proof (induction acc pkgs rule: clean_packages.induct)
  case (2 acc raw rest)
  let ?p = "trim_space raw"
  show ?case
  proof (cases "?p = []")
    case True
    with 2 show ?thesis by (auto simp: Let_def)
  next
    case False
    with 2(3) have ok: "validatePackageName ?p = None"
      and r: "clean_packages (if ?p \<in> set acc then acc else acc @ [?p]) rest = Inr clean"
      by (auto simp: Let_def split: option.split_asm)
    from 2(2) [OF refl False ok r] 2(4,5) ok have ih: "distinct clean \<and> (\<forall>p \<in> set clean. validatePackageName p = None)
        \<and> set clean = set (if ?p \<in> set acc then acc else acc @ [?p]) \<union> {trim_space raw |raw. raw \<in> set rest \<and> trim_space raw \<noteq> []}"
      by (cases "?p \<in> set acc") simp_all
    with False show ?thesis by (cases "?p \<in> set acc") auto
  qed
qed simp

text \<open>
  A saved application filter is normal: the stored list is without duplicates, holds exactly the
  trimmed nonempty names that were sent, all of them well formed, and is empty in mode \<open>off\<close>. Nothing
  but this device's filter changes.
\<close>

theorem app_filter_normal:
  assumes "UpdateAppFilter i actor mode packages db = (None, db', au)"
  shows "\<exists>m clean. filter_mode mode = Some m \<and> distinct clean \<and> (\<forall>p \<in> set clean. validatePackageName p = None)
    \<and> set clean = (if m = AppFilterOff then {} else {trim_space raw |raw. raw \<in> set packages \<and> trim_space raw \<noteq> []})
    \<and> db' = db\<lparr>devices := map (\<lambda>d. if d_id d = i \<and> d_deleted d = None
         then d\<lparr>d_filter_mode := m, d_filter_packages := clean\<rparr> else d) (devices db)\<rparr>"
proof -
  from assms obtain m clean where m: "filter_mode mode = Some m"
      and c: "(if m = AppFilterOff then Inr [] else clean_packages [] packages) = Inr clean"
      and u: "updateAppFilter i m clean db = (None, db')"
    unfolding UpdateAppFilter_def by (auto split: if_split_asm option.split_asm sum.split_asm prod.split_asm)
  have "distinct clean \<and> (\<forall>p \<in> set clean. validatePackageName p = None)
      \<and> set clean = (if m = AppFilterOff then {} else {trim_space raw |raw. raw \<in> set packages \<and> trim_space raw \<noteq> []})"
  proof (cases "m = AppFilterOff")
    case False
    with c have "clean_packages [] packages = Inr clean" by simp
    from clean_packages_Inr [OF this] False show ?thesis by simp
  qed (use c in simp)
  moreover have "db' = db\<lparr>devices := map (\<lambda>d. if d_id d = i \<and> d_deleted d = None
         then d\<lparr>d_filter_mode := m, d_filter_packages := clean\<rparr> else d) (devices db)\<rparr>"
    using u by (simp add: updateAppFilter_def Let_def)
  ultimately show ?thesis using m by blast
qed

section \<open>A concrete controller\<close>

definition demo_service :: Service where
  "demo_service = \<lparr>tenantID = demo_id 9, keyLifetime = 24 * hour, attestation = None, playIntegrity = None, kem = None,
     prims = toy, authority = demo_ca, CACertPEM = [], pem_decode = (\<lambda>_. None), parse_csr = (\<lambda>_. Inl ''''),
     sha256 = demo_sha, raw_url_b64 = (\<lambda>_. ''t''), utf8 = (\<lambda>_. True)\<rparr>"

definition demo_draws :: "nat \<Rightarrow> draws" where
  "demo_draws n = \<lparr>dr_now = 1, dr_clock = 1, dr_dbnow = 1, dr_device = demo_id (of_nat (10 * n + 1)),
     dr_record = demo_id (of_nat (10 * n + 2)), dr_key = demo_id (of_nat (10 * n + 3)),
     dr_psk = demo_id (of_nat (10 * n + 4)), dr_cert = demo_id (of_nat (10 * n + 5)),
     dr_psk_bytes = Some [of_nat n], dr_state = Some [], dr_control_key = Some (Ed25519 []),
     dr_serial = Some (of_nat n)\<rparr>"

definition demo_params :: RegisterParams where
  "demo_params = \<lparr>rp_tenant = Zero, rp_user = demo_id 3, rp_install = ''i'', rp_name = ''p'', rp_platform = ''android'',
     rp_os_version = [], rp_app_version = [], rp_model = [], rp_os_sdk = 0, rp_public_key = replicate 32 1,
     rp_token = [], rp_chain = [], rp_mode = [], rp_host = [], rp_ciphertext = [], rp_csr = []\<rparr>"

definition demo_rotation :: RotateKeyParams where
  "demo_rotation = \<lparr>ro_device = demo_id 11, ro_public_key = replicate 32 2, ro_ciphertext = [], ro_csr = []\<rparr>"

definition demo_db :: DB where
  "demo_db = \<lparr>devices = [], dkeys = [], psks = [], certs = [], attestations = [], state_tokens = [],
     tenants = [\<lparr>t_id = demo_id 9, t_v4 = [10, 78, 0, 0], t_v4_bits = 24, t_v6 = None, t_v6_bits = None, t_expiry_days = 0, t_min_os_sdk = 0, t_deleted = None\<rparr>]\<rparr>"

definition demo_db1 :: DB where
  "demo_db1 = fst (snd (Register demo_service (demo_draws 1) demo_params demo_db))"

lemma demo_all:
  "case Register demo_service (demo_draws 1) demo_params demo_db of (r, db', au) \<Rightarrow>
     (case r of Inl _ \<Rightarrow> False | Inr (dev, al) \<Rightarrow> True)
     \<and> map (\<lambda>k. (k_device k, k_ipv4 k, k_revoked k)) (dkeys db') = [(demo_id 11, Some [10, 78, 0, 2], None)]
     \<and> map (\<lambda>d. (d_id d, d_deleted d, d_filter_mode d)) (devices db') = [(demo_id 11, None, AppFilterOff)]
     \<and> (case RotateKey demo_service (demo_draws 2) demo_rotation db' of (r, db'', au) \<Rightarrow>
          (case r of Inl _ \<Rightarrow> False | Inr _ \<Rightarrow> True))"
  by code_simp

lemma demo_registers:
  "\<exists>dev al au. Register demo_service (demo_draws 1) demo_params demo_db = (Inr (dev, al), demo_db1, au)"
  using demo_all by (cases "Register demo_service (demo_draws 1) demo_params demo_db")
    (auto simp: demo_db1_def split: sum.split_asm)

lemma demo_keys1: "map (\<lambda>k. (k_device k, k_ipv4 k, k_revoked k)) (dkeys demo_db1) = [(demo_id 11, Some [10, 78, 0, 2], None)]"
  and demo_devices1: "map (\<lambda>d. (d_id d, d_deleted d, d_filter_mode d)) (devices demo_db1) = [(demo_id 11, None, AppFilterOff)]"
  and demo_rotates: "case RotateKey demo_service (demo_draws 2) demo_rotation demo_db1 of (r, db', au) \<Rightarrow> (case r of Inl _ \<Rightarrow> False | Inr _ \<Rightarrow> True)"
  using demo_all by (cases "Register demo_service (demo_draws 1) demo_params demo_db", simp add: demo_db1_def)+

lemma demo_device:
  obtains r where "devices demo_db1 = [r]" "d_id r = demo_id 11" "d_deleted r = None" "d_filter_mode r = AppFilterOff"
  using demo_devices1 by auto

lemma demo_found: "\<not> IsZero (demo_id 11)" "\<exists>dev. findDeviceByID demo_db1 (demo_id 11) = Some dev"
proof -
  show "\<not> IsZero (demo_id 11)" by (simp add: demo_id_def IsZero_def)
  obtain r where "devices demo_db1 = [r]" "d_id r = demo_id 11" "d_deleted r = None" by (rule demo_device)
  then show "\<exists>dev. findDeviceByID demo_db1 (demo_id 11) = Some dev" by (simp add: findDeviceByID_def live_device_def)
qed

lemma demo_revokes: "fst (Revoke 5 (demo_id 11) Zero [] demo_db1) = None"
  using demo_found by (auto simp: Revoke_def)

lemma demo_filters: "fst (UpdateAppFilter (demo_id 11) Zero ''include'' [''com.a''] demo_db1) = None"
proof -
  have t: "trim_space ''com.a'' = ''com.a''" by (rule trim_space_plain) (simp add: plain_char_def)
  have "validatePackageName ''com.a'' = None" by code_simp
  then have c: "clean_packages [] [''com.a''] = Inr [''com.a'']" by (simp add: t)
  obtain r where "devices demo_db1 = [r]" "d_id r = demo_id 11" "d_deleted r = None" "d_filter_mode r = AppFilterOff"
    by (rule demo_device)
  then have "fst (updateAppFilter (demo_id 11) AppFilterInclude [''com.a''] demo_db1) = None"
    by (simp add: updateAppFilter_def)
  with c demo_found show ?thesis
    by (auto simp: UpdateAppFilter_def filter_mode_def split: prod.split option.split)
qed

lemma demo_run: "service_run (\<lambda>_. demo_id 9) demo_db1"
proof -
  obtain r au where reg: "Register demo_service (demo_draws 1) demo_params demo_db = (r, demo_db1, au)"
    using demo_registers by blast
  have "service_run (\<lambda>_. demo_id 9) demo_db" by (rule service_run.start) (simp_all add: demo_db_def)
  moreover have "(if IsZero (rp_tenant demo_params) then tenantID demo_service else rp_tenant demo_params) = demo_id 9" by code_simp
  ultimately show ?thesis using reg by (rule service_run.register)
qed

theorem live_keys_sound_witness:
  "\<exists>k \<in> set (dkeys demo_db1). k_revoked k = None \<and> (\<forall>d \<in> set (devices demo_db1). d_id d = k_device k \<longrightarrow> d_deleted d = None)"
proof -
  obtain k where k: "dkeys demo_db1 = [k]" "k_revoked k = None" using demo_keys1 by auto
  then have "k \<in> set (dkeys demo_db1)" by simp
  with live_keys_sound [OF demo_run this k(2)] k(2) show ?thesis by blast
qed

theorem rotation_keeps_address_witness:
  "\<exists>al db' au new. RotateKey demo_service (demo_draws 2) demo_rotation demo_db1 = (Inr al, db', au)
     \<and> new \<in> set (dkeys db') \<and> k_revoked new = None \<and> k_ipv4 new = Some [10, 78, 0, 2]"
proof -
  obtain al db' au where r: "RotateKey demo_service (demo_draws 2) demo_rotation demo_db1 = (Inr al, db', au)"
    using demo_rotates by (auto split: prod.split_asm sum.split_asm)
  obtain k where k: "dkeys demo_db1 = [k]" "k_revoked k = None" "k_device k = demo_id 11" "k_ipv4 k = Some [10, 78, 0, 2]"
    using demo_keys1 by auto
  have d: "k \<in> set (dkeys demo_db1)" "k_device k = ro_device demo_rotation" "length [10, 78, 0, 2 :: byte] = 4"
    using k by (simp_all add: demo_rotation_def)
  from rotation_keeps_address [OF demo_run r d(1) k(2) d(2) k(4) d(3)] obtain new xs where
      n: "dkeys db' = xs @ [new]" "k_revoked new = None" "k_ipv4 new = Some [10, 78, 0, 2]" by blast
  from n(1) have "new \<in> set (dkeys db')" by simp
  with r n show ?thesis by blast
qed

theorem revocation_complete_witness:
  "\<exists>db' au. Revoke 5 (demo_id 11) Zero [] demo_db1 = (None, db', au) \<and> findDeviceByID db' (demo_id 11) = None"
proof -
  obtain db' au where r: "Revoke 5 (demo_id 11) Zero [] demo_db1 = (None, db', au)"
    using demo_revokes by (metis prod.collapse)
  with revocation_complete [OF r] show ?thesis by blast
qed




theorem app_filter_normal_witness:
  "\<exists>db' au. UpdateAppFilter (demo_id 11) Zero ''include'' [''com.a''] demo_db1 = (None, db', au)
     \<and> dkeys db' = dkeys demo_db1"
proof -
  obtain db' au where r: "UpdateAppFilter (demo_id 11) Zero ''include'' [''com.a''] demo_db1 = (None, db', au)"
    using demo_filters by (metis prod.collapse)
  from app_filter_normal [OF r] have "dkeys db' = dkeys demo_db1" by auto
  with r show ?thesis by blast
qed

end
