(* ===== verification/AuditLog.thy ===== *)
theory AuditLog
  imports GoText Ident "HOL-Library.Multiset"
begin

text \<open>
  The hash-chained audit log (\<open>audit/audit.go\<close>): the canonical JSON of an entry, the append, the
  verification walk in batches, and the paged listing.  SHA-256 and \<open>encoding/json\<close> on the details
  column are arguments.  A row's sequence number is a natural number: AUTO_INCREMENT fails before
  it wraps.  The tables of the database are lists; the append runs under the lock of the chain's
  last row, so it is one step.
\<close>

section \<open>Canonical JSON\<close>

text \<open>
  A generic JSON value.  A number is a \<open>float64\<close>: one that equals its \<open>int64\<close> conversion, or another
  one with its shortest text.  An object lists the members of a Go map in any order.
\<close>

datatype json = JNull | JBool bool | JInt int | JFloat string | JString string | JArray "json list"
  | JObject "(string \<times> json) list"

definition u_escape :: "nat \<Rightarrow> string" where \<comment> \<open>a backslash, \<open>u\<close> and four digits\<close>
  "u_escape n = [char_of (92 :: nat), CHR ''u'', hex_char (n div 4096 mod 16), hex_char (n div 256 mod 16),
     hex_char (n div 16 mod 16), hex_char (n mod 16)]"

definition json_char :: "char \<Rightarrow> string" where
  "json_char c = (let n = of_char c :: nat; bs = char_of (92 :: nat) in
     if [c] = dq \<or> n = 92 then [bs, c]
     else if n = 8 then [bs, CHR ''b''] else if n = 12 then [bs, CHR ''f'']
     else if n = 10 then [bs, CHR ''n''] else if n = 13 then [bs, CHR ''r''] else if n = 9 then [bs, CHR ''t'']
     else if n < 32 \<or> c = CHR ''<'' \<or> c = CHR ''>'' \<or> c = CHR ''&'' then u_escape n
     else [c])"

text \<open>\<open>json.Marshal\<close> of a valid UTF-8 string; the two line separators of Unicode are escaped.\<close>

fun json_chars :: "string \<Rightarrow> string" where
  "json_chars [] = []"
| "json_chars (c # s) =
     (if take 3 (c # s) = map char_of [0xE2, 0x80, 0xA8 :: nat] then u_escape 0x2028 @ json_chars (drop 2 s)
      else if take 3 (c # s) = map char_of [0xE2, 0x80, 0xA9 :: nat] then u_escape 0x2029 @ json_chars (drop 2 s)
      else json_char c @ json_chars s)"

definition json_string :: "string \<Rightarrow> string" where "json_string s = dq @ json_chars s @ dq"

definition member_text :: "string \<times> string \<Rightarrow> string" where
  "member_text kv = json_string (fst kv) @ '':'' @ snd kv"

primrec canonicalEncode :: "json \<Rightarrow> string" where
  "canonicalEncode JNull = ''null''"
| "canonicalEncode (JBool b) = (if b then ''true'' else ''false'')"
| "canonicalEncode (JInt n) = int_str n"
| "canonicalEncode (JFloat t) = t"
| "canonicalEncode (JString s) = json_string s"
| "canonicalEncode (JArray xs) = ''['' @ join '','' (map canonicalEncode xs) @ '']''"
| "canonicalEncode (JObject ms) =
     ''{'' @ join '','' (map member_text (sort_key fst (map (map_prod id canonicalEncode) ms))) @ ''}''"

section \<open>Timestamps\<close>

text \<open>\<open>time.RFC3339Nano\<close> in UTC; \<open>civil\<close> is the date of a day counted from the Unix epoch.\<close>

definition civil :: "int \<Rightarrow> int \<times> int \<times> int" where
  "civil days =
     (let z = days + 719468; era = z div 146097; doe = z mod 146097;
          yoe = (doe - doe div 1460 + doe div 36524 - doe div 146096) div 365;
          doy = doe - (365 * yoe + yoe div 4 - yoe div 100);
          mp = (5 * doy + 2) div 153;
          m = (if mp < 10 then mp + 3 else mp - 9)
      in (yoe + era * 400 + (if m \<le> 2 then 1 else 0), m, doy - (153 * mp + 2) div 5 + 1))"

definition padded :: "nat \<Rightarrow> int \<Rightarrow> string" where
  "padded w n = (let s = nat_str (nat n) in replicate (w - length s) (CHR ''0'') @ s)"

definition fraction :: "int \<Rightarrow> string" where \<comment> \<open>the nanoseconds without trailing zeros\<close>
  "fraction ns = (let s = rev (dropWhile (\<lambda>c. c = CHR ''0'') (rev (padded 9 ns))) in if s = [] then [] else ''.'' @ s)"

definition rfc3339 :: "time \<Rightarrow> string" where
  "rfc3339 t = (let s = t div second; d = s div 86400; r = s mod 86400 in
     case civil d of (y, m, dd) \<Rightarrow>
       padded 4 y @ ''-'' @ padded 2 m @ ''-'' @ padded 2 dd @ ''T'' @ padded 2 (r div 3600) @ '':''
       @ padded 2 (r div 60 mod 60) @ '':'' @ padded 2 (r mod 60) @ fraction (t mod second) @ ''Z'')"

definition year_ok :: "time \<Rightarrow> bool" where \<comment> \<open>\<open>Time.MarshalJSON\<close> refuses other years\<close>
  "year_ok t = (case civil (t div second div 86400) of (y, _, _) \<Rightarrow> 0 \<le> y \<and> y < 10000)"

section \<open>Entries and rows\<close>

record Entry =
  e_id :: ID
  e_tenant :: ID
  e_kind :: string
  e_actor :: "ID option"
  e_action :: string
  e_target_kind :: string
  e_target :: "ID option"
  e_details :: "(string \<times> json) list option"
  e_time :: time

definition id_json :: "ID \<Rightarrow> json" where "id_json i = JString (string_of_bytes (MarshalText i))"

definition entry_json :: "Entry \<Rightarrow> json" where
  "entry_json e = JObject (
     [(''id'', id_json (e_id e)), (''tenant_id'', id_json (e_tenant e)), (''actor_kind'', JString (e_kind e))]
     @ (case e_actor e of None \<Rightarrow> [] | Some i \<Rightarrow> [(''actor_id'', id_json i)])
     @ [(''action'', JString (e_action e))]
     @ (if e_target_kind e = [] then [] else [(''target_kind'', JString (e_target_kind e))])
     @ (case e_target e of None \<Rightarrow> [] | Some i \<Rightarrow> [(''target_id'', id_json i)])
     @ (case e_details e of Some (m # ms) \<Rightarrow> [(''details'', JObject (m # ms))] | _ \<Rightarrow> [])
     @ [(''occurred_at'', JString (rfc3339 (e_time e)))])"

definition canonicalJSON :: "Entry \<Rightarrow> bytes option" where
  "canonicalJSON e = (if year_ok (e_time e) then Some (bytes_of_string (canonicalEncode (entry_json e))) else None)"

record AuditRow =
  r_seq :: nat
  r_id :: ID
  r_tenant :: ID
  r_kind :: string
  r_actor :: "ID option"
  r_action :: string
  r_target_kind :: "string option"
  r_target :: "ID option"
  r_details :: "string option"
  r_prev :: "bytes option"
  r_hash :: bytes
  r_time :: time

record json_lib =
  marshal :: "(string \<times> json) list \<Rightarrow> string"
  unmarshal :: "string \<Rightarrow> string + (string \<times> json) list"

datatype audit_error = ActionRequired | TenantRequired | KindRequired | CanonicalFailed | DetailsFailed nat string

definition last_row :: "AuditRow list \<Rightarrow> AuditRow option" where \<comment> \<open>\<open>ORDER BY seq DESC LIMIT 1\<close>\<close>
  "last_row rows = (case rev (sort_key r_seq rows) of [] \<Rightarrow> None | r # _ \<Rightarrow> Some r)"

definition tail_hash :: "AuditRow list \<Rightarrow> bytes" where \<comment> \<open>what the hash absorbs; nothing for nil\<close>
  "tail_hash rows = (case last_row rows of None \<Rightarrow> [] | Some r \<Rightarrow> r_hash r)"

section \<open>Append\<close>

definition micro :: "time \<Rightarrow> time" where "micro t = t - t mod 1000"

definition filled :: "ID \<Rightarrow> time \<Rightarrow> Entry \<Rightarrow> Entry" where
  "filled newID now e =
     (let e1 = (if IsZero (e_id e) then e\<lparr>e_id := newID\<rparr> else e);
          e2 = (if e_time e1 = zero_time then e1\<lparr>e_time := now\<rparr> else e1)
      in e2\<lparr>e_time := micro (e_time e2)\<rparr>)"

definition row_of :: "json_lib \<Rightarrow> nat \<Rightarrow> bytes option \<Rightarrow> bytes \<Rightarrow> Entry \<Rightarrow> AuditRow" where
  "row_of lib seq prev hash e =
     \<lparr>r_seq = seq, r_id = e_id e, r_tenant = e_tenant e, r_kind = e_kind e, r_actor = e_actor e,
      r_action = e_action e, r_target_kind = (if e_target_kind e = [] then None else Some (e_target_kind e)),
      r_target = e_target e, r_details = map_option (marshal lib) (e_details e), r_prev = prev,
      r_hash = hash, r_time = e_time e\<rparr>"

definition Append :: "json_lib \<Rightarrow> (bytes \<Rightarrow> bytes) \<Rightarrow> ID \<Rightarrow> time \<Rightarrow> nat \<Rightarrow> Entry \<Rightarrow> AuditRow list
    \<Rightarrow> audit_error option \<times> AuditRow list" where
  "Append lib sha newID now seq e0 rows =
     (let e = filled newID now e0 in
      if e_action e = [] then (Some ActionRequired, rows)
      else if IsZero (e_tenant e) then (Some TenantRequired, rows)
      else if e_kind e = [] then (Some KindRequired, rows)
      else case canonicalJSON e of
        None \<Rightarrow> (Some CanonicalFailed, rows)
      | Some canon \<Rightarrow>
          (None, rows @ [row_of lib seq (map_option r_hash (last_row rows)) (sha (tail_hash rows @ canon)) e]))"

section \<open>Verify\<close>

definition row_entry :: "json_lib \<Rightarrow> AuditRow \<Rightarrow> audit_error + Entry" where
  "row_entry lib r =
     and_then (case r_details r of
         None \<Rightarrow> Inr None
       | Some t \<Rightarrow> (case unmarshal lib t of Inl e \<Rightarrow> Inl (DetailsFailed (r_seq r) e) | Inr d \<Rightarrow> Inr (Some d))) (\<lambda>d.
       Inr \<lparr>e_id = r_id r, e_tenant = r_tenant r, e_kind = r_kind r, e_actor = r_actor r, e_action = r_action r,
         e_target_kind = (case r_target_kind r of None \<Rightarrow> [] | Some k \<Rightarrow> k), e_target = r_target r, e_details = d,
         e_time = r_time r\<rparr>)"

datatype walk = Stop "audit_error + Entry option" | Intact bytes

fun verify_rows :: "json_lib \<Rightarrow> (bytes \<Rightarrow> bytes) \<Rightarrow> bytes \<Rightarrow> AuditRow list \<Rightarrow> walk" where
  "verify_rows lib sha prev [] = Intact prev"
| "verify_rows lib sha prev (r # rs) =
     (case row_entry lib r of
        Inl err \<Rightarrow> Stop (Inl err)
      | Inr e \<Rightarrow> (case canonicalJSON e of
          None \<Rightarrow> Stop (Inl CanonicalFailed)
        | Some canon \<Rightarrow> if r_hash r \<noteq> sha (prev @ canon) then Stop (Inr (Some e))
                        else verify_rows lib sha (r_hash r) rs))"

text \<open>The rows of one query: from the cursor on, at most \<open>toSeq\<close> (0: unbounded), in order.\<close>

definition segment :: "nat \<Rightarrow> nat \<Rightarrow> AuditRow list \<Rightarrow> AuditRow list" where
  "segment cursor toSeq rows = sort_key r_seq (filter (\<lambda>r. cursor \<le> r_seq r \<and> (toSeq = 0 \<or> r_seq r \<le> toSeq)) rows)"

function verify_loop :: "json_lib \<Rightarrow> (bytes \<Rightarrow> bytes) \<Rightarrow> nat \<Rightarrow> nat \<Rightarrow> AuditRow list \<Rightarrow> nat \<Rightarrow> bytes
    \<Rightarrow> audit_error + Entry option" where
  "verify_loop lib sha n toSeq rows cursor prev =
     (let batch = take n (segment cursor toSeq rows) in
      case verify_rows lib sha prev batch of
        Stop x \<Rightarrow> x
      | Intact prev' \<Rightarrow>
          if batch = [] then Inr None
          else let cursor' = r_seq (last batch) + 1 in
            if toSeq \<noteq> 0 \<and> cursor' > toSeq then Inr None
            else verify_loop lib sha n toSeq rows cursor' prev')"
  by pat_completeness auto

lemma segment_set: "set (segment c t rows) = {r \<in> set rows. c \<le> r_seq r \<and> (t = 0 \<or> r_seq r \<le> t)}"
  by (auto simp: segment_def)

termination verify_loop
proof (relation "measure (\<lambda>(lib, sha, n, t, rows, c, prev). length (filter (\<lambda>r. c \<le> r_seq r) rows))", goal_cases)
  case (2 lib sha n t rows c prev batch prev' c')
  have "last batch \<in> set batch" using 2(3) by (rule last_in_set)
  then have "last batch \<in> set (segment c t rows)" unfolding 2(1) by (rule in_set_takeD)
  then have r: "last batch \<in> set rows" "c \<le> r_seq (last batch)" "c' = r_seq (last batch) + 1"
    by (simp_all add: segment_set 2(4))
  let ?old = "filter (\<lambda>r. c \<le> r_seq r) rows" and ?new = "\<lambda>r. c' \<le> r_seq r"
  have "filter ?new rows = filter ?new ?old"
    unfolding filter_filter using r(2,3) by (intro filter_cong [OF refl]) linarith
  moreover have "length (filter ?new ?old) < length ?old"
    by (rule length_filter_less [of "last batch"]) (use r in simp_all)
  ultimately show ?case by simp
qed simp

declare verify_loop.simps [simp del]

definition Verify :: "json_lib \<Rightarrow> (bytes \<Rightarrow> bytes) \<Rightarrow> nat \<Rightarrow> nat \<Rightarrow> AuditRow list \<Rightarrow> audit_error + Entry option" where
  "Verify lib sha fromSeq toSeq rows =
     verify_loop lib sha 1000 toSeq rows fromSeq
       (if fromSeq > 0 then tail_hash (filter (\<lambda>r. r_seq r < fromSeq) rows) else [])"

section \<open>Listing\<close>

definition ListByTenant :: "ID \<Rightarrow> int \<Rightarrow> nat \<Rightarrow> time option \<Rightarrow> time option \<Rightarrow> AuditRow list \<Rightarrow> AuditRow list" where
  \<comment> \<open>a zero bound is \<open>None\<close>\<close>
  "ListByTenant tenantID limit0 cursor from to rows =
     (let limit = (if limit0 \<le> 0 \<or> limit0 > 1000 then 100 else limit0) in
      take (nat limit) (rev (sort_key r_seq (filter (\<lambda>r. r_tenant r = tenantID
        \<and> (cursor > 0 \<longrightarrow> r_seq r < cursor)
        \<and> (case from of None \<Rightarrow> True | Some f \<Rightarrow> f \<le> r_time r)
        \<and> (case to of None \<Rightarrow> True | Some t \<Rightarrow> r_time r < t)) rows))))"

end
