(* ===== verification/AuditLogProps.thy ===== *)
theory AuditLogProps
  imports AuditLog
begin

text \<open>
  The properties of the audit log: the canonical text does not depend on the order of a map, the
  walk in batches is a single pass, an untouched log verifies whatever segment is asked for, a log
  that verifies with the honest last hash has the honest contents, and the pages of the listing
  follow one another.
\<close>

section \<open>Strictly ordered rows\<close>

abbreviation seq_less :: "AuditRow \<Rightarrow> AuditRow \<Rightarrow> bool" where "seq_less a b \<equiv> r_seq a < r_seq b"

lemma sorted_wrt_sort_key:
  assumes "distinct (map r_seq rows)"
  shows "sorted_wrt seq_less (sort_key r_seq rows)"
proof -
  have "mset (map r_seq (sort_key r_seq rows)) = mset (map r_seq rows)" by simp
  then have "distinct (map r_seq (sort_key r_seq rows))" using assms mset_eq_imp_distinct_iff by blast
  moreover have "sorted (map r_seq (sort_key r_seq rows))" by simp
  ultimately have "sorted_wrt (<) (map r_seq (sort_key r_seq rows))" by (simp add: strict_sorted_iff)
  then show ?thesis by (simp add: sorted_wrt_map)
qed

lemma sorted_rows: "sorted_wrt seq_less rows \<Longrightarrow> sort_key r_seq rows = rows"
proof -
  assume "sorted_wrt seq_less rows"
  then have "sorted_wrt (<) (map r_seq rows)" by (simp add: sorted_wrt_map)
  then have "sorted (map r_seq rows)" by (simp add: strict_sorted_iff)
  then show ?thesis by (rule sort_key_id_if_sorted)
qed

lemma segment_ordered: "distinct (map r_seq rows) \<Longrightarrow> sorted_wrt seq_less (segment c t rows)"
  unfolding segment_def by (rule sorted_wrt_sort_key) (simp add: distinct_map_filter)

lemma segment_later: "c \<le> c' \<Longrightarrow> segment c' t rows = filter (\<lambda>r. c' \<le> r_seq r) (segment c t rows)"
  unfolding segment_def filter_sort filter_filter
  by (rule arg_cong [where f = "sort_key r_seq"], rule filter_cong [OF refl]) linarith

text \<open>What follows the last of the first rows is what is greater.\<close>

lemma drop_is_filter:
  assumes "sorted_wrt R xs" "take n xs \<noteq> []" and asym: "\<And>a b. R a b \<Longrightarrow> \<not> R b a"
  shows "drop n xs = filter (R (last (take n xs))) xs"
proof -
  define ys zs where "ys = take n xs" and "zs = drop n xs"
  have xs: "xs = ys @ zs" by (simp add: ys_def zs_def)
  have ne: "ys = butlast ys @ [last ys]" using assms(2) by (simp add: ys_def)
  have lt: "sorted_wrt R (butlast ys @ [last ys] @ zs)" using assms(1) xs ne by (metis append_assoc)
  have "\<forall>r \<in> set zs. R (last ys) r" using lt by (simp add: sorted_wrt_append)
  moreover have "\<forall>r \<in> set (butlast ys @ [last ys]). \<not> R (last ys) r"
    using lt asym by (auto simp: sorted_wrt_append)
  ultimately have "filter (R (last ys)) (ys @ zs) = zs"
    using ne by (simp add: filter_empty_conv)
  then show ?thesis by (simp add: xs [symmetric] ys_def [symmetric] zs_def [symmetric])
qed

lemma takeWhile_is_filter:
  assumes "sorted_wrt seq_less xs" "\<And>a b. seq_less a b \<Longrightarrow> P b \<Longrightarrow> P a"
  shows "takeWhile P xs = filter P xs" "dropWhile P xs = filter (\<lambda>r. \<not> P r) xs"
proof -
  have "takeWhile P xs = filter P xs \<and> dropWhile P xs = filter (\<lambda>r. \<not> P r) xs"
    using assms(1)
  proof (induction xs)
    case (Cons x xs)
    show ?case
    proof (cases "P x")
      case False
      with Cons.prems assms(2) have "\<forall>r \<in> set xs. \<not> P r" by auto
      with False show ?thesis by (simp add: filter_empty_conv [symmetric] filter_id_conv)
    qed (use Cons in simp)
  qed simp
  then show "takeWhile P xs = filter P xs" "dropWhile P xs = filter (\<lambda>r. \<not> P r) xs" by simp_all
qed

section \<open>The walk in batches\<close>

lemma verify_rows_append:
  "verify_rows lib sha prev (xs @ ys) =
     (case verify_rows lib sha prev xs of Stop x \<Rightarrow> Stop x | Intact h \<Rightarrow> verify_rows lib sha h ys)"
  by (induction xs arbitrary: prev) (auto split: sum.splits option.splits)

definition walk_result :: "walk \<Rightarrow> audit_error + Entry option" where
  "walk_result w = (case w of Stop x \<Rightarrow> x | Intact _ \<Rightarrow> Inr None)"

lemma verify_loop_single_pass:
  assumes "distinct (map r_seq rows)" "0 < n"
  shows "verify_loop lib sha n t rows c prev = walk_result (verify_rows lib sha prev (segment c t rows))"
  using assms
proof (induction lib sha n t rows c prev rule: verify_loop.induct)
  case (1 lib sha n t rows c prev)
  let ?seg = "segment c t rows"
  let ?b = "take n ?seg"
  have split: "verify_rows lib sha prev ?seg =
      (case verify_rows lib sha prev ?b of Stop x \<Rightarrow> Stop x | Intact h \<Rightarrow> verify_rows lib sha h (drop n ?seg))"
    by (subst append_take_drop_id [of n ?seg, symmetric]) (rule verify_rows_append)
  show ?case
  proof (cases "verify_rows lib sha prev ?b")
    case (Stop x)
    then show ?thesis by (subst verify_loop.simps) (simp add: split walk_result_def)
  next
    case (Intact h)
    show ?thesis
    proof (cases "?b = []")
      case True
      with \<open>0 < n\<close> have "?seg = []" by simp
      then show ?thesis using Intact by (subst verify_loop.simps) (simp add: walk_result_def)
    next
      case False
      let ?c = "r_seq (last ?b) + 1"
      have "last ?b \<in> set ?seg" using last_in_set [OF False] by (rule in_set_takeD)
      then have c: "c \<le> ?c" by (simp add: segment_set)
      have rest: "drop n ?seg = segment ?c t rows"
        using drop_is_filter [OF segment_ordered [OF 1(2)] False] segment_later [OF c] by (simp add: Suc_le_eq)
      show ?thesis
      proof (cases "t \<noteq> 0 \<and> ?c > t")
        case True
        then have "segment ?c t rows = []" by (auto simp: segment_def filter_empty_conv)
        with True False Intact show ?thesis
          by (subst verify_loop.simps) (simp add: split rest walk_result_def Let_def)
      next
        case more: False
        from 1(1) [OF refl Intact False refl more 1(2,3)] show ?thesis
          using False Intact more by (subst verify_loop.simps) (auto simp: split rest Let_def)
      qed
    qed
  qed
qed
section \<open>The canonical text\<close>

text \<open>Values that differ only in the order in which the members of their objects are listed.\<close>

inductive same_value :: "json \<Rightarrow> json \<Rightarrow> bool" where
  refl: "same_value v v"
| arr: "list_all2 same_value xs ys \<Longrightarrow> same_value (JArray xs) (JArray ys)"
| obj: "distinct (map fst ms) \<Longrightarrow> mset ms = mset ps \<Longrightarrow>
    list_all2 (\<lambda>p q. fst p = fst q \<and> same_value (snd p) (snd q)) ps qs \<Longrightarrow> same_value (JObject ms) (JObject qs)"

lemma encoded_members:
  assumes "list_all2 (\<lambda>p q. fst p = fst q \<and> canonicalEncode (snd p) = canonicalEncode (snd q)) ps qs"
  shows "map (map_prod id canonicalEncode) ps = map (map_prod id canonicalEncode) qs"
  using assms by (induction rule: list_all2_induct) (auto simp: prod_eq_iff)

lemma sort_key_same_mset:
  assumes "mset xs = mset ys" "distinct (map fst xs)"
  shows "sort_key fst xs = sort_key fst ys"
  using assms by (intro sort_key_inj_key_eq) (simp_all add: distinct_map)

text \<open>
  The canonical text of a value does not depend on the order in which a map is visited, at any
  depth, so the hash of an entry is a function of its content.
\<close>

theorem canonical_order_independent:
  assumes "same_value a b"
  shows "canonicalEncode a = canonicalEncode b"
  using assms
proof (induction rule: same_value.induct)
  case (arr xs ys)
  then have "map canonicalEncode xs = map canonicalEncode ys"
    by (induction rule: list_all2_induct) auto
  then show ?case by simp
next
  case (obj ms ps qs)
  let ?enc = "map (map_prod id canonicalEncode)"
  have "?enc ps = ?enc qs" using obj(3)
    by (intro encoded_members) (auto elim: list.rel_mono_strong)
  moreover have "sort_key fst (?enc ms) = sort_key fst (?enc ps)"
    using obj.hyps(1,2) by (intro sort_key_same_mset) (simp_all add: comp_def)
  ultimately show ?case by simp
qed simp

section \<open>Histories of the log\<close>

text \<open>
  Appends with growing sequence numbers, by any callers. \<open>encoding/json\<close> reads back the details it
  wrote, in some order of the members.
\<close>

definition details_read_back :: "json_lib \<Rightarrow> Entry \<Rightarrow> bool" where
  "details_read_back lib e \<longleftrightarrow> (\<forall>d. e_details e = Some d \<longrightarrow>
     (\<exists>d'. unmarshal lib (marshal lib d) = Inr d' \<and> same_value (JObject d) (JObject d')))"

inductive audit_run :: "json_lib \<Rightarrow> (bytes \<Rightarrow> bytes) \<Rightarrow> AuditRow list \<Rightarrow> bool" for lib sha where
  start: "audit_run lib sha []"
| append: "audit_run lib sha rows \<Longrightarrow> \<forall>r \<in> set rows. r_seq r < seq \<Longrightarrow> details_read_back lib e \<Longrightarrow>
    Append lib sha newID now seq e rows = (x, rows') \<Longrightarrow> audit_run lib sha rows'"

lemma same_object_empty: "same_value (JObject d) (JObject d') \<Longrightarrow> d = [] \<longleftrightarrow> d' = []"
  by (erule same_value.cases) auto

lemma filled_details [simp]: "e_details (filled i now e) = e_details e"
  by (simp add: filled_def Let_def)

lemma row_entry_row_of:
  assumes "details_read_back lib e"
  obtains e' where "row_entry lib (row_of lib seq prev hash e) = Inr e'" "canonicalJSON e' = canonicalJSON e"
proof (cases "e_details e")
  case None
  then have "row_entry lib (row_of lib seq prev hash e) = Inr e"
    by (auto simp: row_entry_def row_of_def)
  with that show thesis by blast
next
  case (Some d)
  with assms obtain d' where d: "unmarshal lib (marshal lib d) = Inr d'" "same_value (JObject d) (JObject d')"
    by (auto simp: details_read_back_def)
  have "row_entry lib (row_of lib seq prev hash e) = Inr (e\<lparr>e_details := Some d'\<rparr>)"
    using Some d(1) by (auto simp: row_entry_def row_of_def)
  moreover have "canonicalJSON (e\<lparr>e_details := Some d'\<rparr>) = canonicalJSON e"
    using Some same_object_empty [OF d(2)] canonical_order_independent [OF d(2)]
    by (cases d; cases d') (simp_all add: canonicalJSON_def entry_json_def)
  ultimately show thesis using that by blast
qed
lemma last_row_snoc: "\<forall>r \<in> set rows. r_seq r < r_seq x \<Longrightarrow> sorted_wrt seq_less rows \<Longrightarrow> last_row (rows @ [x]) = Some x"
  by (simp add: last_row_def sorted_rows sorted_wrt_append)

lemma tail_hash_last: "sorted_wrt seq_less rows \<Longrightarrow> tail_hash rows = (if rows = [] then [] else r_hash (last rows))"
  by (cases rows rule: rev_cases) (simp_all add: tail_hash_def last_row_def sorted_rows)

text \<open>The invariant of the log: it is ordered, and the walk over it ends in its last hash.\<close>

definition log_ok :: "json_lib \<Rightarrow> (bytes \<Rightarrow> bytes) \<Rightarrow> AuditRow list \<Rightarrow> bool" where
  "log_ok lib sha rows \<longleftrightarrow> sorted_wrt seq_less rows \<and> verify_rows lib sha [] rows = Intact (tail_hash rows)"

lemma log_ok_append:
  assumes "log_ok lib sha rows" "\<forall>r \<in> set rows. r_seq r < seq" "details_read_back lib e0"
    and "Append lib sha newID now seq e0 rows = (x, rows')"
  shows "log_ok lib sha rows'"
proof -
  let ?e = "filled newID now e0"
  consider "rows' = rows"
    | canon where "canonicalJSON ?e = Some canon"
        "rows' = rows @ [row_of lib seq (map_option r_hash (last_row rows)) (sha (tail_hash rows @ canon)) ?e]"
    using assms(4) unfolding Append_def Let_def by (auto split: if_split_asm option.split_asm)
  then show ?thesis
  proof cases
    case 2
    let ?r = "row_of lib seq (map_option r_hash (last_row rows)) (sha (tail_hash rows @ canon)) ?e"
    have sel: "r_seq ?r = seq" "r_hash ?r = sha (tail_hash rows @ canon)" by (simp_all add: row_of_def)
    have "details_read_back lib ?e" using assms(3) by (simp add: details_read_back_def)
    then obtain e' where "row_entry lib ?r = Inr e'" "canonicalJSON e' = canonicalJSON ?e"
      by (rule row_entry_row_of)
    with 2 sel have "verify_rows lib sha (tail_hash rows) [?r] = Intact (r_hash ?r)" by simp
    moreover have s: "sorted_wrt seq_less (rows @ [?r])"
      using assms(1,2) by (simp add: log_ok_def sorted_wrt_append sel)
    moreover have "tail_hash (rows @ [?r]) = r_hash ?r" using tail_hash_last [OF s] by simp
    ultimately show ?thesis using assms(1) 2(2) by (simp add: log_ok_def verify_rows_append)
  qed (use assms(1) in simp)
qed

lemma audit_run_ok: "audit_run lib sha rows \<Longrightarrow> log_ok lib sha rows"
proof (induction rule: audit_run.induct)
  case start
  then show ?case by (simp add: log_ok_def tail_hash_def last_row_def)
next
  case (append rows seq e newID now x rows')
  then show ?case using log_ok_append by blast
qed

lemma distinct_seqs: "sorted_wrt seq_less rows \<Longrightarrow> distinct (map r_seq rows)"
  using strict_sorted_iff [of "map r_seq rows"] by (simp add: sorted_wrt_map)

lemma walk_intact_tail:
  "verify_rows lib sha prev rows = Intact h \<Longrightarrow> h = (if rows = [] then prev else r_hash (last rows))"
  by (induction rows arbitrary: prev) (auto split: sum.split_asm option.split_asm if_split_asm)

text \<open>
  C38. A log that nobody touched and whose rows were appended one at a time verifies: whatever segment is
  asked for, the walk reports no row, although it runs in batches of a thousand and starts at the hash
  before the segment. One at a time is a condition: \<open>Append\<close> reads the last row and inserts in two
  statements, and two first appends at the same time, which find no row to lock, leave an untouched log
  that does not verify.
\<close>

theorem honest_log_verifies:
  assumes "audit_run lib sha rows"
  shows "Verify lib sha fromSeq toSeq rows = Inr None"
proof -
  have ok: "sorted_wrt seq_less rows" "verify_rows lib sha [] rows = Intact (tail_hash rows)"
    using audit_run_ok [OF assms] by (simp_all add: log_ok_def)
  let ?old = "takeWhile (\<lambda>r. r_seq r < fromSeq) rows" and ?new = "dropWhile (\<lambda>r. r_seq r < fromSeq) rows"
  let ?seg = "segment fromSeq toSeq rows"
  have parts: "?old = filter (\<lambda>r. r_seq r < fromSeq) rows" "?new = filter (\<lambda>r. fromSeq \<le> r_seq r) rows"
    using takeWhile_is_filter [OF ok(1), of "\<lambda>r. r_seq r < fromSeq"] by (simp_all add: not_less)
  have "?seg = filter (\<lambda>r. fromSeq \<le> r_seq r \<and> (toSeq = 0 \<or> r_seq r \<le> toSeq)) rows"
    using ok(1) by (simp add: segment_def sorted_rows sorted_wrt_filter)
  also have "\<dots> = filter (\<lambda>r. toSeq = 0 \<or> r_seq r \<le> toSeq) ?new"
    by (simp add: parts(2) conj_commute)
  also have "\<dots> = takeWhile (\<lambda>r. toSeq = 0 \<or> r_seq r \<le> toSeq) ?new"
    by (rule takeWhile_is_filter(1) [symmetric]) (use ok(1) in \<open>auto simp: parts(2) sorted_wrt_filter\<close>)
  finally obtain post where seg: "?new = ?seg @ post" using takeWhile_dropWhile_id by metis
  have "verify_rows lib sha [] (?old @ ?seg @ post) = Intact (tail_hash rows)"
    using ok(2) by (simp add: seg [symmetric] takeWhile_dropWhile_id)
  then obtain h h' where w: "verify_rows lib sha [] ?old = Intact h" "verify_rows lib sha h ?seg = Intact h'"
    unfolding verify_rows_append by (auto split: walk.split_asm)
  have "h = tail_hash ?old"
    using walk_intact_tail [OF w(1)] tail_hash_last [of ?old] ok(1) by (simp add: parts(1) sorted_wrt_filter)
  moreover have "?old = []" if "fromSeq = 0" using that by (cases rows) simp_all
  ultimately show ?thesis using w(2)
    by (auto simp: Verify_def verify_loop_single_pass [OF distinct_seqs [OF ok(1)]] walk_result_def
        parts(1) [symmetric] tail_hash_def last_row_def)
qed
section \<open>Tampering\<close>

text \<open>The canonical content of a row, and what the walk over a log feeds to the hash.\<close>

definition content :: "json_lib \<Rightarrow> AuditRow \<Rightarrow> bytes option" where
  "content lib r = (case row_entry lib r of Inl _ \<Rightarrow> None | Inr e \<Rightarrow> canonicalJSON e)"

fun hashed :: "json_lib \<Rightarrow> bytes \<Rightarrow> AuditRow list \<Rightarrow> bytes list" where
  "hashed lib prev [] = []"
| "hashed lib prev (r # rs) = (prev @ the (content lib r)) # hashed lib (r_hash r) rs"

lemma walk_Cons:
  "verify_rows lib sha prev (r # rs) = Intact h \<longleftrightarrow>
     (\<exists>c. content lib r = Some c \<and> r_hash r = sha (prev @ c)) \<and> verify_rows lib sha (r_hash r) rs = Intact h"
  by (auto simp: content_def split: sum.splits option.splits)

lemma hashed_append: "hashed lib prev (xs @ [r]) = hashed lib prev xs
    @ [(if xs = [] then prev else r_hash (last xs)) @ the (content lib r)]"
  by (induction xs arbitrary: prev) auto

lemma walk_snoc:
  "verify_rows lib sha prev (xs @ [r]) = Intact h \<longleftrightarrow>
     verify_rows lib sha prev xs = Intact (if xs = [] then prev else r_hash (last xs))
     \<and> (\<exists>c. content lib r = Some c \<and> r_hash r = sha ((if xs = [] then prev else r_hash (last xs)) @ c)) \<and> h = r_hash r"
  by (auto simp: verify_rows_append walk_Cons content_def dest: walk_intact_tail
      split: walk.splits sum.splits option.splits if_split_asm)

lemma same_tail_same_content:
  assumes "verify_rows lib sha [] rs = Intact h" "verify_rows lib sha [] qs = Intact h" "length rs = length qs"
    and "inj_on sha (set (hashed lib [] rs) \<union> set (hashed lib [] qs))" "\<And>m. length (sha m) = 32"
  shows "map (content lib) rs = map (content lib) qs"
  using assms(1-4)
proof (induction rs arbitrary: qs h rule: rev_induct)
  case (snoc r rs)
  then obtain qs' q where qs: "qs = qs' @ [q]" by (cases qs rule: rev_cases) auto
  let ?p = "if rs = [] then [] else r_hash (last rs)" and ?p' = "if qs' = [] then [] else r_hash (last qs')"
  from snoc.prems(1) obtain c where r: "verify_rows lib sha [] rs = Intact ?p" "content lib r = Some c"
    "h = sha (?p @ c)" unfolding walk_snoc by auto
  from snoc.prems(2) obtain c' where q: "verify_rows lib sha [] qs' = Intact ?p'" "content lib q = Some c'"
    "h = sha (?p' @ c')" unfolding walk_snoc qs by auto
  have "?p @ c \<in> set (hashed lib [] (rs @ [r])) \<union> set (hashed lib [] qs)"
    "?p' @ c' \<in> set (hashed lib [] (rs @ [r])) \<union> set (hashed lib [] qs)"
    using r(2) q(2) by (simp_all add: hashed_append qs)
  with r(3) q(3) snoc.prems(4) have eq: "?p @ c = ?p' @ c'" by (metis inj_onD)
  have hash_length: "length (r_hash (last xs)) = 32" if "verify_rows lib sha [] xs = Intact y" "xs \<noteq> []" for xs y
    using that by (cases xs rule: rev_cases) (auto simp: walk_snoc assms(5))
  have "rs = [] \<longleftrightarrow> qs' = []" using snoc.prems(3) by (auto simp: qs)
  then have "length ?p = length ?p'" using hash_length [OF r(1)] hash_length [OF q(1)] by auto
  with eq have "?p = ?p'" "c = c'" by simp_all
  moreover have "map (content lib) rs = map (content lib) qs'"
    using r(1) q(1) \<open>?p = ?p'\<close> snoc.prems(3,4)
    by (intro snoc.IH [of ?p]) (auto simp: hashed_append qs elim: inj_on_subset)
  ultimately show ?case using r(2) q(2) by (simp add: qs)
qed simp

lemma Verify_all: "distinct (map r_seq rows) \<Longrightarrow>
  Verify lib sha 0 0 rows = walk_result (verify_rows lib sha [] (sort_key r_seq rows))"
  by (simp add: Verify_def verify_loop_single_pass segment_def)

lemma walk_result_clean:
  assumes "walk_result (verify_rows lib sha [] rows) = Inr None"
  shows "verify_rows lib sha [] rows = Intact (if rows = [] then [] else r_hash (last rows))"
proof -
  have stop: "x \<noteq> Inr None" if "verify_rows lib sha prev qs = Stop x" for x prev qs
    using that by (induction qs arbitrary: prev) (auto split: sum.split_asm option.split_asm if_split_asm)
  with assms walk_intact_tail show ?thesis by (cases "verify_rows lib sha [] rows") (auto simp: walk_result_def)
qed

text \<open>
  C37. Tampering shows: when no two of the texts hashed for the honest log and for what the table
  holds now collide, a table that passes the full walk, has as many rows and still ends in the
  honest last hash has the honest content in every row.
\<close>

theorem tampering_detected:
  assumes "audit_run lib sha rows" "distinct (map r_seq table)"
    and "Verify lib sha 0 0 table = Inr None" "length table = length rows" "tail_hash table = tail_hash rows"
    and "inj_on sha (set (hashed lib [] rows) \<union> set (hashed lib [] (sort_key r_seq table)))" "\<forall>m. length (sha m) = 32"
  shows "map (content lib) (sort_key r_seq table) = map (content lib) rows"
proof -
  let ?t = "sort_key r_seq table"
  have ok: "verify_rows lib sha [] rows = Intact (tail_hash rows)" using audit_run_ok [OF assms(1)] by (simp add: log_ok_def)
  have "verify_rows lib sha [] ?t = Intact (if ?t = [] then [] else r_hash (last ?t))"
    using assms(3) by (intro walk_result_clean) (simp add: Verify_all [OF assms(2)])
  moreover have "(if ?t = [] then [] else r_hash (last ?t)) = tail_hash table"
    by (cases ?t rule: rev_cases) (simp_all add: tail_hash_def last_row_def)
  ultimately have t: "verify_rows lib sha [] ?t = Intact (tail_hash rows)" using assms(5) by simp
  have "map (content lib) rows = map (content lib) ?t"
    using assms(4,6,7) by (intro same_tail_same_content [OF ok t]) simp_all
  then show ?thesis by simp
qed

text \<open>Rows cut off at the end do not show: the rest still verifies.\<close>

lemma truncation_undetected:
  assumes "audit_run lib sha rows"
  shows "Verify lib sha 0 0 (take n rows) = Inr None"
proof -
  have ok: "sorted_wrt seq_less rows" "verify_rows lib sha [] rows = Intact (tail_hash rows)"
    using audit_run_ok [OF assms] by (simp_all add: log_ok_def)
  have s: "sorted_wrt seq_less (take n rows)" using ok(1) by (rule sorted_wrt_take)
  have "verify_rows lib sha [] (take n rows @ drop n rows) = Intact (tail_hash rows)" using ok(2) by simp
  then obtain h where "verify_rows lib sha [] (take n rows) = Intact h"
    unfolding verify_rows_append by (auto split: walk.split_asm)
  then show ?thesis by (simp add: Verify_all [OF distinct_seqs [OF s]] sorted_rows [OF s] walk_result_def)
qed
section \<open>Pages\<close>

text \<open>The entries of a tenant in a period, newest first.\<close>

definition newest :: "ID \<Rightarrow> time option \<Rightarrow> time option \<Rightarrow> AuditRow list \<Rightarrow> AuditRow list" where
  "newest tenantID from to rows = rev (sort_key r_seq (filter (\<lambda>r. r_tenant r = tenantID
     \<and> (case from of None \<Rightarrow> True | Some f \<Rightarrow> f \<le> r_time r) \<and> (case to of None \<Rightarrow> True | Some t \<Rightarrow> r_time r < t)) rows))"

lemma listing_newest:
  assumes "1 \<le> k" "k \<le> 1000"
  shows "ListByTenant t k cursor from to rows =
    take (nat k) (filter (\<lambda>r. cursor > 0 \<longrightarrow> r_seq r < cursor) (newest t from to rows))"
proof -
  have "filter (\<lambda>r. r_tenant r = t \<and> (cursor > 0 \<longrightarrow> r_seq r < cursor)
      \<and> (case from of None \<Rightarrow> True | Some f \<Rightarrow> f \<le> r_time r) \<and> (case to of None \<Rightarrow> True | Some t \<Rightarrow> r_time r < t)) rows
    = filter (\<lambda>r. cursor > 0 \<longrightarrow> r_seq r < cursor) (filter (\<lambda>r. r_tenant r = t
      \<and> (case from of None \<Rightarrow> True | Some f \<Rightarrow> f \<le> r_time r) \<and> (case to of None \<Rightarrow> True | Some t \<Rightarrow> r_time r < t)) rows)"
    unfolding filter_filter by (rule filter_cong) blast+
  with assms show ?thesis by (simp add: ListByTenant_def newest_def filter_sort rev_filter [symmetric])
qed

text \<open>
  The pages follow one another: asking with the sequence number of the last entry seen gives
  exactly the entries after it, none twice and none left out.
\<close>

theorem next_page:
  assumes "distinct (map r_seq rows)" "\<forall>r \<in> set rows. 0 < r_seq r" "1 \<le> k" "k \<le> 1000"
    and "seen = take m (newest t from to rows)" "seen \<noteq> []"
  shows "ListByTenant t k 0 from to rows = take (nat k) (newest t from to rows)
    \<and> ListByTenant t k (r_seq (last seen)) from to rows = take (nat k) (drop m (newest t from to rows))"
proof -
  let ?all = "newest t from to rows"
  have "sorted_wrt seq_less (rev ?all)"
    unfolding newest_def rev_rev_ident by (rule sorted_wrt_sort_key) (simp add: assms(1) distinct_map_filter)
  then have desc: "sorted_wrt (\<lambda>a b. seq_less b a) ?all" by (simp add: sorted_wrt_rev)
  have "last seen \<in> set ?all" using assms(5,6) last_in_set by (metis in_set_takeD)
  then have "0 < r_seq (last seen)" using assms(2) by (simp add: newest_def)
  then have "filter (\<lambda>r. r_seq (last seen) > 0 \<longrightarrow> r_seq r < r_seq (last seen)) ?all = drop m ?all"
    using drop_is_filter [OF desc, of m] assms(5,6) by simp
  then show ?thesis by (simp add: listing_newest [OF assms(3,4)])
qed

section \<open>Concrete runs\<close>

definition demo_lib :: json_lib where
  "demo_lib = \<lparr>marshal = (\<lambda>d. canonicalEncode (JObject d)), unmarshal = (\<lambda>_. Inr [(''ip'', JString ''10.0.0.1'')])\<rparr>"

definition demo_sha :: "bytes \<Rightarrow> bytes" where "demo_sha m = replicate 31 0 @ [hd (m @ [0])]"

definition demo_entry :: "string \<Rightarrow> Entry" where
  "demo_entry action = \<lparr>e_id = Zero, e_tenant = replicate 16 9, e_kind = ''user'', e_actor = None, e_action = action,
     e_target_kind = ''admin'', e_target = None, e_details = Some [(''ip'', JString ''10.0.0.1'')], e_time = zero_time\<rparr>"

definition demo_rows :: "AuditRow list" where
  "demo_rows = snd (Append demo_lib demo_sha (replicate 16 2) (1700000001 * second) 2 (demo_entry ''admin.logout'')
     (snd (Append demo_lib demo_sha (replicate 16 1) (1700000000 * second) 1 (demo_entry ''admin.login'') [])))"

lemma demo_years: "year_ok (micro (1700000000 * second))" "year_ok (micro (1700000001 * second))"
  by code_simp+

definition text_of :: "Entry \<Rightarrow> bytes" where "text_of e = bytes_of_string (canonicalEncode (entry_json e))"

lemma hd_text: "hd (text_of e @ r) = 123"
proof -
  obtain t where "canonicalEncode (entry_json e) = CHR ''{'' # t" by (simp add: entry_json_def)
  then show ?thesis by (simp add: text_of_def bytes_of_string_def byte_of_char_def)
qed

lemma filled_demo: "filled i now (demo_entry a) = (demo_entry a)\<lparr>e_id := i, e_time := micro now\<rparr>"
  by (simp add: filled_def demo_entry_def Zero_def IsZero_def Let_def list_all_iff)

lemma demo_append:
  assumes "year_ok (micro now)" "a \<noteq> []"
  shows "Append demo_lib demo_sha i now seq (demo_entry a) rows = (None, rows @
    [row_of demo_lib seq (map_option r_hash (last_row rows)) (demo_sha (tail_hash rows @ text_of (filled i now (demo_entry a))))
       (filled i now (demo_entry a))])"
  using assms
  by (simp add: Append_def Let_def canonicalJSON_def filled_demo text_of_def) (simp add: demo_entry_def IsZero_def list_all_iff)

lemma demo_content:
  assumes "year_ok (micro now)"
  shows "content demo_lib (row_of demo_lib seq p h (filled i now (demo_entry a))) = Some (text_of (filled i now (demo_entry a)))"
proof -
  have "row_entry demo_lib (row_of demo_lib seq p h (filled i now (demo_entry a))) = Inr (filled i now (demo_entry a))"
    by (simp add: row_entry_def row_of_def demo_lib_def filled_demo) (simp add: demo_entry_def)
  then show ?thesis using assms by (simp add: content_def canonicalJSON_def text_of_def filled_demo)
qed

lemma demo_values:
  "map r_seq demo_rows = [1, 2]" "\<forall>r \<in> set demo_rows. r_tenant r = replicate 16 9"
  "distinct (map demo_sha (hashed demo_lib [] demo_rows))"
proof -
  let ?e = "filled (replicate 16 1) (1700000000 * second) (demo_entry ''admin.login'')"
    and ?f = "filled (replicate 16 2) (1700000001 * second) (demo_entry ''admin.logout'')"
  let ?r = "row_of demo_lib 1 None (demo_sha (text_of ?e)) ?e"
  have r: "demo_rows = [?r, row_of demo_lib 2 (Some (r_hash ?r)) (demo_sha (r_hash ?r @ text_of ?f)) ?f]"
    by (simp add: demo_rows_def demo_append demo_years last_row_def tail_hash_def)
  show "map r_seq demo_rows = [1, 2]" "\<forall>r \<in> set demo_rows. r_tenant r = replicate 16 9"
    by (simp_all add: r row_of_def filled_demo) (simp add: demo_entry_def)
  have "demo_sha (text_of ?e) \<noteq> demo_sha (r_hash ?r @ text_of ?f)"
    using hd_text [of ?e "[0]"] by (simp add: demo_sha_def row_of_def)
  then show "distinct (map demo_sha (hashed demo_lib [] demo_rows))"
    by (simp add: r demo_content demo_years)
qed

lemma demo_read_back: "details_read_back demo_lib (demo_entry a)"
  by (auto simp: details_read_back_def demo_lib_def demo_entry_def intro: same_value.refl)

lemma demo_audit_run: "audit_run demo_lib demo_sha demo_rows"
proof -
  define r1 where "r1 = snd (Append demo_lib demo_sha (replicate 16 1) (1700000000 * second) 1 (demo_entry ''admin.login'') [])"
  have "audit_run demo_lib demo_sha r1"
    by (rule audit_run.append [OF audit_run.start _ demo_read_back]) (simp_all add: r1_def prod_eq_iff)
  moreover have "\<forall>r \<in> set r1. r_seq r < 2"
    by (auto simp: r1_def Append_def Let_def row_of_def split: option.splits)
  ultimately show ?thesis
    by (rule audit_run.append [OF _ _ demo_read_back]) (simp add: demo_rows_def r1_def prod_eq_iff)
qed

theorem canonical_order_independent_witness:
  "canonicalEncode (JObject [(''b'', JNull), (''a'', JBool True)]) = canonicalEncode (JObject [(''a'', JBool True), (''b'', JNull)])"
  by (rule canonical_order_independent, rule same_value.obj [of _ "[(''a'', JBool True), (''b'', JNull)]"])
    (simp_all add: same_value.refl)

theorem honest_log_verifies_witness: "Verify demo_lib demo_sha 2 0 demo_rows = Inr None \<and> length demo_rows = 2"
  using honest_log_verifies [OF demo_audit_run, of 2 0] demo_values(1) by (simp add: length_map [of r_seq, symmetric] del: length_map)

theorem tampering_detected_witness:
  "map (content demo_lib) (sort_key r_seq (rev demo_rows)) = map (content demo_lib) demo_rows"
proof -
  have d: "distinct (map r_seq demo_rows)" by (simp add: demo_values(1))
  have s: "sort_key r_seq (rev demo_rows) = demo_rows"
  proof -
    have "sort_key r_seq (rev demo_rows) = sort_key r_seq demo_rows"
      using d by (intro sort_key_inj_key_eq) (simp_all add: distinct_map)
    also have "\<dots> = demo_rows" by (rule sort_key_id_if_sorted) (simp add: demo_values(1))
    finally show ?thesis .
  qed
  have "inj_on demo_sha (set (hashed demo_lib [] demo_rows))"
    using demo_values(3) distinct_map by blast
  moreover have "Verify demo_lib demo_sha 0 0 (rev demo_rows) = Inr None"
    using honest_log_verifies [OF demo_audit_run, of 0 0] d
    by (simp add: Verify_all s sort_key_id_if_sorted demo_values(1) rev_map [symmetric])
  moreover have "tail_hash (rev demo_rows) = tail_hash demo_rows"
    by (simp add: tail_hash_def last_row_def s sort_key_id_if_sorted demo_values(1))
  ultimately show ?thesis
    using d by (intro tampering_detected [OF demo_audit_run]) (simp_all add: s demo_sha_def rev_map [symmetric])
qed

theorem next_page_witness:
  "ListByTenant (replicate 16 9) 1 (r_seq (last (take 1 (newest (replicate 16 9) None None demo_rows)))) None None demo_rows
     = take 1 (drop 1 (newest (replicate 16 9) None None demo_rows))"
proof -
  have "filter (\<lambda>r. r_tenant r = replicate 16 9) demo_rows = demo_rows"
    using demo_values(2) by (simp add: filter_id_conv)
  then have "take 1 (newest (replicate 16 9) None None demo_rows) \<noteq> []"
    using demo_values(1) by (auto simp: newest_def sort_key_id_if_sorted)
  moreover have "\<forall>r \<in> set demo_rows. 0 < r_seq r"
    using demo_values(1) by (metis (no_types, lifting) image_eqI list.set_map list.simps(15) empty_set insertE singletonD zero_less_numeral zero_less_one)
  ultimately show ?thesis
    using next_page [of demo_rows 1 "take 1 (newest (replicate 16 9) None None demo_rows)" 1 "replicate 16 9" None None] demo_values(1)
    by simp
qed


end
