(* ===== verification/Policies.thy ===== *)
theory Policies
  imports DeviceRepo AuditLog
begin

text \<open>
  The policy tables and their service (\<open>policies/policies.go\<close>, \<open>policies/admin.go\<close>,
  \<open>policies/rules.go\<close>): policies with their CIDRs, host names, virtual hosts and L4 rules, the
  assignment to devices, and what a device's policy comes to.  An operation returns its answer, the
  tables and the audit entries it writes.  Texts are compared and ordered by the weights the
  database's collation gives them, the argument \<open>weight\<close>; its \<open>INET6_NTOA\<close> is the argument
  \<open>ntoa\<close>.
\<close>

section \<open>Tables\<close>

record PolicyRow =
  po_id :: ID
  po_tenant :: ID
  po_name :: string
  po_descr :: "string option"
  po_enabled :: bool
  po_source_nat :: bool
  po_endpoint :: string
  po_control :: string
  po_precedence :: int
  po_scope :: string
  po_dns :: "string option"
  po_search :: "string option"
  po_created :: time
  po_deleted :: "time option"

record AllowedRow =
  ai_id :: ID
  ai_policy :: ID
  ai_cidr :: string
  ai_descr :: "string option"

record HostRow =
  hn_id :: ID
  hn_policy :: ID
  hn_name :: string
  hn_guard :: "string option"
  hn_descr :: "string option"

record ResolutionRow =
  re_host :: ID
  re_addr :: bytes
  re_bits :: nat
  re_seen :: time

record VirtualRow =
  vh_id :: ID
  vh_policy :: ID
  vh_virtual :: string
  vh_real :: string
  vh_descr :: "string option"

record RuleRow =
  ru_policy :: ID
  ru_action :: string
  ru_group :: "ID option"
  ru_device :: "ID option"
  ru_addr :: bytes
  ru_bits :: "8 word"
  ru_protocol :: string
  ru_min :: "16 word option"
  ru_max :: "16 word option"

record PolDB =
  policies :: "PolicyRow list"
  allowed :: "AllowedRow list"
  hostnames :: "HostRow list"
  resolutions :: "ResolutionRow list"
  virtuals :: "VirtualRow list"
  rules :: "RuleRow list"
  groups :: "Group list"
  memberships :: "(ID \<times> ID) list" \<comment> \<open>device, group\<close>

type_synonym weight = "string \<Rightarrow> nat list"

datatype pol_error =
    PolNotFound | NameRequired | PolDuplicate string | InvalidCIDR | UnknownEndpoint | UnknownChannel
  | OtherTenant | InvalidHostname string | BadVirtual | BadReal | OutsideRange | InsideRange | BadDNS string

definition null_str :: "string \<Rightarrow> string option" where \<comment> \<open>\<open>nullStr\<close>\<close>
  "null_str s = (if s = [] then None else Some s)"

definition or_empty :: "string option \<Rightarrow> string" where \<comment> \<open>\<open>COALESCE (_, '')\<close>, \<open>NullString.String\<close>\<close>
  "or_empty s = (case s of None \<Rightarrow> [] | Some t \<Rightarrow> t)"

section \<open>Audit\<close>

definition writeAudit :: "ID \<Rightarrow> ID \<Rightarrow> string \<Rightarrow> string \<Rightarrow> ID option \<Rightarrow> (string \<times> json) list option \<Rightarrow> Entry" where
  "writeAudit tenantID actor action targetKind target details =
     \<lparr>e_id = Zero, e_tenant = tenantID, e_kind = ''user'', e_actor = (if IsZero actor then None else Some actor),
      e_action = action, e_target_kind = targetKind, e_target = target, e_details = details, e_time = zero_time\<rparr>"

section \<open>Policies\<close>

record Policy =
  ps_id :: ID
  ps_tenant :: ID
  ps_name :: string
  ps_description :: string
  ps_enabled :: bool
  ps_source_nat :: bool
  ps_endpoint_mode :: string
  ps_control_channel :: string
  ps_precedence :: int
  ps_created :: time

definition scanPolicy :: "PolicyRow \<Rightarrow> Policy" where
  "scanPolicy p = \<lparr>ps_id = po_id p, ps_tenant = po_tenant p, ps_name = po_name p, ps_description = or_empty (po_descr p),
     ps_enabled = po_enabled p, ps_source_nat = po_source_nat p, ps_endpoint_mode = po_endpoint p,
     ps_control_channel = po_control p, ps_precedence = po_precedence p, ps_created = po_created p\<rparr>"

definition live_policy :: "PolDB \<Rightarrow> ID \<Rightarrow> PolicyRow option" where
  "live_policy db i = find (\<lambda>p. po_id p = i \<and> po_deleted p = None) (policies db)"

definition Create :: "weight \<Rightarrow> ID \<Rightarrow> time \<Rightarrow> ID \<Rightarrow> ID \<Rightarrow> string \<Rightarrow> string \<Rightarrow> PolDB
    \<Rightarrow> (pol_error + Policy) \<times> PolDB \<times> Entry list" where
  "Create weight newID now tenantID actor name description db =
     (if trim_space name = [] then (Inl NameRequired, db, [])
      else if \<exists>p \<in> set (policies db). po_id p = newID \<or> (po_tenant p = tenantID \<and> weight (po_name p) = weight name)
        then (Inl (PolDuplicate ''policies''), db, [])
      else let row = \<lparr>po_id = newID, po_tenant = tenantID, po_name = name, po_descr = null_str description,
             po_enabled = True, po_source_nat = False, po_endpoint = ''direct'', po_control = ''direct'',
             po_precedence = 100, po_scope = ''policy'', po_dns = None, po_search = None, po_created = now,
             po_deleted = None\<rparr>
        in (Inr \<lparr>ps_id = newID, ps_tenant = tenantID, ps_name = name, ps_description = description, ps_enabled = True,
              ps_source_nat = False, ps_endpoint_mode = [], ps_control_channel = [], ps_precedence = 100, ps_created = now\<rparr>,
            db\<lparr>policies := policies db @ [row]\<rparr>,
            [writeAudit tenantID actor ''policy.create'' ''policy'' (Some newID) (Some [(''name'', JString name)])]))"

definition List :: "weight \<Rightarrow> ID \<Rightarrow> PolDB \<Rightarrow> Policy list" where
  "List weight tenantID db = map scanPolicy (sort_key (\<lambda>p. weight (po_name p))
     (filter (\<lambda>p. po_tenant p = tenantID \<and> po_deleted p = None) (policies db)))"

definition GetPolicy :: "ID \<Rightarrow> PolDB \<Rightarrow> pol_error + Policy" where
  "GetPolicy i db = (case live_policy db i of None \<Rightarrow> Inl PolNotFound | Some p \<Rightarrow> Inr (scanPolicy p))"

definition set_policy :: "ID \<Rightarrow> (PolicyRow \<Rightarrow> PolicyRow) \<Rightarrow> PolDB \<Rightarrow> PolDB" where \<comment> \<open>UPDATE of a live row\<close>
  "set_policy i f db = db\<lparr>policies := map (\<lambda>p. if po_id p = i \<and> po_deleted p = None then f p else p) (policies db)\<rparr>"

text \<open>An operation on a live policy: the lookup, then what depends on it.\<close>

definition on_policy :: "ID \<Rightarrow> PolDB \<Rightarrow> (PolicyRow \<Rightarrow> (pol_error + 'a) \<times> 's \<times> Entry list) \<Rightarrow> 's
    \<Rightarrow> (pol_error + 'a) \<times> 's \<times> Entry list" where
  "on_policy i db f s = (case live_policy db i of None \<Rightarrow> (Inl PolNotFound, s, []) | Some p \<Rightarrow> f p)"

definition UpdateTransport :: "ID \<Rightarrow> ID \<Rightarrow> string \<Rightarrow> bool \<Rightarrow> string \<Rightarrow> PolDB \<Rightarrow> (pol_error + unit) \<times> PolDB \<times> Entry list" where
  "UpdateTransport i actor endpointMode sourceNAT controlChannel db =
     (if endpointMode \<notin> {''direct'', ''auto'', ''relay''} then (Inl UnknownEndpoint, db, [])
      else if controlChannel \<notin> {''direct'', ''tunnel''} then (Inl UnknownChannel, db, [])
      else on_policy i db (\<lambda>p. (Inr (),
        set_policy i (\<lambda>p. p\<lparr>po_endpoint := endpointMode, po_source_nat := sourceNAT, po_control := controlChannel\<rparr>) db,
        [writeAudit (po_tenant p) actor ''policy.transport'' ''policy'' (Some i)
           (Some [(''endpoint_mode'', JString endpointMode), (''source_nat'', JBool sourceNAT),
                  (''control_channel'', JString controlChannel)])])) db)"

definition Update :: "weight \<Rightarrow> ID \<Rightarrow> ID \<Rightarrow> string \<Rightarrow> string \<Rightarrow> bool \<Rightarrow> PolDB \<Rightarrow> (pol_error + unit) \<times> PolDB \<times> Entry list" where
  "Update weight i actor name description enabled db =
     on_policy i db (\<lambda>p.
       if \<exists>q \<in> set (policies db). po_id q \<noteq> i \<and> po_tenant q = po_tenant p \<and> weight (po_name q) = weight name
       then (Inl (PolDuplicate ''policies''), db, [])
       else (Inr (), set_policy i (\<lambda>p. p\<lparr>po_name := name, po_descr := null_str description, po_enabled := enabled\<rparr>) db,
         [writeAudit (po_tenant p) actor ''policy.update'' ''policy'' (Some i)
            (Some [(''name'', JString name), (''enabled'', JBool enabled)])])) db"

definition Delete :: "time \<Rightarrow> ID \<Rightarrow> ID \<Rightarrow> Device list \<times> PolDB \<Rightarrow> (pol_error + unit) \<times> (Device list \<times> PolDB) \<times> Entry list" where
  "Delete dbnow i actor s = (case s of (ds, db) \<Rightarrow>
     on_policy i db (\<lambda>p. (Inr (),
       (map (\<lambda>d. if d_policy d = Some i then d\<lparr>d_policy := None\<rparr> else d) ds,
        db\<lparr>policies := map (\<lambda>p. if po_id p = i then p\<lparr>po_deleted := Some dbnow\<rparr> else p) (policies db)\<rparr>),
       [writeAudit (po_tenant p) actor ''policy.delete'' ''policy'' (Some i) None])) s)"

section \<open>CIDRs\<close>

definition normalizeCIDR :: "string \<Rightarrow> pol_error + string" where
  "normalizeCIDR s = (case parse_prefix (trim_space s) of None \<Rightarrow> Inl InvalidCIDR | Some p \<Rightarrow> Inr (prefix_str (masked p)))"

definition AddAllowedIP :: "weight \<Rightarrow> ID \<Rightarrow> ID \<Rightarrow> ID \<Rightarrow> string \<Rightarrow> string \<Rightarrow> PolDB
    \<Rightarrow> (pol_error + AllowedRow) \<times> PolDB \<times> Entry list" where
  "AddAllowedIP weight newID policyID actor cidr description db =
     (case normalizeCIDR cidr of
        Inl e \<Rightarrow> (Inl e, db, [])
      | Inr canonical \<Rightarrow> on_policy policyID db (\<lambda>p.
          if \<exists>a \<in> set (allowed db). ai_id a = newID \<or> (ai_policy a = policyID \<and> weight (ai_cidr a) = weight canonical)
          then (Inl (PolDuplicate ''policy_allowed_ips''), db, [])
          else let row = \<lparr>ai_id = newID, ai_policy = policyID, ai_cidr = canonical, ai_descr = null_str description\<rparr>
            in (Inr row, db\<lparr>allowed := allowed db @ [row]\<rparr>,
              [writeAudit (po_tenant p) actor ''policy.allowed_ip.add'' ''policy'' (Some policyID)
                 (Some [(''cidr'', JString canonical)])])) db)"

definition RemoveAllowedIP :: "ID \<Rightarrow> ID \<Rightarrow> PolDB \<Rightarrow> (pol_error + unit) \<times> PolDB \<times> Entry list" where
  "RemoveAllowedIP i actor db = (case find (\<lambda>a. ai_id a = i) (allowed db) of
     None \<Rightarrow> (Inl PolNotFound, db, [])
   | Some a \<Rightarrow> on_policy (ai_policy a) db (\<lambda>p. (Inr (),
       db\<lparr>allowed := filter (\<lambda>r. ai_id r \<noteq> i) (allowed db)\<rparr>,
       [writeAudit (po_tenant p) actor ''policy.allowed_ip.remove'' ''policy'' (Some (ai_policy a))
          (Some [(''cidr'', JString (ai_cidr a))])])) db)"

definition ListAllowedIPs :: "weight \<Rightarrow> ID \<Rightarrow> PolDB \<Rightarrow> AllowedRow list" where
  "ListAllowedIPs weight policyID db = sort_key (\<lambda>a. weight (ai_cidr a)) (filter (\<lambda>a. ai_policy a = policyID) (allowed db))"

definition GetWithAllowedIPs :: "weight \<Rightarrow> ID \<Rightarrow> PolDB \<Rightarrow> pol_error + Policy \<times> AllowedRow list" where
  "GetWithAllowedIPs weight i db = and_then (GetPolicy i db) (\<lambda>p. Inr (p, ListAllowedIPs weight i db))"

section \<open>Assignment\<close>

definition AssignToDevice :: "ID \<Rightarrow> ID \<Rightarrow> ID \<Rightarrow> Device list \<times> PolDB \<Rightarrow> (pol_error + unit) \<times> (Device list \<times> PolDB) \<times> Entry list" where
  "AssignToDevice deviceID policyID actor s = (case s of (ds, db) \<Rightarrow>
     if IsZero policyID then
       (case live_device ds deviceID of
          None \<Rightarrow> (Inl PolNotFound, s, [])
        | Some _ \<Rightarrow> (Inr (), (map (\<lambda>d. if d_id d = deviceID then d\<lparr>d_policy := None\<rparr> else d) ds, db), []))
     else (case (find (\<lambda>d. d_id d = deviceID) ds, live_policy db policyID) of
          (Some d, Some p) \<Rightarrow>
            if d_tenant d \<noteq> po_tenant p then (Inl OtherTenant, s, [])
            else (Inr (), (map (\<lambda>d. if d_id d = deviceID then d\<lparr>d_policy := Some policyID\<rparr> else d) ds, db),
              [writeAudit (d_tenant d) actor ''policy.assign'' ''device'' (Some deviceID)
                 (Some [(''policy_id'', JString (Ident.String policyID))])])
        | _ \<Rightarrow> (Inl PolNotFound, s, [])))"
section \<open>What a device's policy comes to\<close>

text \<open>
  \<open>LEFT JOIN device_groups\<close> and \<open>COALESCE (d.policy_id, g.policy_id)\<close>: the device's own policy wins
  over that of its group.  The inner join keeps a live policy of the device's tenant.
\<close>

definition group_of :: "PolDB \<Rightarrow> Device \<Rightarrow> Group option" where
  "group_of db d = find (\<lambda>g. d_group d = Some (g_id g) \<and> g_tenant g = d_tenant d \<and> g_deleted g = None) (groups db)"

definition policy_id_of :: "PolDB \<Rightarrow> Device \<Rightarrow> ID option" where
  "policy_id_of db d = (case d_policy d of
     Some p \<Rightarrow> Some p
   | None \<Rightarrow> (case group_of db d of None \<Rightarrow> None | Some g \<Rightarrow> g_policy g))"

definition joined :: "PolDB \<Rightarrow> Device \<Rightarrow> PolicyRow list" where
  "joined db d = filter (\<lambda>p. policy_id_of db d = Some (po_id p) \<and> po_tenant p = d_tenant d \<and> po_deleted p = None) (policies db)"

definition devices_with :: "ID \<Rightarrow> Device list \<Rightarrow> Device list" where
  "devices_with i ds = filter (\<lambda>d. d_id d = i) ds"

definition effective :: "PolDB \<Rightarrow> Device list \<Rightarrow> ID \<Rightarrow> (Device \<times> PolicyRow) list" where \<comment> \<open>also \<open>enabled = TRUE\<close>\<close>
  "effective db ds i = [(d, p). d \<leftarrow> devices_with i ds, p \<leftarrow> joined db d, po_enabled p]"

definition ForDevice :: "ID \<Rightarrow> Device list \<times> PolDB \<Rightarrow> Policy option" where
  "ForDevice i s = (case s of (ds, db) \<Rightarrow>
     (case concat (map (joined db) (devices_with i ds)) of [] \<Rightarrow> None | p # _ \<Rightarrow> Some (scanPolicy p)))"

fun dedupe_from :: "string list \<Rightarrow> string list \<Rightarrow> string list" where
  "dedupe_from seen [] = []"
| "dedupe_from seen (v # vs) = (if v \<in> set seen then dedupe_from seen vs else v # dedupe_from (v # seen) vs)"

definition dedupe :: "string list \<Rightarrow> string list" where
  "dedupe vs = (if length vs < 2 then vs else dedupe_from [] vs)"

fun union_distinct :: "weight \<Rightarrow> string list \<Rightarrow> string list" where \<comment> \<open>UNION keeps one of equal texts\<close>
  "union_distinct weight [] = []"
| "union_distinct weight (v # vs) = v # union_distinct weight (filter (\<lambda>u. weight u \<noteq> weight v) vs)"

definition resolution_text :: "(bytes \<Rightarrow> string) \<Rightarrow> ResolutionRow \<Rightarrow> string" where
  "resolution_text ntoa r = ntoa (re_addr r) @ ''/'' @ nat_str (re_bits r)"

definition destination_texts :: "(bytes \<Rightarrow> string) \<Rightarrow> PolDB \<Rightarrow> PolicyRow \<Rightarrow> string list" where \<comment> \<open>the three SELECTs, of one policy\<close>
  "destination_texts ntoa db p =
     [ai_cidr a. a \<leftarrow> allowed db, ai_policy a = po_id p]
     @ [resolution_text ntoa r. h \<leftarrow> hostnames db, hn_policy h = po_id p, r \<leftarrow> resolutions db, re_host r = hn_id h]
     @ [vh_virtual v @ ''/32''. v \<leftarrow> virtuals db, vh_policy v = po_id p]"

definition canonical_or_same :: "string \<Rightarrow> string" where
  "canonical_or_same c = (case normalizeCIDR c of Inl _ \<Rightarrow> c | Inr n \<Rightarrow> n)"

definition GetEffectiveAllowedIPs :: "weight \<Rightarrow> (bytes \<Rightarrow> string) \<Rightarrow> ID \<Rightarrow> Device list \<times> PolDB \<Rightarrow> string list" where
  "GetEffectiveAllowedIPs weight ntoa i s = (case s of (ds, db) \<Rightarrow>
     dedupe (map canonical_or_same (sort_key weight (union_distinct weight
       (concat (map (\<lambda>(d, p). destination_texts ntoa db p) (effective db ds i)))))))"

text \<open>DNS.\<close>

record DNSSettings =
  Servers :: "string list"
  SearchDomains :: "string list"

definition splitList :: "string \<Rightarrow> string list" where
  "splitList s = (if trim_space s = [] then [] else filter (\<lambda>p. p \<noteq> []) (map trim_space (split_on (CHR '','') s)))"

definition GetEffectiveDNS :: "ID \<Rightarrow> Device list \<times> PolDB \<Rightarrow> DNSSettings" where
  "GetEffectiveDNS i s = (case s of (ds, db) \<Rightarrow> (case effective db ds i of
     [] \<Rightarrow> \<lparr>Servers = [], SearchDomains = []\<rparr>
   | (_, p) # _ \<Rightarrow> \<lparr>Servers = splitList (or_empty (po_dns p)), SearchDomains = splitList (or_empty (po_search p))\<rparr>))"

definition route_scope :: "string \<Rightarrow> string" where \<comment> \<open>anything but \<open>full\<close> is the split tunnel\<close>
  "route_scope s = (if s = ''full'' then ''full'' else ''policy'')"

definition GetEffectiveRouteScope :: "ID \<Rightarrow> Device list \<times> PolDB \<Rightarrow> string" where
  "GetEffectiveRouteScope i s = (case s of (ds, db) \<Rightarrow> (case effective db ds i of
     [] \<Rightarrow> ''policy'' | (_, p) # _ \<Rightarrow> route_scope (po_scope p)))"

definition IsDeviceBound :: "ID \<Rightarrow> Device list \<times> PolDB \<Rightarrow> bool" where
  "IsDeviceBound i s = (case s of (ds, db) \<Rightarrow> 0 < length (effective db ds i))"

text \<open>L4 rules: drop before reject before accept, then the longer prefix first.\<close>

record EffRule =
  ef_action :: string
  ef_dst :: prefix
  ef_protocol :: string
  ef_min :: "16 word"
  ef_max :: "16 word"

definition HasPorts :: "EffRule \<Rightarrow> bool" where
  "HasPorts r = (if ef_protocol r \<noteq> ''tcp'' \<and> ef_protocol r \<noteq> ''udp'' then False
     else ef_min r \<noteq> 0 \<or> ef_max r \<noteq> 0)"

definition field_rank :: "string \<Rightarrow> nat" where \<comment> \<open>\<open>FIELD (action, 'drop', 'reject', 'accept')\<close>\<close>
  "field_rank a = (if a = ''drop'' then 1 else if a = ''reject'' then 2 else if a = ''accept'' then 3 else 0)"

definition rule_applies :: "PolDB \<Rightarrow> Device \<Rightarrow> RuleRow \<Rightarrow> bool" where
  "rule_applies db d r \<longleftrightarrow> (ru_device r = None \<and> ru_group r = None) \<or> ru_device r = Some (d_id d)
     \<or> (\<exists>g \<in> set (groups db). group_of db d = Some g \<and> ru_group r = Some (g_id g))
     \<or> (\<exists>m \<in> set (memberships db). fst m = d_id d \<and> ru_group r = Some (snd m))"

definition addr_from_slice :: "bytes \<Rightarrow> addr option" where
  "addr_from_slice b = (if length b = 4 then Some (from4 b) else if length b = 16 then Some (from16 b) else None)"

definition eff_rule :: "RuleRow \<Rightarrow> EffRule option" where
  "eff_rule r = (case addr_from_slice (ru_addr r) of
     None \<Rightarrow> None
   | Some a0 \<Rightarrow> (let a = unmap a0 in
       if uint (ru_bits r) > bitlen a then None
       else let dst = masked (prefix_from a (uint (ru_bits r))) in
         if \<not> prefix_valid dst then None
         else Some \<lparr>ef_action = ru_action r, ef_dst = dst, ef_protocol = ru_protocol r,
           ef_min = (case ru_min r of None \<Rightarrow> 0 | Some n \<Rightarrow> n), ef_max = (case ru_max r of None \<Rightarrow> 0 | Some n \<Rightarrow> n)\<rparr>))"

definition GetEffectiveRules :: "ID \<Rightarrow> Device list \<times> PolDB \<Rightarrow> EffRule list" where
  "GetEffectiveRules i s = (case s of (ds, db) \<Rightarrow>
     List.map_filter eff_rule (sort_key (\<lambda>r. 1000 * field_rank (ru_action r) + (255 - unat (ru_bits r)))
       [r. (d, p) \<leftarrow> effective db ds i, r \<leftarrow> rules db, ru_policy r = po_id p, rule_applies db d r]))"

section \<open>Virtual hosts\<close>

definition virtualRange :: prefix where "virtualRange = \<lparr>paddr = V4 0x0A4F0000, pbits = 16\<rparr>" \<comment> \<open>10.79.0.0/16\<close>

definition AddVirtualHost :: "weight \<Rightarrow> ID \<Rightarrow> ID \<Rightarrow> ID \<Rightarrow> string \<Rightarrow> string \<Rightarrow> string \<Rightarrow> PolDB
    \<Rightarrow> (pol_error + VirtualRow) \<times> PolDB \<times> Entry list" where
  "AddVirtualHost weight newID policyID actor virtualIP realIP description db =
     (case parse_addr virtualIP of
        None \<Rightarrow> (Inl BadVirtual, db, [])
      | Some v \<Rightarrow> (case parse_addr realIP of
          None \<Rightarrow> (Inl BadReal, db, [])
        | Some r \<Rightarrow>
           if \<not> contains virtualRange v then (Inl OutsideRange, db, [])
           else if contains virtualRange r then (Inl InsideRange, db, [])
           else on_policy policyID db (\<lambda>p.
             if \<exists>h \<in> set (virtuals db). vh_id h = newID \<or> (vh_policy h = policyID \<and> weight (vh_virtual h) = weight (addr_str v))
             then (Inl (PolDuplicate ''policy_virtual_hosts''), db, [])
             else let row = \<lparr>vh_id = newID, vh_policy = policyID, vh_virtual = addr_str v, vh_real = addr_str r,
                    vh_descr = null_str description\<rparr>
               in (Inr row, db\<lparr>virtuals := virtuals db @ [row]\<rparr>,
                 [writeAudit (po_tenant p) actor ''policy.virtual_host.add'' ''policy'' (Some policyID)
                    (Some [(''virtual_ip'', JString (addr_str v)), (''real_ip'', JString (addr_str r))])])) db))"

definition RemoveVirtualHost :: "ID \<Rightarrow> ID \<Rightarrow> ID \<Rightarrow> PolDB \<Rightarrow> (pol_error + unit) \<times> PolDB \<times> Entry list" where
  "RemoveVirtualHost policyID hostID actor db = on_policy policyID db (\<lambda>p. (Inr (),
     db\<lparr>virtuals := filter (\<lambda>h. \<not> (vh_id h = hostID \<and> vh_policy h = policyID)) (virtuals db)\<rparr>,
     [writeAudit (po_tenant p) actor ''policy.virtual_host.remove'' ''policy'' (Some policyID)
        (Some [(''host_id'', JString (Ident.String hostID))])])) db"

definition ListVirtualHosts :: "weight \<Rightarrow> ID \<Rightarrow> PolDB \<Rightarrow> VirtualRow list" where
  "ListVirtualHosts weight policyID db = sort_key (\<lambda>h. weight (vh_virtual h)) (filter (\<lambda>h. vh_policy h = policyID) (virtuals db))"

definition VirtualHostsForDevice :: "ID \<Rightarrow> Device list \<times> PolDB \<Rightarrow> VirtualRow list" where
  "VirtualHostsForDevice i s = (case s of (ds, db) \<Rightarrow>
     [h. (d, p) \<leftarrow> effective db ds i, h \<leftarrow> virtuals db, vh_policy h = po_id p])"

section \<open>Host names and settings\<close>

definition hostname_char :: "char \<Rightarrow> bool" where
  "hostname_char c \<longleftrightarrow> is_lower c \<or> is_digit c \<or> c = CHR ''-''"

definition bad_label :: "string \<Rightarrow> bool" where
  "bad_label l \<longleftrightarrow> length l > 63 \<or> has_prefix l ''-'' \<or> has_suffix l ''-'' \<or> \<not> list_all hostname_char l"

fun empty_label :: "string \<Rightarrow> bool" where \<comment> \<open>\<open>strings.Contains (h, "..")\<close>\<close>
  "empty_label [] = False"
| "empty_label (c # s) \<longleftrightarrow> has_prefix (c # s) ''..'' \<or> empty_label s"

definition validateHostname :: "string \<Rightarrow> pol_error option" where
  "validateHostname h =
     (if h = [] then Some (InvalidHostname ''empty'')
      else if length h > 253 then Some (InvalidHostname ''longer than 253 characters'')
      else if has_prefix h ''.'' \<or> has_suffix h ''.'' then Some (InvalidHostname ''leading or trailing dot'')
      else if empty_label h then Some (InvalidHostname ''empty label'')
      else if \<exists>c \<in> set h. c \<in> set ''*?/ '' then Some (InvalidHostname ''wildcards and paths'')
      else if \<exists>l \<in> set (split_on (CHR ''.'') h). bad_label l then Some (InvalidHostname ''label'')
      else None)"

definition AddHostname :: "weight \<Rightarrow> ID \<Rightarrow> ID \<Rightarrow> ID \<Rightarrow> string \<Rightarrow> string \<Rightarrow> string \<Rightarrow> PolDB
    \<Rightarrow> (pol_error + HostRow) \<times> PolDB \<times> Entry list" where
  "AddHostname weight newID policyID actor hostname0 guardCIDR description db =
     (let hostname = trim_space (to_lower hostname0); guard0 = trim_space guardCIDR in
      case validateHostname hostname of
        Some e \<Rightarrow> (Inl e, db, [])
      | None \<Rightarrow> (case (if guard0 = [] then Inr [] else normalizeCIDR guard0) of
          Inl e \<Rightarrow> (Inl e, db, [])
        | Inr guard \<Rightarrow> on_policy policyID db (\<lambda>p.
            if \<exists>h \<in> set (hostnames db). hn_id h = newID \<or> (hn_policy h = policyID \<and> weight (hn_name h) = weight hostname)
            then (Inl (PolDuplicate ''policy_hostnames''), db, [])
            else let row = \<lparr>hn_id = newID, hn_policy = policyID, hn_name = hostname, hn_guard = null_str guard,
                   hn_descr = null_str description\<rparr>
              in (Inr row, db\<lparr>hostnames := hostnames db @ [row]\<rparr>,
                [writeAudit (po_tenant p) actor ''policy.hostname.add'' ''policy'' (Some policyID)
                   (Some [(''hostname'', JString hostname), (''guard_cidr'', JString guard)])])) db))"

text \<open>The resolutions of a removed name go with it (\<open>ON DELETE CASCADE\<close>).\<close>

definition RemoveHostname :: "ID \<Rightarrow> ID \<Rightarrow> ID \<Rightarrow> PolDB \<Rightarrow> (pol_error + unit) \<times> PolDB \<times> Entry list" where
  "RemoveHostname policyID hostnameID actor db =
     on_policy policyID db (\<lambda>p.
       if \<not> (\<exists>h \<in> set (hostnames db). hn_id h = hostnameID \<and> hn_policy h = policyID) then (Inl PolNotFound, db, [])
       else (Inr (), db\<lparr>hostnames := filter (\<lambda>h. \<not> (hn_id h = hostnameID \<and> hn_policy h = policyID)) (hostnames db),
              resolutions := filter (\<lambda>r. re_host r \<noteq> hostnameID) (resolutions db)\<rparr>,
         [writeAudit (po_tenant p) actor ''policy.hostname.remove'' ''policy'' (Some policyID)
            (Some [(''hostname_id'', JString (Ident.String hostnameID))])])) db"

definition resolutionsFor :: "(bytes \<Rightarrow> string) \<Rightarrow> ID \<Rightarrow> PolDB \<Rightarrow> string list" where
  "resolutionsFor ntoa h db = map (resolution_text ntoa) (sort_key (\<lambda>r. - re_seen r) (filter (\<lambda>r. re_host r = h) (resolutions db)))"

definition ListHostnames :: "weight \<Rightarrow> (bytes \<Rightarrow> string) \<Rightarrow> ID \<Rightarrow> PolDB \<Rightarrow> (HostRow \<times> string list) list" where
  "ListHostnames weight ntoa policyID db = map (\<lambda>h. (h, resolutionsFor ntoa (hn_id h) db))
     (sort_key (\<lambda>h. weight (hn_name h)) (filter (\<lambda>h. hn_policy h = policyID) (hostnames db)))"

record Settings =
  st_scope :: string
  st_dns :: "string list"
  st_search :: "string list"

definition GetSettings :: "ID \<Rightarrow> PolDB \<Rightarrow> pol_error + Settings" where
  "GetSettings i db = (case live_policy db i of
     None \<Rightarrow> Inl PolNotFound
   | Some p \<Rightarrow> Inr \<lparr>st_scope = route_scope (po_scope p), st_dns = splitList (or_empty (po_dns p)),
       st_search = splitList (or_empty (po_search p))\<rparr>)"

fun clean_servers :: "string list \<Rightarrow> pol_error + string list" where
  "clean_servers [] = Inr []"
| "clean_servers (raw # rest) = (let v = trim_space raw in
     if v = [] then clean_servers rest
     else if parse_addr v = None then Inl (BadDNS v)
     else and_then (clean_servers rest) (\<lambda>vs. Inr (v # vs)))"

fun clean_domains :: "string list \<Rightarrow> pol_error + string list" where
  "clean_domains [] = Inr []"
| "clean_domains (raw # rest) = (let v = trim_space (to_lower raw) in
     if v = [] then clean_domains rest
     else case validateHostname v of
       Some e \<Rightarrow> Inl e
     | None \<Rightarrow> and_then (clean_domains rest) (\<lambda>vs. Inr (v # vs)))"

definition UpdateSettings :: "ID \<Rightarrow> ID \<Rightarrow> Settings \<Rightarrow> PolDB \<Rightarrow> (pol_error + unit) \<times> PolDB \<times> Entry list" where
  "UpdateSettings i actor st db = on_policy i db (\<lambda>p.
     (case and_then (clean_servers (st_dns st)) (\<lambda>dns. and_then (clean_domains (st_search st)) (\<lambda>doms. Inr (dns, doms))) of
        Inl e \<Rightarrow> (Inl e, db, [])
      | Inr (dns, doms) \<Rightarrow> (Inr (),
          set_policy i (\<lambda>p. p\<lparr>po_scope := route_scope (st_scope st), po_dns := null_str (join '','' dns),
            po_search := null_str (join '','' doms)\<rparr>) db,
          [writeAudit (po_tenant p) actor ''policy.settings.update'' ''policy'' (Some i)
             (Some [(''route_scope'', JString (route_scope (st_scope st))), (''dns_servers'', JArray (map JString dns)),
                    (''dns_search_domains'', JArray (map JString doms))])]))) db"


end
