(* ===== verification/Resolver.thy ===== *)
theory Resolver
  imports Policies
begin

text \<open>
  The host name resolver (\<open>policies/resolver.go\<close>): one pass looks every name of an enabled policy up,
  drops the answers outside the name's guard range, stores the others and prunes what has not been
  seen for the grace period.  The lookup is an argument, and one instant stands for the clock of a
  pass.  The runs below interleave the statements of a pass with the administration of names.
\<close>

section \<open>A pass\<close>

definition defaultGrace :: time where "defaultGrace = 30 * minute"

definition resolve_hosts :: "PolDB \<Rightarrow> HostRow list" where
  "resolve_hosts db = [h. h \<leftarrow> hostnames db, p \<leftarrow> policies db,
     po_id p = hn_policy h \<and> po_deleted p = None \<and> po_enabled p]"

datatype guard = NoGuard | Guard prefix | BadGuard

definition host_guard :: "HostRow \<Rightarrow> guard" where
  "host_guard h = (let g = or_empty (hn_guard h) in
     if g = [] then NoGuard
     else case parse_prefix g of None \<Rightarrow> BadGuard | Some p \<Rightarrow> Guard (masked p))"

definition admits :: "guard \<Rightarrow> addr \<Rightarrow> bool" where
  "admits g a = (case g of NoGuard \<Rightarrow> True | Guard p \<Rightarrow> contains p a | BadGuard \<Rightarrow> False)"

text \<open>
  \<open>INSERT ... ON DUPLICATE KEY UPDATE\<close> under the primary key of name and address; the foreign key
  refuses a name that is gone.
\<close>

definition upsert :: "time \<Rightarrow> ID \<Rightarrow> addr \<Rightarrow> PolDB \<Rightarrow> PolDB option" where
  "upsert now h a db = (case IPToBytes a of
     None \<Rightarrow> None
   | Some b \<Rightarrow>
      (if \<forall>r \<in> set (hostnames db). hn_id r \<noteq> h then None
       else if \<exists>r \<in> set (resolutions db). re_host r = h \<and> re_addr r = b
         then Some (db\<lparr>resolutions := map (\<lambda>r. if re_host r = h \<and> re_addr r = b then r\<lparr>re_seen := now\<rparr> else r) (resolutions db)\<rparr>)
       else Some (db\<lparr>resolutions := resolutions db @ [\<lparr>re_host = h, re_addr = b, re_bits = (if is6 a then 128 else 32), re_seen = now\<rparr>]\<rparr>)))"

record tally =
  n_resolved :: nat
  n_rejected :: nat
  n_failed :: nat

definition store_addr :: "time \<Rightarrow> HostRow \<Rightarrow> addr \<Rightarrow> PolDB \<times> tally \<Rightarrow> PolDB \<times> tally" where
  "store_addr now h a0 s = (case s of (db, n) \<Rightarrow> (let a = unmap a0 in
     if \<not> admits (host_guard h) a then (db, n\<lparr>n_rejected := n_rejected n + 1\<rparr>)
     else case upsert now (hn_id h) a db of
       None \<Rightarrow> (db, n)
     | Some db' \<Rightarrow> (db', n\<lparr>n_resolved := n_resolved n + 1\<rparr>)))"

definition resolve_host :: "time \<Rightarrow> (string \<Rightarrow> string + addr list) \<Rightarrow> HostRow \<Rightarrow> PolDB \<times> tally \<Rightarrow> PolDB \<times> tally" where
  "resolve_host now lookup h s = (case lookup (hn_name h) of
     Inl _ \<Rightarrow> (fst s, (snd s)\<lparr>n_failed := n_failed (snd s) + 1\<rparr>)
   | Inr addrs \<Rightarrow> if host_guard h = BadGuard then s else fold (store_addr now h) addrs s)"

definition prune :: "time \<Rightarrow> time \<Rightarrow> PolDB \<Rightarrow> PolDB" where
  "prune now grace db = db\<lparr>resolutions := filter (\<lambda>r. \<not> re_seen r < now - grace div second * second) (resolutions db)\<rparr>"

definition ResolveOnce :: "time \<Rightarrow> time \<Rightarrow> (string \<Rightarrow> string + addr list) \<Rightarrow> PolDB \<Rightarrow> PolDB \<times> tally" where
  "ResolveOnce now grace0 lookup db =
     (let grace = (if grace0 \<le> 0 then defaultGrace else grace0);
          (db', n) = fold (resolve_host now lookup) (resolve_hosts db) (db, \<lparr>n_resolved = 0, n_rejected = 0, n_failed = 0\<rparr>)
      in (prune now grace db', n))"

section \<open>Guards\<close>

text \<open>
  Runs: administrators edit policies and names while passes run. A pass has read some rows, perhaps
  long ago, and works on them one answer at a time; identifiers are not used twice.
\<close>

inductive resolver_run :: "PolDB \<Rightarrow> HostRow list \<Rightarrow> bool" where
  start: "hostnames db = [] \<Longrightarrow> resolutions db = [] \<Longrightarrow> resolver_run db []"
| add_name: "resolver_run db hs \<Longrightarrow> i \<notin> hn_id ` set hs \<Longrightarrow>
    AddHostname w i pol actor name g descr db = (r, db', au) \<Longrightarrow> resolver_run db' hs"
| remove_name: "resolver_run db hs \<Longrightarrow> RemoveHostname pol i actor db = (r, db', au) \<Longrightarrow> resolver_run db' hs"
| edit: "resolver_run db hs \<Longrightarrow> resolver_run (db\<lparr>policies := ps, allowed := as, virtuals := vs, rules := rs, groups := gs, memberships := ms\<rparr>) hs"
| read: "resolver_run db hs \<Longrightarrow> resolver_run db (hs @ resolve_hosts db)"
| store: "resolver_run db hs \<Longrightarrow> h \<in> set hs \<Longrightarrow> resolver_run (fst (store_addr now h a (db, n))) hs"
| prune: "resolver_run db hs \<Longrightarrow> resolver_run (prune now grace db) hs"

definition target :: "ResolutionRow \<Rightarrow> ID \<times> bytes \<times> nat" where "target r = (re_host r, re_addr r, re_bits r)"

text \<open>The name owns the row, and the row holds one host address its guard admits.\<close>

definition admitted :: "HostRow \<Rightarrow> ID \<times> bytes \<times> nat \<Rightarrow> bool" where
  "admitted h t \<longleftrightarrow> (case t of (i, b, n) \<Rightarrow> hn_id h = i
     \<and> (\<exists>a. IPToBytes a = Some b \<and> admits (host_guard h) a \<and> n = (if is6 a then 128 else 32)))"

definition guarded :: "PolDB \<Rightarrow> HostRow list \<Rightarrow> bool" where
  "guarded db hs \<longleftrightarrow> distinct (map hn_id (hostnames db))
     \<and> (\<forall>h \<in> set hs. \<forall>k \<in> set (hostnames db). hn_id h = hn_id k \<longrightarrow> h = k)
     \<and> (\<forall>r \<in> set (resolutions db). \<exists>h \<in> set (hostnames db). admitted h (target r))"

lemma on_policy_cases:
  assumes "on_policy i db f s = (r, s', au)"
  obtains "s' = s" "r = Inl PolNotFound" | p where "live_policy db i = Some p" "f p = (r, s', au)"
  using assms by (auto simp: on_policy_def split: option.split_asm)

lemma AddHostname_db:
  assumes "AddHostname w i pol actor name g descr db = (r, db', au)"
  shows "db' = db \<or> (hn_id (last (hostnames db')) = i \<and> i \<notin> hn_id ` set (hostnames db)
     \<and> hostnames db' = hostnames db @ [last (hostnames db')] \<and> resolutions db' = resolutions db)"
  using assms unfolding AddHostname_def Let_def
  by (auto split: option.split_asm sum.split_asm if_split_asm elim!: on_policy_cases)

lemma RemoveHostname_db:
  assumes "RemoveHostname pol i actor db = (r, db', au)"
  shows "db' = db \<or> db' = db\<lparr>hostnames := filter (\<lambda>h. \<not> (hn_id h = i \<and> hn_policy h = pol)) (hostnames db),
     resolutions := filter (\<lambda>r. re_host r \<noteq> i) (resolutions db)\<rparr>"
  using assms unfolding RemoveHostname_def by (auto split: if_split_asm elim!: on_policy_cases)

lemma store_addr_db:
  "fst (store_addr now h a0 (db, n)) = (if admits (host_guard h) (unmap a0)
     then (case upsert now (hn_id h) (unmap a0) db of None \<Rightarrow> db | Some db' \<Rightarrow> db') else db)"
  by (simp add: store_addr_def Let_def split: option.split)

lemma upsert_rows:
  assumes "upsert now i a db = Some db'"
  obtains b where "IPToBytes a = Some b" "hostnames db' = hostnames db" "i \<in> hn_id ` set (hostnames db)"
    "target ` set (resolutions db') \<subseteq> insert (i, b, if is6 a then 128 else 32) (target ` set (resolutions db))"
proof -
  from assms obtain b where b: "IPToBytes a = Some b" and h: "\<not> (\<forall>r \<in> set (hostnames db). hn_id r \<noteq> i)"
    by (auto simp: upsert_def split: option.split_asm if_split_asm)
  from h have "i \<in> hn_id ` set (hostnames db)" by auto
  moreover have "hostnames db' = hostnames db"
    using assms by (auto simp: upsert_def split: option.split_asm if_split_asm)
  moreover have "target ` set (resolutions db') \<subseteq> insert (i, b, if is6 a then 128 else 32) (target ` set (resolutions db))"
  proof -
    have t: "target (if re_host r = i \<and> re_addr r = b then r\<lparr>re_seen := now\<rparr> else r) = target r" for r
      by (simp add: target_def)
    from assms b consider "resolutions db' = map (\<lambda>r. if re_host r = i \<and> re_addr r = b then r\<lparr>re_seen := now\<rparr> else r) (resolutions db)"
      | "resolutions db' = resolutions db @ [\<lparr>re_host = i, re_addr = b, re_bits = (if is6 a then 128 else 32), re_seen = now\<rparr>]"
      by (auto simp: upsert_def split: if_split_asm)
    then show ?thesis
    proof cases
      case 1
      have "target ` set (resolutions db') = target ` set (resolutions db)" unfolding 1 set_map image_image t by simp
      then show ?thesis by blast
    qed (simp add: target_def)
  qed
  ultimately show thesis using that b by blast
qed

lemma guarded_run: "resolver_run db hs \<Longrightarrow> guarded db hs"
proof (induction rule: resolver_run.induct)
  case (add_name db hs i w pol actor name g descr r db' au)
  from AddHostname_db [OF add_name.hyps(3)] show ?case
  proof
    assume n: "hn_id (last (hostnames db')) = i \<and> i \<notin> hn_id ` set (hostnames db)
      \<and> hostnames db' = hostnames db @ [last (hostnames db')] \<and> resolutions db' = resolutions db"
    then obtain row where row: "hostnames db' = hostnames db @ [row]" "hn_id row = i"
        "i \<notin> hn_id ` set (hostnames db)" "resolutions db' = resolutions db" by blast
    have "hn_id h \<noteq> hn_id row" if "h \<in> set hs" for h using that add_name.hyps(2) row(2) by (metis image_eqI)
    then show ?thesis using add_name.IH row(2,3) unfolding guarded_def row(1,4) by auto
  qed (use add_name.IH in simp)
next
  case (remove_name db hs pol i actor r db' au)
  from RemoveHostname_db [OF remove_name.hyps(2)] show ?case
  proof
    assume "db' = db\<lparr>hostnames := filter (\<lambda>h. \<not> (hn_id h = i \<and> hn_policy h = pol)) (hostnames db),
      resolutions := filter (\<lambda>r. re_host r \<noteq> i) (resolutions db)\<rparr>"
    then have hs: "set (hostnames db') \<subseteq> set (hostnames db)" "distinct (map hn_id (hostnames db)) \<Longrightarrow> distinct (map hn_id (hostnames db'))"
      and keep: "\<And>h. h \<in> set (hostnames db) \<Longrightarrow> hn_id h \<noteq> i \<Longrightarrow> h \<in> set (hostnames db')"
      and rs: "\<And>r. r \<in> set (resolutions db') \<Longrightarrow> r \<in> set (resolutions db) \<and> re_host r \<noteq> i"
      by (auto simp: distinct_map_filter)
    have "\<exists>h \<in> set (hostnames db'). admitted h (target r)" if "r \<in> set (resolutions db')" for r
    proof -
      from rs [OF that] remove_name.IH obtain h where "h \<in> set (hostnames db)" "admitted h (target r)" "re_host r \<noteq> i"
        unfolding guarded_def by blast
      moreover from this have "hn_id h = re_host r" by (simp add: admitted_def target_def)
      ultimately show ?thesis using keep [of h] by metis
    qed
    then show ?thesis using remove_name.IH hs unfolding guarded_def by blast
  qed (use remove_name.IH in simp)
next
  case (read db hs)
  have "set (resolve_hosts db) \<subseteq> set (hostnames db)" by (auto simp: resolve_hosts_def)
  moreover have "inj_on hn_id (set (hostnames db))" using read.IH by (simp add: guarded_def distinct_map)
  ultimately have "h = k" if "h \<in> set (resolve_hosts db)" "k \<in> set (hostnames db)" "hn_id h = hn_id k" for h k
    using that by (auto dest: inj_onD)
  then show ?case using read.IH unfolding guarded_def by auto
next
  case (store db hs h now a n)
  consider "fst (store_addr now h a (db, n)) = db"
    | db' where "admits (host_guard h) (unmap a)" "upsert now (hn_id h) (unmap a) db = Some db'" "fst (store_addr now h a (db, n)) = db'"
    unfolding store_addr_db by (cases "upsert now (hn_id h) (unmap a) db"; cases "admits (host_guard h) (unmap a)") simp_all
  then show ?case
  proof cases
    case 2
    from 2(2) obtain b where u: "IPToBytes (unmap a) = Some b" "hostnames db' = hostnames db" "hn_id h \<in> hn_id ` set (hostnames db)"
      "target ` set (resolutions db') \<subseteq> insert (hn_id h, b, if is6 (unmap a) then 128 else 32) (target ` set (resolutions db))"
      by (rule upsert_rows)
    from u(3) store.hyps(2) store.IH have h: "h \<in> set (hostnames db)" unfolding guarded_def by (metis image_iff)
    have "admitted h (hn_id h, b, if is6 (unmap a) then 128 else 32)" using u(1) 2(1) by (auto simp: admitted_def)
    moreover have ih: "\<forall>r \<in> set (resolutions db). \<exists>k \<in> set (hostnames db). admitted k (target r)"
      using store.IH by (simp add: guarded_def)
    ultimately have t: "\<exists>k \<in> set (hostnames db). admitted k (target r)" if "r \<in> set (resolutions db')" for r
    proof -
      have "target r \<in> insert (hn_id h, b, if is6 (unmap a) then 128 else 32) (target ` set (resolutions db))"
        using u(4) that by blast
      then show ?thesis
      proof
        assume "target r = (hn_id h, b, if is6 (unmap a) then 128 else 32)"
        with \<open>admitted h _\<close> h show ?thesis by auto
      next
        assume "target r \<in> target ` set (resolutions db)"
        then obtain r0 where "target r = target r0" "r0 \<in> set (resolutions db)" by (rule imageE)
        with ih show ?thesis by simp
      qed
    qed
    show ?thesis using store.IH t unfolding guarded_def 2(3) u(2) by (elim conjE) (intro conjI ballI; (assumption | blast))
  qed (use store.IH in simp)
qed (auto simp: guarded_def prune_def)

text \<open>A whole pass is such a run.\<close>

lemma resolver_run_addrs:
  "resolver_run (fst s) hs \<Longrightarrow> h \<in> set hs \<Longrightarrow> resolver_run (fst (fold (store_addr now h) addrs s)) hs"
proof (induction addrs arbitrary: s)
  case (Cons a addrs)
  have "resolver_run (fst (store_addr now h a s)) hs"
    using resolver_run.store [OF Cons.prems, of now a "snd s"] by simp
  with Cons show ?case by simp
qed simp

lemma resolver_run_hosts:
  "resolver_run (fst s) hs \<Longrightarrow> set ks \<subseteq> set hs \<Longrightarrow> resolver_run (fst (fold (resolve_host now lookup) ks s)) hs"
proof (induction ks arbitrary: s)
  case (Cons k ks)
  have "resolver_run (fst (resolve_host now lookup k s)) hs"
    using Cons.prems resolver_run_addrs by (simp add: resolve_host_def split: sum.split)
  with Cons show ?case by simp
qed simp

lemma ResolveOnce_db:
  "fst (ResolveOnce now grace lookup db) = prune now (if grace \<le> 0 then defaultGrace else grace)
     (fst (fold (resolve_host now lookup) (resolve_hosts db) (db, \<lparr>n_resolved = 0, n_rejected = 0, n_failed = 0\<rparr>)))"
  by (simp add: ResolveOnce_def Let_def split: prod.split)

lemma resolver_run_pass:
  assumes "resolver_run db hs"
  shows "resolver_run (fst (ResolveOnce now grace lookup db)) (hs @ resolve_hosts db)"
  unfolding ResolveOnce_db
  by (intro resolver_run.prune resolver_run_hosts) (use resolver_run.read [OF assms] in simp_all)

text \<open>
  What a guard range means, said without the resolver: the address has the family of the network and
  agrees with it in the leading bits, as numbers.  A name without a guard (NULL or empty) admits every
  address, one whose guard is no CIDR text admits none.
\<close>

definition in_network :: "addr \<Rightarrow> nat \<Rightarrow> addr \<Rightarrow> bool" where
  "in_network net n a = (case (net, a) of
     (V4 w, V4 x) \<Rightarrow> unat w div 2 ^ (32 - n) = unat x div 2 ^ (32 - n)
   | (V6 w _, V6 x _) \<Rightarrow> unat w div 2 ^ (128 - n) = unat x div 2 ^ (128 - n)
   | _ \<Rightarrow> False)"

definition guard_range :: "string option \<Rightarrow> addr \<Rightarrow> bool" where
  "guard_range g a = (case g of
     None \<Rightarrow> True
   | Some t \<Rightarrow> if t = [] then True
       else case parse_prefix t of None \<Rightarrow> False | Some p \<Rightarrow> in_network (paddr p) (nat (pbits p)) a)"

lemma mask_word_network:
  fixes w x :: "'a::len word"
  assumes "n \<le> LENGTH('a)"
  shows "mask_word n w = mask_word n x \<longleftrightarrow> unat w div 2 ^ (LENGTH('a) - n) = unat x div 2 ^ (LENGTH('a) - n)"
proof -
  have "mask_word n w = mask_word n x \<longleftrightarrow> unat (mask_word n w) = unat (mask_word n x)" by (simp add: word_unat_eq_iff)
  also have "\<dots> \<longleftrightarrow> unat w div 2 ^ (LENGTH('a) - n) = unat x div 2 ^ (LENGTH('a) - n)"
    by (simp add: unat_mask_word [OF assms])
  finally show ?thesis .
qed

lemma contains_network:
  assumes "contains p a" "pbits p \<le> bitlen (paddr p)"
  shows "in_network (paddr p) (nat (pbits p)) a"
  using assms by (auto simp: contains_def in_network_def bitlen_def mask_word_network [where 'a = 32, simplified]
      mask_word_network [where 'a = 128, simplified] split: addr.splits)

lemma admits_range:
  assumes "admits (host_guard h) a"
  shows "guard_range (hn_guard h) a"
proof (cases "or_empty (hn_guard h) = []")
  case True
  then show ?thesis by (auto simp: guard_range_def or_empty_def split: option.split)
next
  case False
  then obtain t where t: "hn_guard h = Some t" "t \<noteq> []" by (cases "hn_guard h") (auto simp: or_empty_def)
  then obtain p where p: "parse_prefix t = Some p" "contains p a"
    using assms by (auto simp: host_guard_def or_empty_def admits_def contains_masked split: option.split_asm)
  have "pbits p \<le> bitlen (paddr p)"
    using parse_prefix_from [OF p(1)] by (auto simp: prefix_from_def bitlen_def split: addr.splits)
  with contains_network [OF p(2)] t p(1) show ?thesis by (simp add: guard_range_def)
qed

text \<open>
  C36. DNS cannot widen a policy past its guard: in every interleaving of passes and administration,
  statement by statement, each stored address belongs to an existing name, is a single host, and lies in the
  range of the name's guard, which is stated on the numbers of the addresses (\<open>guard_range\<close>): any address
  when the name has no guard, none when the guard is no CIDR text.
\<close>

theorem resolutions_guarded:
  assumes "resolver_run db hs" "r \<in> set (resolutions db)"
  shows "\<exists>h \<in> set (hostnames db). \<exists>a. hn_id h = re_host r \<and> IPToBytes a = Some (re_addr r)
    \<and> re_bits r = (if is6 a then 128 else 32) \<and> guard_range (hn_guard h) a"
proof -
  from guarded_run [OF assms(1)] assms(2) obtain h where "h \<in> set (hostnames db)" "admitted h (target r)"
    unfolding guarded_def by blast
  then show ?thesis unfolding admitted_def target_def prod.case using admits_range by blast
qed

section \<open>Failed lookups\<close>

definition rows_of_host :: "ID \<Rightarrow> PolDB \<Rightarrow> ResolutionRow list" where
  "rows_of_host i db = filter (\<lambda>r. re_host r = i) (resolutions db)"

lemma store_addr_other: "hn_id h \<noteq> i \<Longrightarrow> rows_of_host i (fst (store_addr now h a s)) = rows_of_host i (fst s)"
proof -
  assume ne: "hn_id h \<noteq> i"
  have "rows_of_host i db' = rows_of_host i db" if "upsert now (hn_id h) x db = Some db'" for x db db'
    using that ne unfolding upsert_def rows_of_host_def
    by (auto split: option.split_asm if_split_asm intro!: filter_map_other)
  then show ?thesis by (cases s) (auto simp: store_addr_db split: option.split)
qed

lemma resolve_host_other:
  assumes "hn_id h = i \<longrightarrow> isl (lookup (hn_name h))"
  shows "rows_of_host i (fst (resolve_host now lookup h s)) = rows_of_host i (fst s)"
proof -
  have "hn_id h \<noteq> i \<Longrightarrow> rows_of_host i (fst (fold (store_addr now h) addrs s)) = rows_of_host i (fst s)" for addrs
    by (induction addrs arbitrary: s) (simp_all add: store_addr_other)
  with assms show ?thesis by (auto simp: resolve_host_def split: sum.split)
qed

lemma rows_of_host_prune:
  "rows_of_host i (prune now grace db) = filter (\<lambda>r. \<not> re_seen r < now - grace div second * second) (rows_of_host i db)"
  by (simp add: prune_def rows_of_host_def conj_commute)

text \<open>
  A failing resolver revokes nothing by itself: a pass in which the lookup of a name fails leaves
  the name's addresses as they were, but for those the grace period has run out on.
\<close>

theorem failed_lookup_keeps:
  assumes "\<forall>h \<in> set (hostnames db). hn_id h = i \<longrightarrow> isl (lookup (hn_name h))" "0 < grace"
  shows "rows_of_host i (fst (ResolveOnce now grace lookup db))
    = filter (\<lambda>r. \<not> re_seen r < now - grace div second * second) (rows_of_host i db)"
proof -
  have "set (resolve_hosts db) \<subseteq> set (hostnames db)" by (auto simp: resolve_hosts_def)
  then have "\<forall>h \<in> set (resolve_hosts db). hn_id h = i \<longrightarrow> isl (lookup (hn_name h))" using assms(1) by blast
  moreover have "\<forall>h \<in> set hs. hn_id h = i \<longrightarrow> isl (lookup (hn_name h)) \<Longrightarrow>
      rows_of_host i (fst (fold (resolve_host now lookup) hs s)) = rows_of_host i (fst s)" for hs s
    by (induction hs arbitrary: s) (simp_all add: resolve_host_other)
  ultimately have "rows_of_host i (fst (fold (resolve_host now lookup) (resolve_hosts db) s)) = rows_of_host i (fst s)" for s
    by blast
  then show ?thesis using assms(2) by (simp add: ResolveOnce_db rows_of_host_prune)
qed
section \<open>A concrete pass\<close>

definition ward :: PolicyRow where
  "ward = \<lparr>po_id = replicate 16 5, po_tenant = replicate 16 9, po_name = ''ward'', po_descr = None, po_enabled = True,
     po_source_nat = False, po_endpoint = ''direct'', po_control = ''direct'', po_precedence = 100, po_scope = ''policy'',
     po_dns = None, po_search = None, po_created = 0, po_deleted = None\<rparr>"

definition ward_db :: PolDB where
  "ward_db = \<lparr>policies = [ward], allowed = [], hostnames = [], resolutions = [], virtuals = [], rules = [], groups = [], memberships = []\<rparr>"

definition named_db :: PolDB where
  "named_db = fst (snd (AddHostname (map of_char) (replicate 16 6) (replicate 16 5) Zero ''emr'' ''10.10.0.0/16'' [] ward_db))"

definition demo_lookup :: "string \<Rightarrow> string + addr list" where
  "demo_lookup h = (if h = ''emr'' then Inr [V4 0x0A0A0514, V4 0x08080808] else Inl ''no such host'')"

definition resolved_db :: PolDB where "resolved_db = fst (ResolveOnce (100 * minute) (30 * minute) demo_lookup named_db)"

lemma demo_texts:
  "trim_space ''emr'' = ''emr''" "trim_space ''10.10.0.0/16'' = ''10.10.0.0/16''" "to_lower ''emr'' = ''emr''"
  by (simp_all add: trim_space_plain plain_char_def to_lower_def lower_char_def is_upper_def less_eq_char_def)

lemma demo_name: "validateHostname ''emr'' = None"
  by code_simp

lemma demo_cidr: "map_option (\<lambda>p. prefix_str (masked p)) (parse_prefix ''10.10.0.0/16'') = Some ''10.10.0.0/16''"
  by code_simp

lemma named_db: "named_db = ward_db\<lparr>hostnames := [\<lparr>hn_id = replicate 16 6, hn_policy = replicate 16 5, hn_name = ''emr'',
    hn_guard = Some ''10.10.0.0/16'', hn_descr = None\<rparr>]\<rparr>"
proof -
  have "normalizeCIDR ''10.10.0.0/16'' = Inr ''10.10.0.0/16''"
    using demo_cidr by (auto simp: normalizeCIDR_def demo_texts)
  then show ?thesis
    by (simp add: named_db_def AddHostname_def Let_def demo_texts demo_name on_policy_def live_policy_def ward_db_def ward_def null_str_def)
qed

lemma demo_resolution:
  "resolutions resolved_db = [\<lparr>re_host = replicate 16 6, re_addr = [10, 10, 5, 20], re_bits = 32, re_seen = 100 * minute\<rparr>]"
  unfolding resolved_db_def named_db by code_simp

lemma demo_resolver_run: "resolver_run resolved_db ([] @ resolve_hosts named_db)"
  unfolding resolved_db_def
  by (intro resolver_run_pass resolver_run.add_name [OF resolver_run.start [of ward_db]])
    (simp_all add: ward_db_def named_db_def prod_eq_iff)

theorem resolutions_guarded_witness:
  "\<exists>h \<in> set (hostnames resolved_db). \<exists>a. hn_id h = replicate 16 6 \<and> IPToBytes a = Some [10, 10, 5, 20]
    \<and> 32 = (if is6 a then 128 else 32 :: nat) \<and> guard_range (hn_guard h) a"
  using resolutions_guarded [OF demo_resolver_run, of "hd (resolutions resolved_db)"] by (simp add: demo_resolution)

theorem failed_lookup_keeps_witness:
  "rows_of_host (replicate 16 6) (fst (ResolveOnce (110 * minute) (30 * minute) (\<lambda>_. Inl ''timeout'') resolved_db))
     = rows_of_host (replicate 16 6) resolved_db \<and> rows_of_host (replicate 16 6) resolved_db \<noteq> []"
  using failed_lookup_keeps [of resolved_db "replicate 16 6" "\<lambda>_. Inl ''timeout''" "30 * minute" "110 * minute"]
  by (simp add: rows_of_host_def demo_resolution minute_def second_def)


end
