(* ===== verification/NodeAPI.thy ===== *)
theory NodeAPI
  imports Policies Devices WGSync
begin

text \<open>
  What the controller tells a gateway and a device (\<open>httpapi/nodeapi.go\<close>, \<open>effectivePolicy\<close> and
  \<open>dnsFor\<close> of \<open>httpapi/handlers.go\<close>, \<open>httpapi/device_state.go\<close>, \<open>device_state_auth.go\<close>): the
  authentication of a node by its token, the peer list with its destinations and rules, and the state
  a device may ask for.  The queries of a handler run one after the other; here they see one state of
  the tables.  The JSON of the peer list is the record \<open>peerWire\<close> that the agent decodes.
\<close>

section \<open>Authentication of nodes\<close>

definition equal_fold :: "string \<Rightarrow> string \<Rightarrow> bool" where \<comment> \<open>\<open>strings.EqualFold\<close> on ASCII\<close>
  "equal_fold a b \<longleftrightarrow> to_lower a = to_lower b"

definition bearerFrom :: "string \<Rightarrow> string" where
  "bearerFrom h = (if h = [] then []
     else if length h < 7 \<or> \<not> equal_fold (take 7 h) ''bearer '' then []
     else trim_space (drop 7 h))"

record NodeRow =
  nd_id :: ID
  nd_tenant :: ID
  nd_hostname :: string
  nd_token_hash :: "bytes option"
  nd_token_set :: "time option"
  nd_status :: string
  nd_synced :: "time option"
  nd_deleted :: "time option"

datatype node_auth = MissingToken | InvalidToken | Ambiguous | LetIn ID ID string

definition requireNode :: "(string \<Rightarrow> bytes) \<Rightarrow> time \<Rightarrow> string \<Rightarrow> NodeRow list \<Rightarrow> node_auth \<times> NodeRow list" where
  "requireNode sha dbnow header nodes =
     (let raw = bearerFrom header in
      if raw = [] then (MissingToken, nodes)
      else case filter (\<lambda>n. nd_token_hash n = Some (sha raw) \<and> nd_deleted n = None
             \<and> nd_status n \<in> {''active'', ''draining'', ''provisioning''}) nodes of
        [] \<Rightarrow> (InvalidToken, nodes)
      | [n] \<Rightarrow> (LetIn (nd_id n) (nd_tenant n) (nd_hostname n),
                map (\<lambda>m. if nd_id m = nd_id n then m\<lparr>nd_synced := Some dbnow\<rparr> else m) nodes)
      | _ \<Rightarrow> (Ambiguous, nodes))"

definition SetNodeAgentToken :: "weight \<Rightarrow> (string \<Rightarrow> bytes) \<Rightarrow> time \<Rightarrow> string \<Rightarrow> string \<Rightarrow> NodeRow list
    \<Rightarrow> bool \<times> NodeRow list" where \<comment> \<open>false: no such node\<close>
  "SetNodeAgentToken weight sha dbnow hostname token nodes =
     (let hit = (\<lambda>n. weight (nd_hostname n) = weight hostname \<and> nd_deleted n = None) in
      (\<exists>n \<in> set nodes. hit n \<and> (nd_token_hash n \<noteq> Some (sha token) \<or> nd_token_set n \<noteq> Some dbnow),
       map (\<lambda>n. if hit n then n\<lparr>nd_token_hash := Some (sha token), nd_token_set := Some dbnow\<rparr> else n) nodes))"

section \<open>The policy of a device on the wire\<close>

definition effectivePolicy :: "weight \<Rightarrow> (bytes \<Rightarrow> string) \<Rightarrow> ID \<Rightarrow> Device list \<times> PolDB \<Rightarrow> string list \<times> bool" where
  "effectivePolicy weight ntoa i s = (GetEffectiveAllowedIPs weight ntoa i s, IsDeviceBound i s)"

definition dns_host :: "string \<Rightarrow> string option" where
  "dns_host srv = map_option (\<lambda>a. addr_str a @ ''/'' @ (if is6 a then ''128'' else ''32'')) (parse_addr (trim_space srv))"

fun fold_dns :: "string list \<Rightarrow> string list \<Rightarrow> string list" where
  "fold_dns [] allowedIPs = allowedIPs"
| "fold_dns (srv # rest) allowedIPs = (case dns_host srv of
     None \<Rightarrow> fold_dns rest allowedIPs
   | Some h \<Rightarrow> fold_dns rest (if h \<in> set allowedIPs then allowedIPs else allowedIPs @ [h]))"

definition dnsFor :: "ID \<Rightarrow> string list \<Rightarrow> Device list \<times> PolDB \<Rightarrow> DNSSettings \<times> string list" where
  "dnsFor i allowedIPs s = (let dns = GetEffectiveDNS i s in (dns, fold_dns (Servers dns) allowedIPs))"

definition wire_rule :: "EffRule \<Rightarrow> Rule" where
  "wire_rule r =
     (let lo = (if HasPorts r then ef_min r else 0); hi0 = (if HasPorts r then ef_max r else 0);
          hi = (if hi0 = 0 then lo else hi0)
      in \<lparr>Action = ef_action r, Dst = prefix_str (ef_dst r), Protocol = ef_protocol r,
          PortMin = (if lo = 0 then hi else lo), PortMax = hi\<rparr>)"

definition toNodeRuleJSON :: "EffRule list \<Rightarrow> Rule list" where "toNodeRuleJSON = map wire_rule"

section \<open>The peer list\<close>

text \<open>The rows of the query: active devices of the tenant whose access has not run out and whose system is
recent enough, with each unrevoked key. An \<open>os_sdk\<close> of 0 is NULL.\<close>

definition eligible :: "time \<Rightarrow> ID \<Rightarrow> Tenant \<Rightarrow> Device \<Rightarrow> bool" where
  "eligible dbnow tenant t d \<longleftrightarrow> d_tenant d = tenant \<and> t_id t = d_tenant d \<and> d_deleted d = None \<and> d_status d = StatusActive
     \<and> (case d_access_expires d of None \<Rightarrow> True | Some e \<Rightarrow> e > dbnow)
     \<and> (t_min_os_sdk t = 0 \<or> d_os_sdk d = 0 \<or> d_os_sdk d \<ge> t_min_os_sdk t)"

definition peer_rows :: "time \<Rightarrow> ID \<Rightarrow> DB \<Rightarrow> (Device \<times> DeviceKey) list" where
  "peer_rows dbnow tenant db = [(d, k). d \<leftarrow> sort_key d_id (devices db), k \<leftarrow> dkeys db, k_device k = d_id d \<and> k_revoked k = None,
     t \<leftarrow> tenants db, eligible dbnow tenant t d]"

definition newest_psk :: "DB \<Rightarrow> DeviceKey \<Rightarrow> bytes" where \<comment> \<open>nil when there is none\<close>
  "newest_psk db k = (case sort_key (\<lambda>p. - p_activated p)
       (filter (\<lambda>p. p_device_key p = k_id k \<and> p_revoked p = None) (psks db)) of [] \<Rightarrow> [] | p # _ \<Rightarrow> p_psk p)"

definition ipv4_text :: "DeviceKey \<Rightarrow> string" where
  "ipv4_text k = (case k_ipv4 k of Some b \<Rightarrow> if length b = 4 then addr_str (from4 b) else [] | None \<Rightarrow> [])"
definition ipv6_text :: "DeviceKey \<Rightarrow> string" where
  "ipv6_text k = (case k_ipv6 k of Some b \<Rightarrow> if length b = 16 then addr_str (from16 b) else [] | None \<Rightarrow> [])"

definition peer_cidrs :: "weight \<Rightarrow> (bytes \<Rightarrow> string) \<Rightarrow> Device list \<times> PolDB \<Rightarrow> ID \<Rightarrow> string list" where
  "peer_cidrs weight ntoa s i =
     snd (dnsFor i (fst (effectivePolicy weight ntoa i s)) s) @ map (\<lambda>v. vh_real v @ ''/32'') (VirtualHostsForDevice i s)"

definition wire_peer :: "weight \<Rightarrow> (bytes \<Rightarrow> string) \<Rightarrow> (bytes \<Rightarrow> string) \<Rightarrow> DB \<Rightarrow> PolDB \<Rightarrow> Device \<times> DeviceKey \<Rightarrow> peerWire" where
  "wire_peer weight ntoa b64 db pol dk = (case dk of (d, k) \<Rightarrow>
     (let s = (devices db, pol); i = d_id d; cidrs = peer_cidrs weight ntoa s i in
      \<lparr>w_device_id = Ident.String i, w_public_key = b64 (k_public k), w_psk = b64 (newest_psk db k),
       w_ipv4 = ipv4_text k, w_ipv6 = ipv6_text k, w_status = ''active'',
       w_policy_bound = snd (effectivePolicy weight ntoa i s), w_dest_cidrs = cidrs,
       w_rules = toNodeRuleJSON (GetEffectiveRules i s),
       w_rewrites = map (\<lambda>v. (vh_virtual v, vh_real v)) (VirtualHostsForDevice i s),
       w_nat_cidrs = (case ForDevice i s of Some p \<Rightarrow> if ps_source_nat p then cidrs else [] | None \<Rightarrow> [])\<rparr>))"

definition nodePeers :: "weight \<Rightarrow> (bytes \<Rightarrow> string) \<Rightarrow> (bytes \<Rightarrow> string) \<Rightarrow> time \<Rightarrow> ID \<Rightarrow> DB \<Rightarrow> PolDB \<Rightarrow> peerWire list" where
  "nodePeers weight ntoa b64 dbnow tenant db pol =
     map (wire_peer weight ntoa b64 db pol) (peer_rows dbnow tenant db)"

section \<open>The state a device may ask for\<close>

definition fields :: "string \<Rightarrow> string list" where \<comment> \<open>\<open>strings.Fields\<close> on ASCII\<close>
  "fields s = filter (\<lambda>w. w \<noteq> []) (split_on (CHR '' '')
     (map (\<lambda>c. if of_char c \<in> {9, 10, 11, 12, 13 :: nat} then CHR '' '' else c) s))"

definition requireDeviceStateAuth :: "(string \<Rightarrow> bytes option) \<Rightarrow> (string \<Rightarrow> bytes) \<Rightarrow> ID option \<Rightarrow> string list \<Rightarrow> DB \<Rightarrow> bool" where
  \<comment> \<open>decoder of the token text, SHA-256, the parsed path, the Authorization headers\<close>
  "requireDeviceStateAuth dec sha path headers db = (case path of
     None \<Rightarrow> False
   | Some i \<Rightarrow> (case headers of
       [h] \<Rightarrow> (case fields h of
          [scheme, token] \<Rightarrow>
            equal_fold scheme ''bearer''
            \<and> (case dec token of None \<Rightarrow> False | Some raw \<Rightarrow> length raw = 32 \<and> length token = 43)
            \<and> (case map_of (state_tokens db) i of None \<Rightarrow> False | Some expected \<Rightarrow> expected = sha token)
        | _ \<Rightarrow> False)
     | _ \<Rightarrow> False))"

datatype device_state = Gone | Inactive Status
  | Current bool "string list" string DNSSettings AppFilterMode "string list" "(string \<times> string) list"

definition deviceState :: "weight \<Rightarrow> (bytes \<Rightarrow> string) \<Rightarrow> ID \<Rightarrow> DB \<Rightarrow> PolDB \<Rightarrow> device_state" where
  \<comment> \<open>without the list of gateways\<close>
  "deviceState weight ntoa i db pol = (case Devices.Get i db of
     Inl _ \<Rightarrow> Gone
   | Inr dev \<Rightarrow> if d_status dev \<noteq> StatusActive then Inactive (d_status dev)
      else (let s = (devices db, pol); (cidrs, bound) = effectivePolicy weight ntoa i s; (dns, cidrs') = dnsFor i cidrs s in
        Current bound cidrs' (GetEffectiveRouteScope i s) dns (d_filter_mode dev) (d_filter_packages dev)
          (map (\<lambda>v. (vh_virtual v, vh_real v)) (VirtualHostsForDevice i s))))"

end
