(* ===== verification/Gateway.thy ===== *)
theory Gateway
  imports NodeAPI NFTSemantics DeviceProps
begin

text \<open>
  From the tables of the controller to a packet on the gateway: what the forward chain rendered from
  the controller's peer list (theories \<open>NodeAPI\<close>, \<open>NFTables\<close>) does to a packet of a device, in every
  state the device service can reach (\<open>service_run\<close>).
\<close>

section \<open>Peers and devices\<close>

definition controller_peers :: "weight \<Rightarrow> (bytes \<Rightarrow> string) \<Rightarrow> (bytes \<Rightarrow> string) \<Rightarrow> time \<Rightarrow> ID \<Rightarrow> DB \<Rightarrow> PolDB \<Rightarrow> Peer list" where
  "controller_peers weight ntoa b64 dbnow tenant db pol =
     map (peer_of_wire \<circ> wire_peer weight ntoa b64 db pol) (peer_rows dbnow tenant db)"

lemma controller_peers_wire:
  "controller_peers weight ntoa b64 dbnow tenant db pol = map peer_of_wire (nodePeers weight ntoa b64 dbnow tenant db pol)"
  by (simp add: controller_peers_def nodePeers_def)

lemma peer_sel:
  assumes "p = (peer_of_wire \<circ> wire_peer weight ntoa b64 db pol) (d, k)"
  shows "IPv4 p = ipv4_text k" "IPv6 p = ipv6_text k" "PolicyBound p = IsDeviceBound (d_id d) (devices db, pol)"
    "DestCIDRs p = peer_cidrs weight ntoa (devices db, pol) (d_id d)"
    "Rules p = map wire_rule (GetEffectiveRules (d_id d) (devices db, pol))"
    "DeviceID p = Ident.String (d_id d)"
  using assms by (simp_all add: peer_of_wire_def wire_peer_def effectivePolicy_def toNodeRuleJSON_def Let_def)

text \<open>A key holds its IPv4 address and its IPv6 address; a peer owns what its key holds.\<close>

definition key_holds :: "DeviceKey \<Rightarrow> addr \<Rightarrow> bool" where
  "key_holds k a \<longleftrightarrow> (case a of
     NoAddr \<Rightarrow> False
   | V4 w \<Rightarrow> k_ipv4 k = Some (as4 w)
   | V6 w z \<Rightarrow> z = [] \<and> k_ipv6 k = Some (as16 w))"

lemma parse_ipv4_text: "parse_addr (ipv4_text k) = Some (V4 w) \<longleftrightarrow> k_ipv4 k = Some (as4 w)"
proof (cases "k_ipv4 k")
  case (Some b)
  have "get_be 0 b = w \<longleftrightarrow> b = as4 w" if "length b = 4"
    using as4_from4 [OF that] from4_as4 [of w] by (auto simp: from4_def)
  with Some show ?thesis by (auto simp: ipv4_text_def from4_def)
qed (simp add: ipv4_text_def)

lemma parse_ipv6_text: "parse_addr (ipv6_text k) = Some (V6 w z) \<longleftrightarrow> z = [] \<and> k_ipv6 k = Some (as16 w)"
proof (cases "k_ipv6 k")
  case (Some b)
  have "get_be 0 b = w \<longleftrightarrow> b = as16 w" if "length b = 16"
    using as16_from16 [OF that] from16_as16 [of w] by (auto simp: from16_def)
  with Some show ?thesis by (auto simp: ipv6_text_def from16_def)
qed (simp add: ipv6_text_def)

lemma owns_text:
  assumes "IPv4 p = ipv4_text k" "IPv6 p = ipv6_text k"
  shows "owns p a \<longleftrightarrow> key_holds k a"
proof (cases a)
  case NoAddr
  with parse_addr_valid show ?thesis by (auto simp: owns_def key_holds_def)
qed (use assms in \<open>simp_all add: owns_def key_holds_def is4_def parse_ipv4_text parse_ipv6_text\<close>)

lemma key_holds_plain: "key_holds k a \<Longrightarrow> plain_addr a"
  by (cases a) (simp_all add: key_holds_def)

text \<open>Two live keys of a tenant never hold one address.\<close>

lemma live_keys_apart:
  assumes "dev_inv home ds ks" "k \<in> set ks" "k' \<in> set ks" "k_revoked k = None" "k_revoked k' = None"
    "same_tenant ds k k'" "key_holds k a" "key_holds k' a"
  shows "k = k'"
proof -
  have u: "addr_unique k_ipv4 4 ds ks" "addr_unique k_ipv6 16 ds ks" using assms(1) by (simp_all add: dev_inv_def)
  have len: "length (as4 x) = 4" "length (as16 y) = 16" for x y by simp_all
  show ?thesis
  proof (cases a)
    case (V4 x)
    then have "k_ipv4 k = Some (as4 x)" "k_ipv4 k' = Some (as4 x)" using assms(7,8) by (simp_all add: key_holds_def)
    with assms(2-6) u(1) len(1) [of x] show ?thesis unfolding addr_unique_def live_def by blast
  next
    case (V6 y z)
    then have "k_ipv6 k = Some (as16 y)" "k_ipv6 k' = Some (as16 y)" using assms(7,8) by (simp_all add: key_holds_def)
    with assms(2-6) u(2) len(2) [of y] show ?thesis unfolding addr_unique_def live_def by blast
  qed (use assms in \<open>simp add: key_holds_def\<close>)
qed

lemma peer_rows_sound:
  assumes "(d, k) \<in> set (peer_rows dbnow tenant db)"
  shows "d \<in> set (devices db)" "k \<in> set (dkeys db)" "k_device k = d_id d" "k_revoked k = None"
    "\<exists>t \<in> set (tenants db). eligible dbnow tenant t d"
  using assms by (auto simp: peer_rows_def split: if_split_asm)

lemma eligible_tenant: "\<exists>t \<in> set ts. eligible dbnow tenant t d \<Longrightarrow> d_tenant d = tenant"
  by (auto simp: eligible_def)

text \<open>The lists the controller makes never name one tunnel address twice.\<close>

lemma peers_unique:
  assumes "service_run home db" "p \<in> set (controller_peers weight ntoa b64 dbnow tenant db pol)"
    "q \<in> set (controller_peers weight ntoa b64 dbnow tenant db pol)" "owns p a" "owns q a"
  shows "p = q"
proof -
  from assms(2) obtain d k where p: "p = (peer_of_wire \<circ> wire_peer weight ntoa b64 db pol) (d, k)"
    "(d, k) \<in> set (peer_rows dbnow tenant db)" by (auto simp: controller_peers_def)
  from assms(3) obtain d' k' where q: "q = (peer_of_wire \<circ> wire_peer weight ntoa b64 db pol) (d', k')"
    "(d', k') \<in> set (peer_rows dbnow tenant db)" by (auto simp: controller_peers_def)
  note r = peer_rows_sound [OF p(2)] and r' = peer_rows_sound [OF q(2)]
  have a: "key_holds k a" "key_holds k' a"
    using assms(4,5) owns_text [OF peer_sel(1,2) [OF p(1)]] owns_text [OF peer_sel(1,2) [OF q(1)]] by simp_all
  have inv: "dev_inv home (devices db) (dkeys db)" by (rule service_inv [OF assms(1)])
  have t: "d_tenant d = d_tenant d'" using eligible_tenant [OF r(5)] eligible_tenant [OF r'(5)] by simp
  have "same_tenant (devices db) k k'" using r(1,3) r'(1,3) t by (auto simp: same_tenant_def)
  from live_keys_apart [OF inv r(2) r'(2) r(4) r'(4) this a] have "k = k'" .
  moreover from this r(3) r'(3) have "d_id d = d_id d'" by simp
  then have "d = d'" using inv r(1) r'(1) by (auto simp: dev_inv_def rows_ok_def distinct_map inj_on_def)
  ultimately show ?thesis using p(1) q(1) by simp
qed

section \<open>What the policy tables grant\<close>

text \<open>
  The tables' own reading of a packet's destination: an accept rule of the policy that applies to the
  device, or one of the destinations the policy lists (CIDRs, resolved names, virtual addresses and
  the real addresses behind them), or one of its DNS servers.
\<close>

definition rule_names :: "PolDB \<Rightarrow> Device \<Rightarrow> PolicyRow \<Rightarrow> string \<Rightarrow> packet \<Rightarrow> bool" where
  "rule_names pol d p action k \<longleftrightarrow> (\<exists>r \<in> set (rules pol). ru_policy r = po_id p \<and> rule_applies pol d r \<and> ru_action r = action
     \<and> (case eff_rule r of None \<Rightarrow> False
        | Some e \<Rightarrow> contains (ef_dst e) (p_dst k) \<and> l4_matches (l4_of (wire_rule e)) k))"

definition dest_names :: "(bytes \<Rightarrow> string) \<Rightarrow> PolDB \<Rightarrow> PolicyRow \<Rightarrow> packet \<Rightarrow> bool" where
  "dest_names ntoa pol p k \<longleftrightarrow>
     (\<exists>c \<in> set (destination_texts ntoa pol p). text_matches (canonical_or_same c) (p_dst k))
     \<or> (\<exists>v \<in> set (virtuals pol). vh_policy v = po_id p \<and> text_matches (vh_real v @ ''/32'') (p_dst k))
     \<or> (\<exists>srv \<in> set (splitList (or_empty (po_dns p))). parse_addr (trim_space srv) = Some (p_dst k))"

lemma in_effective:
  "(d, p) \<in> set (effective pol ds i) \<longleftrightarrow> d \<in> set ds \<and> d_id d = i \<and> p \<in> set (joined pol d) \<and> po_enabled p"
  by (auto simp: effective_def devices_with_def)

lemma eff_rule_prefix:
  assumes "eff_rule r = Some e"
  shows "good_prefix (ef_dst e)" "ef_action e = ru_action r"
proof -
  from assms obtain a0 where a0: "addr_from_slice (ru_addr r) = Some a0"
    and n: "uint (ru_bits r) \<le> bitlen (unmap a0)" and e: "ef_dst e = masked (prefix_from (unmap a0) (uint (ru_bits r)))"
      "ef_action e = ru_action r"
    by (auto simp: eff_rule_def Let_def split: option.split_asm if_split_asm)
  have "a0 \<noteq> NoAddr" using a0 by (auto simp: addr_from_slice_def from4_def from16_def split: if_split_asm)
  then have a: "unmap a0 \<noteq> NoAddr" by (cases a0) (simp_all add: unmap_def)
  show "good_prefix (ef_dst e)" unfolding e(1) by (intro good_prefix_masked good_prefix_from) (use a n in auto)
  show "ef_action e = ru_action r" by (fact e(2))
qed

lemma in_effective_rules:
  "e \<in> set (GetEffectiveRules i (ds, pol)) \<longleftrightarrow>
     (\<exists>d p r. (d, p) \<in> set (effective pol ds i) \<and> r \<in> set (rules pol) \<and> ru_policy r = po_id p \<and> rule_applies pol d r
       \<and> eff_rule r = Some e)"
proof -
  have f: "e \<in> set (List.map_filter f xs) \<longleftrightarrow> (\<exists>x \<in> set xs. f x = Some e)" for f :: "RuleRow \<Rightarrow> EffRule option" and xs
    by (induction xs) (auto simp: List.map_filter_simps split: option.split)
  show ?thesis unfolding GetEffectiveRules_def prod.case f set_sort by auto
qed

lemma wire_rule_sel [simp]: "Action (wire_rule e) = ef_action e" "Dst (wire_rule e) = prefix_str (ef_dst e)"
  by (simp_all add: wire_rule_def Let_def)

lemma set_dedupe: "set (dedupe vs) = set vs"
proof -
  have "set (dedupe_from seen vs) = set vs - set seen" for seen by (induction vs arbitrary: seen) auto
  then show ?thesis by (simp add: dedupe_def)
qed

lemma set_union_distinct: "set (union_distinct weight vs) \<subseteq> set vs"
  by (induction weight vs rule: union_distinct.induct) auto

lemma in_allowed_ips:
  assumes "c \<in> set (GetEffectiveAllowedIPs weight ntoa i (ds, pol))"
  shows "\<exists>d p t. (d, p) \<in> set (effective pol ds i) \<and> t \<in> set (destination_texts ntoa pol p) \<and> c = canonical_or_same t"
  using assms set_union_distinct [of weight "concat (map (\<lambda>(d, p). destination_texts ntoa pol p) (effective pol ds i))"]
  by (fastforce simp: GetEffectiveAllowedIPs_def set_dedupe)

lemma in_fold_dns: "c \<in> set (fold_dns servers cs) \<Longrightarrow> c \<in> set cs \<or> (\<exists>srv \<in> set servers. dns_host srv = Some c)"
  by (induction servers cs rule: fold_dns.induct) (auto split: option.split_asm if_split_asm)

lemma in_dns: "srv \<in> set (Servers (GetEffectiveDNS i (ds, pol))) \<Longrightarrow>
    \<exists>d p. (d, p) \<in> set (effective pol ds i) \<and> srv \<in> set (splitList (or_empty (po_dns p)))"
  by (cases "effective pol ds i") (force simp: GetEffectiveDNS_def)+

lemma dns_host_addr:
  assumes "dns_host srv = Some c" "text_matches c a" "plain_addr a"
  shows "parse_addr (trim_space srv) = Some a"
proof -
  from assms(1) obtain b where b: "parse_addr (trim_space srv) = Some b"
    "c = addr_str b @ ''/'' @ (if is6 b then ''128'' else ''32'')" by (auto simp: dns_host_def)
  then have "b \<noteq> NoAddr" using parse_addr_valid by blast
  moreover from this b(2) have "c = host_text b" by (cases b) (simp_all add: host_text_def is4_def is6_def)
  ultimately show ?thesis using assms(2,3) b(1) text_matches_host [of b a] by simp
qed

lemma nftVerdict_accept: "nftVerdict a = Some VAccept \<longleftrightarrow> a = ''accept''"
  by (simp add: nftVerdict_def)

lemma wire_rule_names:
  assumes "eff_rule r = Some e" "parse_prefix (Dst (wire_rule e)) = Some d"
  shows "contains d a = contains (ef_dst e) a"
  using text_matches_prefix_str [of "ef_dst e" a] eff_rule_prefix(1) [OF assms(1)] assms(2)
  by (simp add: text_matches_def)

lemma in_peer_cidrs:
  assumes "c \<in> set (peer_cidrs weight ntoa (ds, pol) i)" "parse_prefix c = Some d" "contains d (p_dst k)" "plain_addr (p_dst k)"
  shows "\<exists>r p. (r, p) \<in> set (effective pol ds i) \<and> dest_names ntoa pol p k"
proof -
  from assms(2,3) have t: "text_matches c (p_dst k)" by (simp add: text_matches_def)
  consider (cidr) "c \<in> set (GetEffectiveAllowedIPs weight ntoa i (ds, pol))"
    | (dns) srv where "srv \<in> set (Servers (GetEffectiveDNS i (ds, pol)))" "dns_host srv = Some c"
    | (real) v where "v \<in> set (VirtualHostsForDevice i (ds, pol))" "c = vh_real v @ ''/32''"
    using assms(1) in_fold_dns [of c "Servers (GetEffectiveDNS i (ds, pol))" "GetEffectiveAllowedIPs weight ntoa i (ds, pol)"]
    by (auto simp: peer_cidrs_def dnsFor_def effectivePolicy_def Let_def)
  then show ?thesis
  proof cases
    case cidr
    from in_allowed_ips [OF this] obtain r p u where
      "(r, p) \<in> set (effective pol ds i)" "u \<in> set (destination_texts ntoa pol p)" "c = canonical_or_same u" by blast
    moreover from this t assms(4) have "dest_names ntoa pol p k" by (auto simp: dest_names_def)
    ultimately show ?thesis by blast
  next
    case dns
    from in_dns [OF dns(1)] obtain r p where
      "(r, p) \<in> set (effective pol ds i)" "srv \<in> set (splitList (or_empty (po_dns p)))" by blast
    moreover from this dns_host_addr [OF dns(2) t assms(4)] have "dest_names ntoa pol p k" by (auto simp: dest_names_def)
    ultimately show ?thesis by blast
  next
    case real
    then obtain r p where "(r, p) \<in> set (effective pol ds i)" "v \<in> set (virtuals pol)" "vh_policy v = po_id p"
      by (auto simp: VirtualHostsForDevice_def)
    moreover from this t assms(4) real(2) have "dest_names ntoa pol p k" by (auto simp: dest_names_def)
    ultimately show ?thesis by blast
  qed
qed

lemma effective_owner:
  assumes "service_run home db" "d \<in> set (devices db)" "(r, p) \<in> set (effective pol (devices db) (d_id d))"
  shows "r = d" "p \<in> set (joined pol d)" "po_enabled p"
proof -
  from assms(3) have r: "r \<in> set (devices db)" "d_id r = d_id d" "p \<in> set (joined pol r)" "po_enabled p"
    by (simp_all add: in_effective)
  have "distinct (map d_id (devices db))" using service_inv [OF assms(1)] by (simp add: dev_inv_def rows_ok_def)
  with r(1,2) assms(2) show "r = d" by (auto simp: distinct_map inj_on_def)
  with r(3,4) show "p \<in> set (joined pol d)" "po_enabled p" by simp_all
qed

lemma peer_accept_granted:
  assumes run: "service_run home db" and d: "d \<in> set (devices db)"
    and p: "p = (peer_of_wire \<circ> wire_peer weight ntoa b64 db pol) (d, key)"
    and y: "plain_addr (p_dst k)" and acc: "peer_block p k = Some VAccept"
  shows "\<exists>row \<in> set (joined pol d). po_enabled row \<and> (rule_names pol d row ''accept'' k \<or> dest_names ntoa pol row k)"
proof -
  note sel = peer_sel [OF p]
  consider (rule) r d' where "r \<in> set (Rules p)" "nftVerdict (Action r) = Some VAccept" "parse_prefix (Dst r) = Some d'"
      "contains d' (p_dst k)" "l4_matches (l4_of r) k"
    | (cidr) c d' where "c \<in> set (DestCIDRs p)" "parse_prefix c = Some d'" "contains d' (p_dst k)"
    using peer_block_accept [OF acc] by blast
  then show ?thesis
  proof cases
    case rule
    from rule(1) sel(5) obtain e where e: "e \<in> set (GetEffectiveRules (d_id d) (devices db, pol))" "r = wire_rule e" by auto
    from e(1) obtain d1 row q where q: "(d1, row) \<in> set (effective pol (devices db) (d_id d))" "q \<in> set (rules pol)"
      "ru_policy q = po_id row" "rule_applies pol d1 q" "eff_rule q = Some e"
      unfolding in_effective_rules by blast
    note own = effective_owner [OF run d q(1)]
    have "contains (ef_dst e) (p_dst k)" using wire_rule_names [OF q(5)] rule(3,4) e(2) by simp
    moreover have "ru_action q = ''accept''" using rule(2) e(2) eff_rule_prefix(2) [OF q(5)] by (simp add: nftVerdict_accept)
    ultimately have "rule_names pol d row ''accept'' k"
      unfolding rule_names_def using q own(1) rule(5) e(2) by (intro bexI [of _ q]) auto
    with own show ?thesis by blast
  next
    case cidr
    with y sel(4) in_peer_cidrs [of c weight ntoa "devices db" pol "d_id d" d' k]
    obtain r row where r: "(r, row) \<in> set (effective pol (devices db) (d_id d))" "dest_names ntoa pol row k" by auto
    with effective_owner(2,3) [OF run d r(1)] show ?thesis by blast
  qed
qed

section \<open>From the tables to the packet\<close>

lemma controller_peer:
  assumes "p \<in> set (controller_peers weight ntoa b64 dbnow tenant db pol)" "owns p a"
  obtains d k t where "p = (peer_of_wire \<circ> wire_peer weight ntoa b64 db pol) (d, k)" "d \<in> set (devices db)" "k \<in> set (dkeys db)"
    "t \<in> set (tenants db)" "eligible dbnow tenant t d" "k_device k = d_id d" "k_revoked k = None" "key_holds k a"
proof -
  from assms(1) obtain d k where p: "p = (peer_of_wire \<circ> wire_peer weight ntoa b64 db pol) (d, k)"
    "(d, k) \<in> set (peer_rows dbnow tenant db)" by (auto simp: controller_peers_def)
  note r = peer_rows_sound [OF p(2)]
  have "key_holds k a" using assms(2) owns_text [OF peer_sel(1,2) [OF p(1)]] by simp
  with that p(1) r show thesis by blast
qed

text \<open>
  C3. A packet from the tunnel gets through the gateway only on the policy of the device it comes
  from: in every state of the tables the device service reaches, when the forward or the input chain
  rendered from the controller's peer list accepts an IP packet of the tunnel, IPv4 or IPv6, its source
  is the address of an unrevoked key of an active device of the tenant, neither deleted nor expired nor
  below the minimum system version, and an enabled live policy of that device (its own, else its
  group's) names the destination, by an accept rule that matches the packet or by one of its
  destinations, virtual hosts or DNS servers.
\<close>

theorem gateway_admits_only_policy:
  assumes "service_run home db" "p_iif k = iface_of opt" "ip_packet k"
    and "forward_verdict (controller_peers weight ntoa b64 dbnow tenant db pol) opt k = VAccept
      \<or> input_verdict (controller_peers weight ntoa b64 dbnow tenant db pol) opt k = VAccept"
  shows "\<exists>t \<in> set (tenants db). \<exists>d \<in> set (devices db). \<exists>key \<in> set (dkeys db).
    eligible dbnow tenant t d \<and> k_device key = d_id d \<and> k_revoked key = None \<and> key_holds key (p_src k)
    \<and> (\<exists>row \<in> set (joined pol d). po_enabled row \<and> (rule_names pol d row ''accept'' k \<or> dest_names ntoa pol row k))"
proof -
  let ?peers = "controller_peers weight ntoa b64 dbnow tenant db pol"
  have k: "tunnel_packet (iface_of opt) k" using assms(2,3) by (simp add: tunnel_packet_def)
  have y: "plain_addr (p_dst k)" using assms(3) by (simp add: ip_packet_def)
  from assms(4) have "forward_verdict ?peers opt k = VAccept" by (simp add: input_forward_agree [OF assms(2)])
  then have "hd_opt (List.map_filter
      (\<lambda>p. if owns p (p_src k) then peer_block p k else None) (sorted_peers ?peers)) = Some VAccept"
    by (auto simp: forward_tunnel [OF assms(2)] blocks_verdict [OF k] split: if_splits option.splits)
  from map_filter_hd_in [OF this] obtain p where p: "p \<in> set ?peers" "owns p (p_src k)" "peer_block p k = Some VAccept"
    by (auto split: if_splits)
  from p(1,2) obtain d key t where d: "p = (peer_of_wire \<circ> wire_peer weight ntoa b64 db pol) (d, key)" "d \<in> set (devices db)"
    "key \<in> set (dkeys db)" "t \<in> set (tenants db)" "eligible dbnow tenant t d" "k_device key = d_id d" "k_revoked key = None"
    "key_holds key (p_src k)" by (rule controller_peer)
  from peer_accept_granted [OF assms(1) d(2,1) y p(3)] d show ?thesis by blast
qed

section \<open>Denials\<close>

text \<open>The order the controller gives the rules puts every denial in front of every grant.\<close>

definition rank_key :: "RuleRow \<Rightarrow> nat" where "rank_key r = 1000 * field_rank (ru_action r) + (255 - unat (ru_bits r))"

definition row_verdicts :: "packet \<Rightarrow> RuleRow \<Rightarrow> verdict list" where
  "row_verdicts k r = (case eff_rule r of None \<Rightarrow> [] | Some e \<Rightarrow> applicable [wire_rule e] k)"

lemma applicable_rows:
  "applicable (map wire_rule (List.map_filter eff_rule rs)) k = concat (map (row_verdicts k) rs)"
proof (induction rs)
  case Nil
  show ?case by (simp add: applicable_def List.map_filter_simps)
next
  case (Cons r rs)
  have nil: "applicable [] k = []" by (simp add: applicable_def)
  show ?case
    by (cases "eff_rule r")
      (use Cons in \<open>simp_all add: List.map_filter_simps row_verdicts_def applicable_Cons [of _ "map _ _"] applicable_Cons [of _ "[]"] nil
        split: option.split\<close>)
qed

lemma row_verdicts_in:
  assumes "v \<in> set (row_verdicts k r)"
  shows "nftVerdict (ru_action r) = Some v"
proof -
  from assms obtain e where e: "eff_rule r = Some e" "v \<in> set (applicable [wire_rule e] k)"
    by (cases "eff_rule r") (auto simp: row_verdicts_def)
  from applicable_in [OF e(2)] eff_rule_prefix(2) [OF e(1)] show ?thesis by simp
qed

lemma row_verdicts_hit:
  assumes "eff_rule r = Some e" "contains (ef_dst e) (p_dst k)" "l4_matches (l4_of (wire_rule e)) k"
    and "nftVerdict (ru_action r) = Some v"
  shows "row_verdicts k r = [v]"
proof -
  have "text_matches (prefix_str (ef_dst e)) (p_dst k)"
    using assms(2) text_matches_prefix_str [of "ef_dst e" "p_dst k"] eff_rule_prefix(1) [OF assms(1)] by simp
  then obtain d where "parse_prefix (prefix_str (ef_dst e)) = Some d" "contains d (p_dst k)"
    by (auto simp: text_matches_def split: option.split_asm)
  with assms eff_rule_prefix(2) [OF assms(1)] show ?thesis
    by (simp add: row_verdicts_def applicable_Cons applicable_def)
qed

lemma denial_first:
  assumes "sorted (map rank_key rs)" "r \<in> set rs" "row_verdicts k r = [VDrop]"
  shows "\<exists>vs. concat (map (row_verdicts k) rs) = VDrop # vs"
  using assms
proof (induction rs)
  case (Cons q rs)
  show ?case
  proof (cases "row_verdicts k q")
    case Nil
    with Cons show ?thesis by auto
  next
    case (Cons v vs)
    have drop: "ru_action r = ''drop''" using row_verdicts_in [of VDrop k r] Cons.prems(3)
      by (auto simp: nftVerdict_def split: if_split_asm)
    have act: "nftVerdict (ru_action q) = Some v" using row_verdicts_in [of v k q] Cons by simp
    have "rank_key q \<le> rank_key r" using Cons.prems(1,2) by auto
    moreover have "rank_key r < 1256" by (simp add: rank_key_def drop field_rank_def)
    ultimately have "v = VDrop" using act
      by (auto simp: rank_key_def field_rank_def nftVerdict_def split: if_split_asm)
    with Cons show ?thesis by simp
  qed
qed simp

lemma peer_denied:
  assumes run: "service_run home db" and d: "d \<in> set (devices db)" "row \<in> set (joined pol d)" "po_enabled row"
    and p: "p = (peer_of_wire \<circ> wire_peer weight ntoa b64 db pol) (d, key)"
    and r: "rule_names pol d row ''drop'' k"
  shows "peer_policy p k = VDrop"
proof -
  from r obtain q e where q: "q \<in> set (rules pol)" "ru_policy q = po_id row" "rule_applies pol d q" "ru_action q = ''drop''"
    "eff_rule q = Some e" "contains (ef_dst e) (p_dst k)" "l4_matches (l4_of (wire_rule e)) k"
    by (auto simp: rule_names_def split: option.split_asm)
  define rs where "rs = sort_key rank_key
    [r. (d, p) \<leftarrow> effective pol (devices db) (d_id d), r \<leftarrow> rules pol, ru_policy r = po_id p, rule_applies pol d r]"
  have eff: "(d, row) \<in> set (effective pol (devices db) (d_id d))" using d by (simp add: in_effective)
  then have "q \<in> set rs" using q(1-3) by (force simp: rs_def)
  moreover have "row_verdicts k q = [VDrop]"
    by (rule row_verdicts_hit [OF q(5,6,7)]) (use q(4) in \<open>simp_all add: nftVerdict_def\<close>)
  moreover have "sorted (map rank_key rs)" by (simp add: rs_def)
  ultimately obtain vs where "concat (map (row_verdicts k) rs) = VDrop # vs" using denial_first by blast
  moreover have "Rules p = map wire_rule (List.map_filter eff_rule rs)"
    by (simp add: peer_sel(5) [OF p] GetEffectiveRules_def rs_def rank_key_def [abs_def])
  ultimately show ?thesis by (simp add: peer_policy_def applicable_rows)
qed

lemma controller_peerI:
  assumes "t \<in> set (tenants db)" "d \<in> set (devices db)" "key \<in> set (dkeys db)" "eligible dbnow tenant t d"
    "k_device key = d_id d" "k_revoked key = None"
  shows "(peer_of_wire \<circ> wire_peer weight ntoa b64 db pol) (d, key) \<in> set (controller_peers weight ntoa b64 dbnow tenant db pol)"
proof -
  have "(d, key) \<in> set (peer_rows dbnow tenant db)" using assms by (force simp: peer_rows_def)
  then show ?thesis unfolding controller_peers_def set_map by (rule imageI)
qed

text \<open>
  C5. A denial wins: an IP packet of the tunnel, IPv4 or IPv6, from an address a live key of an eligible
  device holds is dropped by the forward and the input chain when a drop rule of the device's policy
  names it, whatever grants the policy holds beside it, in every state of the tables the device service
  reaches.
\<close>

theorem denial_wins:
  assumes "service_run home db" "p_iif k = iface_of opt" "ip_packet k"
    and "t \<in> set (tenants db)" "d \<in> set (devices db)" "key \<in> set (dkeys db)" "eligible dbnow tenant t d"
    and "k_device key = d_id d" "k_revoked key = None" "key_holds key (p_src k)"
    and "row \<in> set (joined pol d)" "po_enabled row" "rule_names pol d row ''drop'' k"
  shows "forward_verdict (controller_peers weight ntoa b64 dbnow tenant db pol) opt k = VDrop
    \<and> input_verdict (controller_peers weight ntoa b64 dbnow tenant db pol) opt k = VDrop"
proof -
  let ?peers = "controller_peers weight ntoa b64 dbnow tenant db pol"
  define p where "p = (peer_of_wire \<circ> wire_peer weight ntoa b64 db pol) (d, key)"
  have k: "tunnel_packet (iface_of opt) k" using assms(2,3) by (simp add: tunnel_packet_def)
  have p: "p \<in> set ?peers" unfolding p_def by (rule controller_peerI [OF assms(4-9)])
  have x: "owns p (p_src k)" using assms(10) owns_text [OF peer_sel(1,2) [OF p_def]] by simp
  have "forward_verdict ?peers opt k = VDrop"
  proof (cases "p_ct k = CtInvalid")
    case True
    with assms(2) show ?thesis by (simp add: forward_tunnel)
  next
    case False
    have "forward_verdict ?peers opt k = peer_policy p k"
      by (rule forward_owner [OF k False p x]) (use peers_unique [OF assms(1) _ p _ x] in blast)
    also have "\<dots> = VDrop" by (rule peer_denied [OF assms(1,5,11,12) p_def assms(13)])
    finally show ?thesis .
  qed
  then show ?thesis by (simp add: input_forward_agree [OF assms(2)])
qed

text \<open>
  C4. Revocation cuts a device off: when \<open>Revoke\<close> answers without an error in a state the device
  service reaches, the ruleset rendered from the peer list of the tables it leaves drops, on the forward
  and on the input chain, every IP packet of the tunnel whose source is an address a live key of the
  device held, its IPv4 or its IPv6 address, whatever the policies say.
\<close>

theorem revoked_device_cut_off:
  assumes "service_run home db" "Revoke t i actor why db = (None, db', au)"
    and "d \<in> set (devices db)" "d_id d = i" "d_tenant d = tenant"
    and "key \<in> set (dkeys db)" "k_device key = i" "k_revoked key = None" "key_holds key (p_src k)"
    and "p_iif k = iface_of opt" "ip_packet k"
  shows "forward_verdict (controller_peers weight ntoa b64 dbnow tenant db' pol) opt k = VDrop
    \<and> input_verdict (controller_peers weight ntoa b64 dbnow tenant db' pol) opt k = VDrop"
proof -
  let ?peers = "controller_peers weight ntoa b64 dbnow tenant db' pol"
  have k: "tunnel_packet (iface_of opt) k" using assms(10,11) by (simp add: tunnel_packet_def)
  have "False" if p: "p \<in> set ?peers" "owns p (p_src k)" for p
  proof -
    from p obtain d2 k2 t2 where h: "d2 \<in> set (devices db')" "k2 \<in> set (dkeys db')" "eligible dbnow tenant t2 d2"
      "k_device k2 = d_id d2" "k_revoked k2 = None" "key_holds k2 (p_src k)" by (rule controller_peer)
    from h(2) obtain k0 where k0: "k0 \<in> set (dkeys db)" "k2 = revoked_at i t k0"
      unfolding Revoke_tables(2) [OF assms(2)] set_map by blast
    have l: "live (revoked_at i t k0)" using h(5) k0(2) by (simp add: live_def)
    then have k2: "k2 = k0" "k_device k2 \<noteq> i" using revoked_at_id [OF l] k0(2) live_revoked_at [of i t k0] by simp_all
    have "d2 \<in> set (devices db)" using k2(2) h(1,4) unfolding Revoke_tables(1) [OF assms(2)] by (auto split: if_split_asm)
    moreover have "d_tenant d = d_tenant d2" using h(3) assms(5) by (simp add: eligible_def)
    moreover have "d_id d = k_device key" using assms(4,7) by simp
    ultimately have same: "same_tenant (devices db) key k2"
      using assms(3) h(4) unfolding same_tenant_def by (intro bexI [of _ d] bexI [of _ d2] conjI) simp_all
    have "k2 \<in> set (dkeys db)" using k0(1) k2(1) by simp
    from live_keys_apart [OF service_inv [OF assms(1)] assms(6) this assms(8) h(5) same assms(9) h(6)] assms(7) k2(2)
    show False by simp
  qed
  then have "\<forall>p \<in> set ?peers. \<not> owns p (p_src k)" by blast
  from forward_stranger [OF k this] show ?thesis by (simp add: input_forward_agree [OF assms(10)])
qed

section \<open>Observations\<close>

text \<open>The expiry setting of a tenant plays no part in the peer list.\<close>

lemma expiry_setting_ignored: "eligible dbnow tenant (t\<lparr>t_expiry_days := n\<rparr>) d = eligible dbnow tenant t d"
  by (simp add: eligible_def)

text \<open>A device that registers again after its revocation has the policy of its group.\<close>

lemma reactivation_regains_group_policy:
  assumes "d \<in> set (devices db)" "d_id d = i" "group_of pol d = Some g"
  shows "\<exists>d' \<in> set (devices (reactivateDevice i db)). d_id d' = i \<and> d_status d' = StatusActive \<and> policy_id_of pol d' = g_policy g"
proof -
  let ?d = "d\<lparr>d_deleted := None, d_status := StatusActive, d_policy := None\<rparr>"
  have "?d \<in> set (devices (reactivateDevice i db))" using assms(1,2) by (auto simp: reactivateDevice_def set_device_def)
  moreover have "group_of pol ?d = Some g" using assms(3) by (simp add: group_of_def)
  ultimately show ?thesis using assms(2) by (intro bexI [of _ ?d]) (simp_all add: policy_id_of_def)
qed

text \<open>The name of a deleted policy stays taken.\<close>

lemma deleted_name_blocked:
  assumes "p \<in> set (policies pol)" "po_tenant p = tenant" "weight (po_name p) = weight name" "trim_space name \<noteq> []"
  shows "Create weight i now tenant actor name descr pol = (Inl (PolDuplicate ''policies''), pol, [])"
  using assms by (auto simp: Create_def)

text \<open>An IPv6 real address is taken, and the peer list appends \<open>/32\<close> to it.\<close>

lemma ipv6_real_host_widened:
  assumes "parse_addr virtualIP = Some v" "contains virtualRange v" "parse_addr realIP = Some (V6 w z)"
    and "live_policy pol i = Some p" "\<forall>h \<in> set (virtuals pol). vh_id h \<noteq> newID \<and> vh_policy h \<noteq> i"
  shows "\<exists>row pol' au. AddVirtualHost weight newID i actor virtualIP realIP descr pol = (Inr row, pol', au)
    \<and> row \<in> set (virtuals pol') \<and> vh_real row @ ''/32'' = addr_str (V6 w z) @ ''/32''"
proof -
  have "\<not> contains virtualRange (V6 w z)" by (simp add: contains_def virtualRange_def)
  with assms show ?thesis by (auto simp: AddVirtualHost_def on_policy_def Let_def)
qed

section \<open>A concrete gateway\<close>

text \<open>The device of the demonstration run, with a policy that grants one web server and denies one host.\<close>

definition demo_db2 :: DB where
  "demo_db2 = set_device (demo_id 11) (\<lambda>d. d\<lparr>d_policy := Some (demo_id 20), d_group := None, d_access_expires := None\<rparr>) demo_db1"

definition demo_rule :: "string \<Rightarrow> nat \<Rightarrow> RuleRow" where
  "demo_rule action n = \<lparr>ru_policy = demo_id 20, ru_action = action, ru_group = None, ru_device = None,
     ru_addr = [10, 0, 0, of_nat n], ru_bits = 32, ru_protocol = ''tcp'', ru_min = Some 443, ru_max = None\<rparr>"

definition demo_row :: PolicyRow where
  "demo_row = \<lparr>po_id = demo_id 20, po_tenant = demo_id 9, po_name = ''p'', po_descr = None, po_enabled = True, po_source_nat = False,
     po_endpoint = ''direct'', po_control = ''direct'', po_precedence = 100, po_scope = ''policy'', po_dns = None,
     po_search = None, po_created = 0, po_deleted = None\<rparr>"

definition demo_pol :: PolDB where
  "demo_pol = \<lparr>policies = [demo_row], allowed = [], hostnames = [], resolutions = [], virtuals = [],
     rules = [demo_rule ''accept'' 5, demo_rule ''drop'' 6], groups = [], memberships = []\<rparr>"

definition demo_packet :: "32 word \<Rightarrow> packet" where
  "demo_packet y = \<lparr>p_iif = ''wg0'', p_oif = ''eth0'', p_src = V4 0x0A4E0002, p_dst = V4 y, p_proto = 6, p_dport = 443, p_ct = CtNew\<rparr>"

definition demo_opt :: RenderOptions where "demo_opt = \<lparr>WGInterface = [], LogDenied = False, LogPrefix = []\<rparr>"

definition demo_peers :: "DB \<Rightarrow> Peer list" where
  "demo_peers db = controller_peers (map of_char) (\<lambda>_. []) (\<lambda>_. []) 1 (demo_id 9) db demo_pol"

lemma demo_tables:
  "map (\<lambda>d. (d_id d, d_tenant d, d_status d, d_deleted d, d_policy d, d_group d, d_access_expires d, d_os_sdk d)) (devices demo_db1)
    = [(demo_id 11, demo_id 9, StatusActive, None, None, None, None, 0)]"
  by code_simp

lemma demo_tables2:
  obtains d where "devices demo_db2 = [d]" "d_id d = demo_id 11" "d_tenant d = demo_id 9" "d_status d = StatusActive"
    "d_deleted d = None" "d_policy d = Some (demo_id 20)" "d_group d = None" "d_access_expires d = None" "d_os_sdk d = 0"
proof -
  from demo_tables obtain r where "devices demo_db1 = [r]" "d_id r = demo_id 11" "d_tenant r = demo_id 9"
    "d_status r = StatusActive" "d_deleted r = None" "d_os_sdk r = 0" by auto
  with that show thesis by (simp add: demo_db2_def set_device_def)
qed

lemma demo_key2:
  obtains k where "dkeys demo_db2 = [k]" "k_device k = demo_id 11" "k_ipv4 k = Some (as4 0x0A4E0002)" "k_revoked k = None"
proof -
  have "as4 0x0A4E0002 = [10, 78, 0, 2]" by code_simp
  with that demo_keys1 show thesis by (auto simp: demo_db2_def set_device_def)
qed

lemma demo_run2: "service_run (\<lambda>_. demo_id 9) demo_db2"
  unfolding demo_db2_def set_device_def by (rule service_run.edit [OF demo_run]) (simp add: same_row_def)

definition demo_tenant :: Tenant where
  "demo_tenant = \<lparr>t_id = demo_id 9, t_v4 = [10, 78, 0, 0], t_v4_bits = 24, t_v6 = None, t_v6_bits = None, t_expiry_days = 0,
     t_min_os_sdk = 0, t_deleted = None\<rparr>"

lemma demo_tenants2: "demo_tenant \<in> set (tenants demo_db2)"
proof -
  have "tenants demo_db1 = tenants demo_db" by code_simp
  then show ?thesis by (simp add: demo_db2_def set_device_def demo_db_def demo_tenant_def)
qed

lemma demo_closed:
  "demo_id 20 \<noteq> demo_id 11"
  "applicable (map wire_rule (List.map_filter eff_rule (sort_key rank_key (rules demo_pol)))) (demo_packet 0x0A000005) = [VAccept]"
  "case eff_rule (demo_rule ''drop'' 6) of None \<Rightarrow> False
     | Some e \<Rightarrow> contains (ef_dst e) (V4 0x0A000006) \<and> l4_matches (l4_of (wire_rule e)) (demo_packet 0x0A000006)"
  by code_simp+

lemma demo_joined:
  assumes "d_tenant d = demo_id 9" "d_policy d = Some (demo_id 20)"
  shows "joined demo_pol d = [demo_row]"
  using assms by (simp add: joined_def policy_id_of_def demo_pol_def demo_row_def)

lemma demo_row_sel [simp]: "po_enabled demo_row" "po_id demo_row = demo_id 20"
  by (simp_all add: demo_row_def)

lemma demo_packet_sel [simp]: "p_iif (demo_packet y) = iface_of demo_opt" "p_src (demo_packet y) = V4 0x0A4E0002"
  "p_dst (demo_packet y) = V4 y" "p_ct (demo_packet y) = CtNew" "ip_packet (demo_packet y)"
  by (simp_all add: ip_packet_def is4_def demo_packet_def demo_opt_def iface_of_def)

lemma demo_accepts: "forward_verdict (demo_peers demo_db2) demo_opt (demo_packet 0x0A000005) = VAccept"
proof -
  let ?k = "demo_packet 0x0A000005"
  obtain d where d: "devices demo_db2 = [d]" "d_id d = demo_id 11" "d_tenant d = demo_id 9" "d_status d = StatusActive"
    "d_deleted d = None" "d_policy d = Some (demo_id 20)" "d_group d = None" "d_access_expires d = None" "d_os_sdk d = 0"
    by (rule demo_tables2)
  obtain k where k: "dkeys demo_db2 = [k]" "k_device k = demo_id 11" "k_ipv4 k = Some (as4 0x0A4E0002)" "k_revoked k = None"
    by (rule demo_key2)
  define p where "p = (peer_of_wire \<circ> wire_peer (map of_char) (\<lambda>_. []) (\<lambda>_. []) demo_db2 demo_pol) (d, k)"
  note sel = peer_sel [OF p_def]
  have eff: "effective demo_pol (devices demo_db2) (d_id d) = [(d, demo_row)]"
    using d by (simp add: effective_def devices_with_def demo_joined)
  have "rules demo_pol = [demo_rule ''accept'' 5, demo_rule ''drop'' 6]" by (simp add: demo_pol_def)
  then have "filter (\<lambda>r. ru_policy r = demo_id 20 \<and> rule_applies demo_pol d r) (rules demo_pol) = rules demo_pol"
    by (simp add: rule_applies_def demo_rule_def)
  moreover have "[r. r \<leftarrow> rules demo_pol, ru_policy r = demo_id 20, rule_applies demo_pol d r]
      = filter (\<lambda>r. ru_policy r = demo_id 20 \<and> rule_applies demo_pol d r) (rules demo_pol)"
    by (induction "rules demo_pol") (auto simp: demo_pol_def)
  ultimately have "Rules p = map wire_rule (List.map_filter eff_rule (sort_key rank_key (rules demo_pol)))"
    by (simp add: sel(5) GetEffectiveRules_def eff rank_key_def [abs_def])
  moreover have "PolicyBound p" using sel(3) eff by (simp add: IsDeviceBound_def)
  ultimately have pol: "peer_policy p ?k = VAccept" using demo_closed(2) by (simp add: peer_policy_def)
  have el: "eligible 1 (demo_id 9) demo_tenant d" using d by (simp add: eligible_def demo_tenant_def)
  have dk: "d \<in> set (devices demo_db2)" "k \<in> set (dkeys demo_db2)" "k_device k = d_id d" using d k by simp_all
  have p: "p \<in> set (demo_peers demo_db2)" unfolding p_def demo_peers_def
    by (rule controller_peerI [OF demo_tenants2 dk(1,2) el dk(3) k(4)])
  have x: "owns p (p_src ?k)" using k(3) owns_text [OF sel(1,2)] by (simp add: key_holds_def)
  have t: "tunnel_packet (iface_of demo_opt) ?k" by (simp add: tunnel_packet_def)
  have "forward_verdict (demo_peers demo_db2) demo_opt ?k = peer_policy p ?k"
    by (rule forward_owner [OF t _ p x]) (use peers_unique [OF demo_run2 _ p [unfolded demo_peers_def] _ x] in \<open>auto simp: demo_peers_def\<close>)
  with pol show ?thesis by simp
qed

theorem gateway_admits_only_policy_witness:
  "\<exists>d \<in> set (devices demo_db2). \<exists>row \<in> set (joined demo_pol d).
     rule_names demo_pol d row ''accept'' (demo_packet 0x0A000005) \<or> dest_names (\<lambda>_. []) demo_pol row (demo_packet 0x0A000005)"
  using gateway_admits_only_policy [OF demo_run2 demo_packet_sel(1,5) disjI1 [OF demo_accepts [unfolded demo_peers_def]]] by blast

theorem denial_wins_witness:
  "forward_verdict (demo_peers demo_db2) demo_opt (demo_packet 0x0A000006) = VDrop"
proof -
  obtain d where d: "devices demo_db2 = [d]" "d_id d = demo_id 11" "d_tenant d = demo_id 9" "d_status d = StatusActive"
    "d_deleted d = None" "d_policy d = Some (demo_id 20)" "d_group d = None" "d_access_expires d = None" "d_os_sdk d = 0"
    by (rule demo_tables2)
  obtain k where k: "dkeys demo_db2 = [k]" "k_device k = demo_id 11" "k_ipv4 k = Some (as4 0x0A4E0002)" "k_revoked k = None"
    by (rule demo_key2)
  have el: "eligible 1 (demo_id 9) demo_tenant d" using d by (simp add: eligible_def demo_tenant_def)
  have dk: "d \<in> set (devices demo_db2)" "k \<in> set (dkeys demo_db2)" "k_device k = d_id d" using d k by simp_all
  have row: "demo_row \<in> set (joined demo_pol d)" using d demo_joined by simp
  have "demo_rule ''drop'' 6 \<in> set (rules demo_pol)" by (simp add: demo_pol_def)
  then have "rule_names demo_pol d demo_row ''drop'' (demo_packet 0x0A000006)"
    unfolding rule_names_def demo_packet_sel(3) using demo_closed(3)
    by (intro bexI [of _ "demo_rule ''drop'' 6"]) (simp_all add: rule_applies_def demo_rule_def)
  moreover have "key_holds k (p_src (demo_packet 0x0A000006))" using k(3) by (simp add: key_holds_def)
  ultimately have "forward_verdict (demo_peers demo_db2) demo_opt (demo_packet 0x0A000006) = VDrop
      \<and> input_verdict (demo_peers demo_db2) demo_opt (demo_packet 0x0A000006) = VDrop"
    unfolding demo_peers_def
    by (intro denial_wins [OF demo_run2 demo_packet_sel(1,5) demo_tenants2 dk(1,2) el dk(3) k(4) _ row demo_row_sel(1)])
  then show ?thesis ..
qed

theorem revoked_device_cut_off_witness:
  "\<exists>db' au. Revoke 5 (demo_id 11) Zero [] demo_db2 = (None, db', au)
     \<and> forward_verdict (demo_peers db') demo_opt (demo_packet 0x0A000005) = VDrop"
proof -
  obtain d where d: "devices demo_db2 = [d]" "d_id d = demo_id 11" "d_tenant d = demo_id 9" "d_deleted d = None"
    by (rule demo_tables2)
  obtain k where k: "dkeys demo_db2 = [k]" "k_device k = demo_id 11" "k_ipv4 k = Some (as4 0x0A4E0002)" "k_revoked k = None"
    by (rule demo_key2)
  have "findDeviceByID demo_db2 (demo_id 11) \<noteq> None" using d by (simp add: findDeviceByID_def live_device_def)
  then have "fst (Revoke 5 (demo_id 11) Zero [] demo_db2) = None" using demo_found(1) by (auto simp: Revoke_def)
  then obtain db' au where r: "Revoke 5 (demo_id 11) Zero [] demo_db2 = (None, db', au)" by (metis prod.collapse)
  have dk: "d \<in> set (devices demo_db2)" "k \<in> set (dkeys demo_db2)" using d k by simp_all
  have "key_holds k (p_src (demo_packet 0x0A000005))" using k(3) by (simp add: key_holds_def)
  from revoked_device_cut_off [OF demo_run2 r dk(1) d(2,3) dk(2) k(2,4) this demo_packet_sel(1,5)] r
  show ?thesis unfolding demo_peers_def by blast
qed

end
