(* ===== verification/AdminAuth.thy ===== *)
theory AdminAuth
  imports Policies
begin

text \<open>
  Console login (\<open>adminauth/adminauth.go\<close>, \<open>adminauth/totp.go\<close>, \<open>httpapi/adminauth_routes.go\<close>,
  \<open>requireAuth\<close> of \<open>httpapi/middleware.go\<close>): password hashes, lockout, sessions, the second factor and
  recovery codes.  Argon2, HMAC-SHA1, SHA-256, base64 and base32 are arguments, as are the drawn
  tokens and salts; one instant stands for the clock of a call.  E-mail addresses are compared by
  the weights of the database's collation.
\<close>

section \<open>Tables\<close>

record AdminRow =
  ad_id :: ID
  ad_tenant :: ID
  ad_email :: string
  ad_name :: string
  ad_hash :: string
  ad_role :: string
  ad_must_change :: bool
  ad_failed :: int
  ad_locked :: "time option"
  ad_disabled :: "time option"
  ad_secret :: "string option"
  ad_totp :: "time option"
  ad_last_login :: "time option"
  ad_last_ip :: "string option"

record SessionRow =
  ss_id :: ID
  ss_admin :: ID
  ss_hash :: bytes
  ss_created :: time
  ss_used :: time
  ss_expires :: time
  ss_agent :: string
  ss_ip :: string

record RecoveryRow =
  rc_id :: ID
  rc_admin :: ID
  rc_hash :: string
  rc_used :: "time option"

record AttemptRow =
  at_ip :: string
  at_failures :: int
  at_first :: time
  at_locked :: "time option"

record AuthDB =
  admins :: "AdminRow list"
  sessions :: "SessionRow list"
  recovery :: "RecoveryRow list"
  attempts :: "AttemptRow list"

datatype auth_error = BadCredentials | Locked | Disabled | NoSession | DuplicateRow

definition IdleTimeout :: time where "IdleTimeout = 30 * minute"
definition AbsoluteTimeout :: time where "AbsoluteTimeout = 30 * (24 * hour)"
definition MaxFailedLogins :: int where "MaxFailedLogins = 5"
definition LockoutDuration :: time where "LockoutDuration = 15 * minute"

record Admin =
  am_id :: ID
  am_tenant :: ID
  am_email :: string
  am_name :: string
  am_role :: string
  am_must_change :: bool

definition scan_admin :: "AdminRow \<Rightarrow> Admin" where
  "scan_admin r = \<lparr>am_id = ad_id r, am_tenant = ad_tenant r, am_email = ad_email r, am_name = ad_name r,
     am_role = ad_role r, am_must_change = ad_must_change r\<rparr>"

section \<open>Password hashes\<close>

text \<open>What the package calls: Argon2id on password, salt, passes, memory, lanes and length; raw base64.\<close>

record hasher =
  argon :: "string \<Rightarrow> bytes \<Rightarrow> 32 word \<Rightarrow> 32 word \<Rightarrow> 8 word \<Rightarrow> nat \<Rightarrow> bytes"
  enc64 :: "bytes \<Rightarrow> string"
  dec64 :: "string \<Rightarrow> bytes option"

definition HashPassword :: "hasher \<Rightarrow> bytes \<Rightarrow> string \<Rightarrow> string" where
  "HashPassword h salt password = ''$argon2id$v=19$m=65536,t=3,p=4$'' @ enc64 h salt @ ''$''
     @ enc64 h (argon h password salt 3 65536 4 32)"

text \<open>
  \<open>fmt.Sscanf (s, "m=%d,t=%d,p=%d")\<close>: the literals match exactly, spaces may stand before a number,
  a number has no sign and must fit its variable, and what follows the last number is not read.
\<close>

definition scan_uint :: "nat \<Rightarrow> string \<Rightarrow> (nat \<times> string) option" where
  "scan_uint bits s =
     (let s1 = dropWhile (\<lambda>c. of_char c \<in> {9, 11, 12, 13, 32 :: nat}) s; tok = takeWhile is_digit s1
      in if tok = [] \<or> digits_val tok \<ge> 2 ^ bits then None else Some (digits_val tok, dropWhile is_digit s1))"

definition literal :: "string \<Rightarrow> string \<Rightarrow> string option" where
  "literal p s = (if has_prefix s p then Some (drop (length p) s) else None)"

definition scan_params :: "string \<Rightarrow> (32 word \<times> 32 word \<times> 8 word) option" where
  "scan_params s = (case literal ''m='' s of None \<Rightarrow> None | Some s1 \<Rightarrow>
     (case scan_uint 32 s1 of None \<Rightarrow> None | Some (m, s2) \<Rightarrow>
     (case literal '',t='' s2 of None \<Rightarrow> None | Some s3 \<Rightarrow>
     (case scan_uint 32 s3 of None \<Rightarrow> None | Some (t, s4) \<Rightarrow>
     (case literal '',p='' s4 of None \<Rightarrow> None | Some s5 \<Rightarrow>
     (case scan_uint 8 s5 of None \<Rightarrow> None | Some (p, s6) \<Rightarrow> Some (of_nat m, of_nat t, of_nat p)))))))"

definition VerifyPassword :: "hasher \<Rightarrow> string \<Rightarrow> string \<Rightarrow> bool" where
  "VerifyPassword h phc password = (case split_on (CHR ''$'') phc of
     [_, kind, _, params, salt64, want64] \<Rightarrow>
       kind = ''argon2id''
       \<and> (case scan_params params of None \<Rightarrow> False
          | Some (m, t, p) \<Rightarrow> (case dec64 h salt64 of None \<Rightarrow> False
            | Some salt \<Rightarrow> (case dec64 h want64 of None \<Rightarrow> False
              | Some want \<Rightarrow> argon h password salt t m p (length want) = want)))
   | _ \<Rightarrow> False)"

section \<open>Accounts\<close>

definition norm_email :: "string \<Rightarrow> string" where "norm_email e = to_lower (trim_space e)"

text \<open>\<open>SELECT ... WHERE email = ?\<close>: the first row the database gives.\<close>

definition find_admin :: "weight \<Rightarrow> AuthDB \<Rightarrow> string \<Rightarrow> AdminRow option" where
  "find_admin weight db e = find (\<lambda>r. weight (ad_email r) = weight e) (admins db)"

definition set_admin :: "ID \<Rightarrow> (AdminRow \<Rightarrow> AdminRow) \<Rightarrow> AuthDB \<Rightarrow> AuthDB" where
  "set_admin i f db = db\<lparr>admins := map (\<lambda>r. if ad_id r = i then f r else r) (admins db)\<rparr>"

definition CreateAdmin :: "weight \<Rightarrow> hasher \<Rightarrow> ID \<Rightarrow> bytes \<Rightarrow> ID \<Rightarrow> string \<Rightarrow> string \<Rightarrow> string \<Rightarrow> string \<Rightarrow> bool \<Rightarrow> AuthDB
    \<Rightarrow> (auth_error + Admin) \<times> AuthDB" where
  "CreateAdmin weight h newID salt tenant email name password role mustChange db =
     (let e = norm_email email in
      if \<exists>r \<in> set (admins db). ad_id r = newID \<or> (ad_tenant r = tenant \<and> weight (ad_email r) = weight e)
      then (Inl DuplicateRow, db)
      else (Inr \<lparr>am_id = newID, am_tenant = tenant, am_email = email, am_name = name, am_role = role, am_must_change = mustChange\<rparr>,
        db\<lparr>admins := admins db @ [\<lparr>ad_id = newID, ad_tenant = tenant, ad_email = e, ad_name = name,
          ad_hash = HashPassword h salt password, ad_role = role, ad_must_change = mustChange, ad_failed = 0,
          ad_locked = None, ad_disabled = None, ad_secret = None, ad_totp = None, ad_last_login = None, ad_last_ip = None\<rparr>]\<rparr>))"

definition Exists :: "weight \<Rightarrow> string \<Rightarrow> AuthDB \<Rightarrow> bool" where
  "Exists weight email db \<longleftrightarrow> 0 < length (filter (\<lambda>r. weight (ad_email r) = weight (norm_email email)) (admins db))"

definition Count :: "AuthDB \<Rightarrow> nat" where "Count db = length (admins db)"

definition TOTPRequired :: "weight \<Rightarrow> string \<Rightarrow> AuthDB \<Rightarrow> string option" where \<comment> \<open>None: not required\<close>
  "TOTPRequired weight email db = (case find_admin weight db email of
     None \<Rightarrow> None
   | Some r \<Rightarrow> if ad_totp r = None then None else ad_secret r)"

text \<open>
  The rows of the join are tried in order, and the first that verifies is marked: two statements, with
  nothing between them that would keep a second caller out.
\<close>

definition read_code :: "weight \<Rightarrow> hasher \<Rightarrow> string \<Rightarrow> string \<Rightarrow> AuthDB \<Rightarrow> RecoveryRow option" where
  "read_code weight h email code db =
     find (\<lambda>r. rc_used r = None \<and> (\<exists>a \<in> set (admins db). ad_id a = rc_admin r \<and> weight (ad_email a) = weight email)
       \<and> VerifyPassword h (rc_hash r) (trim_space code)) (recovery db)"

definition mark_code :: "time \<Rightarrow> ID \<Rightarrow> AuthDB \<Rightarrow> AuthDB" where
  "mark_code now i db = db\<lparr>recovery := map (\<lambda>q. if rc_id q = i then q\<lparr>rc_used := Some now\<rparr> else q) (recovery db)\<rparr>"

definition ConsumeRecoveryCode :: "weight \<Rightarrow> hasher \<Rightarrow> time \<Rightarrow> string \<Rightarrow> string \<Rightarrow> AuthDB \<Rightarrow> bool \<times> AuthDB" where
  "ConsumeRecoveryCode weight h now email code db = (case read_code weight h email code db of
     None \<Rightarrow> (False, db) | Some r \<Rightarrow> (True, mark_code now (rc_id r) db))"

section \<open>The throttle of an address\<close>

definition IPLocked :: "weight \<Rightarrow> time \<Rightarrow> string \<Rightarrow> AuthDB \<Rightarrow> bool" where
  "IPLocked weight now ip db = (case find (\<lambda>r. weight (at_ip r) = weight ip) (attempts db) of
     None \<Rightarrow> False
   | Some r \<Rightarrow> (case at_locked r of None \<Rightarrow> False | Some until \<Rightarrow> now < until))"

text \<open>
  \<open>INSERT ... ON DUPLICATE KEY UPDATE\<close>: the assignments run from left to right, so the last one reads the
  new value of \<open>failures\<close>.  The column of the address holds 64 characters; a longer one is refused,
  and the code ignores the error.
\<close>

definition note_failure :: "time \<Rightarrow> AttemptRow \<Rightarrow> AttemptRow" where
  "note_failure now r =
     (let stale = at_first r < now - 15 * minute; failures = (if stale then 1 else at_failures r + 1)
      in r\<lparr>at_failures := failures, at_first := (if stale then now else at_first r),
           at_locked := (if failures + 1 \<ge> 10 then Some (now + 15 * minute) else at_locked r)\<rparr>)"

definition NoteLoginFailure :: "weight \<Rightarrow> time \<Rightarrow> string \<Rightarrow> AuthDB \<Rightarrow> AuthDB" where
  "NoteLoginFailure weight now ip db =
     (if length ip > 64 then db
      else if \<exists>r \<in> set (attempts db). weight (at_ip r) = weight ip
      then db\<lparr>attempts := map (\<lambda>r. if weight (at_ip r) = weight ip then note_failure now r else r) (attempts db)\<rparr>
      else db\<lparr>attempts := attempts db @ [\<lparr>at_ip = ip, at_failures = 1, at_first = now, at_locked = None\<rparr>]\<rparr>)"

definition NoteLoginSuccess :: "weight \<Rightarrow> string \<Rightarrow> AuthDB \<Rightarrow> AuthDB" where
  "NoteLoginSuccess weight ip db = db\<lparr>attempts := filter (\<lambda>r. weight (at_ip r) \<noteq> weight ip) (attempts db)\<rparr>"

section \<open>Login and sessions\<close>

definition truncated :: "string \<Rightarrow> nat \<Rightarrow> string" where "truncated s n = (if length s \<le> n then s else take n s)"

definition openSession :: "(string \<Rightarrow> bytes) \<Rightarrow> time \<Rightarrow> ID \<Rightarrow> string \<Rightarrow> ID \<Rightarrow> string \<Rightarrow> string \<Rightarrow> AuthDB \<Rightarrow> auth_error + AuthDB" where
  \<comment> \<open>the drawn identifier and token\<close>
  "openSession sha now newID token adminID userAgent ip db =
     (if \<exists>s \<in> set (sessions db). ss_id s = newID \<or> ss_hash s = sha token then Inl DuplicateRow
      else Inr (db\<lparr>sessions := sessions db @ [\<lparr>ss_id = newID, ss_admin = adminID, ss_hash = sha token, ss_created = now,
        ss_used = now, ss_expires = now + AbsoluteTimeout, ss_agent = truncated userAgent 255, ss_ip = truncated ip 45\<rparr>]\<rparr>))"

definition Login :: "weight \<Rightarrow> hasher \<Rightarrow> (string \<Rightarrow> bytes) \<Rightarrow> time \<Rightarrow> ID \<Rightarrow> string \<Rightarrow> string \<Rightarrow> string \<Rightarrow> string \<Rightarrow> string \<Rightarrow> AuthDB
    \<Rightarrow> (auth_error + Admin) \<times> AuthDB" where
  "Login weight h sha now newID token email password userAgent ip db =
     (case find_admin weight db (norm_email email) of
        None \<Rightarrow> (Inl BadCredentials, db)
      | Some r \<Rightarrow>
          if ad_disabled r \<noteq> None then (Inl Disabled, db)
          else if (case ad_locked r of None \<Rightarrow> False | Some until \<Rightarrow> until > now) then (Inl Locked, db)
          else if \<not> VerifyPassword h (ad_hash r) password then
            (let failed = ad_failed r + 1 in
             if failed \<ge> MaxFailedLogins
             then (Inl Locked, set_admin (ad_id r) (\<lambda>a. a\<lparr>ad_failed := 0, ad_locked := Some (now + LockoutDuration)\<rparr>) db)
             else (Inl BadCredentials, set_admin (ad_id r) (\<lambda>a. a\<lparr>ad_failed := failed\<rparr>) db))
          else
            (let db1 = set_admin (ad_id r) (\<lambda>a. a\<lparr>ad_failed := 0, ad_locked := None\<rparr>) db in
             case openSession sha now newID token (ad_id r) userAgent ip db1 of
               Inl e \<Rightarrow> (Inl e, db1)
             | Inr db2 \<Rightarrow> (Inr (scan_admin r), db2)))"

definition Resolve :: "(string \<Rightarrow> bytes) \<Rightarrow> time \<Rightarrow> string \<Rightarrow> AuthDB \<Rightarrow> (auth_error + Admin) \<times> AuthDB" where
  "Resolve sha now token db =
     (if token = [] then (Inl NoSession, db)
      else case [(s, a). s \<leftarrow> sessions db, a \<leftarrow> admins db, ad_id a = ss_admin s \<and> ss_hash s = sha token] of
        [] \<Rightarrow> (Inl NoSession, db)
      | (s, a) # _ \<Rightarrow>
          if ad_disabled a \<noteq> None \<or> now > ss_expires s \<or> now - ss_used s > IdleTimeout
          then (Inl NoSession, db\<lparr>sessions := filter (\<lambda>q. ss_id q \<noteq> ss_id s) (sessions db)\<rparr>)
          else (Inr (scan_admin a),
            if now - ss_used s > minute
            then db\<lparr>sessions := map (\<lambda>q. if ss_id q = ss_id s then q\<lparr>ss_used := now\<rparr> else q) (sessions db)\<rparr> else db))"

definition Logout :: "(string \<Rightarrow> bytes) \<Rightarrow> string \<Rightarrow> AuthDB \<Rightarrow> AuthDB" where
  "Logout sha token db = db\<lparr>sessions := filter (\<lambda>s. ss_hash s \<noteq> sha token) (sessions db)\<rparr>"

definition ChangePassword :: "hasher \<Rightarrow> (string \<Rightarrow> bytes) \<Rightarrow> bytes \<Rightarrow> ID \<Rightarrow> string \<Rightarrow> string \<Rightarrow> string \<Rightarrow> AuthDB
    \<Rightarrow> auth_error option \<times> AuthDB" where
  "ChangePassword h sha salt adminID current new keepToken db = (case find (\<lambda>r. ad_id r = adminID) (admins db) of
     None \<Rightarrow> (Some NoSession, db) \<comment> \<open>\<open>sql.ErrNoRows\<close>\<close>
   | Some r \<Rightarrow> if \<not> VerifyPassword h (ad_hash r) current then (Some BadCredentials, db)
      else (None, (set_admin adminID (\<lambda>a. a\<lparr>ad_hash := HashPassword h salt new, ad_must_change := False\<rparr>) db)
        \<lparr>sessions := filter (\<lambda>s. \<not> (ss_admin s = adminID \<and> ss_hash s \<noteq> sha keepToken)) (sessions db)\<rparr>))"

definition Sessions :: "ID \<Rightarrow> AuthDB \<Rightarrow> SessionRow list" where
  "Sessions adminID db = sort_key (\<lambda>s. - ss_used s) (filter (\<lambda>s. ss_admin s = adminID) (sessions db))"

definition RevokeSession :: "ID \<Rightarrow> ID \<Rightarrow> AuthDB \<Rightarrow> AuthDB" where
  "RevokeSession adminID sessionID db = db\<lparr>sessions := filter (\<lambda>s. \<not> (ss_id s = sessionID \<and> ss_admin s = adminID)) (sessions db)\<rparr>"

section \<open>The second factor\<close>

text \<open>HMAC-SHA1 and base32, as arguments.\<close>

record otp =
  mac1 :: "bytes \<Rightarrow> bytes \<Rightarrow> bytes"
  dec32 :: "string \<Rightarrow> bytes option"

definition zero_pad :: "nat \<Rightarrow> string \<Rightarrow> string" where "zero_pad n s = replicate (n - length s) (CHR ''0'') @ s"

definition hotp :: "otp \<Rightarrow> bytes \<Rightarrow> 64 word \<Rightarrow> string" where
  "hotp c key counter =
     (let sum = mac1 c key (be64 counter); offset = unat (sum ! (length sum - 1) AND 0x0f);
          value = push_bit 24 (ucast (sum ! offset AND 0x7f) :: 64 word) OR push_bit 16 (ucast (sum ! (offset + 1)))
            OR push_bit 8 (ucast (sum ! (offset + 2))) OR ucast (sum ! (offset + 3))
      in zero_pad 6 (nat_str (unat value mod 1000000)))"

definition totp_counter :: "time \<Rightarrow> int" where \<comment> \<open>\<open>now.Unix() / 30\<close>, rounded towards zero\<close>
  "totp_counter now = (let u = now div second in if u < 0 then - (- u div 30) else u div 30)"

definition VerifyTOTP :: "otp \<Rightarrow> string \<Rightarrow> string \<Rightarrow> time \<Rightarrow> bool" where
  "VerifyTOTP c secret code0 now =
     (let code = trim_space code0 in
      if length code \<noteq> 6 \<or> secret = [] then False
      else case dec32 c (to_upper (trim_space secret)) of
        None \<Rightarrow> False
      | Some key \<Rightarrow> \<exists>skew \<in> set [-1, 0, 1]. hotp c key (of_int (totp_counter now + skew)) = code)"

definition NewTOTPSecret :: "(bytes \<Rightarrow> string) \<Rightarrow> bytes \<Rightarrow> string" where \<comment> \<open>encoder and twenty drawn bytes\<close>
  "NewTOTPSecret enc32 raw = rev (dropWhile (\<lambda>c. c = CHR ''='') (rev (enc32 raw)))"

section \<open>The handlers\<close>

record request =
  rq_forwarded :: string \<comment> \<open>the header \<open>X-Forwarded-For\<close>\<close>
  rq_peer :: "string option" \<comment> \<open>the host of \<open>RemoteAddr\<close>, if it splits\<close>
  rq_remote :: string
  rq_agent :: string
  rq_json :: bool \<comment> \<open>\<open>Content-Type\<close> starts with \<open>application/json\<close>\<close>

definition clientIP :: "request \<Rightarrow> string" where
  "clientIP r = (if rq_forwarded r \<noteq> [] then trim_space (hd (split_on (CHR '','') (rq_forwarded r)))
     else case rq_peer r of None \<Rightarrow> rq_remote r | Some h \<Rightarrow> h)"

definition audit_entry :: "ID \<Rightarrow> ID option \<Rightarrow> string \<Rightarrow> ID option \<Rightarrow> (string \<times> json) list option \<Rightarrow> time \<Rightarrow> Entry" where
  \<comment> \<open>\<open>a.audit\<close>\<close>
  "audit_entry tenant actor action target details now =
     \<lparr>e_id = Zero, e_tenant = tenant, e_kind = (if actor = None then ''system'' else ''user''), e_actor = actor, e_action = action,
      e_target_kind = ''admin'', e_target = target, e_details = details, e_time = now\<rparr>"

text \<open>What the answers carry: the status and, for a login, the cookie and the account.\<close>

datatype answer = Status nat | LoggedIn string Admin | Codes "string list" | Secret string

record login_body =
  lb_email :: string
  lb_password :: string
  lb_code :: string

record draw = \<comment> \<open>what one login draws\<close>
  dw_session :: ID
  dw_token :: string

text \<open>
  \<open>user_of\<close> stands for \<open>users.FindOrCreate\<close>: the identifier of the user row, if the call succeeds.  A body
  that does not decode is \<open>None\<close>.
\<close>

definition second_factor :: "weight \<Rightarrow> hasher \<Rightarrow> otp \<Rightarrow> time \<Rightarrow> login_body \<Rightarrow> AuthDB \<Rightarrow> bool \<times> AuthDB" where
  "second_factor weight h c now body db = (case TOTPRequired weight (lb_email body) db of
     None \<Rightarrow> (True, db)
   | Some secret \<Rightarrow>
       (let code = trim_space (lb_code body) in
        if code = [] then (False, db)
        else if VerifyTOTP c secret code now then (True, db)
        else ConsumeRecoveryCode weight h now (lb_email body) code db))"

definition login_status :: "auth_error \<Rightarrow> nat" where
  "login_status e = (case e of BadCredentials \<Rightarrow> 401 | Locked \<Rightarrow> 429 | Disabled \<Rightarrow> 403 | _ \<Rightarrow> 500)"

definition authLogin :: "weight \<Rightarrow> hasher \<Rightarrow> (string \<Rightarrow> bytes) \<Rightarrow> otp \<Rightarrow> (Admin \<Rightarrow> ID option) \<Rightarrow> ID \<Rightarrow> time \<Rightarrow> draw \<Rightarrow> request
    \<Rightarrow> login_body option \<Rightarrow> AuthDB \<Rightarrow> answer \<times> AuthDB \<times> Entry list" where
  "authLogin weight h sha c user_of tenant now dw r body0 db =
     (if \<not> rq_json r then (Status 415, db, [])
      else case body0 of None \<Rightarrow> (Status 400, db, [])
      | Some body \<Rightarrow>
        if lb_email body = [] \<or> lb_password body = [] then (Status 400, db, [])
        else let ip = clientIP r in
        if IPLocked weight now ip db then (Status 429, db, [])
        else case Login weight h sha now (dw_session dw) (dw_token dw) (lb_email body) (lb_password body) (rq_agent r) ip db of
          (Inl e, db1) \<Rightarrow> (Status (login_status e), NoteLoginFailure weight now ip db1,
             [audit_entry tenant None ''admin.login_failed'' None
                (Some [(''email'', JString (to_lower (lb_email body))), (''ip'', JString ip)]) now])
        | (Inr ad, db1) \<Rightarrow> (case second_factor weight h c now body db1 of
            (False, db2) \<Rightarrow> (Status 428, NoteLoginFailure weight now ip db2, [])
          | (True, db2) \<Rightarrow>
             (let db3 = set_admin (am_id ad) (\<lambda>a. a\<lparr>ad_last_login := Some now, ad_last_ip := Some ip\<rparr>) (NoteLoginSuccess weight ip db2);
                  actor = Some (case user_of ad of None \<Rightarrow> am_id ad | Some u \<Rightarrow> u)
              in (LoggedIn (dw_token dw) ad, db3,
                  [audit_entry (am_tenant ad) actor ''admin.login'' actor
                     (Some [(''ip'', JString ip), (''user_agent'', JString (rq_agent r))]) now]))))"

text \<open>Handlers behind \<open>requireAuth\<close>: the account the cookie resolves to, its roles, or a refusal.\<close>

definition requireAuth :: "(string \<Rightarrow> bytes) \<Rightarrow> time \<Rightarrow> string option \<Rightarrow> AuthDB \<Rightarrow> (nat + Admin \<times> string list) \<times> AuthDB" where
  "requireAuth sha now cookie db = (case cookie of
     None \<Rightarrow> (Inl 401, db)
   | Some v \<Rightarrow> if v = [] then (Inl 401, db)
      else case Resolve sha now v db of
        (Inl _, db1) \<Rightarrow> (Inl 401, db1)
      | (Inr ad, db1) \<Rightarrow> (Inr (ad, ''aidotvpn-user'' # (if am_role ad = ''admin'' then [''aidotvpn-admin''] else [])), db1))"

definition authLogout :: "(string \<Rightarrow> bytes) \<Rightarrow> (Admin \<Rightarrow> ID option) \<Rightarrow> time \<Rightarrow> Admin \<Rightarrow> string \<Rightarrow> AuthDB \<Rightarrow> answer \<times> AuthDB \<times> Entry list" where
  "authLogout sha user_of now ad token db =
     (let actor = Some (case user_of ad of None \<Rightarrow> am_id ad | Some u \<Rightarrow> u)
      in (Status 204, Logout sha token db, [audit_entry (am_tenant ad) actor ''admin.logout'' actor None now]))"

definition authChangePassword :: "hasher \<Rightarrow> (string \<Rightarrow> bytes) \<Rightarrow> (Admin \<Rightarrow> ID option) \<Rightarrow> time \<Rightarrow> bytes \<Rightarrow> Admin \<Rightarrow> string
    \<Rightarrow> (string \<times> string) option \<Rightarrow> AuthDB \<Rightarrow> answer \<times> AuthDB \<times> Entry list" where
  "authChangePassword h sha user_of now salt ad token body db = (case body of
     None \<Rightarrow> (Status 400, db, [])
   | Some (current, new) \<Rightarrow>
      if current = [] \<or> new = [] \<or> length new < 8 \<or> new = current then (Status 400, db, [])
      else case ChangePassword h sha salt (am_id ad) current new token db of
        (Some BadCredentials, db1) \<Rightarrow> (Status 403, db1, [])
      | (Some _, db1) \<Rightarrow> (Status 500, db1, [])
      | (None, db1) \<Rightarrow> (let actor = Some (case user_of ad of None \<Rightarrow> am_id ad | Some u \<Rightarrow> u)
          in (Status 204, db1, [audit_entry (am_tenant ad) actor ''admin.password_changed'' actor None now])))"

definition totpSetup :: "(bytes \<Rightarrow> string) \<Rightarrow> bytes \<Rightarrow> Admin \<Rightarrow> AuthDB \<Rightarrow> answer \<times> AuthDB" where
  "totpSetup enc32 raw ad db = (let secret = NewTOTPSecret enc32 raw in
     (Secret secret, set_admin (am_id ad) (\<lambda>a. a\<lparr>ad_secret := Some secret, ad_totp := None\<rparr>) db))"

text \<open>Eight codes, each with its drawn bytes, row identifier and salt.\<close>

definition recovery_code :: "(bytes \<Rightarrow> string) \<Rightarrow> bytes \<Rightarrow> string" where
  "recovery_code enc32 raw = to_lower (take 10 (NewTOTPSecret enc32 raw))"

definition totpEnable :: "hasher \<Rightarrow> otp \<Rightarrow> (bytes \<Rightarrow> string) \<Rightarrow> (Admin \<Rightarrow> ID option) \<Rightarrow> time \<Rightarrow> (bytes \<times> ID \<times> bytes) list
    \<Rightarrow> Admin \<Rightarrow> string option \<Rightarrow> AuthDB \<Rightarrow> answer \<times> AuthDB \<times> Entry list" where
  "totpEnable h c enc32 user_of now draws ad body db = (case body of
     None \<Rightarrow> (Status 400, db, [])
   | Some code \<Rightarrow> (case find (\<lambda>r. ad_id r = am_id ad) (admins db) of
       None \<Rightarrow> (Status 400, db, [])
     | Some r \<Rightarrow> (case ad_secret r of
         None \<Rightarrow> (Status 400, db, [])
       | Some secret \<Rightarrow>
          if \<not> VerifyTOTP c secret code now then (Status 400, db, [])
          else let codes = map (\<lambda>(raw, i, salt). recovery_code enc32 raw) draws;
                   rows = map (\<lambda>(raw, i, salt). \<lparr>rc_id = i, rc_admin = am_id ad,
                     rc_hash = HashPassword h salt (recovery_code enc32 raw), rc_used = None\<rparr>) draws;
                   db1 = set_admin (am_id ad) (\<lambda>a. a\<lparr>ad_totp := Some now\<rparr>) (db\<lparr>recovery := recovery db @ rows\<rparr>);
                   actor = Some (case user_of ad of None \<Rightarrow> am_id ad | Some u \<Rightarrow> u)
            in (Codes codes, db1, [audit_entry (am_tenant ad) actor ''admin.totp_enabled'' actor None now]))))"

definition totpDisable :: "hasher \<Rightarrow> (Admin \<Rightarrow> ID option) \<Rightarrow> time \<Rightarrow> Admin \<Rightarrow> string \<Rightarrow> AuthDB \<Rightarrow> answer \<times> AuthDB \<times> Entry list" where
  "totpDisable h user_of now ad password db = (case find (\<lambda>r. ad_id r = am_id ad) (admins db) of
     None \<Rightarrow> (Status 500, db, [])
   | Some r \<Rightarrow> if \<not> VerifyPassword h (ad_hash r) password then (Status 403, db, [])
      else let db1 = (set_admin (am_id ad) (\<lambda>a. a\<lparr>ad_secret := None, ad_totp := None\<rparr>) db)
                 \<lparr>recovery := filter (\<lambda>q. rc_admin q \<noteq> am_id ad) (recovery db)\<rparr>;
               actor = Some (case user_of ad of None \<Rightarrow> am_id ad | Some u \<Rightarrow> u)
        in (Status 204, db1, [audit_entry (am_tenant ad) actor ''admin.totp_disabled'' actor None now]))"

end
