(* ===== verification/AdminAuthProps.thy ===== *)
theory AdminAuthProps
  imports AdminAuth
begin

text \<open>
  What console login guarantees: the conditions of a login, the lockout of accounts and addresses, the
  life of sessions, and the window of the second factor.
\<close>

section \<open>Selectors\<close>

lemma set_admin_sel [simp]:
  "sessions (set_admin i f db) = sessions db" "recovery (set_admin i f db) = recovery db" "attempts (set_admin i f db) = attempts db"
  "admins (set_admin i f db) = map (\<lambda>r. if ad_id r = i then f r else r) (admins db)"
  by (simp_all add: set_admin_def)

lemma note_sel [simp]:
  "admins (NoteLoginFailure w t ip db) = admins db" "sessions (NoteLoginFailure w t ip db) = sessions db"
  "recovery (NoteLoginFailure w t ip db) = recovery db" "admins (NoteLoginSuccess w ip db) = admins db"
  "sessions (NoteLoginSuccess w ip db) = sessions db" "recovery (NoteLoginSuccess w ip db) = recovery db"
  by (simp_all add: NoteLoginFailure_def NoteLoginSuccess_def)

lemma mark_sel [simp]:
  "admins (mark_code t i db) = admins db" "sessions (mark_code t i db) = sessions db"
  "map rc_id (recovery (mark_code t i db)) = map rc_id (recovery db)"
  by (simp_all add: mark_code_def comp_def if_distrib [of rc_id] cong: if_cong)

lemma openSession_Inr:
  assumes "openSession sha now i token a agent ip db = Inr db'"
  obtains s where "db' = db\<lparr>sessions := sessions db @ [s]\<rparr>" "ss_id s = i" "ss_hash s = sha token" "ss_admin s = a"
    "ss_created s = now" "ss_used s = now" "ss_expires s = now + AbsoluteTimeout"
    "i \<notin> ss_id ` set (sessions db)" "sha token \<notin> ss_hash ` set (sessions db)"
proof -
  define s where "s = \<lparr>ss_id = i, ss_admin = a, ss_hash = sha token, ss_created = now,
        ss_used = now, ss_expires = now + AbsoluteTimeout, ss_agent = truncated agent 255, ss_ip = truncated ip 45\<rparr>"
  have "db' = db\<lparr>sessions := sessions db @ [s]\<rparr>" "i \<notin> ss_id ` set (sessions db)" "sha token \<notin> ss_hash ` set (sessions db)"
    using assms by (auto simp: openSession_def s_def split: if_split_asm)
  then show thesis by (intro that [of s]) (simp_all add: s_def)
qed

text \<open>The ways a login can end.\<close>

lemma Login_cases:
  assumes "Login weight h sha now i token email password agent ip db = (res, db')"
  obtains e where "res = Inl e" "db' = db"
  | e r f where "res = Inl e" "r \<in> set (admins db)" "db' = set_admin (ad_id r) f db" "\<And>a. ad_id (f a) = ad_id a"
      "\<And>a. ad_failed (f a) = 0 \<or> (ad_failed (f a) = ad_failed r + 1 \<and> ad_failed r + 1 < MaxFailedLogins)"
  | r db2 where "res = Inr (scan_admin r)" "find_admin weight db (norm_email email) = Some r" "ad_disabled r = None"
      "\<forall>until. ad_locked r = Some until \<longrightarrow> until \<le> now" "VerifyPassword h (ad_hash r) password"
      "openSession sha now i token (ad_id r) agent ip
        (set_admin (ad_id r) (\<lambda>a. a\<lparr>ad_failed := 0, ad_locked := None\<rparr>) db) = Inr db2" "db' = db2"
proof (cases "find_admin weight db (norm_email email)")
  case None
  then have "(res, db') = (Inl BadCredentials, db)" unfolding assms [symmetric] by (simp add: Login_def)
  then show ?thesis using that(1) by blast
next
  case (Some r)
  then have r: "r \<in> set (admins db)" using find_Some_in [OF Some [unfolded find_admin_def]] by simp
  let ?bad = "case ad_locked r of None \<Rightarrow> False | Some until \<Rightarrow> until > now"
  let ?lock = "\<lambda>a. a\<lparr>ad_failed := 0, ad_locked := Some (now + LockoutDuration)\<rparr>"
  let ?count = "\<lambda>a. a\<lparr>ad_failed := ad_failed r + 1\<rparr>"
  let ?clear = "\<lambda>a. a\<lparr>ad_failed := 0, ad_locked := None\<rparr>"
  consider "ad_disabled r \<noteq> None \<or> ?bad" | (wrong) "ad_disabled r = None" "\<not> ?bad" "\<not> VerifyPassword h (ad_hash r) password"
    | (right) "ad_disabled r = None" "\<not> ?bad" "VerifyPassword h (ad_hash r) password" by blast
  then show ?thesis
  proof cases
    case 1
    then have "(res, db') = (Inl (if ad_disabled r \<noteq> None then Disabled else Locked), db)"
      unfolding assms [symmetric] by (cases "ad_disabled r") (auto simp: Login_def Some)
    then show ?thesis using that(1) by blast
  next
    case wrong
    show ?thesis
    proof (cases "ad_failed r + 1 \<ge> MaxFailedLogins")
      case True
      with wrong have "(res, db') = (Inl Locked, set_admin (ad_id r) ?lock db)"
        unfolding assms [symmetric] by (simp add: Login_def Let_def Some)
      then have "res = Inl Locked" "db' = set_admin (ad_id r) ?lock db" by blast+
      then show ?thesis by (rule that(2) [OF _ r]) simp_all
    next
      case False
      with wrong have "(res, db') = (Inl BadCredentials, set_admin (ad_id r) ?count db)"
        unfolding assms [symmetric] by (simp add: Login_def Let_def Some)
      then have "res = Inl BadCredentials" "db' = set_admin (ad_id r) ?count db" by blast+
      then show ?thesis by (rule that(2) [OF _ r]) (use False in simp_all)
    qed
  next
    case right
    then have lock: "\<forall>until. ad_locked r = Some until \<longrightarrow> until \<le> now" by auto
    show ?thesis
    proof (cases "openSession sha now i token (ad_id r) agent ip (set_admin (ad_id r) ?clear db)")
      case (Inl e)
      with right have "(res, db') = (Inl e, set_admin (ad_id r) ?clear db)"
        unfolding assms [symmetric] by (simp add: Login_def Let_def Some)
      then have "res = Inl e" "db' = set_admin (ad_id r) ?clear db" by blast+
      then show ?thesis by (rule that(2) [OF _ r]) simp_all
    next
      case (Inr db2)
      with right have "(res, db') = (Inr (scan_admin r), db2)"
        unfolding assms [symmetric] by (simp add: Login_def Let_def Some)
      with that(3) [OF _ Some right(1) lock right(3) Inr] show ?thesis by blast
    qed
  qed
qed

section \<open>Histories\<close>

text \<open>
  What the database and the service keep in every state they reach: identifiers and token hashes are
  used once, an account counts fewer failures than lock it, and a session expires thirty days after
  it was opened.
\<close>

definition auth_inv :: "AuthDB \<Rightarrow> bool" where
  "auth_inv db \<longleftrightarrow> distinct (map ad_id (admins db)) \<and> distinct (map ss_id (sessions db)) \<and> distinct (map ss_hash (sessions db))
     \<and> distinct (map rc_id (recovery db))
     \<and> (\<forall>r \<in> set (admins db). 0 \<le> ad_failed r \<and> ad_failed r < MaxFailedLogins)
     \<and> (\<forall>s \<in> set (sessions db). ss_expires s = ss_created s + AbsoluteTimeout)"

text \<open>Identifiers are fresh where the primary key would refuse them otherwise.\<close>

inductive auth_run :: "AuthDB \<Rightarrow> bool" where
  start: "admins db = [] \<Longrightarrow> sessions db = [] \<Longrightarrow> recovery db = [] \<Longrightarrow> auth_run db"
| create: "auth_run db \<Longrightarrow> CreateAdmin weight h i salt tenant email name password role must db = (r, db') \<Longrightarrow> auth_run db'"
| login: "auth_run db \<Longrightarrow> authLogin weight h sha c user_of tenant now dw rq body db = (r, db', au) \<Longrightarrow> auth_run db'"
| require: "auth_run db \<Longrightarrow> requireAuth sha now cookie db = (r, db') \<Longrightarrow> auth_run db'"
| logout: "auth_run db \<Longrightarrow> auth_run (Logout sha token db)"
| password: "auth_run db \<Longrightarrow> authChangePassword h sha user_of now salt ad token body db = (r, db', au) \<Longrightarrow> auth_run db'"
| revoke: "auth_run db \<Longrightarrow> auth_run (RevokeSession a i db)"
| totp_setup: "auth_run db \<Longrightarrow> totpSetup enc32 raw ad db = (r, db') \<Longrightarrow> auth_run db'"
| totp_enable: "auth_run db \<Longrightarrow> distinct (map (fst \<circ> snd) draws) \<Longrightarrow> (fst \<circ> snd) ` set draws \<inter> rc_id ` set (recovery db) = {} \<Longrightarrow>
    totpEnable h c enc32 user_of now draws ad body db = (r, db', au) \<Longrightarrow> auth_run db'"
| totp_disable: "auth_run db \<Longrightarrow> totpDisable h user_of now ad pw db = (r, db', au) \<Longrightarrow> auth_run db'"
| account: "auth_run db \<Longrightarrow> auth_run (set_admin i (\<lambda>a. a\<lparr>ad_disabled := d, ad_role := role\<rparr>) db)"

lemma inv_set_admin:
  assumes "auth_inv db" "\<And>a. ad_id (f a) = ad_id a"
    and "\<And>a. a \<in> set (admins db) \<Longrightarrow> 0 \<le> ad_failed (f a) \<and> ad_failed (f a) < MaxFailedLogins"
  shows "auth_inv (set_admin i f db)"
proof -
  have "ad_id (if ad_id r = i then f r else r) = ad_id r" for r by (simp add: assms(2))
  then have m: "map ad_id (admins (set_admin i f db)) = map ad_id (admins db)" by (simp add: comp_def)
  show ?thesis using assms(1,3) unfolding auth_inv_def m by auto
qed

lemma inv_set_admin_same:
  assumes "auth_inv db" "\<And>a. ad_id (f a) = ad_id a" "\<And>a. ad_failed (f a) = ad_failed a"
  shows "auth_inv (set_admin i f db)"
  using assms by (intro inv_set_admin) (simp_all add: auth_inv_def)

text \<open>Dropping sessions, marking them as used, and the throttle keep the invariant.\<close>

lemma inv_sessions:
  assumes "auth_inv db" "ss = filter P (sessions db)"
  shows "auth_inv (db\<lparr>sessions := ss\<rparr>)"
  using assms by (auto simp: auth_inv_def distinct_map_filter)

lemma inv_new_sessions:
  "auth_inv db \<Longrightarrow> distinct (map ss_id ss) \<Longrightarrow> distinct (map ss_hash ss) \<Longrightarrow>
    \<forall>s \<in> set ss. ss_expires s = ss_created s + AbsoluteTimeout \<Longrightarrow> auth_inv (db\<lparr>sessions := ss\<rparr>)"
  by (simp add: auth_inv_def)

lemma inv_slide:
  assumes "auth_inv db"
  shows "auth_inv (db\<lparr>sessions := map (\<lambda>q. if ss_id q = i then q\<lparr>ss_used := now\<rparr> else q) (sessions db)\<rparr>)"
proof -
  let ?f = "\<lambda>q. if ss_id q = i then q\<lparr>ss_used := now\<rparr> else q"
  have f: "ss_id (?f q) = ss_id q" "ss_hash (?f q) = ss_hash q" "ss_created (?f q) = ss_created q" "ss_expires (?f q) = ss_expires q" for q
    by simp_all
  have m: "map ss_id (map ?f (sessions db)) = map ss_id (sessions db)" "map ss_hash (map ?f (sessions db)) = map ss_hash (sessions db)"
    by (simp_all only: map_map comp_def f)
  have e: "\<forall>s \<in> set (map ?f (sessions db)). ss_expires s = ss_created s + AbsoluteTimeout"
    using assms unfolding set_map ball_simps f auth_inv_def by blast
  from assms show ?thesis by (intro inv_new_sessions [OF assms _ _ e]; unfold m) (simp_all add: auth_inv_def)
qed

lemma inv_note [simp]:
  "auth_inv (NoteLoginFailure w t ip db) = auth_inv db" "auth_inv (NoteLoginSuccess w ip db) = auth_inv db"
  "auth_inv (mark_code t i db) = auth_inv db"
  by (simp_all add: auth_inv_def)


lemma inv_login_clear: "auth_inv db \<Longrightarrow> auth_inv (set_admin i (\<lambda>a. a\<lparr>ad_failed := 0, ad_locked := None\<rparr>) db)"
  by (rule inv_set_admin) (simp_all add: MaxFailedLogins_def)

lemma inv_open:
  assumes "auth_inv db" "openSession sha now i token a agent ip db = Inr db'"
  shows "auth_inv db'"
  using assms(2) by (rule openSession_Inr) (use assms(1) in \<open>auto simp: auth_inv_def\<close>)

lemma inv_Login:
  assumes "auth_inv db" "Login weight h sha now i token email password agent ip db = (res, db')"
  shows "auth_inv db'"
  using assms(2)
proof (cases rule: Login_cases)
  case (2 e r f)
  have "0 \<le> ad_failed r" using assms(1) 2(2) by (simp add: auth_inv_def)
  then have "0 \<le> ad_failed (f a) \<and> ad_failed (f a) < MaxFailedLogins" for a
    using 2(5) [of a] by (auto simp: MaxFailedLogins_def)
  with 2(4) have "auth_inv (set_admin (ad_id r) f db)" by (intro inv_set_admin [OF assms(1)])
  with 2(3) show ?thesis by simp
next
  case (3 r db2)
  from inv_open [OF inv_login_clear [OF assms(1)] 3(6)] 3(7) show ?thesis by simp
qed (use assms(1) in simp)

lemma second_factor_db:
  "second_factor weight h c now body db = (ok, db') \<Longrightarrow> db' = db \<or> (\<exists>i. db' = mark_code now i db)"
  by (auto simp: second_factor_def Let_def ConsumeRecoveryCode_def split: option.split_asm if_split_asm)

lemma inv_authLogin:
  assumes "auth_inv db" "authLogin weight h sha c user_of tenant now dw rq body db = (res, db', au)"
  shows "auth_inv db'"
proof (cases "rq_json rq \<and> body \<noteq> None \<and> lb_email (the body) \<noteq> [] \<and> lb_password (the body) \<noteq> [] \<and> \<not> IPLocked weight now (clientIP rq) db")
  case False
  then have "db' = db" using assms(2) by (cases body) (auto simp: authLogin_def Let_def split: if_split_asm)
  with assms(1) show ?thesis by simp
next
  case True
  then obtain b where b: "body = Some b" by auto
  obtain r db1 where l: "Login weight h sha now (dw_session dw) (dw_token dw) (lb_email b) (lb_password b) (rq_agent rq) (clientIP rq) db = (r, db1)"
    by (cases "Login weight h sha now (dw_session dw) (dw_token dw) (lb_email b) (lb_password b) (rq_agent rq) (clientIP rq) db")
  obtain ok db2 where f: "second_factor weight h c now b db1 = (ok, db2)" by (cases "second_factor weight h c now b db1")
  have i1: "auth_inv db1" by (rule inv_Login [OF assms(1) l])
  then have i2: "auth_inv db2" using second_factor_db [OF f] by auto
  have "db' = NoteLoginFailure weight now (clientIP rq) db1 \<or> db' = NoteLoginFailure weight now (clientIP rq) db2
    \<or> (\<exists>i. db' = set_admin i (\<lambda>a. a\<lparr>ad_last_login := Some now, ad_last_ip := Some (clientIP rq)\<rparr>) (NoteLoginSuccess weight (clientIP rq) db2))"
    using True assms(2) by (auto simp: b authLogin_def Let_def l f split: sum.split_asm bool.split_asm)
  moreover have "auth_inv (set_admin i (\<lambda>a. a\<lparr>ad_last_login := Some now, ad_last_ip := Some (clientIP rq)\<rparr>) (NoteLoginSuccess weight (clientIP rq) db2))" for i
    using i2 by (intro inv_set_admin) (simp_all add: auth_inv_def)
  ultimately show ?thesis using i1 i2 by auto
qed

lemma inv_create:
  assumes "auth_inv db" "CreateAdmin weight h i salt tenant email name password role must db = (r, db')"
  shows "auth_inv db'"
  using assms by (auto simp: CreateAdmin_def Let_def auth_inv_def MaxFailedLogins_def split: if_split_asm)

lemma inv_require:
  assumes "auth_inv db" "requireAuth sha now cookie db = (r, db')"
  shows "auth_inv db'"
proof -
  have "auth_inv (snd (Resolve sha now v db))" for v
    using assms(1) inv_sessions [OF assms(1) refl] inv_slide [OF assms(1)]
    by (auto simp: Resolve_def split: list.split)
  moreover have "db' = db \<or> (\<exists>v. db' = snd (Resolve sha now v db))"
    using assms(2) by (auto simp: requireAuth_def split: option.split_asm if_split_asm prod.split_asm sum.split_asm) (metis snd_conv)+
  ultimately show ?thesis using assms(1) by auto
qed

lemma ChangePassword_db:
  assumes "ChangePassword h sha salt i current new keep db = (r, db')"
  shows "db' = db \<or> db' = (set_admin i (\<lambda>a. a\<lparr>ad_hash := HashPassword h salt new, ad_must_change := False\<rparr>) db)
    \<lparr>sessions := filter (\<lambda>s. \<not> (ss_admin s = i \<and> ss_hash s \<noteq> sha keep)) (sessions db)\<rparr>"
  using assms by (auto simp: ChangePassword_def split: option.split_asm if_split_asm)

lemma inv_password:
  assumes "auth_inv db" "authChangePassword h sha user_of now salt ad token body db = (r, db', au)"
  shows "auth_inv db'"
proof -
  have i: "auth_inv (set_admin i (\<lambda>a. a\<lparr>ad_hash := HashPassword h salt new, ad_must_change := False\<rparr>) db)" for i new
    using assms(1) by (intro inv_set_admin) (simp_all add: auth_inv_def)
  have "auth_inv db''" if "ChangePassword h sha salt (am_id ad) current new token db = (r', db'')" for current new r' db''
    using ChangePassword_db [OF that] assms(1) inv_sessions [OF i, of _ _ "am_id ad" new] by auto
  moreover have "db' = db \<or> (\<exists>current new r'. ChangePassword h sha salt (am_id ad) current new token db = (r', db'))"
    using assms(2) by (auto simp: authChangePassword_def Let_def split: option.split_asm if_split_asm prod.split_asm auth_error.split_asm)
  ultimately show ?thesis using assms(1) by blast
qed

lemma inv_enable:
  assumes "auth_inv db" "distinct (map (fst \<circ> snd) draws)" "(fst \<circ> snd) ` set draws \<inter> rc_id ` set (recovery db) = {}"
    and "totpEnable h c enc32 user_of now draws ad body db = (r, db', au)"
  shows "auth_inv db'"
proof -
  let ?row = "\<lambda>(raw, i, salt). \<lparr>rc_id = i, rc_admin = am_id ad, rc_hash = HashPassword h salt (recovery_code enc32 raw), rc_used = None\<rparr>"
  have ids: "map rc_id (map ?row draws) = map (fst \<circ> snd) draws" by (simp add: comp_def case_prod_unfold)
  have "auth_inv (db\<lparr>recovery := recovery db @ map ?row draws\<rparr>)"
    using assms(1-3) ids by (auto simp: auth_inv_def image_image case_prod_unfold comp_def)
  then have "auth_inv (set_admin (am_id ad) (\<lambda>a. a\<lparr>ad_totp := Some now\<rparr>) (db\<lparr>recovery := recovery db @ map ?row draws\<rparr>))"
    by (intro inv_set_admin) (simp_all add: auth_inv_def)
  moreover have "db' = db \<or> db' = set_admin (am_id ad) (\<lambda>a. a\<lparr>ad_totp := Some now\<rparr>) (db\<lparr>recovery := recovery db @ map ?row draws\<rparr>)"
    using assms(4) by (auto simp: totpEnable_def Let_def split: option.split_asm if_split_asm)
  ultimately show ?thesis using assms(1) by auto
qed

lemma inv_disable:
  assumes "auth_inv db" "totpDisable h user_of now ad pw db = (r, db', au)"
  shows "auth_inv db'"
proof -
  have "auth_inv (set_admin (am_id ad) (\<lambda>a. a\<lparr>ad_secret := None, ad_totp := None\<rparr>) db)"
    using assms(1) by (simp add: inv_set_admin_same)
  then have "auth_inv ((set_admin (am_id ad) (\<lambda>a. a\<lparr>ad_secret := None, ad_totp := None\<rparr>) db)
      \<lparr>recovery := filter (\<lambda>q. rc_admin q \<noteq> am_id ad) (recovery db)\<rparr>)"
    by (auto simp: auth_inv_def distinct_map_filter)
  with assms show ?thesis by (auto simp: totpDisable_def Let_def split: option.split_asm if_split_asm)
qed

lemma auth_run_inv: "auth_run db \<Longrightarrow> auth_inv db"
proof (induction rule: auth_run.induct)
  case (start db)
  then show ?case by (simp add: auth_inv_def)
next
  case (totp_setup db enc32 raw ad r db')
  then have "db' = set_admin (am_id ad) (\<lambda>a. a\<lparr>ad_secret := Some (NewTOTPSecret enc32 raw), ad_totp := None\<rparr>) db"
    by (simp add: totpSetup_def Let_def)
  with totp_setup(3) show ?case by (simp add: inv_set_admin_same)
next
  case (logout db sha token)
  show ?case unfolding Logout_def by (rule inv_sessions [OF logout(2) refl])
next
  case (revoke db a i)
  show ?case unfolding RevokeSession_def by (rule inv_sessions [OF revoke(2) refl])
next
  case (account db i d role)
  then show ?case by (simp add: inv_set_admin_same)
qed (blast intro: inv_create inv_authLogin inv_require inv_password inv_enable inv_disable)+

section \<open>Password hashes\<close>

lemma scan_uint_digits:
  assumes "d \<noteq> []" "list_all is_digit d" "rest = [] \<or> \<not> is_digit (hd rest)" "digits_val d < 2 ^ bits"
  shows "scan_uint bits (d @ rest) = Some (digits_val d, rest)"
proof -
  obtain c d' where d: "d = c # d'" "is_digit c" using assms(1,2) by (cases d) auto
  then have "dropWhile (\<lambda>c. of_char c \<in> {9, 11, 12, 13, 32 :: nat}) (d @ rest) = d @ rest" by (auto simp: is_digit_iff)
  moreover have "takeWhile is_digit (d @ rest) = d" "dropWhile is_digit (d @ rest) = rest"
    using assms(2,3) by (cases rest; simp add: list_all_iff)+
  ultimately show ?thesis using assms(1,4) by (simp add: scan_uint_def)
qed

lemma scan_stored: "scan_params ''m=65536,t=3,p=4'' = Some (65536, 3, 4)"
proof -
  have l: "literal ''m='' ''m=65536,t=3,p=4'' = Some (''65536'' @ '',t=3,p=4'')" "literal '',t='' '',t=3,p=4'' = Some (''3'' @ '',p=4'')"
    "literal '',p='' '',p=4'' = Some (''4'' @ [])"
    by code_simp+
  have v: "digits_val ''65536'' = 65536" "digits_val ''3'' = 3" "digits_val ''4'' = 4"
    by (simp_all add: digits_val_def digit_val_def)
  have d: "list_all is_digit ''65536''" "list_all is_digit ''3''" "list_all is_digit ''4''" "\<not> is_digit (CHR '','')" by code_simp+
  have s: "scan_uint 32 (''65536'' @ '',t=3,p=4'') = Some (65536, '',t=3,p=4'')" "scan_uint 32 (''3'' @ '',p=4'') = Some (3, '',p=4'')"
    "scan_uint 8 (''4'' @ []) = Some (4, [])"
    using scan_uint_digits [of "''65536''" "'',t=3,p=4''" 32] scan_uint_digits [of "''3''" "'',p=4''" 32]
      scan_uint_digits [of "''4''" "[]" 8] d v by (simp_all del: append.simps)
  show ?thesis by (simp add: scan_params_def l s del: append.simps append_Nil2)
qed

lemma verify_hash:
  assumes "\<And>b. dec64 h (enc64 h b) = Some b" "\<And>b. CHR ''$'' \<notin> set (enc64 h b)" "\<And>p s t m l n. length (argon h p s t m l n) = n"
  shows "VerifyPassword h (HashPassword h salt password) attempt \<longleftrightarrow>
    argon h attempt salt 3 65536 4 32 = argon h password salt 3 65536 4 32"
proof -
  let ?parts = "[[], ''argon2id'', ''v=19'', ''m=65536,t=3,p=4'', enc64 h salt, enc64 h (argon h password salt 3 65536 4 32)]"
  have "HashPassword h salt password = join [CHR ''$''] ?parts" by (simp add: HashPassword_def)
  then have "split_on (CHR ''$'') (HashPassword h salt password) = ?parts"
    by (simp only:) (rule split_on_join, simp_all add: assms(2))
  moreover have "scan_params ''m=65536,t=3,p=4'' = Some (65536, 3, 4)" by (fact scan_stored)
  ultimately show ?thesis by (simp add: VerifyPassword_def assms(1,3))
qed

text \<open>
  A stored password hash verifies the password it was made from, and another text only if Argon2
  gives both the same key under the stored salt: the text form carries algorithm, parameters, salt and key
  there and back.
\<close>

theorem password_roundtrip:
  assumes "\<And>b. dec64 h (enc64 h b) = Some b" "\<And>b. CHR ''$'' \<notin> set (enc64 h b)" "\<And>p s t m l n. length (argon h p s t m l n) = n"
  shows "VerifyPassword h (HashPassword h salt password) password
    \<and> (VerifyPassword h (HashPassword h salt password) attempt \<longrightarrow>
        argon h attempt salt 3 65536 4 32 = argon h password salt 3 65536 4 32)"
  by (simp add: verify_hash [OF assms])

section \<open>Sessions\<close>

lemma Resolve_Inr:
  assumes "Resolve sha now token db = (Inr ad, db')"
  obtains s a where "s \<in> set (sessions db)" "a \<in> set (admins db)" "ad_id a = ss_admin s" "ss_hash s = sha token"
    "ad = scan_admin a" "ad_disabled a = None" "now \<le> ss_expires s" "now - ss_used s \<le> IdleTimeout"
proof -
  define pairs where "pairs = [(s, a). s \<leftarrow> sessions db, a \<leftarrow> admins db, ad_id a = ss_admin s \<and> ss_hash s = sha token]"
  from assms obtain s a rest where p: "pairs = (s, a) # rest" "ad = scan_admin a" "ad_disabled a = None" "now \<le> ss_expires s"
      "now - ss_used s \<le> IdleTimeout"
    unfolding Resolve_def pairs_def [symmetric] by (auto split: if_split_asm list.split_asm)
  then have "(s, a) \<in> set pairs" by simp
  then have "s \<in> set (sessions db)" "a \<in> set (admins db)" "ad_id a = ss_admin s" "ss_hash s = sha token"
    by (auto simp: pairs_def split: if_split_asm)
  with that p(2-5) show thesis by blast
qed

lemma admitted_session:
  assumes "auth_run db" "requireAuth sha now cookie db = (Inr (ad, roles), db')"
  shows "\<exists>token. cookie = Some token \<and> token \<noteq> [] \<and>
    (\<exists>s \<in> set (sessions db). \<exists>a \<in> set (admins db). ss_hash s = sha token \<and> ad_id a = ss_admin s \<and> ad = scan_admin a
      \<and> ad_disabled a = None \<and> now \<le> ss_created s + 30 * 24 * 60 * 60 * second \<and> now \<le> ss_used s + 30 * 60 * second
      \<and> (''aidotvpn-admin'' \<in> set roles \<longleftrightarrow> ad_role a = ''admin''))"
proof -
  from assms(2) obtain token where t: "cookie = Some token" "token \<noteq> []" "Resolve sha now token db = (Inr ad, db')"
      "roles = ''aidotvpn-user'' # (if am_role ad = ''admin'' then [''aidotvpn-admin''] else [])"
    by (auto simp: requireAuth_def split: option.split_asm if_split_asm prod.split_asm sum.split_asm)
  from t(3) obtain s a where s: "s \<in> set (sessions db)" "a \<in> set (admins db)" "ad_id a = ss_admin s" "ss_hash s = sha token"
    "ad = scan_admin a" "ad_disabled a = None" "now \<le> ss_expires s" "now - ss_used s \<le> IdleTimeout" by (rule Resolve_Inr)
  have "ss_expires s = ss_created s + AbsoluteTimeout" using auth_run_inv [OF assms(1)] s(1) by (simp add: auth_inv_def)
  then have "now \<le> ss_created s + 30 * 24 * 60 * 60 * second" "now \<le> ss_used s + 30 * 60 * second"
    using s(7,8) by (simp_all add: AbsoluteTimeout_def IdleTimeout_def hour_def minute_def)
  with s t show ?thesis by (auto simp: scan_admin_def intro!: bexI [of _ s] bexI [of _ a])
qed

text \<open>
  C21. A request is let in only on a live session: whatever happened before, when \<open>requireAuth\<close> admits a
  cookie there is a stored session with the hash of that cookie, opened at most thirty days ago and
  used at most thirty minutes ago, of an account that exists and is not disabled, and the request
  runs as that account with the administrator role only if the account has it.
\<close>

theorem cookie_admits_live_session:
  assumes "auth_run db" "requireAuth sha now cookie db = (Inr (ad, roles), db')"
  shows "\<exists>token. cookie = Some token \<and> token \<noteq> [] \<and>
    (\<exists>s \<in> set (sessions db). \<exists>a \<in> set (admins db). ss_hash s = sha token \<and> ad_id a = ss_admin s \<and> ad = scan_admin a
      \<and> ad_disabled a = None \<and> now \<le> ss_created s + 30 * 24 * 60 * 60 * second \<and> now \<le> ss_used s + 30 * 60 * second
      \<and> (''aidotvpn-admin'' \<in> set roles \<longleftrightarrow> ad_role a = ''admin''))"
  using assms by (rule admitted_session)

text \<open>
  Changing the password ends every other session: afterwards no token but the one of the request
  resolves to the account, the kept session is still there, and the new password verifies in place of the
  old one.
\<close>

theorem password_change_ends_sessions:
  assumes "ChangePassword h sha salt i current new keep db = (None, db')"
    and "\<And>b. dec64 h (enc64 h b) = Some b" "\<And>b. CHR ''$'' \<notin> set (enc64 h b)" "\<And>p s t m l n. length (argon h p s t m l n) = n"
  shows "(\<forall>token now a db''. Resolve sha now token db' = (Inr a, db'') \<and> am_id a = i \<longrightarrow> sha token = sha keep)
    \<and> filter (\<lambda>s. ss_hash s = sha keep \<or> ss_admin s \<noteq> i) (sessions db) = sessions db'
    \<and> (\<forall>a \<in> set (admins db'). ad_id a = i \<longrightarrow> VerifyPassword h (ad_hash a) new \<and> \<not> ad_must_change a)
    \<and> (\<exists>a \<in> set (admins db). ad_id a = i \<and> VerifyPassword h (ad_hash a) current)"
proof -
  from assms(1) obtain r where r: "find (\<lambda>r. ad_id r = i) (admins db) = Some r" "VerifyPassword h (ad_hash r) current"
    and db': "db' = (set_admin i (\<lambda>a. a\<lparr>ad_hash := HashPassword h salt new, ad_must_change := False\<rparr>) db)
      \<lparr>sessions := filter (\<lambda>s. \<not> (ss_admin s = i \<and> ss_hash s \<noteq> sha keep)) (sessions db)\<rparr>"
    by (auto simp: ChangePassword_def split: option.split_asm if_split_asm)
  have "sha token = sha keep" if "Resolve sha now token db' = (Inr a, db'')" "am_id a = i" for token now a db''
  proof -
    from that(1) obtain s b where s: "s \<in> set (sessions db')" "ad_id b = ss_admin s" "ss_hash s = sha token" "a = scan_admin b"
      by (rule Resolve_Inr)
    with that(2) have "ss_admin s = i" by (simp add: scan_admin_def)
    with s(1,3) show ?thesis by (simp add: db')
  qed
  moreover have "filter (\<lambda>s. ss_hash s = sha keep \<or> ss_admin s \<noteq> i) (sessions db) = sessions db'"
    by (auto simp: db' intro: filter_cong)
  moreover have "\<forall>a \<in> set (admins db'). ad_id a = i \<longrightarrow> VerifyPassword h (ad_hash a) new \<and> \<not> ad_must_change a"
  proof
    have v: "VerifyPassword h (HashPassword h salt new) new" by (simp add: verify_hash [OF assms(2-4)])
    have m: "admins db' = map (\<lambda>r. if ad_id r = i then r\<lparr>ad_hash := HashPassword h salt new, ad_must_change := False\<rparr> else r) (admins db)"
      by (simp add: db')
    fix a assume "a \<in> set (admins db')"
    then obtain b where "a = (if ad_id b = i then b\<lparr>ad_hash := HashPassword h salt new, ad_must_change := False\<rparr> else b)"
      unfolding m set_map by (rule imageE)
    with v show "ad_id a = i \<longrightarrow> VerifyPassword h (ad_hash a) new \<and> \<not> ad_must_change a" by auto
  qed
  moreover have "r \<in> set (admins db)" "ad_id r = i" using find_Some_in [OF r(1)] by simp_all
  ultimately show ?thesis using r(2) by blast
qed

section \<open>What a login takes\<close>

lemma find_map_same:
  assumes "\<And>r. P (f r) = P r"
  shows "find P (map f xs) = map_option f (find P xs)"
  by (simp add: find_map comp_def assms)

lemma find_admin_set:
  assumes "\<And>a. ad_email (f a) = ad_email a"
  shows "find_admin weight (set_admin i f db) e = map_option (\<lambda>r. if ad_id r = i then f r else r) (find_admin weight db e)"
  unfolding find_admin_def set_admin_sel by (rule find_map_same) (simp add: assms)

lemma find_admin_weight: "weight e = weight e' \<Longrightarrow> find_admin weight db e = find_admin weight db e'"
  by (simp add: find_admin_def)

lemma read_code_Some:
  assumes "read_code weight h email code db = Some q"
  shows "q \<in> set (recovery db)" "rc_used q = None" "VerifyPassword h (rc_hash q) (trim_space code)"
    "\<exists>a \<in> set (admins db). ad_id a = rc_admin q \<and> weight (ad_email a) = weight email"
  using find_Some_in [OF assms [unfolded read_code_def]] by blast+

text \<open>What the second factor asks of an account that has it.\<close>

definition second_factor_shown :: "weight \<Rightarrow> hasher \<Rightarrow> otp \<Rightarrow> time \<Rightarrow> login_body \<Rightarrow> string \<Rightarrow> AuthDB \<Rightarrow> bool" where
  "second_factor_shown weight h c now body secret db \<longleftrightarrow>
     VerifyTOTP c secret (trim_space (lb_code body)) now
     \<or> (\<exists>q \<in> set (recovery db). rc_used q = None \<and> VerifyPassword h (rc_hash q) (trim_space (trim_space (lb_code body)))
         \<and> (\<exists>a \<in> set (admins db). ad_id a = rc_admin q \<and> weight (ad_email a) = weight (lb_email body)))"

lemma second_factor_ok:
  assumes "second_factor weight h c now body db = (True, db')" "TOTPRequired weight (lb_email body) db = Some secret"
  shows "second_factor_shown weight h c now body secret db"
proof (cases "VerifyTOTP c secret (trim_space (lb_code body)) now")
  case False
  with assms obtain q where "read_code weight h (lb_email body) (trim_space (lb_code body)) db = Some q"
    by (auto simp: second_factor_def Let_def ConsumeRecoveryCode_def split: if_split_asm option.split_asm)
  from read_code_Some [OF this] show ?thesis unfolding second_factor_shown_def by blast
qed (simp add: second_factor_shown_def)

lemma authLogin_LoggedIn:
  assumes "authLogin weight h sha c user_of tenant now dw rq (Some body) db = (LoggedIn token ad, db', au)"
  obtains db1 db2 where "\<not> IPLocked weight now (clientIP rq) db"
    "Login weight h sha now (dw_session dw) (dw_token dw) (lb_email body) (lb_password body) (rq_agent rq) (clientIP rq) db = (Inr ad, db1)"
    "second_factor weight h c now body db1 = (True, db2)" "token = dw_token dw"
proof -
  obtain r db1 where l: "Login weight h sha now (dw_session dw) (dw_token dw) (lb_email body) (lb_password body) (rq_agent rq) (clientIP rq) db = (r, db1)"
    by (cases "Login weight h sha now (dw_session dw) (dw_token dw) (lb_email body) (lb_password body) (rq_agent rq) (clientIP rq) db")
  obtain ok db2 where f: "second_factor weight h c now body db1 = (ok, db2)" by (cases "second_factor weight h c now body db1")
  from assms have "\<not> IPLocked weight now (clientIP rq) db" "r = Inr ad" "ok = True" "token = dw_token dw"
    by (auto simp: authLogin_def Let_def l f split: if_split_asm sum.split_asm bool.split_asm)
  with that l f show thesis by blast
qed

text \<open>
  C20. The console opens only on all factors: a login that answers with a session was made from an address
  that is not throttled, on the right password of an account that is neither disabled nor locked; and
  where the account has its second factor enabled and the address was typed as it is stored, on a current
  code or an unused recovery code of that account.
\<close>

theorem login_takes_all_factors:
  assumes "authLogin weight h sha c user_of tenant now dw rq (Some body) db = (LoggedIn token ad, db', au)"
  shows "\<not> IPLocked weight now (clientIP rq) db \<and> token = dw_token dw \<and>
    (\<exists>r. find_admin weight db (norm_email (lb_email body)) = Some r \<and> ad = scan_admin r \<and> ad_disabled r = None
      \<and> (\<forall>until. ad_locked r = Some until \<longrightarrow> until \<le> now) \<and> VerifyPassword h (ad_hash r) (lb_password body)
      \<and> (\<forall>secret. weight (lb_email body) = weight (norm_email (lb_email body)) \<and> ad_totp r \<noteq> None \<and> ad_secret r = Some secret \<longrightarrow>
           second_factor_shown weight h c now body secret db))"
proof -
  from assms obtain db1 db2 where l: "\<not> IPLocked weight now (clientIP rq) db"
    "Login weight h sha now (dw_session dw) (dw_token dw) (lb_email body) (lb_password body) (rq_agent rq) (clientIP rq) db = (Inr ad, db1)"
    and f: "second_factor weight h c now body db1 = (True, db2)" and t: "token = dw_token dw" by (rule authLogin_LoggedIn)
  from l(2) obtain r where r: "Inr ad = (Inr (scan_admin r) :: auth_error + Admin)" "find_admin weight db (norm_email (lb_email body)) = Some r"
    "ad_disabled r = None" "\<forall>until. ad_locked r = Some until \<longrightarrow> until \<le> now" "VerifyPassword h (ad_hash r) (lb_password body)"
    and open1: "openSession sha now (dw_session dw) (dw_token dw) (ad_id r) (rq_agent rq) (clientIP rq)
      (set_admin (ad_id r) (\<lambda>a. a\<lparr>ad_failed := 0, ad_locked := None\<rparr>) db) = Inr db1"
    by (cases rule: Login_cases) auto
  let ?clear = "\<lambda>a. a\<lparr>ad_failed := 0, ad_locked := None\<rparr>"
  from open1 obtain s where db1: "db1 = set_admin (ad_id r) ?clear db\<lparr>sessions := sessions db @ [s]\<rparr>"
    by (rule openSession_Inr) auto
  have "second_factor_shown weight h c now body secret db"
    if s: "weight (lb_email body) = weight (norm_email (lb_email body))" "ad_totp r \<noteq> None" "ad_secret r = Some secret" for secret
  proof -
    have "find_admin weight db1 (lb_email body) = find_admin weight (set_admin (ad_id r) ?clear db) (norm_email (lb_email body))"
      by (simp add: db1 find_admin_def s(1))
    also have "\<dots> = Some (?clear r)" by (subst find_admin_set) (simp_all add: r(2))
    finally have "TOTPRequired weight (lb_email body) db1 = Some secret" using s(2,3) by (simp add: TOTPRequired_def)
    from second_factor_ok [OF f this] have "second_factor_shown weight h c now body secret db1" .
    moreover have "(\<exists>a \<in> set (admins db1). ad_id a = i \<and> weight (ad_email a) = e) \<longleftrightarrow> (\<exists>a \<in> set (admins db). ad_id a = i \<and> weight (ad_email a) = e)"
      for i e
    proof -
      have m: "admins db1 = map (\<lambda>a. if ad_id a = ad_id r then ?clear a else a) (admins db)" by (simp add: db1)
      have k: "ad_id (if ad_id a = ad_id r then ?clear a else a) = ad_id a" "ad_email (if ad_id a = ad_id r then ?clear a else a) = ad_email a" for a
        by simp_all
      show ?thesis unfolding m set_map bex_simps k by (rule refl)
    qed
    ultimately show ?thesis by (simp add: second_factor_shown_def db1)
  qed
  with l(1) t r show ?thesis by auto
qed

text \<open>
  An address typed with a blank in front names the account for the password and no account for the second
  factor, which is then not asked.
\<close>

lemma second_factor_bypass:
  assumes "rq_json rq" "lb_email body \<noteq> []" "lb_password body \<noteq> []" "\<not> IPLocked weight now (clientIP rq) db"
    and "Login weight h sha now (dw_session dw) (dw_token dw) (lb_email body) (lb_password body) (rq_agent rq) (clientIP rq) db = (Inr ad, db1)"
    and "find_admin weight db1 (lb_email body) = None"
  shows "fst (authLogin weight h sha c user_of tenant now dw rq (Some body) db) = LoggedIn (dw_token dw) ad"
  using assms by (simp add: authLogin_def second_factor_def TOTPRequired_def Let_def)

section \<open>Lockout\<close>

text \<open>A wrong password on an account in good standing: one more failure, or the lock.\<close>

lemma wrong_password:
  assumes "find_admin weight db (norm_email email) = Some r" "ad_disabled r = None" "ad_locked r = None" "\<not> VerifyPassword h (ad_hash r) pw"
  shows "find_admin weight (snd (Login weight h sha t i token email pw agent ip db)) (norm_email email) = Some
      (if ad_failed r + 1 < MaxFailedLogins then r\<lparr>ad_failed := ad_failed r + 1\<rparr>
       else r\<lparr>ad_failed := 0, ad_locked := Some (t + LockoutDuration)\<rparr>)
    \<and> sessions (snd (Login weight h sha t i token email pw agent ip db)) = sessions db"
proof -
  let ?f = "\<lambda>a :: AdminRow. if ad_failed r + 1 < MaxFailedLogins then a\<lparr>ad_failed := ad_failed r + 1\<rparr>
    else a\<lparr>ad_failed := 0, ad_locked := Some (t + LockoutDuration)\<rparr>"
  have "snd (Login weight h sha t i token email pw agent ip db) = set_admin (ad_id r) ?f db"
    using assms by (auto simp: Login_def Let_def)
  moreover have "find_admin weight (set_admin (ad_id r) ?f db) (norm_email email) = Some (?f r)"
    by (subst find_admin_set) (simp_all add: assms(1))
  ultimately show ?thesis by simp
qed

abbreviation wrong_logins where
  "wrong_logins weight h sha i token email agent ip ps db \<equiv>
     fold (\<lambda>(t, pw) db. snd (Login weight h sha t i token email pw agent ip db)) ps db"

lemma wrong_logins_count:
  assumes "find_admin weight db (norm_email email) = Some r" "ad_disabled r = None" "ad_locked r = None"
    and "\<forall>(t, pw) \<in> set ps. \<not> VerifyPassword h (ad_hash r) pw" "ad_failed r + int (length ps) < MaxFailedLogins"
  shows "find_admin weight (wrong_logins weight h sha i token email agent ip ps db) (norm_email email) = Some
      (r\<lparr>ad_failed := ad_failed r + int (length ps)\<rparr>) \<and> sessions (wrong_logins weight h sha i token email agent ip ps db) = sessions db"
  using assms
proof (induction ps arbitrary: db r)
  case (Cons p ps)
  obtain t pw where p: "p = (t, pw)" by (cases p)
  let ?db = "snd (Login weight h sha t i token email pw agent ip db)"
  have w: "find_admin weight ?db (norm_email email) = Some (r\<lparr>ad_failed := ad_failed r + 1\<rparr>)" "sessions ?db = sessions db"
    using wrong_password [OF Cons.prems(1-3), of h pw sha t i token agent ip] Cons.prems(4,5) p by simp_all
  from Cons.IH [OF w(1)] Cons.prems(2-5) w(2) p show ?case by (simp add: add.assoc)
qed simp

text \<open>
  C22. Five wrong passwords lock an account, and only for a quarter of an hour: after five failed logins on
  an account in good standing every login is refused as locked for fifteen minutes from the fifth,
  the right password included, and from then on the right password opens a session again.
\<close>

theorem lockout:
  assumes "find_admin weight db (norm_email email) = Some r" "ad_disabled r = None" "ad_locked r = None" "ad_failed r = 0"
    and "length ps = 5" "\<forall>(t, pw) \<in> set ps. \<not> VerifyPassword h (ad_hash r) pw"
  shows "let db' = wrong_logins weight h sha i token email agent ip ps db; five = fst (last ps) in
    (\<forall>t pw. t < five + 15 * 60 * second \<longrightarrow> Login weight h sha t j token' email pw agent' ip' db' = (Inl Locked, db'))
    \<and> (\<forall>t pw. five + 15 * 60 * second \<le> t \<and> VerifyPassword h (ad_hash r) pw
         \<and> j \<notin> ss_id ` set (sessions db) \<and> sha token' \<notin> ss_hash ` set (sessions db) \<longrightarrow>
         fst (Login weight h sha t j token' email pw agent' ip' db') = Inr (scan_admin r))"
proof -
  have "ps \<noteq> []" using assms(5) by auto
  then obtain qs t5 pw5 where ps: "ps = qs @ [(t5, pw5)]" by (metis append_butlast_last_id surj_pair)
  let ?db4 = "wrong_logins weight h sha i token email agent ip qs db"
  let ?r4 = "r\<lparr>ad_failed := ad_failed r + int (length qs)\<rparr>"
  have four: "find_admin weight ?db4 (norm_email email) = Some ?r4" "sessions ?db4 = sessions db"
    using wrong_logins_count [OF assms(1-3), of qs h sha i token agent ip] assms(4-6) ps by (auto simp: MaxFailedLogins_def)
  define db' where "db' = wrong_logins weight h sha i token email agent ip ps db"
  have "db' = snd (Login weight h sha t5 i token email pw5 agent ip ?db4)" by (simp add: db'_def ps)
  then have l: "find_admin weight db' (norm_email email) = Some (r\<lparr>ad_failed := 0, ad_locked := Some (t5 + LockoutDuration)\<rparr>)"
    "sessions db' = sessions db"
    using wrong_password [OF four(1), of h pw5 sha t5 i token agent ip] four(2) assms(2-6) ps by (auto simp: MaxFailedLogins_def)
  have "Login weight h sha t j token' email pw agent' ip' db' = (Inl Locked, db')" if "t < t5 + 15 * 60 * second" for t pw
    using that assms(2) l(1) by (simp add: Login_def LockoutDuration_def minute_def)
  moreover have "fst (Login weight h sha t j token' email pw agent' ip' db') = Inr (scan_admin r)"
    if "t5 + 15 * 60 * second \<le> t" "VerifyPassword h (ad_hash r) pw" "j \<notin> ss_id ` set (sessions db)" "sha token' \<notin> ss_hash ` set (sessions db)" for t pw
  proof -
    have "\<not> (\<exists>s \<in> set (sessions db). ss_id s = j \<or> ss_hash s = sha token')" using that(3,4) by (metis imageI)
    then show ?thesis using that(1,2) assms(2) l
      by (simp add: Login_def LockoutDuration_def minute_def openSession_def scan_admin_def)
  qed
  moreover have "fst (last ps) = t5" by (simp add: ps)
  ultimately show ?thesis unfolding Let_def db'_def [symmetric] by metis
qed

section \<open>The throttle\<close>

abbreviation failures_from where
  "failures_from weight ip ts db \<equiv> fold (\<lambda>t. NoteLoginFailure weight t ip) ts db"

lemma find_attempt_note:
  assumes "length ip \<le> 64"
  shows "find (\<lambda>r. weight (at_ip r) = weight ip) (attempts (NoteLoginFailure weight t ip db)) =
    (case find (\<lambda>r. weight (at_ip r) = weight ip) (attempts db) of
       None \<Rightarrow> Some \<lparr>at_ip = ip, at_failures = 1, at_first = t, at_locked = None\<rparr>
     | Some r \<Rightarrow> Some (note_failure t r))"
proof (cases "find (\<lambda>r. weight (at_ip r) = weight ip) (attempts db)")
  case None
  then have n: "\<not> (\<exists>r \<in> set (attempts db). weight (at_ip r) = weight ip)" by (simp add: find_None_iff)
  then have "find (\<lambda>r. weight (at_ip r) = weight ip) (attempts db @ [\<lparr>at_ip = ip, at_failures = 1, at_first = t, at_locked = None\<rparr>])
      = Some \<lparr>at_ip = ip, at_failures = 1, at_first = t, at_locked = None\<rparr>"
    by (intro find_app) auto
  with None assms n show ?thesis unfolding NoteLoginFailure_def by simp
next
  case (Some r)
  have "weight (at_ip (if weight (at_ip q) = weight ip then note_failure t q else q)) = weight (at_ip q)" for q
    by (simp add: note_failure_def Let_def)
  then have "find (\<lambda>r. weight (at_ip r) = weight ip) (map (\<lambda>q. if weight (at_ip q) = weight ip then note_failure t q else q) (attempts db))
      = map_option (\<lambda>q. if weight (at_ip q) = weight ip then note_failure t q else q) (Some r)"
    unfolding Some [symmetric] by (intro find_map_same) simp
  moreover have "r \<in> set (attempts db)" "weight (at_ip r) = weight ip" using find_Some_in [OF Some] by simp_all
  ultimately show ?thesis using assms Some by (auto simp: NoteLoginFailure_def)
qed

lemma failures_count:
  assumes "length ip \<le> 64" "\<forall>t \<in> set ts. t \<le> first + 15 * minute" "at_failures r + int (length ts) < 9"
    and "find (\<lambda>r. weight (at_ip r) = weight ip) (attempts db) = Some r" "at_first r = first" "at_locked r = None"
  shows "find (\<lambda>r. weight (at_ip r) = weight ip) (attempts (failures_from weight ip ts db))
    = Some (r\<lparr>at_failures := at_failures r + int (length ts)\<rparr>)"
  using assms
proof (induction ts arbitrary: db r)
  case (Cons t ts)
  have "\<not> first < t - 15 * minute" using Cons.prems(2) by simp
  then have n: "note_failure t r = r\<lparr>at_failures := at_failures r + 1\<rparr>"
    using Cons.prems(3,5,6) by (simp add: note_failure_def Let_def)
  have "find (\<lambda>r. weight (at_ip r) = weight ip) (attempts (NoteLoginFailure weight t ip db)) = Some (note_failure t r)"
    by (simp add: find_attempt_note [OF Cons.prems(1)] Cons.prems(4))
  from Cons.IH [OF Cons.prems(1) _ _ this] Cons.prems(2,3,5,6) show ?case by (simp add: n add.assoc)
qed simp

text \<open>
  The address throttle locks at the ninth failure of a quarter of an hour and not before: eight leave
  the address open; after the ninth every login from it is answered 429 for fifteen minutes, before the
  password is looked at and without any change to the tables.
\<close>

theorem address_throttle:
  assumes "\<forall>r \<in> set (attempts db). weight (at_ip r) \<noteq> weight ip" "length ip \<le> 64"
    and "length ts = 8" "\<forall>t \<in> set ts. t \<le> first + 15 * 60 * second"
  shows "\<not> IPLocked weight now ip (failures_from weight ip (take 7 ts) (NoteLoginFailure weight first ip db))
    \<and> (let db' = NoteLoginFailure weight (last ts) ip (failures_from weight ip (butlast ts) (NoteLoginFailure weight first ip db)) in
       (IPLocked weight now ip db' \<longleftrightarrow> now < last ts + 15 * 60 * second)
       \<and> (now < last ts + 15 * 60 * second \<and> rq_json rq \<and> clientIP rq = ip \<and> lb_email body \<noteq> [] \<and> lb_password body \<noteq> [] \<longrightarrow>
            authLogin weight h sha c user_of tenant now dw rq (Some body) db' = (Status 429, db', [])))"
proof -
  let ?key = "\<lambda>r. weight (at_ip r) = weight ip"
  let ?db1 = "NoteLoginFailure weight first ip db"
  have m: "15 * minute = 15 * 60 * second" by (simp add: minute_def)
  have "find ?key (attempts db) = None" using assms(1) by (simp add: find_None_iff)
  then have one: "find ?key (attempts ?db1) = Some \<lparr>at_ip = ip, at_failures = 1, at_first = first, at_locked = None\<rparr>"
    by (simp add: find_attempt_note [OF assms(2)])
  have "take 7 ts = butlast ts" using assms(3) by (simp add: butlast_conv_take)
  have b: "length (butlast ts) = 7" "set (butlast ts) \<subseteq> set ts" using assms(3) by (auto dest: in_set_butlastD)
  define r where "r = \<lparr>at_ip = ip, at_failures = 8, at_first = first, at_locked = None\<rparr>"
  have r: "find ?key (attempts (failures_from weight ip (butlast ts) ?db1)) = Some r"
    using failures_count [OF assms(2) _ _ one, of "butlast ts" first] b assms(4) by (auto simp: m r_def)
  define db' where "db' = NoteLoginFailure weight (last ts) ip (failures_from weight ip (butlast ts) ?db1)"
  have "last ts \<in> set ts" using assms(3) by (intro last_in_set) auto
  then have "\<not> first < last ts - 15 * minute" using assms(4) m by auto
  then have "find ?key (attempts db') = Some (r\<lparr>at_failures := 9, at_locked := Some (last ts + 15 * minute)\<rparr>)"
    unfolding db'_def by (simp add: find_attempt_note [OF assms(2)] r note_failure_def Let_def r_def)
  then have locked: "IPLocked weight now ip db' \<longleftrightarrow> now < last ts + 15 * 60 * second" by (simp add: IPLocked_def m)
  moreover have "\<not> IPLocked weight now ip (failures_from weight ip (take 7 ts) ?db1)"
    using r \<open>take 7 ts = butlast ts\<close> by (simp add: IPLocked_def r_def)
  ultimately show ?thesis by (simp add: Let_def db'_def [symmetric] authLogin_def)
qed

section \<open>The second factor\<close>

lemma hotp_length: "length (hotp c key n) = 6"
  using nat_str_length_le [of "_ mod 1000000" 6] by (simp add: hotp_def zero_pad_def Let_def)

lemma totp_counter_eq: "0 \<le> now \<Longrightarrow> totp_counter now = now div (30 * second)"
proof -
  assume "0 \<le> now"
  then have "0 \<le> now div second" by (simp add: second_def pos_imp_zdiv_nonneg_iff)
  moreover have "now div second div 30 = now div (30 * second)" by (simp add: second_def zdiv_zmult2_eq mult.commute)
  ultimately show ?thesis by (simp add: totp_counter_def Let_def)
qed

text \<open>
  The second factor accepts exactly three codes at any instant: the texts of six digits that the key
  gives for the current step of thirty seconds, the one before and the one after, blanks around
  the typed code aside.
\<close>

theorem totp_window:
  assumes "0 \<le> now"
  shows "VerifyTOTP c secret code now \<longleftrightarrow> secret \<noteq> [] \<and> (\<exists>key. dec32 c (to_upper (trim_space secret)) = Some key
    \<and> (\<exists>step \<in> {now div (30 * second) - 1, now div (30 * second), now div (30 * second) + 1}.
         trim_space code = hotp c key (of_int step)))"
  using totp_counter_eq [OF assms] by (auto simp: VerifyTOTP_def Let_def hotp_length split: option.splits if_splits)

text \<open>
  C24. A recovery code is worth one login: a code that is accepted was unused and belongs to the account
  of the address, exactly its row is spent, one code fewer is left, and no later attempt can match that row
  again; a code that is refused changes nothing.
\<close>

theorem recovery_code_spent:
  assumes "auth_run db" "ConsumeRecoveryCode weight h now email code db = (ok, db')"
  shows "if ok then (\<exists>q \<in> set (recovery db). rc_used q = None \<and> VerifyPassword h (rc_hash q) (trim_space code)
      \<and> (\<exists>a \<in> set (admins db). ad_id a = rc_admin q \<and> weight (ad_email a) = weight email)
      \<and> length (filter (\<lambda>r. rc_used r = None) (recovery db')) + 1 = length (filter (\<lambda>r. rc_used r = None) (recovery db))
      \<and> (\<forall>h' email' code' r. read_code weight h' email' code' db' = Some r \<longrightarrow> rc_id r \<noteq> rc_id q))
    else db' = db"
proof (cases "read_code weight h email code db")
  case None
  with assms(2) show ?thesis by (simp add: ConsumeRecoveryCode_def)
next
  case (Some q)
  with assms(2) have r: "ok" "db' = mark_code now (rc_id q) db" by (simp_all add: ConsumeRecoveryCode_def)
  note q = read_code_Some [OF Some]
  let ?mark = "\<lambda>r. if rc_id r = rc_id q then r\<lparr>rc_used := Some now\<rparr> else r"
  have d: "distinct (map rc_id (recovery db))" using auth_run_inv [OF assms(1)] by (simp add: auth_inv_def)
  from q(1) obtain xs ys where xs: "recovery db = xs @ q # ys" by (meson split_list)
  then have "rc_id q \<notin> rc_id ` (set xs \<union> set ys)" using d by auto
  then have "\<forall>r \<in> set xs \<union> set ys. rc_id r \<noteq> rc_id q" by (metis imageI)
  then have "map ?mark xs = xs" "map ?mark ys = ys" by (simp_all add: map_idI)
  then have "recovery db' = xs @ q\<lparr>rc_used := Some now\<rparr> # ys" by (simp add: r(2) mark_code_def xs)
  with xs q(2) have "length (filter (\<lambda>r. rc_used r = None) (recovery db')) + 1 = length (filter (\<lambda>r. rc_used r = None) (recovery db))"
    by simp
  moreover have "rc_id p \<noteq> rc_id q" if "read_code weight h' email' code' db' = Some p" for h' email' code' p
  proof -
    from read_code_Some(1,2) [OF that] have "p \<in> set (recovery db')" "rc_used p = None" .
    then show ?thesis by (auto simp: r(2) mark_code_def split: if_split_asm)
  qed
  ultimately show ?thesis using r(1) q by auto
qed

section \<open>Observations\<close>

text \<open>Two logins that read before either marks both get in on one recovery code.\<close>

lemma recovery_code_race:
  assumes "read_code weight h email code db = Some q"
  shows "fst (ConsumeRecoveryCode weight h now email code db) \<and> read_code weight h email code db = Some q
    \<and> mark_code now (rc_id q) (snd (ConsumeRecoveryCode weight h now email code db)) = snd (ConsumeRecoveryCode weight h now email code db)"
  using assms by (simp add: ConsumeRecoveryCode_def mark_code_def)

text \<open>Starting the setup again turns an enabled second factor off, without the password.\<close>

lemma setup_disables_second_factor:
  assumes "a \<in> set (admins db)" "ad_id a = am_id ad"
  shows "\<exists>a' \<in> set (admins (snd (totpSetup enc32 raw ad db))). ad_id a' = am_id ad \<and> ad_totp a' = None"
  using assms by (auto simp: totpSetup_def Let_def intro!: rev_bexI [of "a\<lparr>ad_secret := Some (NewTOTPSecret enc32 raw), ad_totp := None\<rparr>"])

text \<open>The client chooses the address its failures are counted for.\<close>

lemma client_chooses_address:
  assumes "rq_forwarded rq = ip" "ip \<noteq> []" "CHR '','' \<notin> set ip" "trim_space ip = ip"
  shows "clientIP rq = ip"
  using assms by (simp add: clientIP_def split_on_no_sep)

section \<open>A concrete console\<close>

definition demo_hasher :: hasher where
  "demo_hasher = \<lparr>argon = \<lambda>pw salt t m l n. take n (bytes_of_string pw @ replicate n 0), enc64 = hex_encode, dec64 = hex_decode\<rparr>"

lemma hex_no_dollar: "CHR ''$'' \<notin> set (hex_encode b)"
proof -
  have n: "\<forall>n \<in> set [0 ..< 16]. hex_char n \<noteq> CHR ''$''" by code_simp
  have "hex_char m \<noteq> CHR ''$''" if "m < 16" for m
  proof -
    have "m \<in> set [0 ..< 16]" using that by simp
    with n show ?thesis by blast
  qed
  moreover have "unat w div 16 < 16" for w :: byte using unsigned_less [of w, where ?'a = nat] by simp
  ultimately show ?thesis by (induction b) (auto simp: hex_encode_def hex_byte_def eq_commute [of "CHR ''$''"])
qed

lemma demo_hasher_ok:
  "dec64 demo_hasher (enc64 demo_hasher b) = Some b" "CHR ''$'' \<notin> set (enc64 demo_hasher b)"
  "length (argon demo_hasher p s t m l n) = n"
  by (simp_all add: demo_hasher_def hex_decode_encode hex_no_dollar)

lemma demo_verify_pw: "VerifyPassword demo_hasher (HashPassword demo_hasher salt ''pw'') a \<longleftrightarrow>
    take 32 (bytes_of_string a @ replicate 32 0) = take 32 (bytes_of_string ''pw'' @ replicate 32 0)"
  unfolding verify_hash [of demo_hasher, OF demo_hasher_ok] by (simp add: demo_hasher_def)

lemma demo_wrong: "\<not> VerifyPassword demo_hasher (HashPassword demo_hasher salt ''pw'') ''px''"
  unfolding demo_verify_pw by code_simp

lemma demo_right: "VerifyPassword demo_hasher (HashPassword demo_hasher salt ''pw'') ''pw''"
  by (simp add: demo_verify_pw)

definition demo_otp :: otp where "demo_otp = \<lparr>mac1 = \<lambda>k m. replicate 20 0, dec32 = \<lambda>s. Some (bytes_of_string s)\<rparr>"

definition demo_auth0 :: AuthDB where "demo_auth0 = \<lparr>admins = [], sessions = [], recovery = [], attempts = []\<rparr>"

definition demo_admin :: AdminRow where
  "demo_admin = \<lparr>ad_id = [1], ad_tenant = [9], ad_email = ''a@b'', ad_name = ''n'', ad_hash = HashPassword demo_hasher [] ''pw'',
     ad_role = ''admin'', ad_must_change = False, ad_failed = 0, ad_locked = None, ad_disabled = None, ad_secret = None,
     ad_totp = None, ad_last_login = None, ad_last_ip = None\<rparr>"

definition demo_auth1 :: AuthDB where "demo_auth1 = demo_auth0\<lparr>admins := [demo_admin]\<rparr>"

abbreviation demo_weight :: weight where "demo_weight \<equiv> map of_char"

definition demo_rq :: request where
  "demo_rq = \<lparr>rq_forwarded = [], rq_peer = Some ''10.0.0.9'', rq_remote = [], rq_agent = ''ua'', rq_json = True\<rparr>"

definition demo_body :: "string \<Rightarrow> string \<Rightarrow> login_body" where
  "demo_body e pw = \<lparr>lb_email = e, lb_password = pw, lb_code = []\<rparr>"

definition demo_dw :: draw where "demo_dw = \<lparr>dw_session = [7], dw_token = ''tok''\<rparr>"

lemma demo_norm: "norm_email ''a@b'' = ''a@b''"
proof -
  have "trim_space ''a@b'' = ''a@b''" by (rule trim_space_plain) (simp add: plain_char_def)
  moreover have "to_lower ''a@b'' = ''a@b''" by code_simp
  ultimately show ?thesis by (simp add: norm_email_def)
qed

lemma demo_create_admin: "CreateAdmin demo_weight demo_hasher [1] [] [9] ''a@b'' ''n'' ''pw'' ''admin'' False demo_auth0 =
    (Inr \<lparr>am_id = [1], am_tenant = [9], am_email = ''a@b'', am_name = ''n'', am_role = ''admin'', am_must_change = False\<rparr>, demo_auth1)"
  by (simp add: CreateAdmin_def demo_norm demo_auth0_def demo_auth1_def demo_admin_def)

lemma demo_auth_run: "auth_run demo_auth1"
  by (rule auth_run.create [OF auth_run.start demo_create_admin]) (simp_all add: demo_auth0_def)

lemma demo_found_admin: "find_admin demo_weight demo_auth1 (norm_email ''a@b'') = Some demo_admin"
  by (simp add: find_admin_def demo_norm demo_auth1_def demo_admin_def)

lemma demo_login: "\<exists>db' au. authLogin demo_weight demo_hasher bytes_of_string demo_otp (\<lambda>_. None) [9] 100 demo_dw demo_rq
    (Some (demo_body ''a@b'' ''pw'')) demo_auth1 = (LoggedIn ''tok'' (scan_admin demo_admin), db', au)
    \<and> sessions db' = [\<lparr>ss_id = [7], ss_admin = [1], ss_hash = bytes_of_string ''tok'', ss_created = 100, ss_used = 100,
        ss_expires = 100 + AbsoluteTimeout, ss_agent = ''ua'', ss_ip = ''10.0.0.9''\<rparr>]
    \<and> (\<exists>a. admins db' = [a] \<and> ad_id a = [1] \<and> ad_disabled a = None \<and> ad_role a = ''admin'' \<and> ad_hash a = ad_hash demo_admin)"
proof -
  have c: "clientIP demo_rq = ''10.0.0.9''" by (simp add: clientIP_def demo_rq_def)
  have v: "VerifyPassword demo_hasher (ad_hash demo_admin) ''pw''" by (simp add: demo_admin_def demo_right)
  have s: "ad_disabled demo_admin = None" "ad_locked demo_admin = None" "ad_id demo_admin = [1]" "ad_totp demo_admin = None"
    "ad_email demo_admin = ''a@b''" "ad_role demo_admin = ''admin''" by (simp_all add: demo_admin_def)
  have t: "truncated ''ua'' 255 = ''ua''" "truncated ''10.0.0.9'' 45 = ''10.0.0.9''" by (simp_all add: truncated_def)
  have d: "admins demo_auth1 = [demo_admin]" "sessions demo_auth1 = []" "attempts demo_auth1 = []"
    by (simp_all add: demo_auth1_def demo_auth0_def)
  have r: "rq_json demo_rq" "rq_agent demo_rq = ''ua''" by (simp_all add: demo_rq_def)
  have b: "lb_email (demo_body e p) = e" "lb_password (demo_body e p) = p" for e p by (simp_all add: demo_body_def)
  show ?thesis
    by (simp add: authLogin_def IPLocked_def Login_def openSession_def second_factor_def TOTPRequired_def Let_def
        c v s t d r b demo_norm demo_dw_def find_admin_def NoteLoginSuccess_def scan_admin_def)
qed

theorem login_takes_all_factors_witness:
  "\<exists>r. find_admin demo_weight demo_auth1 (norm_email ''a@b'') = Some r \<and> VerifyPassword demo_hasher (ad_hash r) ''pw''"
proof -
  obtain db' au where l: "authLogin demo_weight demo_hasher bytes_of_string demo_otp (\<lambda>_. None) [9] 100 demo_dw demo_rq
      (Some (demo_body ''a@b'' ''pw'')) demo_auth1 = (LoggedIn ''tok'' (scan_admin demo_admin), db', au)"
    using demo_login by blast
  have "lb_email (demo_body ''a@b'' ''pw'') = ''a@b''" "lb_password (demo_body ''a@b'' ''pw'') = ''pw''" by (simp_all add: demo_body_def)
  with login_takes_all_factors [OF l] show ?thesis by auto
qed

theorem cookie_admits_live_session_witness:
  "\<exists>ad roles db db'. requireAuth bytes_of_string 200 (Some ''tok'') db = (Inr (ad, roles), db') \<and> (\<exists>s \<in> set (sessions db). 200 \<le> ss_used s + 30 * 60 * second)"
proof -
  obtain db au a where l: "authLogin demo_weight demo_hasher bytes_of_string demo_otp (\<lambda>_. None) [9] 100 demo_dw demo_rq
      (Some (demo_body ''a@b'' ''pw'')) demo_auth1 = (LoggedIn ''tok'' (scan_admin demo_admin), db, au)"
    and s: "sessions db = [\<lparr>ss_id = [7], ss_admin = [1], ss_hash = bytes_of_string ''tok'', ss_created = 100, ss_used = 100,
        ss_expires = 100 + AbsoluteTimeout, ss_agent = ''ua'', ss_ip = ''10.0.0.9''\<rparr>]"
    and a: "admins db = [a]" "ad_id a = [1]" "ad_disabled a = None"
    using demo_login by blast
  have run: "auth_run db" by (rule auth_run.login [OF demo_auth_run l])
  have "fst (Resolve bytes_of_string 200 ''tok'' db) = Inr (scan_admin a)"
    by (simp add: Resolve_def s a AbsoluteTimeout_def IdleTimeout_def hour_def minute_def second_def)
  then obtain db' where "Resolve bytes_of_string 200 ''tok'' db = (Inr (scan_admin a), db')" by (metis prod.collapse)
  then obtain roles where r: "requireAuth bytes_of_string 200 (Some ''tok'') db = (Inr (scan_admin a, roles), db')"
    by (simp add: requireAuth_def)
  from cookie_admits_live_session [OF run r] r show ?thesis by blast
qed

theorem password_roundtrip_witness: "VerifyPassword demo_hasher (HashPassword demo_hasher [1, 2] ''pw'') ''pw''"
  using password_roundtrip [of demo_hasher, OF demo_hasher_ok] by blast

theorem password_change_ends_sessions_witness:
  "\<exists>db'. ChangePassword demo_hasher bytes_of_string [] [1] ''pw'' ''pz'' ''tok'' demo_auth1 = (None, db')
     \<and> (\<forall>a \<in> set (admins db'). ad_id a = [1] \<longrightarrow> VerifyPassword demo_hasher (ad_hash a) ''pz'')"
proof -
  have "fst (ChangePassword demo_hasher bytes_of_string [] [1] ''pw'' ''pz'' ''tok'' demo_auth1) = None"
    by (simp add: ChangePassword_def demo_auth1_def demo_admin_def demo_right)
  then obtain db' where c: "ChangePassword demo_hasher bytes_of_string [] [1] ''pw'' ''pz'' ''tok'' demo_auth1 = (None, db')"
    by (metis prod.collapse)
  from password_change_ends_sessions [OF c demo_hasher_ok] c show ?thesis by blast
qed

theorem lockout_witness:
  "let db' = wrong_logins demo_weight demo_hasher bytes_of_string [7] ''t'' ''a@b'' ''ua'' ''ip''
        [(1, ''px''), (2, ''px''), (3, ''px''), (4, ''px''), (5, ''px'')] demo_auth1 in
     Login demo_weight demo_hasher bytes_of_string 6 [8] ''u'' ''a@b'' ''pw'' ''ua'' ''ip'' db' = (Inl Locked, db')"
proof -
  have s: "ad_disabled demo_admin = None" "ad_locked demo_admin = None" "ad_failed demo_admin = 0" by (simp_all add: demo_admin_def)
  have w: "\<forall>(t, pw) \<in> set [(1 :: time, ''px''), (2, ''px''), (3, ''px''), (4, ''px''), (5, ''px'')].
      \<not> VerifyPassword demo_hasher (ad_hash demo_admin) pw"
    by (simp add: demo_admin_def demo_wrong)
  have l: "length [(1 :: time, ''px''), (2, ''px''), (3, ''px''), (4, ''px''), (5, ''px'')] = 5" by simp
  have "(6 :: int) < 5 + 15 * 60 * second" by (simp add: second_def)
  with lockout [OF demo_found_admin s l w, of bytes_of_string "[7]" "''t''" "''ua''" "''ip''" "[8]" "''u''" "''ua''" "''ip''"]
  show ?thesis by (simp add: Let_def)
qed

theorem address_throttle_witness:
  "authLogin demo_weight demo_hasher bytes_of_string demo_otp (\<lambda>_. None) [9] 100 demo_dw demo_rq (Some (demo_body ''a@b'' ''pw''))
     (NoteLoginFailure demo_weight 9 ''10.0.0.9'' (failures_from demo_weight ''10.0.0.9'' [2, 3, 4, 5, 6, 7, 8]
        (NoteLoginFailure demo_weight 1 ''10.0.0.9'' demo_auth1)))
   = (Status 429, NoteLoginFailure demo_weight 9 ''10.0.0.9'' (failures_from demo_weight ''10.0.0.9'' [2, 3, 4, 5, 6, 7, 8]
        (NoteLoginFailure demo_weight 1 ''10.0.0.9'' demo_auth1)), [])"
proof -
  have a: "\<forall>r \<in> set (attempts demo_auth1). demo_weight (at_ip r) \<noteq> demo_weight ''10.0.0.9''" by (simp add: demo_auth1_def demo_auth0_def)
  have t: "length [2, 3, 4, 5, 6, 7, 8, 9 :: time] = 8" "\<forall>t \<in> set [2, 3, 4, 5, 6, 7, 8, 9 :: time]. t \<le> 1 + 15 * 60 * second"
    by (simp_all add: second_def)
  have n: "(100 :: int) < 9 + 15 * 60 * second" by (simp add: second_def)
  have r: "rq_json demo_rq" "clientIP demo_rq = ''10.0.0.9''" "lb_email (demo_body ''a@b'' ''pw'') \<noteq> []" "lb_password (demo_body ''a@b'' ''pw'') \<noteq> []"
    by (simp_all add: demo_rq_def clientIP_def demo_body_def)
  have "length ''10.0.0.9'' \<le> 64" by simp
  from address_throttle [OF a this t, of 100 demo_rq "demo_body ''a@b'' ''pw''" demo_hasher bytes_of_string demo_otp "\<lambda>_. None" "[9]" demo_dw] n r
  show ?thesis by (simp add: Let_def)
qed

lemma demo_code: "hotp demo_otp key n = ''000000''"
proof -
  have "char_of (48 :: nat) = CHR ''0''" by code_simp
  then have "nat_str 0 = ''0''" by (subst nat_str.simps) (simp add: digit_char_def)
  moreover have "zero_pad 6 ''0'' = ''000000''" by code_simp
  ultimately show ?thesis by (simp add: hotp_def demo_otp_def Let_def)
qed

lemma demo_trim_code: "trim_space ''000000'' = ''000000''" "trim_space ''pw'' = ''pw''"
  by (rule trim_space_plain, simp add: plain_char_def)+

theorem totp_window_witness: "VerifyTOTP demo_otp ''JBSW'' ''000000'' 59"
proof -
  have "dec32 demo_otp (to_upper (trim_space ''JBSW'')) = Some (bytes_of_string (to_upper (trim_space ''JBSW'')))"
    by (simp add: demo_otp_def)
  with totp_window [of 59 demo_otp "''JBSW''" "''000000''"] demo_trim_code(1) demo_code show ?thesis by auto
qed

text \<open>The account sets its second factor up and spends its recovery code.\<close>

definition demo_ad :: Admin where "demo_ad = scan_admin demo_admin"

definition demo_auth2 :: AuthDB where
  "demo_auth2 = demo_auth1\<lparr>admins := [demo_admin\<lparr>ad_secret := Some ''pw''\<rparr>]\<rparr>"

definition demo_auth3 :: AuthDB where
  "demo_auth3 = demo_auth1\<lparr>admins := [demo_admin\<lparr>ad_secret := Some ''pw'', ad_totp := Some 50\<rparr>],
     recovery := [\<lparr>rc_id = [5], rc_admin = [1], rc_hash = HashPassword demo_hasher [] ''pw'', rc_used = None\<rparr>]\<rparr>"

lemma demo_enabled: "auth_run demo_auth3"
proof -
  have a: "am_id demo_ad = [1]" "ad_id demo_admin = [1]" "ad_totp demo_admin = None" by (simp_all add: demo_ad_def scan_admin_def demo_admin_def)
  have n: "NewTOTPSecret (\<lambda>_. ''pw'') raw = ''pw''" for raw by (simp add: NewTOTPSecret_def)
  have "to_lower ''pw'' = ''pw''" by code_simp
  then have c: "recovery_code (\<lambda>_. ''pw'') raw = ''pw''" for raw by (simp add: recovery_code_def n)
  have s: "totpSetup (\<lambda>_. ''pw'') [] demo_ad demo_auth1 = (Secret ''pw'', demo_auth2)"
    by (simp add: totpSetup_def Let_def n set_admin_def a demo_auth2_def demo_auth1_def demo_admin_def)
  have v: "VerifyTOTP demo_otp ''pw'' ''000000'' 50"
    using totp_counter_eq [of 50] demo_trim_code demo_code
    by (auto simp: VerifyTOTP_def Let_def hotp_length demo_otp_def split: option.splits if_splits)
  have r2: "auth_run demo_auth2" by (rule auth_run.totp_setup [OF demo_auth_run s])
  obtain au where "totpEnable demo_hasher demo_otp (\<lambda>_. ''pw'') (\<lambda>_. None) 50 [([], [5], [])] demo_ad (Some ''000000'') demo_auth2
      = (Codes [''pw''], demo_auth3, au)"
    by (simp add: totpEnable_def Let_def a demo_auth2_def demo_auth3_def demo_auth1_def demo_auth0_def set_admin_def v c)
  from auth_run.totp_enable [OF r2 _ _ this] show ?thesis by (simp add: demo_auth2_def demo_auth1_def demo_auth0_def)
qed

theorem recovery_code_spent_witness:
  "\<exists>db'. ConsumeRecoveryCode demo_weight demo_hasher 60 ''a@b'' ''pw'' demo_auth3 = (True, db')
     \<and> filter (\<lambda>r. rc_used r = None) (recovery db') = []"
proof -
  have "read_code demo_weight demo_hasher ''a@b'' ''pw'' demo_auth3 = Some (hd (recovery demo_auth3))"
    by (simp add: read_code_def demo_auth3_def demo_admin_def demo_trim_code demo_right)
  then obtain db' where c: "ConsumeRecoveryCode demo_weight demo_hasher 60 ''a@b'' ''pw'' demo_auth3 = (True, db')"
    by (simp add: ConsumeRecoveryCode_def)
  have "length (filter (\<lambda>r. rc_used r = None) (recovery demo_auth3)) = 1" by (simp add: demo_auth3_def)
  with recovery_code_spent [OF demo_enabled c] c show ?thesis by auto
qed

end
