(* ===== verification/RelayToken.thy ===== *)
theory RelayToken
  imports NodeAPI
begin

text \<open>
  Relay credentials (the relay section of \<open>httpapi/handlers.go\<close>, \<open>nodeRelayToken\<close> of
  \<open>httpapi/nodeapi.go\<close>): tokens the controller signs for gateways and devices and checks for the relay.
  HMAC-SHA256 and unpadded base64url are arguments.
\<close>

section \<open>Tokens\<close>

record signer =
  mac256 :: "bytes \<Rightarrow> bytes \<Rightarrow> bytes"
  enc_url :: "bytes \<Rightarrow> string"
  dec_url :: "string \<Rightarrow> bytes option"

datatype relay_error = NotConfigured | RelayDisabled | Malformed | BadExp | TokenExpired | RoleMismatch | BadEncoding | SignatureMismatch

definition relayTokenPrefixNode :: string where "relayTokenPrefixNode = ''node:''"
definition relayTokenPrefixMobile :: string where "relayTokenPrefixMobile = ''mob:''"

definition hmacSHA256 :: "signer \<Rightarrow> string \<Rightarrow> string \<Rightarrow> bytes" where
  "hmacSHA256 c key body = mac256 c (bytes_of_string key) (bytes_of_string body)"

text \<open>\<open>strconv.ParseInt (s, 10, 64)\<close>: one sign, then digits only, and the range of \<open>int64\<close>.\<close>

definition parse_int64 :: "string \<Rightarrow> int option" where
  "parse_int64 s =
     (let neg = has_prefix s ''-''; digits = (if neg \<or> has_prefix s ''+'' then tl s else s); n = int (digits_val digits)
      in if digits = [] \<or> \<not> list_all is_digit digits then None
         else if neg then (if n > 2 ^ 63 then None else Some (- n))
         else if n \<ge> 2 ^ 63 then None else Some n)"

definition lifetime :: "string \<Rightarrow> time" where
  "lifetime payload = (if has_prefix payload relayTokenPrefixNode then 24 * hour else 5 * minute)"

definition token_body :: "int \<Rightarrow> string \<Rightarrow> string" where
  "token_body exp payload = ''v1.'' @ int_str exp @ ''.'' @ payload"

definition signRelayToken :: "signer \<Rightarrow> string \<Rightarrow> time \<Rightarrow> string \<Rightarrow> relay_error + string" where
  "signRelayToken c key now payload =
     (if key = [] then Inl NotConfigured
      else let body = token_body ((now + lifetime payload) div second) payload
        in Inr (body @ ''.'' @ enc_url c (hmacSHA256 c key body)))"

definition verify_parts :: "signer \<Rightarrow> string \<Rightarrow> time \<Rightarrow> string \<Rightarrow> string \<Rightarrow> string \<Rightarrow> string \<Rightarrow> string \<Rightarrow> relay_error + string" where
  "verify_parts c key now expectedPrefix version exp payload sig =
     (if version \<noteq> ''v1'' then Inl Malformed
      else (case parse_int64 exp of
        None \<Rightarrow> Inl BadExp
      | Some e \<Rightarrow>
          if now div second > e then Inl TokenExpired
          else if \<not> has_prefix payload expectedPrefix then Inl RoleMismatch
          else (case dec_url c sig of
            None \<Rightarrow> Inl BadEncoding
          | Some got \<Rightarrow>
              if hmacSHA256 c key (join ''.'' [version, exp, payload]) \<noteq> got then Inl SignatureMismatch
              else Inr (trim_prefix payload expectedPrefix))))"

definition verifyRelayToken :: "signer \<Rightarrow> string \<Rightarrow> time \<Rightarrow> string \<Rightarrow> string \<Rightarrow> relay_error + string" where
  "verifyRelayToken c key now tok expectedPrefix =
     (if key = [] then Inl RelayDisabled
      else case split_on (CHR ''.'') tok of
        [version, exp, payload, sig] \<Rightarrow> verify_parts c key now expectedPrefix version exp payload sig
      | _ \<Rightarrow> Inl Malformed)"

section \<open>Handlers\<close>

text \<open>The comparison of the shared secret: an empty one on our side disables the interface.\<close>

definition checkRelaySecret :: "string \<Rightarrow> string \<Rightarrow> bool" where
  "checkRelaySecret want got =
     (if want = [] then False
      else if length got \<noteq> length want then False
      else fold (\<lambda>(a, b) diff. diff OR (a XOR b)) (zip (bytes_of_string got) (bytes_of_string want)) 0 = 0)"

datatype relay_answer = Unauthorized | MissingTokenField | Refused relay_error | VerifiedID string

definition relay_verify :: "signer \<Rightarrow> string \<Rightarrow> string \<Rightarrow> time \<Rightarrow> string \<Rightarrow> string \<Rightarrow> string \<Rightarrow> relay_answer" where
  \<comment> \<open>signing key, shared secret, clock, header, form field, prefix\<close>
  "relay_verify c key want now got tok prefix =
     (if \<not> checkRelaySecret want got then Unauthorized
      else if tok = [] then MissingTokenField
      else case verifyRelayToken c key now tok prefix of Inl e \<Rightarrow> Refused e | Inr i \<Rightarrow> VerifiedID i)"

definition relayVerifyDataNode where "relayVerifyDataNode c key want now got tok = relay_verify c key want now got tok relayTokenPrefixNode"
definition relayVerifyMobile where "relayVerifyMobile c key want now got tok = relay_verify c key want now got tok relayTokenPrefixMobile"

datatype issue_answer = BadDeviceID | NotOwned | IssueFailed | RelayUnconfigured | Issued string nat

definition issueRelayToken :: "signer \<Rightarrow> string \<Rightarrow> time \<Rightarrow> ID \<Rightarrow> ID option \<Rightarrow> DB \<Rightarrow> issue_answer" where
  \<comment> \<open>the caller and the parsed path\<close>
  "issueRelayToken c key now user path db = (case path of
     None \<Rightarrow> BadDeviceID
   | Some i \<Rightarrow> (case ListMyDevices user db of
       Inl _ \<Rightarrow> IssueFailed
     | Inr devs \<Rightarrow> if \<not> (\<exists>d \<in> set devs. d_id d = i) then NotOwned
         else (case signRelayToken c key now (relayTokenPrefixMobile @ Ident.String i) of
           Inl _ \<Rightarrow> IssueFailed | Inr tok \<Rightarrow> Issued tok 300)))"

definition nodeRelayToken :: "signer \<Rightarrow> string \<Rightarrow> time \<Rightarrow> ID \<Rightarrow> issue_answer" where
  "nodeRelayToken c key now node = (case signRelayToken c key now (relayTokenPrefixNode @ Ident.String node) of
     Inl NotConfigured \<Rightarrow> RelayUnconfigured | Inl _ \<Rightarrow> IssueFailed | Inr tok \<Rightarrow> Issued tok 86400)"

section \<open>Signing and checking\<close>

text \<open>The secret check is equality with a secret that is set.\<close>

lemma or_fold_zero: "fold (\<lambda>(a, b) diff. diff OR (a XOR b)) xs d = 0 \<longleftrightarrow> d = 0 \<and> (\<forall>(a, b) \<in> set xs. a = (b :: byte))"
proof (induction xs arbitrary: d)
  case (Cons x xs)
  obtain a b where x: "x = (a, b)" by (cases x)
  have "a XOR b = 0 \<longleftrightarrow> a = b" by (auto simp: bit_eq_iff bit_xor_iff)
  then have "d OR (a XOR b) = 0 \<longleftrightarrow> d = 0 \<and> a = b" by (simp add: or_eq_0_iff)
  with Cons show ?case by (auto simp: x)
qed simp

lemma checkRelaySecret_eq: "checkRelaySecret want got \<longleftrightarrow> want \<noteq> [] \<and> got = want"
proof -
  have "bytes_of_string got = bytes_of_string want \<longleftrightarrow> got = want" by (metis string_of_bytes_of_string)
  then show ?thesis
    by (auto simp: checkRelaySecret_def or_fold_zero list_eq_iff_zip_eq [of "bytes_of_string got"])
qed

lemma parse_nat_str: "n < 2 ^ 63 \<Longrightarrow> parse_int64 (nat_str n) = Some (int n)"
proof -
  assume n: "n < 2 ^ 63"
  have d: "list_all is_digit (nat_str n)" by (auto simp: list_all_iff nat_str_digits)
  obtain c s where cs: "nat_str n = c # s" by (cases "nat_str n") (auto simp: nat_str_not_Nil)
  with d have "is_digit c" by simp
  then have "c \<noteq> CHR ''-''" "c \<noteq> CHR ''+''" by (auto simp: is_digit_iff)
  then show ?thesis using n d cs digits_val_nat_str [of n] by (simp add: parse_int64_def has_prefix_def Let_def)
qed

lemma token_parts:
  assumes "0 \<le> exp" "CHR ''.'' \<notin> set payload" "CHR ''.'' \<notin> set sig"
  shows "split_on (CHR ''.'') (token_body exp payload @ ''.'' @ sig) = [''v1'', nat_str (nat exp), payload, sig]"
proof -
  note no_dot_nat_str [of "nat exp"]
  moreover have "token_body exp payload @ ''.'' @ sig = join [CHR ''.''] [''v1'', nat_str (nat exp), payload, sig]"
    using assms(1) by (simp add: token_body_def int_str_def)
  ultimately show ?thesis using assms(2,3) by (simp only:) (rule split_on_join, simp_all)
qed

text \<open>
  C26. A relay credential is good for its role and its time and nothing else: what the controller signs for
  an identifier checks back to that identifier until its expiry second, is refused as expired from the
  next second on, and is refused in the other role throughout.
\<close>

theorem relay_token_roundtrip:
  assumes "\<And>b. dec_url c (enc_url c b) = Some b" "\<And>b. CHR ''.'' \<notin> set (enc_url c b)"
    and "signRelayToken c key now (prefix @ i) = Inr tok" "0 \<le> now" "(now + 24 * hour) div second < 2 ^ 63"
    and "CHR ''.'' \<notin> set i" "{prefix, other} = {relayTokenPrefixNode, relayTokenPrefixMobile}"
  shows "verifyRelayToken c key t tok prefix =
      (if t div second \<le> (now + (if prefix = relayTokenPrefixNode then 24 * 60 * 60 else 5 * 60) * second) div second
       then Inr i else Inl TokenExpired)
    \<and> verifyRelayToken c key t tok other \<in> {Inl TokenExpired, Inl RoleMismatch}"
proof -
  let ?exp = "(now + lifetime (prefix @ i)) div second"
  have p: "prefix = relayTokenPrefixNode \<and> other = relayTokenPrefixMobile \<or> prefix = relayTokenPrefixMobile \<and> other = relayTokenPrefixNode"
    using assms(7) by (auto simp: doubleton_eq_iff)
  have h: "has_prefix (prefix @ i) prefix" "\<not> has_prefix (prefix @ i) other" "CHR ''.'' \<notin> set (prefix @ i)"
    using p assms(6) by (auto simp: has_prefix_def relayTokenPrefixNode_def relayTokenPrefixMobile_def)
  have l: "lifetime (prefix @ i) = (if prefix = relayTokenPrefixNode then 24 * 60 * 60 else 5 * 60) * second"
    using p by (auto simp: lifetime_def has_prefix_def relayTokenPrefixNode_def relayTokenPrefixMobile_def hour_def minute_def)
  have "lifetime (prefix @ i) \<le> 24 * hour" "0 \<le> lifetime (prefix @ i)" by (simp_all add: l hour_def minute_def second_def)
  then have e: "0 \<le> ?exp" "?exp < 2 ^ 63" using assms(4,5) zdiv_mono1 [of "now + lifetime (prefix @ i)" "now + 24 * hour" second]
    by (auto simp: second_def pos_imp_zdiv_nonneg_iff)
  from assms(3) have k: "key \<noteq> []" and tok: "tok = token_body ?exp (prefix @ i) @ ''.'' @ enc_url c (hmacSHA256 c key (token_body ?exp (prefix @ i)))"
    by (auto simp: signRelayToken_def Let_def split: if_split_asm)
  have s: "split_on (CHR ''.'') tok = [''v1'', nat_str (nat ?exp), prefix @ i, enc_url c (hmacSHA256 c key (token_body ?exp (prefix @ i)))]"
    unfolding tok by (rule token_parts [OF e(1) h(3) assms(2)])
  have "nat ?exp < 2 ^ 63" using e by (simp add: nat_less_iff)
  then have x: "parse_int64 (nat_str (nat ?exp)) = Some ?exp" using e(1) by (simp add: parse_nat_str)
  have b: "join ''.'' [''v1'', nat_str (nat ?exp), prefix @ i] = token_body ?exp (prefix @ i)"
    using e(1) by (simp add: token_body_def int_str_def)
  have "trim_prefix (prefix @ i) prefix = i" using h(1) by (simp add: trim_prefix_def)
  then show ?thesis unfolding l [symmetric] using k h by (auto simp: verifyRelayToken_def verify_parts_def s x b assms(1) simp del: join.simps)
qed

lemma four_parts:
  "(case xs of [a, b, d, e] \<Rightarrow> f a b d e | _ \<Rightarrow> Inl m) = Inr v \<Longrightarrow> \<exists>a b d e. xs = [a, b, d, e] \<and> f a b d e = Inr v"
  by (auto split: list.split_asm)

text \<open>
  C25. A token is accepted only with the controller's signature over what it says: an accepted token has
  four parts, names the expected role, has not expired, yields the identifier it names, and carries a
  text of the HMAC of everything before it under the signing key, which is set.
\<close>

theorem relay_token_signed:
  assumes "verifyRelayToken c key t tok prefix = Inr i"
  shows "key \<noteq> [] \<and> (\<exists>exp sig e. tok = ''v1.'' @ exp @ ''.'' @ prefix @ i @ ''.'' @ sig \<and> parse_int64 exp = Some e \<and> t div second \<le> e
    \<and> dec_url c sig = Some (hmacSHA256 c key (''v1.'' @ exp @ ''.'' @ prefix @ i)))"
proof -
  from assms have k: "key \<noteq> []" by (auto simp: verifyRelayToken_def)
  with assms obtain version exp payload sig where s: "split_on (CHR ''.'') tok = [version, exp, payload, sig]"
    and r: "verify_parts c key t prefix version exp payload sig = Inr i"
    using four_parts [where xs = "split_on (CHR ''.'') tok" and f = "verify_parts c key t prefix" and m = Malformed and v = i] by (auto simp: verifyRelayToken_def)
  from r obtain e got where v: "version = ''v1''" "parse_int64 exp = Some e" "t div second \<le> e" "has_prefix payload prefix"
    "dec_url c sig = Some got" "hmacSHA256 c key (join ''.'' [''v1'', exp, payload]) = got" "i = trim_prefix payload prefix"
    by (auto simp: verify_parts_def split: option.split_asm if_split_asm simp del: join.simps)
  have t: "take (length prefix) payload = prefix" using v(4) unfolding has_prefix_def .
  have d: "i = drop (length prefix) payload" unfolding v(7) trim_prefix_def by (rule if_P [OF v(4)])
  have "prefix @ i = take (length prefix) payload @ drop (length prefix) payload" by (simp only: t d)
  then have p: "payload = prefix @ i" unfolding append_take_drop_id by (rule sym)
  have "tok = join [CHR ''.''] [version, exp, payload, sig]" using join_split_on [of "CHR ''.''" tok] unfolding s by (rule sym)
  with v(1,2,3,5,6) p k show ?thesis by (intro conjI exI [of _ exp] exI [of _ sig] exI [of _ e]) simp_all
qed

section \<open>Concrete tokens\<close>

definition demo_signer :: signer where
  "demo_signer = \<lparr>mac256 = \<lambda>k b. take 4 (k @ b), enc_url = hex_encode, dec_url = hex_decode\<rparr>"

lemma hex_no_dot: "CHR ''.'' \<notin> set (hex_encode b)"
proof -
  have n: "\<forall>n \<in> set [0 ..< 16]. hex_char n \<noteq> CHR ''.''" by code_simp
  have "hex_char m \<noteq> CHR ''.''" if "m < 16" for m
  proof -
    have "m \<in> set [0 ..< 16]" using that by simp
    with n show ?thesis by blast
  qed
  moreover have "unat w div 16 < 16" for w :: byte using unsigned_less [of w, where ?'a = nat] by simp
  ultimately show ?thesis by (induction b) (auto simp: hex_encode_def hex_byte_def eq_commute [of "CHR ''.''"])
qed

lemma demo_signer_ok: "dec_url demo_signer (enc_url demo_signer b) = Some b" "CHR ''.'' \<notin> set (enc_url demo_signer b)"
  by (simp_all add: demo_signer_def hex_decode_encode hex_no_dot)

lemma demo_signed: "\<exists>tok. signRelayToken demo_signer ''k'' 0 (relayTokenPrefixMobile @ ''dev-1'') = Inr tok"
  by (simp add: signRelayToken_def Let_def)

theorem relay_token_roundtrip_witness:
  "\<exists>tok. signRelayToken demo_signer ''k'' 0 (relayTokenPrefixMobile @ ''dev-1'') = Inr tok
     \<and> verifyRelayToken demo_signer ''k'' (100 * second) tok relayTokenPrefixMobile = Inr ''dev-1''
     \<and> verifyRelayToken demo_signer ''k'' (301 * second) tok relayTokenPrefixMobile = Inl TokenExpired"
proof -
  obtain tok where t: "signRelayToken demo_signer ''k'' 0 (relayTokenPrefixMobile @ ''dev-1'') = Inr tok" using demo_signed by blast
  have a: "(0 :: int) \<le> 0" "(0 + 24 * hour) div second < 2 ^ 63" "CHR ''.'' \<notin> set ''dev-1''"
    "{relayTokenPrefixMobile, relayTokenPrefixNode} = {relayTokenPrefixNode, relayTokenPrefixMobile}"
    by (auto simp: hour_def minute_def second_def)
  have "relayTokenPrefixMobile \<noteq> relayTokenPrefixNode" by (simp add: relayTokenPrefixMobile_def relayTokenPrefixNode_def)
  with relay_token_roundtrip [of demo_signer, OF demo_signer_ok t a] t show ?thesis by (auto simp: second_def)
qed

theorem relay_token_signed_witness:
  "\<exists>tok sig. verifyRelayToken demo_signer ''k'' 0 tok relayTokenPrefixMobile = Inr ''dev-1'' \<and> dec_url demo_signer sig \<noteq> None"
proof -
  obtain tok where t: "signRelayToken demo_signer ''k'' 0 (relayTokenPrefixMobile @ ''dev-1'') = Inr tok" using demo_signed by blast
  have "(0 + lifetime (relayTokenPrefixMobile @ ''dev-1'')) div second = 300"
    by (simp add: lifetime_def has_prefix_def relayTokenPrefixMobile_def relayTokenPrefixNode_def minute_def second_def)
  then have tok: "tok = token_body 300 (relayTokenPrefixMobile @ ''dev-1'') @ ''.'' @
      enc_url demo_signer (hmacSHA256 demo_signer ''k'' (token_body 300 (relayTokenPrefixMobile @ ''dev-1'')))"
    using t by (simp add: signRelayToken_def Let_def)
  have s: "split_on (CHR ''.'') tok = [''v1'', nat_str (nat 300), relayTokenPrefixMobile @ ''dev-1'',
      enc_url demo_signer (hmacSHA256 demo_signer ''k'' (token_body 300 (relayTokenPrefixMobile @ ''dev-1'')))]"
    unfolding tok by (rule token_parts) (simp_all add: demo_signer_ok relayTokenPrefixMobile_def)
  have "verifyRelayToken demo_signer ''k'' 0 tok relayTokenPrefixMobile = Inr ''dev-1''"
    using parse_nat_str [of 300]
    by (simp add: verifyRelayToken_def s verify_parts_def demo_signer_ok token_body_def int_str_def has_prefix_def trim_prefix_def)
  with relay_token_signed [OF this] show ?thesis by blast
qed

end
