(* ===== verification/Console.thy ===== *)
theory Console
  imports AdminAuth NodeAPI DeviceProps
begin

text \<open>
  The console's requests (\<open>httpapi/handlers.go\<close>, \<open>groups.go\<close>, \<open>policyadmin.go\<close>, \<open>rbac.go\<close>): who may ask,
  the guards each handler has, the service operation it calls and the status it answers.  A path
  segment is its text; a body is absent when it is no JSON of the expected form.  What the database
  and the host give (collation, interface addresses, clocks, a fresh identifier, whether a timestamp
  fits its column) is the record \<open>env\<close>.
\<close>

section \<open>Callers and roles\<close>

record caller = \<comment> \<open>the context the middleware fills\<close>
  cl_user :: ID
  cl_tenant :: ID
  cl_roles :: "string list"

definition RoleAdmin :: string where "RoleAdmin = ''aidotvpn-admin''"

definition hasRole :: "caller \<Rightarrow> string \<Rightarrow> bool" where
  "hasRole cl role \<longleftrightarrow> list_ex (\<lambda>r. equal_fold r role) (cl_roles cl)"

definition IsAdmin :: "caller \<Rightarrow> bool" where "IsAdmin cl \<longleftrightarrow> hasRole cl RoleAdmin"

text \<open>A JSON claim \<open>realm_access.roles\<close>: members that are no non-empty text are skipped.\<close>

fun role_texts :: "json list \<Rightarrow> string list" where
  "role_texts [] = []"
| "role_texts (v # vs) = (case v of JString s \<Rightarrow> (if s = [] then role_texts vs else s # role_texts vs) | _ \<Rightarrow> role_texts vs)"

definition extractRealmRoles :: "(string \<times> json) list \<Rightarrow> string list" where
  "extractRealmRoles raw = (case map_of raw ''realm_access'' of
     Some (JObject ra) \<Rightarrow> (case map_of ra ''roles'' of Some (JArray vs) \<Rightarrow> role_texts vs | _ \<Rightarrow> [])
   | _ \<Rightarrow> [])"

record Console =
  c_db :: DB
  c_pol :: PolDB

record env =
  ev_weight :: weight
  ev_ntoa :: "bytes \<Rightarrow> string"
  ev_local :: "addr list" \<comment> \<open>\<open>net.InterfaceAddrs\<close>\<close>
  ev_now :: time
  ev_dbnow :: time
  ev_newID :: ID
  ev_fits :: "time \<Rightarrow> bool"

type_synonym log = "(Entry + Devices.audit_entry) list"
type_synonym 'a outcome = "(nat + 'a) \<times> Console \<times> log" \<comment> \<open>a refusal's status, or the answer\<close>

text \<open>Admins act on the devices of their tenant, others on their own.\<close>

definition ownsDevice :: "caller \<Rightarrow> ID \<Rightarrow> DB \<Rightarrow> bool" where
  "ownsDevice cl i db =
     (if IsAdmin cl then 0 < length (filter (\<lambda>d. d_id d = i \<and> d_tenant d = cl_tenant cl \<and> d_deleted d = None) (devices db))
      else 0 < length (filter (\<lambda>d. d_id d = i \<and> d_user d = cl_user cl \<and> d_deleted d = None) (devices db)))"

definition requireAdmin :: "caller \<Rightarrow> 'a outcome \<Rightarrow> Console \<Rightarrow> 'a outcome" where
  "requireAdmin cl handler c = (if \<not> IsAdmin cl then (Inl 403, c, []) else handler)"

section \<open>Pieces of the handlers\<close>

definition parseHexID :: "string \<Rightarrow> ID option" where
  "parseHexID s = (case UnmarshalText Zero (bytes_of_string s) of
     (i, None) \<Rightarrow> Some i
   | (i, Some _) \<Rightarrow> (case hex_decode (filter (\<lambda>ch. ch \<noteq> CHR ''-'') s) of
       None \<Rightarrow> None
     | Some b \<Rightarrow> (case Scan i (SBytes b) of (j, None) \<Rightarrow> Some j | (_, Some _) \<Rightarrow> None)))"

definition with_id :: "string \<Rightarrow> Console \<Rightarrow> (ID \<Rightarrow> 'a outcome) \<Rightarrow> 'a outcome" where
  "with_id s c f = (case parseHexID s of None \<Rightarrow> (Inl 400, c, []) | Some i \<Rightarrow> f i)"

definition with_body :: "'b option \<Rightarrow> Console \<Rightarrow> ('b \<Rightarrow> 'a outcome) \<Rightarrow> 'a outcome" where
  "with_body b c f = (case b of None \<Rightarrow> (Inl 400, c, []) | Some v \<Rightarrow> f v)"

text \<open>The tenant guard: another tenant's policy answers as a missing one does.\<close>

definition with_policy :: "caller \<Rightarrow> ID \<Rightarrow> Console \<Rightarrow> (Policy \<Rightarrow> 'a outcome) \<Rightarrow> 'a outcome" where
  "with_policy cl i c f = (case GetPolicy i (c_pol c) of
     Inl _ \<Rightarrow> (Inl 404, c, [])
   | Inr p \<Rightarrow> if ps_tenant p \<noteq> cl_tenant cl then (Inl 404, c, []) else f p)"

definition pol_done :: "Console \<Rightarrow> (pol_error \<Rightarrow> nat) \<Rightarrow> (pol_error + 'a) \<times> PolDB \<times> Entry list \<Rightarrow> 'a outcome" where
  "pol_done c status = (\<lambda>(res, pol, es). (wrap status res, c\<lparr>c_pol := pol\<rparr>, map Inl es))"

definition both_done :: "Console \<Rightarrow> (pol_error \<Rightarrow> nat) \<Rightarrow> (pol_error + 'a) \<times> (Device list \<times> PolDB) \<times> Entry list \<Rightarrow> 'a outcome" where
  "both_done c status = (\<lambda>(res, (ds, pol), es). (wrap status res, c\<lparr>c_db := (c_db c)\<lparr>devices := ds\<rparr>, c_pol := pol\<rparr>, map Inl es))"

definition not_found_or :: "nat \<Rightarrow> pol_error \<Rightarrow> nat" where
  "not_found_or n e = (if e = PolNotFound then 404 else n)"

definition console_audit :: "env \<Rightarrow> caller \<Rightarrow> string \<Rightarrow> ID option \<Rightarrow> (string \<times> json) list option \<Rightarrow> log" where
  "console_audit ev cl action target details = [Inl (AdminAuth.audit_entry (cl_tenant cl) (Some (cl_user cl)) action target details (ev_now ev))]"

section \<open>Policies\<close>

definition listPolicies :: "env \<Rightarrow> caller \<Rightarrow> Console \<Rightarrow> Policy list" where
  "listPolicies ev cl c = Policies.List (ev_weight ev) (cl_tenant cl) (c_pol c)"

definition getPolicy :: "env \<Rightarrow> caller \<Rightarrow> string \<Rightarrow> Console \<Rightarrow> nat + Policy \<times> AllowedRow list" where
  "getPolicy ev cl path c = (case parseHexID path of
     None \<Rightarrow> Inl 400
   | Some i \<Rightarrow> (case GetWithAllowedIPs (ev_weight ev) i (c_pol c) of
       Inl _ \<Rightarrow> Inl 404
     | Inr (p, ips) \<Rightarrow> if ps_tenant p \<noteq> cl_tenant cl then Inl 404 else Inr (p, ips)))"

definition createPolicy :: "env \<Rightarrow> caller \<Rightarrow> (string \<times> string) option \<Rightarrow> Console \<Rightarrow> Policy outcome" where
  "createPolicy ev cl body c = with_body body c (\<lambda>(name, description).
     pol_done c (\<lambda>_. 400) (Create (ev_weight ev) (ev_newID ev) (ev_now ev) (cl_tenant cl) (cl_user cl) name description (c_pol c)))"

definition updatePolicy :: "env \<Rightarrow> caller \<Rightarrow> string \<Rightarrow> (string \<times> string \<times> bool) option \<Rightarrow> Console \<Rightarrow> unit outcome" where
  "updatePolicy ev cl path body c = with_id path c (\<lambda>i. with_policy cl i c (\<lambda>_. with_body body c (\<lambda>(name, description, enabled).
     pol_done c (\<lambda>_. 500) (Update (ev_weight ev) i (cl_user cl) name description enabled (c_pol c)))))"

definition deletePolicy :: "env \<Rightarrow> caller \<Rightarrow> string \<Rightarrow> Console \<Rightarrow> unit outcome" where
  "deletePolicy ev cl path c = with_id path c (\<lambda>i. with_policy cl i c (\<lambda>_.
     both_done c (\<lambda>_. 500) (Delete (ev_dbnow ev) i (cl_user cl) (devices (c_db c), c_pol c))))"

text \<open>A text that names one address, with \<open>/32\<close>, \<open>/128\<close> or no length, and this host has it.\<close>

definition split_slash :: "string \<Rightarrow> string \<times> string option" where
  "split_slash s = (if CHR ''/'' \<in> set s then (takeWhile (\<lambda>ch. ch \<noteq> CHR ''/'') s, Some (tl (dropWhile (\<lambda>ch. ch \<noteq> CHR ''/'') s)))
     else (s, None))"

definition isLocalAddress :: "addr list \<Rightarrow> string \<Rightarrow> bool" where
  "isLocalAddress addrs cidr = (case split_slash cidr of (host, bits) \<Rightarrow>
     if bits \<notin> {None, Some ''32'', Some ''128''} then False
     else case parse_addr host of None \<Rightarrow> False | Some t \<Rightarrow> list_ex (\<lambda>a. unmap a = unmap t) addrs)"

definition addAllowedIP :: "env \<Rightarrow> caller \<Rightarrow> string \<Rightarrow> (string \<times> string) option \<Rightarrow> Console \<Rightarrow> AllowedRow outcome" where
  "addAllowedIP ev cl path body c = with_id path c (\<lambda>i. with_policy cl i c (\<lambda>_. with_body body c (\<lambda>(cidr, description).
     if isLocalAddress (ev_local ev) cidr then (Inl 400, c, [])
     else pol_done c (\<lambda>e. if e = InvalidCIDR then 400 else 500)
       (AddAllowedIP (ev_weight ev) (ev_newID ev) i (cl_user cl) cidr description (c_pol c)))))"

definition removeAllowedIP :: "caller \<Rightarrow> string \<Rightarrow> string \<Rightarrow> Console \<Rightarrow> unit outcome" where
  "removeAllowedIP cl path aip c = with_id path c (\<lambda>i. with_id aip c (\<lambda>a. with_policy cl i c (\<lambda>_.
     pol_done c (not_found_or 500) (RemoveAllowedIP a (cl_user cl) (c_pol c)))))"

definition assignDevicePolicy :: "caller \<Rightarrow> string \<Rightarrow> string option \<Rightarrow> Console \<Rightarrow> unit outcome" where
  "assignDevicePolicy cl path body c = with_id path c (\<lambda>d.
     if \<not> ownsDevice cl d (c_db c) then (Inl 404, c, [])
     else with_body body c (\<lambda>policy.
       let assign = (\<lambda>i. both_done c (not_found_or 500) (AssignToDevice d i (cl_user cl) (devices (c_db c), c_pol c)))
       in if policy = [] then assign Zero else with_id policy c (\<lambda>i. with_policy cl i c (\<lambda>_. assign i))))"

section \<open>Virtual hosts and transport\<close>

definition listVirtualHosts :: "env \<Rightarrow> string \<Rightarrow> Console \<Rightarrow> nat + VirtualRow list" where
  "listVirtualHosts ev path c = (case parseHexID path of
     None \<Rightarrow> Inl 400 | Some i \<Rightarrow> Inr (ListVirtualHosts (ev_weight ev) i (c_pol c)))"

definition addVirtualHost :: "env \<Rightarrow> caller \<Rightarrow> string \<Rightarrow> (string \<times> string \<times> string) option \<Rightarrow> Console \<Rightarrow> VirtualRow outcome" where
  "addVirtualHost ev cl path body c = with_id path c (\<lambda>i. with_body body c (\<lambda>(virtual, real, description).
     if isLocalAddress (ev_local ev) (real @ ''/32'') then (Inl 400, c, [])
     else pol_done c (not_found_or 400)
       (AddVirtualHost (ev_weight ev) (ev_newID ev) i (cl_user cl) virtual real description (c_pol c))))"

definition removeVirtualHost :: "caller \<Rightarrow> string \<Rightarrow> string \<Rightarrow> Console \<Rightarrow> unit outcome" where
  "removeVirtualHost cl path hid c = with_id path c (\<lambda>i. with_id hid c (\<lambda>h.
     pol_done c (\<lambda>_. 500) (RemoveVirtualHost i h (cl_user cl) (c_pol c))))"

definition updatePolicyTransport :: "caller \<Rightarrow> string \<Rightarrow> (string \<times> bool \<times> string) option \<Rightarrow> Console \<Rightarrow> unit outcome" where
  "updatePolicyTransport cl path body c = with_id path c (\<lambda>i. with_body body c (\<lambda>(mode, nat, channel0).
     let channel = (if channel0 = [] then ''direct'' else channel0) in
     pol_done c (not_found_or 400) (UpdateTransport i (cl_user cl) mode nat channel (c_pol c))))"

section \<open>Settings and host names\<close>

definition dnsScopeWarning :: "ID \<Rightarrow> Settings \<Rightarrow> DB \<Rightarrow> nat option" where \<comment> \<open>the number of devices the text names\<close>
  "dnsScopeWarning i st db =
     (if st_dns st = [] \<or> st_scope st = ''full'' then None
      else let n = length (filter (\<lambda>d. d_policy d = Some i \<and> d_deleted d = None \<and> d_filter_mode d = AppFilterOff) (devices db))
        in if n = 0 then None else Some n)"

definition settings_answer :: "ID \<Rightarrow> Console \<Rightarrow> nat + Settings \<times> nat option" where
  "settings_answer i c = (case GetSettings i (c_pol c) of
     Inl _ \<Rightarrow> Inl 500 | Inr st \<Rightarrow> Inr (st, dnsScopeWarning i st (c_db c)))"

definition getPolicySettings :: "caller \<Rightarrow> string \<Rightarrow> Console \<Rightarrow> (Settings \<times> nat option) outcome" where
  "getPolicySettings cl path c = with_id path c (\<lambda>i. with_policy cl i c (\<lambda>_. (settings_answer i c, c, [])))"

definition updatePolicySettings :: "caller \<Rightarrow> string \<Rightarrow> Settings option \<Rightarrow> Console \<Rightarrow> (Settings \<times> nat option) outcome" where
  "updatePolicySettings cl path body c = with_id path c (\<lambda>i. with_policy cl i c (\<lambda>_. with_body body c (\<lambda>st.
     case pol_done c (\<lambda>_. 400) (UpdateSettings i (cl_user cl) st (c_pol c)) of
       (res, c', l) \<Rightarrow> (case res of Inl n \<Rightarrow> Inl n | Inr _ \<Rightarrow> settings_answer i c', c', l))))"

definition listPolicyHostnames :: "env \<Rightarrow> caller \<Rightarrow> string \<Rightarrow> Console \<Rightarrow> (HostRow \<times> string list) list outcome" where
  "listPolicyHostnames ev cl path c = with_id path c (\<lambda>i. with_policy cl i c (\<lambda>_.
     (Inr (ListHostnames (ev_weight ev) (ev_ntoa ev) i (c_pol c)), c, [])))"

definition hostname_status :: "pol_error \<Rightarrow> nat" where
  "hostname_status e = (case e of InvalidHostname _ \<Rightarrow> 400 | InvalidCIDR \<Rightarrow> 400 | _ \<Rightarrow> 500)"

definition addPolicyHostname :: "env \<Rightarrow> caller \<Rightarrow> string \<Rightarrow> (string \<times> string \<times> string) option \<Rightarrow> Console \<Rightarrow> HostRow outcome" where
  "addPolicyHostname ev cl path body c = with_id path c (\<lambda>i. with_policy cl i c (\<lambda>_. with_body body c (\<lambda>(hostname, guard, description).
     pol_done c hostname_status (AddHostname (ev_weight ev) (ev_newID ev) i (cl_user cl) hostname guard description (c_pol c)))))"

definition removePolicyHostname :: "caller \<Rightarrow> string \<Rightarrow> string \<Rightarrow> Console \<Rightarrow> unit outcome" where
  "removePolicyHostname cl path hid c = with_id path c (\<lambda>i. with_id hid c (\<lambda>h. with_policy cl i c (\<lambda>_.
     pol_done c (not_found_or 500) (RemoveHostname i h (cl_user cl) (c_pol c)))))"

section \<open>Devices\<close>

definition dev_done :: "Console \<Rightarrow> nat \<Rightarrow> (DB \<Rightarrow> nat + 'a) \<Rightarrow> dev_error option \<times> DB \<times> Devices.audit_entry list \<Rightarrow> 'a outcome" where
  "dev_done c status ans = (\<lambda>(e, db, l). (case e of Some _ \<Rightarrow> Inl status | None \<Rightarrow> ans db, c\<lparr>c_db := db\<rparr>, map Inr l))"

definition revokeDevice :: "env \<Rightarrow> caller \<Rightarrow> string \<Rightarrow> string option \<Rightarrow> Console \<Rightarrow> unit outcome" where
  "revokeDevice ev cl path reason c = with_id path c (\<lambda>i.
     dev_done c 500 (\<lambda>_. Inr ()) (Revoke (ev_dbnow ev) i (cl_user cl) (or_empty reason) (c_db c)))"

definition updateDeviceAppFilter :: "caller \<Rightarrow> string \<Rightarrow> (string \<times> string list) option \<Rightarrow> Console \<Rightarrow> Device outcome" where
  "updateDeviceAppFilter cl path body c = with_id path c (\<lambda>i. with_body body c (\<lambda>(mode, packages).
     if \<not> ownsDevice cl i (c_db c) then (Inl 404, c, [])
     else dev_done c 400 (\<lambda>db. case Get i db of Inl _ \<Rightarrow> Inl 500 | Inr d \<Rightarrow> Inr d)
       (UpdateAppFilter i (cl_user cl) mode packages (c_db c))))"

section \<open>Groups\<close>

record group_line =
  gl_group :: Group
  gl_policy_name :: "string option"
  gl_members :: nat

definition listGroups :: "env \<Rightarrow> caller \<Rightarrow> Console \<Rightarrow> group_line list" where
  "listGroups ev cl c =
     map (\<lambda>g. \<lparr>gl_group = g,
        gl_policy_name = (case g_policy g of None \<Rightarrow> None | Some i \<Rightarrow> map_option po_name (live_policy (c_pol c) i)),
        gl_members = length (filter (\<lambda>d. d_group d = Some (g_id g) \<and> d_deleted d = None) (devices (c_db c)))\<rparr>)
       (sort_key (\<lambda>g. ev_weight ev (g_name g)) (filter (\<lambda>g. g_tenant g = cl_tenant cl \<and> g_deleted g = None) (groups (c_pol c))))"

definition nullIfEmptyStr :: "string \<Rightarrow> string option" where
  "nullIfEmptyStr s = (if trim_space s = [] then None else Some s)"

definition with_group_policy :: "caller \<Rightarrow> string \<Rightarrow> Console \<Rightarrow> (ID option \<Rightarrow> 'a outcome) \<Rightarrow> 'a outcome" where
  \<comment> \<open>no policy, or a live one of the tenant\<close>
  "with_group_policy cl policy c f =
     (if policy = [] then f None
      else with_id policy c (\<lambda>i.
        if length (filter (\<lambda>p. po_id p = i \<and> po_tenant p = cl_tenant cl \<and> po_deleted p = None) (policies (c_pol c))) = 0
        then (Inl 404, c, []) else f (Some i)))"

definition live_group :: "caller \<Rightarrow> ID \<Rightarrow> Console \<Rightarrow> bool" where
  "live_group cl i c \<longleftrightarrow>
     0 < length (filter (\<lambda>g. g_id g = i \<and> g_tenant g = cl_tenant cl \<and> g_deleted g = None) (groups (c_pol c)))"

definition createGroup :: "env \<Rightarrow> caller \<Rightarrow> (string \<times> string \<times> string) option \<Rightarrow> Console \<Rightarrow> ID outcome" where
  "createGroup ev cl body c = with_body body c (\<lambda>(name, description, policy).
     if trim_space name = [] then (Inl 400, c, [])
     else with_group_policy cl policy c (\<lambda>p.
       if \<exists>g \<in> set (groups (c_pol c)). g_id g = ev_newID ev
            \<or> (g_tenant g = cl_tenant cl \<and> ev_weight ev (g_name g) = ev_weight ev (trim_space name))
       then (Inl 409, c, [])
       else (Inr (ev_newID ev),
         c\<lparr>c_pol := (c_pol c)\<lparr>groups := groups (c_pol c) @ [\<lparr>g_id = ev_newID ev, g_tenant = cl_tenant cl, g_name = trim_space name,
           g_descr = nullIfEmptyStr description, g_policy = p, g_deleted = None\<rparr>]\<rparr>\<rparr>,
         console_audit ev cl ''group.create'' (Some (ev_newID ev)) (Some [(''name'', JString name)]))))"

definition set_group :: "ID \<Rightarrow> caller \<Rightarrow> (Group \<Rightarrow> Group) \<Rightarrow> Console \<Rightarrow> Console" where \<comment> \<open>UPDATE of a live row of the tenant\<close>
  "set_group i cl f c = c\<lparr>c_pol := (c_pol c)\<lparr>groups :=
     map (\<lambda>g. if g_id g = i \<and> g_tenant g = cl_tenant cl \<and> g_deleted g = None then f g else g) (groups (c_pol c))\<rparr>\<rparr>"

record group_change =
  gc_name :: "string option"
  gc_description :: "string option"
  gc_policy :: "string option"

definition updateGroup :: "env \<Rightarrow> caller \<Rightarrow> string \<Rightarrow> group_change option \<Rightarrow> Console \<Rightarrow> unit outcome" where
  "updateGroup ev cl path body c = with_id path c (\<lambda>i. with_body body c (\<lambda>b.
     if (case gc_name b of None \<Rightarrow> False | Some n \<Rightarrow> trim_space n = []) then (Inl 400, c, [])
     else with_group_policy cl (or_empty (gc_policy b)) c (\<lambda>p.
       if \<not> live_group cl i c then (Inl 404, c, [])
       else if (case gc_name b of None \<Rightarrow> False | Some n \<Rightarrow> \<exists>g \<in> set (groups (c_pol c)).
            g_id g \<noteq> i \<and> g_tenant g = cl_tenant cl \<and> ev_weight ev (g_name g) = ev_weight ev (trim_space n))
         then (Inl 500, c, [])
       else (Inr (), set_group i cl (\<lambda>g. g\<lparr>
           g_name := (case gc_name b of None \<Rightarrow> g_name g | Some n \<Rightarrow> trim_space n),
           g_descr := (case gc_description b of None \<Rightarrow> g_descr g | Some t \<Rightarrow> nullIfEmptyStr t),
           g_policy := (if gc_policy b = None then g_policy g else p)\<rparr>) c,
         console_audit ev cl ''group.update'' (Some i) (Some [(''policy_changed'', JBool (gc_policy b \<noteq> None))])))))"

definition deleteGroup :: "env \<Rightarrow> caller \<Rightarrow> string \<Rightarrow> Console \<Rightarrow> unit outcome" where
  "deleteGroup ev cl path c = with_id path c (\<lambda>i.
     if \<not> live_group cl i c then (Inl 404, c, [])
     else let c1 = set_group i cl (\<lambda>g. g\<lparr>g_deleted := Some (ev_now ev)\<rparr>) c;
            ds = map (\<lambda>d. if d_group d = Some i \<and> d_tenant d = cl_tenant cl then d\<lparr>d_group := None\<rparr> else d) (devices (c_db c1))
       in (Inr (), c1\<lparr>c_db := (c_db c1)\<lparr>devices := ds\<rparr>\<rparr>, console_audit ev cl ''group.delete'' (Some i) None))"

text \<open>\<open>UPDATE devices ... WHERE id = ? AND tenant_id = ?\<close>, whether it meets a row or not.\<close>

definition set_tenant_device :: "ID \<Rightarrow> caller \<Rightarrow> (Device \<Rightarrow> Device) \<Rightarrow> Console \<Rightarrow> Console" where
  "set_tenant_device i cl f c = c\<lparr>c_db := (c_db c)\<lparr>devices :=
     map (\<lambda>d. if d_id d = i \<and> d_tenant d = cl_tenant cl then f d else d) (devices (c_db c))\<rparr>\<rparr>"

definition assignGroup :: "env \<Rightarrow> caller \<Rightarrow> string \<Rightarrow> string option \<Rightarrow> Console \<Rightarrow> unit outcome" where
  "assignGroup ev cl path body c = with_id path c (\<lambda>i. with_body body c (\<lambda>group.
     let assign = (\<lambda>g. (Inr (), set_tenant_device i cl (\<lambda>d. d\<lparr>d_group := g\<rparr>) c,
       console_audit ev cl ''group.assign'' (Some i) (Some [(''group_id'', JString group)])))
     in if group = [] then assign None
        else with_id group c (\<lambda>gid. if \<not> live_group cl gid c then (Inl 404, c, []) else assign (Some gid))))"

section \<open>Expiry and the tenant's access rules\<close>

text \<open>\<open>AddDate (0, 0, days)\<close> on an instant in UTC.\<close>

definition setDeviceExpiry :: "env \<Rightarrow> caller \<Rightarrow> string \<Rightarrow> int option \<Rightarrow> Console \<Rightarrow> unit outcome" where
  "setDeviceExpiry ev cl path body c = with_id path c (\<lambda>i. with_body body c (\<lambda>days.
     let until = (if days > 0 then Some (ev_now ev + days * 24 * hour) else None)
     in if (case until of None \<Rightarrow> False | Some t \<Rightarrow> \<not> ev_fits ev t) then (Inl 500, c, [])
        else (Inr (), set_tenant_device i cl (\<lambda>d. d\<lparr>d_access_expires := until\<rparr>) c,
          console_audit ev cl ''device.expiry'' (Some i) (Some [(''days'', JInt days)]))))"

definition set_tenant :: "caller \<Rightarrow> (Tenant \<Rightarrow> Tenant) \<Rightarrow> Console \<Rightarrow> Console" where
  "set_tenant cl f c = c\<lparr>c_db := (c_db c)\<lparr>tenants := map (\<lambda>t. if t_id t = cl_tenant cl then f t else t) (tenants (c_db c))\<rparr>\<rparr>"

definition setTenantExpiry :: "env \<Rightarrow> caller \<Rightarrow> int option \<Rightarrow> Console \<Rightarrow> unit outcome" where
  "setTenantExpiry ev cl body c = with_body body c (\<lambda>days. if days < 0 then (Inl 400, c, [])
     else (Inr (), set_tenant cl (\<lambda>t. t\<lparr>t_expiry_days := days\<rparr>) c,
       console_audit ev cl ''settings.device_expiry'' None (Some [(''days'', JInt days)])))"

definition setMinOS :: "env \<Rightarrow> caller \<Rightarrow> int option \<Rightarrow> Console \<Rightarrow> unit outcome" where
  "setMinOS ev cl body c = with_body body c (\<lambda>sdk. if sdk < 0 then (Inl 400, c, [])
     else (Inr (), set_tenant cl (\<lambda>t. t\<lparr>t_min_os_sdk := sdk\<rparr>) c,
       console_audit ev cl ''settings.min_os'' None (Some [(''sdk'', JInt sdk)])))"

definition getAccessSettings :: "caller \<Rightarrow> Console \<Rightarrow> int \<times> int" where
  "getAccessSettings cl c = (case find (\<lambda>t. t_id t = cl_tenant cl) (tenants (c_db c)) of
     None \<Rightarrow> (0, 0) | Some t \<Rightarrow> (t_expiry_days t, t_min_os_sdk t))"

section \<open>The routes\<close>

text \<open>The requests that change the tables, with their path segments and bodies.\<close>

datatype call =
    RevokeDevice string "string option" | AssignPolicy string "string option"
  | SetAppFilter string "(string \<times> string list) option"
  | CreatePolicy "(string \<times> string) option" | UpdatePolicy string "(string \<times> string \<times> bool) option" | DeletePolicy string
  | AddCIDR string "(string \<times> string) option" | RemoveCIDR string string
  | AddVirtual string "(string \<times> string \<times> string) option" | RemoveVirtual string string
  | SetTransport string "(string \<times> bool \<times> string) option" | SetSettings string "Settings option"
  | AddName string "(string \<times> string \<times> string) option" | RemoveName string string
  | CreateGroup "(string \<times> string \<times> string) option" | UpdateGroup string "group_change option" | DeleteGroup string
  | AssignGroup string "string option"
  | SetExpiry string "int option" | SetTenantExpiry "int option" | SetMinOS "int option"

definition answered :: "nat \<Rightarrow> 'a outcome \<Rightarrow> nat \<times> Console \<times> log" where
  "answered ok r = (case r of (Inl n, c, l) \<Rightarrow> (n, c, l) | (Inr _, c, l) \<Rightarrow> (ok, c, l))"

definition serve :: "env \<Rightarrow> caller \<Rightarrow> call \<Rightarrow> Console \<Rightarrow> nat \<times> Console \<times> log" where
  \<comment> \<open>\<open>API.Register\<close>, behind \<open>requireAuth\<close>\<close>
  "serve ev cl q c = (case q of
     RevokeDevice i why \<Rightarrow> answered 204 (revokeDevice ev cl i why c)
   | AssignPolicy i b \<Rightarrow> answered 204 (requireAdmin cl (assignDevicePolicy cl i b c) c)
   | SetAppFilter i b \<Rightarrow> answered 200 (updateDeviceAppFilter cl i b c)
   | CreatePolicy b \<Rightarrow> answered 201 (requireAdmin cl (createPolicy ev cl b c) c)
   | UpdatePolicy i b \<Rightarrow> answered 204 (requireAdmin cl (updatePolicy ev cl i b c) c)
   | DeletePolicy i \<Rightarrow> answered 204 (requireAdmin cl (deletePolicy ev cl i c) c)
   | AddCIDR i b \<Rightarrow> answered 201 (requireAdmin cl (addAllowedIP ev cl i b c) c)
   | RemoveCIDR i a \<Rightarrow> answered 204 (requireAdmin cl (removeAllowedIP cl i a c) c)
   | AddVirtual i b \<Rightarrow> answered 201 (requireAdmin cl (addVirtualHost ev cl i b c) c)
   | RemoveVirtual i h \<Rightarrow> answered 204 (requireAdmin cl (removeVirtualHost cl i h c) c)
   | SetTransport i b \<Rightarrow> answered 204 (requireAdmin cl (updatePolicyTransport cl i b c) c)
   | SetSettings i b \<Rightarrow> answered 200 (requireAdmin cl (updatePolicySettings cl i b c) c)
   | AddName i b \<Rightarrow> answered 201 (requireAdmin cl (addPolicyHostname ev cl i b c) c)
   | RemoveName i h \<Rightarrow> answered 204 (requireAdmin cl (removePolicyHostname cl i h c) c)
   | CreateGroup b \<Rightarrow> answered 201 (requireAdmin cl (createGroup ev cl b c) c)
   | UpdateGroup i b \<Rightarrow> answered 204 (requireAdmin cl (updateGroup ev cl i b c) c)
   | DeleteGroup i \<Rightarrow> answered 204 (requireAdmin cl (deleteGroup ev cl i c) c)
   | AssignGroup i b \<Rightarrow> answered 204 (requireAdmin cl (assignGroup ev cl i b c) c)
   | SetExpiry i b \<Rightarrow> answered 204 (requireAdmin cl (setDeviceExpiry ev cl i b c) c)
   | SetTenantExpiry b \<Rightarrow> answered 204 (requireAdmin cl (setTenantExpiry ev cl b c) c)
   | SetMinOS b \<Rightarrow> answered 204 (requireAdmin cl (setMinOS ev cl b c) c))"


end
