(* ===== verification/ConsoleProps.thy ===== *)
theory ConsoleProps
  imports Console
begin

text \<open>
  What the console's requests keep: references stay inside a tenant in every reachable state, guarded
  requests touch nothing of another tenant, and only admins decide what a device may reach.  The
  requests without a tenant guard are named with what they allow.
\<close>

section \<open>Outcomes as sets of tables\<close>

text \<open>
  A handler is a nest of guards around one operation.  The tables it leaves lie in a set when the
  unchanged tables do and those of the innermost operation do; one rule per guard.
\<close>

definition state :: "'a \<times> Console \<times> log \<Rightarrow> Console" where "state r = fst (snd r)"

lemma state_triple [simp]: "state (a, c, l) = c" by (simp add: state_def)

lemma state_answered [simp]: "state (answered n r) = state r"
  by (simp add: answered_def state_def split: prod.split sum.split)

lemma state_pol_done [simp]: "state (pol_done c f op) = c\<lparr>c_pol := fst (snd op)\<rparr>"
  by (simp add: pol_done_def state_def split: prod.split)

lemma state_both_done [simp]:
  "state (both_done c f op) = c\<lparr>c_db := (c_db c)\<lparr>devices := fst (fst (snd op))\<rparr>, c_pol := snd (fst (snd op))\<rparr>"
  by (simp add: both_done_def state_def split: prod.split)

lemma state_dev_done [simp]: "state (dev_done c n ans op) = c\<lparr>c_db := fst (snd op)\<rparr>"
  by (simp add: dev_done_def state_def split: prod.split)

lemma state_then [simp]: "state (case r of (res, c', l) \<Rightarrow> (g res c', c', l)) = state r"
  by (simp add: state_def split: prod.split)

lemma state_with_id: "c \<in> S \<Longrightarrow> (\<And>i. state (f i) \<in> S) \<Longrightarrow> state (with_id s c f) \<in> S"
  by (simp add: with_id_def split: option.split)

lemma state_with_body: "c \<in> S \<Longrightarrow> (\<And>v. state (f v) \<in> S) \<Longrightarrow> state (with_body b c f) \<in> S"
  by (simp add: with_body_def split: option.split)

lemma state_requireAdmin: "c \<in> S \<Longrightarrow> (IsAdmin cl \<Longrightarrow> state r \<in> S) \<Longrightarrow> state (requireAdmin cl r c) \<in> S"
  by (simp add: requireAdmin_def)

lemma state_with_policy:
  "c \<in> S \<Longrightarrow> (\<And>p. live_policy (c_pol c) i = Some p \<Longrightarrow> po_tenant p = cl_tenant cl \<Longrightarrow> state (f (scanPolicy p)) \<in> S)
     \<Longrightarrow> state (with_policy cl i c f) \<in> S"
  by (simp add: with_policy_def GetPolicy_def scanPolicy_def split: option.split)

lemma state_if: "(b \<Longrightarrow> state r \<in> S) \<Longrightarrow> (\<not> b \<Longrightarrow> state r' \<in> S) \<Longrightarrow> state (if b then r else r') \<in> S"
  by simp

lemma state_with_group_policy:
  assumes "c \<in> S" "state (f None) \<in> S"
    and "\<And>p. p \<in> set (policies (c_pol c)) \<Longrightarrow> po_tenant p = cl_tenant cl \<Longrightarrow> state (f (Some (po_id p))) \<in> S"
  shows "state (with_group_policy cl s c f) \<in> S"
  unfolding with_group_policy_def
proof (intro state_if state_with_id assms(1,2))
  fix i
  assume n: "length (filter (\<lambda>p. po_id p = i \<and> po_tenant p = cl_tenant cl \<and> po_deleted p = None) (policies (c_pol c))) \<noteq> 0"
  then obtain p where "p \<in> set (policies (c_pol c))" "po_id p = i" "po_tenant p = cl_tenant cl"
    by (auto simp: filter_empty_conv)
  from assms(3) [OF this(1,3)] this(2) show "state (f (Some i)) \<in> S" by simp
qed (simp add: assms(1))

lemmas guards = state_with_id state_with_body state_requireAdmin state_with_policy state_with_group_policy state_if

lemma live_policy_Some: "live_policy db i = Some p \<Longrightarrow> p \<in> set (policies db) \<and> po_id p = i \<and> po_deleted p = None"
  unfolding live_policy_def by (drule find_Some_in) simp

lemma live_group_ex: "live_group cl i c \<longleftrightarrow> (\<exists>g \<in> set (groups (c_pol c)). g_id g = i \<and> g_tenant g = cl_tenant cl \<and> g_deleted g = None)"
  by (auto simp: live_group_def filter_empty_conv)

lemma state_on_policy: "fst (snd (on_policy i db f s)) = (case live_policy db i of None \<Rightarrow> s | Some p \<Rightarrow> fst (snd (f p)))"
  by (simp add: on_policy_def split: option.split)

section \<open>Owners\<close>

definition owners :: "PolDB \<Rightarrow> (ID \<times> ID) list" where "owners pol = map (\<lambda>p. (po_id p, po_tenant p)) (policies pol)"
definition group_owners :: "PolDB \<Rightarrow> (ID \<times> ID) list" where "group_owners pol = map (\<lambda>g. (g_id g, g_tenant g)) (groups pol)"

lemma owner_in: "p \<in> set (policies pol) \<Longrightarrow> po_tenant p = t \<Longrightarrow> (po_id p, t) \<in> set (owners pol)"
  by (auto simp: owners_def)

definition pol_inv :: "PolDB \<Rightarrow> bool" where
  "pol_inv pol \<longleftrightarrow> distinct (map fst (owners pol)) \<and> distinct (map fst (group_owners pol)) \<and> distinct (map hn_id (hostnames pol))
     \<and> (\<forall>g \<in> set (groups pol). \<forall>i. g_policy g = Some i \<longrightarrow> (i, g_tenant g) \<in> set (owners pol))"

definition refs_inv :: "Device list \<Rightarrow> PolDB \<Rightarrow> bool" where
  "refs_inv ds pol \<longleftrightarrow> (\<forall>d \<in> set ds. (\<forall>i. d_policy d = Some i \<longrightarrow> (i, d_tenant d) \<in> set (owners pol))
     \<and> (\<forall>g. d_group d = Some g \<longrightarrow> (g, d_tenant d) \<in> set (group_owners pol)))"

definition console_inv :: "(ID \<Rightarrow> ID) \<Rightarrow> Console \<Rightarrow> bool" where
  "console_inv home c \<longleftrightarrow> service_run home (c_db c) \<and> pol_inv (c_pol c) \<and> refs_inv (devices (c_db c)) (c_pol c)"

text \<open>An operation on the policy tables that keeps their owners and the groups.\<close>

definition keeps :: "PolDB \<Rightarrow> PolDB \<Rightarrow> bool" where
  "keeps pol pol' \<longleftrightarrow> owners pol' = owners pol \<and> groups pol' = groups pol \<and> (distinct (map hn_id (hostnames pol)) \<longrightarrow> distinct (map hn_id (hostnames pol')))"

lemma keeps_refl [simp]: "keeps pol pol" by (simp add: keeps_def)

lemma keeps_inv: "keeps pol pol' \<Longrightarrow> console_inv home c \<Longrightarrow> c_pol c = pol \<Longrightarrow> console_inv home (c\<lparr>c_pol := pol'\<rparr>)"
  by (auto simp: keeps_def console_inv_def pol_inv_def refs_inv_def group_owners_def)

lemma owners_set_policy:
  assumes "\<And>p. po_id (f p) = po_id p" "\<And>p. po_tenant (f p) = po_tenant p"
  shows "keeps pol (set_policy i f pol)"
  using assms by (simp add: keeps_def owners_def set_policy_def comp_def if_distrib cong: if_cong)

lemma keeps_UpdateTransport: "keeps pol (fst (snd (UpdateTransport i a m n ch pol)))"
  by (simp add: UpdateTransport_def state_on_policy owners_set_policy split: option.split)

lemma keeps_Update: "keeps pol (fst (snd (Update w i a n d e pol)))"
  by (simp add: Update_def state_on_policy owners_set_policy split: option.split)

lemma keeps_AddAllowedIP: "keeps pol (fst (snd (AddAllowedIP w n i a cidr d pol)))"
  by (simp add: AddAllowedIP_def state_on_policy Let_def keeps_def owners_def split: option.split sum.split)

lemma keeps_RemoveAllowedIP: "keeps pol (fst (snd (RemoveAllowedIP i a pol)))"
  by (simp add: RemoveAllowedIP_def state_on_policy keeps_def owners_def split: option.split)

lemma keeps_AddVirtualHost: "keeps pol (fst (snd (AddVirtualHost w n i a v r d pol)))"
  by (simp add: AddVirtualHost_def state_on_policy Let_def keeps_def owners_def split: option.split)

lemma keeps_RemoveVirtualHost: "keeps pol (fst (snd (RemoveVirtualHost i h a pol)))"
  by (simp add: RemoveVirtualHost_def state_on_policy keeps_def owners_def split: option.split)

lemma keeps_AddHostname: "keeps pol (fst (snd (AddHostname w n i a h g d pol)))"
  by (auto simp: AddHostname_def state_on_policy Let_def keeps_def owners_def split: option.split sum.split)

lemma keeps_RemoveHostname: "keeps pol (fst (snd (RemoveHostname i h a pol)))"
  by (simp add: RemoveHostname_def state_on_policy keeps_def owners_def distinct_map_filter split: option.split)

lemma keeps_UpdateSettings: "keeps pol (fst (snd (UpdateSettings i a st pol)))"
  by (simp add: UpdateSettings_def state_on_policy owners_set_policy split: option.split sum.split)

lemmas keeping = keeps_UpdateTransport keeps_Update keeps_AddAllowedIP keeps_RemoveAllowedIP keeps_AddVirtualHost
  keeps_RemoveVirtualHost keeps_AddHostname keeps_RemoveHostname keeps_UpdateSettings
section \<open>Every request keeps the invariant\<close>

lemma inv_same_refs:
  assumes "console_inv home c" "\<forall>d. same_row d (f d) \<and> d_deleted (f d) = d_deleted d"
    and "\<And>d. d \<in> set (devices (c_db c)) \<Longrightarrow> d_policy (f d) \<noteq> d_policy d \<Longrightarrow>
      (case d_policy (f d) of None \<Rightarrow> True | Some i \<Rightarrow> (i, d_tenant d) \<in> set (owners (c_pol c)))"
    and "\<And>d. d \<in> set (devices (c_db c)) \<Longrightarrow> d_group (f d) \<noteq> d_group d \<Longrightarrow>
      (case d_group (f d) of None \<Rightarrow> True | Some g \<Rightarrow> (g, d_tenant d) \<in> set (group_owners (c_pol c)))"
  shows "console_inv home (c\<lparr>c_db := (c_db c)\<lparr>devices := map f (devices (c_db c))\<rparr>\<rparr>)"
proof -
  have t: "d_tenant (f d) = d_tenant d" for d using assms(2) by (simp add: same_row_def)
  have "refs_inv (map f (devices (c_db c))) (c_pol c)"
    unfolding refs_inv_def
  proof (intro ballI conjI allI impI)
    fix d' assume "d' \<in> set (map f (devices (c_db c)))"
    then obtain d where d: "d \<in> set (devices (c_db c))" "d' = f d" by auto
    have r: "(\<forall>i. d_policy d = Some i \<longrightarrow> (i, d_tenant d) \<in> set (owners (c_pol c)))
        \<and> (\<forall>g. d_group d = Some g \<longrightarrow> (g, d_tenant d) \<in> set (group_owners (c_pol c)))"
      using assms(1) d(1) by (simp add: console_inv_def refs_inv_def)
    show "(i, d_tenant d') \<in> set (owners (c_pol c))" if "d_policy d' = Some i" for i
      using r assms(3) [OF d(1)] that unfolding d(2) t by (cases "d_policy (f d) = d_policy d") simp_all
    show "(g, d_tenant d') \<in> set (group_owners (c_pol c))" if "d_group d' = Some g" for g
      using r assms(4) [OF d(1)] that unfolding d(2) t by (cases "d_group (f d) = d_group d") simp_all
  qed
  moreover have "service_run home ((c_db c)\<lparr>devices := map f (devices (c_db c))\<rparr>)"
    using assms(1,2) by (intro service_run.edit) (simp_all add: console_inv_def)
  ultimately show ?thesis using assms(1) by (simp add: console_inv_def)
qed

lemma inv_Create:
  assumes "console_inv home c"
  shows "console_inv home (c\<lparr>c_pol := fst (snd (Create w n t tenant a name d (c_pol c)))\<rparr>)"
  using assms by (auto simp: Create_def Let_def console_inv_def pol_inv_def refs_inv_def owners_def group_owners_def)

lemma owners_Delete:
  "owners (snd (fst (snd (Delete t i a (ds, pol))))) = owners pol"
  "groups (snd (fst (snd (Delete t i a (ds, pol))))) = groups pol"
  "hostnames (snd (fst (snd (Delete t i a (ds, pol))))) = hostnames pol"
  by (simp_all add: Delete_def state_on_policy owners_def comp_def if_distrib cong: if_cong split: option.split)

lemma devices_Delete:
  "fst (fst (snd (Delete t i a (ds, pol)))) = (if live_policy pol i = None then ds
     else map (\<lambda>d. if d_policy d = Some i then d\<lparr>d_policy := None\<rparr> else d) ds)"
  by (simp add: Delete_def state_on_policy split: option.split)

lemma inv_both:
  assumes "console_inv home (c\<lparr>c_db := (c_db c)\<lparr>devices := ds\<rparr>\<rparr>)" "keeps (c_pol c) pol"
  shows "console_inv home (c\<lparr>c_db := (c_db c)\<lparr>devices := ds\<rparr>, c_pol := pol\<rparr>)"
  using keeps_inv [OF assms(2,1)] by simp

lemma devices_same [simp]: "c\<lparr>c_db := (c_db c)\<lparr>devices := devices (c_db c)\<rparr>\<rparr> = (c :: Console)"
  by simp

lemma inv_Delete:
  assumes "console_inv home c"
  shows "console_inv home (state (both_done c f (Delete t i a (devices (c_db c), c_pol c))))"
proof -
  have "console_inv home (c\<lparr>c_db := (c_db c)\<lparr>devices := fst (fst (snd (Delete t i a (devices (c_db c), c_pol c))))\<rparr>\<rparr>)"
  proof (cases "live_policy (c_pol c) i = None")
    case False
    show ?thesis unfolding devices_Delete if_not_P [OF False]
      by (rule inv_same_refs [OF assms]) (simp_all add: same_row_def split: if_split_asm)
  qed (use assms in \<open>simp add: devices_Delete\<close>)
  then show ?thesis unfolding state_both_done
    by (rule inv_both) (simp add: keeps_def owners_Delete)
qed

lemma assign_devices:
  "\<exists>f. fst (fst (snd (AssignToDevice d i a (ds, pol)))) = map f ds \<and> snd (fst (snd (AssignToDevice d i a (ds, pol)))) = pol
     \<and> (\<forall>x. f x = x \<or> d_id x = d \<and> (f x = x\<lparr>d_policy := None\<rparr>
          \<or> f x = x\<lparr>d_policy := Some i\<rparr> \<and> (\<exists>y \<in> set ds. \<exists>p. d_id y = d \<and> live_policy pol i = Some p \<and> d_tenant y = po_tenant p)))"
proof -
  let ?r = "AssignToDevice d i a (ds, pol)"
  consider "fst (snd ?r) = (ds, pol)" | "fst (snd ?r) = (map (\<lambda>x. if d_id x = d then x\<lparr>d_policy := None\<rparr> else x) ds, pol)"
    | y p where "fst (snd ?r) = (map (\<lambda>x. if d_id x = d then x\<lparr>d_policy := Some i\<rparr> else x) ds, pol)"
        "find (\<lambda>x. d_id x = d) ds = Some y" "live_policy pol i = Some p" "d_tenant y = po_tenant p"
  proof (cases "IsZero i")
    case True
    then show thesis using that(1,2) by (cases "live_device ds d") (simp_all add: AssignToDevice_def)
  next
    case False
    show thesis
    proof (cases "\<exists>y p. find (\<lambda>x. d_id x = d) ds = Some y \<and> live_policy pol i = Some p \<and> d_tenant y = po_tenant p")
      case True
      then obtain y p where y: "find (\<lambda>x. d_id x = d) ds = Some y" "live_policy pol i = Some p" "d_tenant y = po_tenant p" by blast
      show thesis by (rule that(3) [OF _ y]) (simp add: AssignToDevice_def False y)
    qed (use False that(1) in \<open>auto simp: AssignToDevice_def split: option.splits\<close>)
  qed
  then show ?thesis
  proof cases
    case 1
    then show ?thesis by (intro exI [of _ id]) simp
  next
    case 2
    then show ?thesis by (intro exI [of _ "\<lambda>x. if d_id x = d then x\<lparr>d_policy := None\<rparr> else x"]) simp
  next
    case (3 y p)
    have "y \<in> set ds \<and> d_id y = d" using find_Some_in [OF 3(2)] .
    with 3 show ?thesis by (intro exI [of _ "\<lambda>x. if d_id x = d then x\<lparr>d_policy := Some i\<rparr> else x"]) auto
  qed
qed

lemma one_device: "console_inv home c \<Longrightarrow> d \<in> set (devices (c_db c)) \<Longrightarrow> d' \<in> set (devices (c_db c)) \<Longrightarrow> d_id d = d_id d' \<Longrightarrow> d = d'"
  using service_inv [of home "c_db c"] by (auto simp: console_inv_def dev_inv_defs distinct_map inj_on_def)

lemma inv_Assign:
  assumes "console_inv home c"
  shows "console_inv home (state (both_done c f (AssignToDevice d i a (devices (c_db c), c_pol c))))"
proof -
  from assign_devices [of d i a "devices (c_db c)" "c_pol c"] obtain g where
    g: "fst (fst (snd (AssignToDevice d i a (devices (c_db c), c_pol c)))) = map g (devices (c_db c))"
      "snd (fst (snd (AssignToDevice d i a (devices (c_db c), c_pol c)))) = c_pol c"
    and x: "\<forall>x. g x = x \<or> d_id x = d \<and> (g x = x\<lparr>d_policy := None\<rparr> \<or> g x = x\<lparr>d_policy := Some i\<rparr>
      \<and> (\<exists>y \<in> set (devices (c_db c)). \<exists>p. d_id y = d \<and> live_policy (c_pol c) i = Some p \<and> d_tenant y = po_tenant p))" by blast
  have s: "\<forall>x. same_row x (g x) \<and> d_deleted (g x) = d_deleted x \<and> d_group (g x) = d_group x"
  proof
    fix y from x have "g y = y \<or> g y = y\<lparr>d_policy := None\<rparr> \<or> g y = y\<lparr>d_policy := Some i\<rparr>" by blast
    then show "same_row y (g y) \<and> d_deleted (g y) = d_deleted y \<and> d_group (g y) = d_group y" by (auto simp: same_row_def)
  qed
  have "console_inv home (c\<lparr>c_db := (c_db c)\<lparr>devices := map g (devices (c_db c))\<rparr>\<rparr>)"
  proof (rule inv_same_refs [OF assms])
    fix y assume y: "y \<in> set (devices (c_db c))" "d_policy (g y) \<noteq> d_policy y"
    from y(2) have n: "g y \<noteq> y" by metis
    with x have "d_id y = d" and "g y = y\<lparr>d_policy := None\<rparr> \<or> g y = y\<lparr>d_policy := Some i\<rparr>
        \<and> (\<exists>z \<in> set (devices (c_db c)). \<exists>p. d_id z = d \<and> live_policy (c_pol c) i = Some p \<and> d_tenant z = po_tenant p)" by blast+
    then consider "d_policy (g y) = None" | z p where "d_policy (g y) = Some i" "z \<in> set (devices (c_db c))" "d_id z = d_id y"
      "live_policy (c_pol c) i = Some p" "d_tenant z = po_tenant p" by auto
    then show "case d_policy (g y) of None \<Rightarrow> True | Some i \<Rightarrow> (i, d_tenant y) \<in> set (owners (c_pol c))"
    proof cases
      case 2
      then have "z = y" using one_device [OF assms] y(1) by blast
      with 2 live_policy_Some [OF 2(4)] show ?thesis by (auto simp: owners_def)
    qed simp
  qed (use s in auto)
  then show ?thesis unfolding state_both_done g by simp
qed

lemma pol_inv_groups:
  assumes "console_inv home c" "map (\<lambda>g. (g_id g, g_tenant g)) gs = group_owners (c_pol c) @ extra" "extra = [] \<or> (\<exists>g. extra = [g] \<and> fst g \<notin> g_id ` set (groups (c_pol c)))"
    and "\<And>g i. g \<in> set gs \<Longrightarrow> g_policy g = Some i \<Longrightarrow> (i, g_tenant g) \<in> set (owners (c_pol c))"
  shows "console_inv home (c\<lparr>c_pol := (c_pol c)\<lparr>groups := gs\<rparr>\<rparr>)"
proof -
  have o: "owners ((c_pol c)\<lparr>groups := gs\<rparr>) = owners (c_pol c)" "group_owners ((c_pol c)\<lparr>groups := gs\<rparr>) = group_owners (c_pol c) @ extra"
    using assms(2) by (simp_all add: owners_def group_owners_def)
  have "map fst (group_owners (c_pol c)) = map g_id (groups (c_pol c))" by (simp add: group_owners_def comp_def)
  then have "distinct (map fst (group_owners (c_pol c) @ extra))"
    using assms(1,3) by (auto simp: console_inv_def pol_inv_def)
  then have "pol_inv ((c_pol c)\<lparr>groups := gs\<rparr>)" using assms(1,4) unfolding pol_inv_def o by (simp add: console_inv_def pol_inv_def)
  moreover have "refs_inv (devices (c_db c)) ((c_pol c)\<lparr>groups := gs\<rparr>)"
    using assms(1) unfolding refs_inv_def o by (simp add: console_inv_def refs_inv_def)
  ultimately show ?thesis using assms(1) by (simp add: console_inv_def)
qed

lemma group_refs: "console_inv home c \<Longrightarrow> g \<in> set (groups (c_pol c)) \<Longrightarrow> g_policy g = Some i \<Longrightarrow> (i, g_tenant g) \<in> set (owners (c_pol c))"
  by (simp add: console_inv_def pol_inv_def)

lemma group_refs_of: "console_inv home c \<Longrightarrow> g \<in> set (groups (c_pol c)) \<Longrightarrow> g_policy g = Some i \<Longrightarrow> g_tenant g = t \<Longrightarrow> (i, t) \<in> set (owners (c_pol c))"
  using group_refs by blast

lemma inv_set_group:
  assumes "console_inv home c" "\<And>g. g_id (f g) = g_id g" "\<And>g. g_tenant (f g) = g_tenant g"
    and "\<And>g i. g \<in> set (groups (c_pol c)) \<Longrightarrow> g_tenant g = cl_tenant cl \<Longrightarrow> g_policy (f g) = Some i \<Longrightarrow> (i, g_tenant g) \<in> set (owners (c_pol c))"
  shows "console_inv home (set_group i cl f c)"
  unfolding set_group_def
proof (rule pol_inv_groups [OF assms(1), of _ "[]"])
  fix g j assume "g \<in> set (map (\<lambda>g. if g_id g = i \<and> g_tenant g = cl_tenant cl \<and> g_deleted g = None then f g else g) (groups (c_pol c)))"
    and j: "g_policy g = Some j"
  then obtain h where h: "h \<in> set (groups (c_pol c))" "g = (if g_id h = i \<and> g_tenant h = cl_tenant cl \<and> g_deleted h = None then f h else h)" by auto
  then show "(j, g_tenant g) \<in> set (owners (c_pol c))"
    using assms(3) assms(4) [OF h(1), of j] group_refs [OF assms(1) h(1), of j] j by (auto split: if_split_asm)
qed (use assms(2,3) in \<open>simp_all add: group_owners_def comp_def if_distrib cong: if_cong\<close>)
lemma inv_with_live_group:
  assumes "live_group cl i c"
  shows "(i, cl_tenant cl) \<in> set (group_owners (c_pol c))"
  using assms unfolding live_group_ex by (auto simp: group_owners_def)

lemma inv_tenant_device:
  assumes "console_inv home c" "\<forall>d. same_row d (f d) \<and> d_deleted (f d) = d_deleted d \<and> d_policy (f d) = d_policy d"
    and "\<And>d g. d_tenant d = cl_tenant cl \<Longrightarrow> d_group (f d) = Some g \<Longrightarrow> d_group (f d) \<noteq> d_group d \<Longrightarrow> (g, cl_tenant cl) \<in> set (group_owners (c_pol c))"
  shows "console_inv home (set_tenant_device i cl f c)"
  unfolding set_tenant_device_def
  by (rule inv_same_refs [OF assms(1)]) (use assms(2,3) in \<open>auto simp: same_row_def split: option.split if_split_asm\<close>)

lemma inv_db:
  assumes "console_inv home c" "service_run home db" "refs_inv (devices db) (c_pol c)"
  shows "console_inv home (c\<lparr>c_db := db\<rparr>)"
  using assms by (simp add: console_inv_def)

lemma inv_tenants: "console_inv home c \<Longrightarrow> console_inv home (set_tenant cl f c)"
  by (simp add: set_tenant_def console_inv_def service_run.edit_tenants)

lemma refs_map:
  assumes "refs_inv ds pol" "\<And>d. d_tenant (f d) = d_tenant d \<and> d_policy (f d) = d_policy d \<and> d_group (f d) = d_group d"
  shows "refs_inv (map f ds) pol"
  using assms by (auto simp: refs_inv_def)

lemma inv_revoke_call:
  assumes "console_inv home c"
  shows "console_inv home (c\<lparr>c_db := fst (snd (Revoke t i a why (c_db c)))\<rparr>)"
proof (rule inv_db [OF assms(1)])
  obtain e db l where r: "Revoke t i a why (c_db c) = (e, db, l)" by (metis prod_cases3)
  then show "service_run home (fst (snd (Revoke t i a why (c_db c))))"
    using assms by (auto simp: console_inv_def intro: service_run.revoke)
  have "refs_inv (devices (c_db c)) (c_pol c)" using assms(1) by (simp add: console_inv_def)
  then show "refs_inv (devices (fst (snd (Revoke t i a why (c_db c))))) (c_pol c)"
    by (auto simp: Revoke_def softDeleteDevice_def revokeClientCerts_def set_device_def intro!: refs_map split: option.split)
qed

lemma inv_filter_call:
  assumes "console_inv home c"
  shows "console_inv home (c\<lparr>c_db := fst (snd (UpdateAppFilter i a mode pkgs (c_db c)))\<rparr>)"
proof (rule inv_db [OF assms(1)])
  obtain e db l where u: "UpdateAppFilter i a mode pkgs (c_db c) = (e, db, l)" by (metis prod_cases3)
  then show "service_run home (fst (snd (UpdateAppFilter i a mode pkgs (c_db c))))"
    using assms by (auto simp: console_inv_def intro: service_run.app_filter)
  have r: "refs_inv (devices (c_db c)) (c_pol c)" using assms(1) by (simp add: console_inv_def)
  from u consider "db = c_db c" | m clean e2 where "updateAppFilter i m clean (c_db c) = (e2, db)"
    by (auto simp: UpdateAppFilter_def split: if_split_asm option.split_asm sum.split_asm prod.split_asm)
  then show "refs_inv (devices (fst (snd (UpdateAppFilter i a mode pkgs (c_db c))))) (c_pol c)"
    using r unfolding u by cases (auto simp: updateAppFilter_def Let_def intro!: refs_map)
qed

lemma inv_new_group:
  assumes "console_inv home c" "g_id g \<notin> g_id ` set (groups (c_pol c))"
    and "\<And>i. g_policy g = Some i \<Longrightarrow> \<exists>q \<in> set (policies (c_pol c)). i = po_id q \<and> po_tenant q = g_tenant g"
  shows "console_inv home (c\<lparr>c_pol := (c_pol c)\<lparr>groups := groups (c_pol c) @ [g]\<rparr>\<rparr>)"
proof (rule pol_inv_groups [OF assms(1), of _ "[(g_id g, g_tenant g)]"])
  fix h i assume "h \<in> set (groups (c_pol c) @ [g])" "g_policy h = Some i"
  then show "(i, g_tenant h) \<in> set (owners (c_pol c))"
    using group_refs [OF assms(1), of h i] assms(3) [of i] by (auto intro: owner_in)
qed (use assms(2) in \<open>simp_all add: group_owners_def\<close>)

lemma inv_serve:
  assumes "console_inv home c"
  shows "state (serve ev cl q c) \<in> {c. console_inv home c}"
proof -
  have c: "c \<in> {c. console_inv home c}" using assms by simp
  note unfolds = serve_def call.case state_answered split_beta Let_def
  note keep = keeps_inv [OF _ assms refl]
  show ?thesis
  proof (cases q)
    case (RevokeDevice s why)
    show ?thesis unfolding RevokeDevice unfolds revokeDevice_def by (intro guards c) (simp add: inv_revoke_call [OF assms])
  next
    case (SetAppFilter s b)
    show ?thesis unfolding SetAppFilter unfolds updateDeviceAppFilter_def
      by (intro guards c) (simp_all add: assms inv_filter_call [OF assms])
  next
    case (AssignPolicy s b)
    show ?thesis unfolding AssignPolicy unfolds assignDevicePolicy_def
      by (intro guards c; (rule CollectI, rule inv_Assign [OF assms])?) (simp_all add: assms)
  next
    case (CreatePolicy b)
    show ?thesis unfolding CreatePolicy unfolds createPolicy_def by (intro guards c) (simp add: inv_Create [OF assms])
  next
    case (UpdatePolicy s b)
    show ?thesis unfolding UpdatePolicy unfolds updatePolicy_def by (intro guards c) (simp add: keep keeping)
  next
    case (DeletePolicy s)
    show ?thesis unfolding DeletePolicy unfolds deletePolicy_def by (intro guards c) (rule CollectI, rule inv_Delete [OF assms])
  next
    case (AddCIDR s b)
    show ?thesis unfolding AddCIDR unfolds addAllowedIP_def by (intro guards c) (simp_all add: assms keep keeping)
  next
    case (RemoveCIDR s a)
    show ?thesis unfolding RemoveCIDR unfolds removeAllowedIP_def by (intro guards c) (simp add: keep keeping)
  next
    case (AddVirtual s b)
    show ?thesis unfolding AddVirtual unfolds addVirtualHost_def by (intro guards c) (simp_all add: assms keep keeping)
  next
    case (RemoveVirtual s h)
    show ?thesis unfolding RemoveVirtual unfolds removeVirtualHost_def by (intro guards c) (simp add: keep keeping)
  next
    case (SetTransport s b)
    show ?thesis unfolding SetTransport unfolds updatePolicyTransport_def by (intro guards c) (simp add: keep keeping)
  next
    case (SetSettings s b)
    show ?thesis unfolding SetSettings serve_def call.case state_answered updatePolicySettings_def by (intro guards c) (simp add: keep keeping)
  next
    case (AddName s b)
    show ?thesis unfolding AddName unfolds addPolicyHostname_def by (intro guards c) (simp add: keep keeping)
  next
    case (RemoveName s h)
    show ?thesis unfolding RemoveName unfolds removePolicyHostname_def by (intro guards c) (simp add: keep keeping)
  next
    case (CreateGroup b)
    show ?thesis unfolding CreateGroup unfolds createGroup_def
      by (intro guards c) (auto simp: assms image_iff intro!: inv_new_group [OF assms])
  next
    case (UpdateGroup s b)
    show ?thesis unfolding UpdateGroup unfolds updateGroup_def
      by (intro guards c) (auto simp: assms owner_in intro!: inv_set_group [OF assms] dest: group_refs_of [OF assms] split: if_split_asm)
  next
    case (DeleteGroup s)
    have "console_inv home (set_group i cl (\<lambda>g. g\<lparr>g_deleted := Some (ev_now ev)\<rparr>) c)" for i
      by (rule inv_set_group [OF assms]) (simp_all add: group_refs_of [OF assms])
    then show ?thesis unfolding DeleteGroup unfolds deleteGroup_def
      by (intro guards c) (auto simp: assms same_row_def intro!: inv_same_refs split: if_split_asm)
  next
    case (AssignGroup s b)
    show ?thesis unfolding AssignGroup unfolds assignGroup_def
      by (intro guards c) (auto simp: assms same_row_def intro!: inv_tenant_device [OF assms] inv_with_live_group)
  next
    case (SetExpiry s b)
    show ?thesis unfolding SetExpiry unfolds setDeviceExpiry_def
      by (intro guards c) (auto simp: assms same_row_def intro!: inv_tenant_device [OF assms])
  next
    case (SetTenantExpiry b)
    show ?thesis unfolding SetTenantExpiry unfolds setTenantExpiry_def by (intro guards c) (simp_all add: assms inv_tenants)
  next
    case (SetMinOS b)
    show ?thesis unfolding SetMinOS unfolds setMinOS_def by (intro guards c) (simp_all add: assms inv_tenants)
  qed
qed
section \<open>Histories\<close>

text \<open>
  Devices register and rotate, tenants are edited, and callers of any tenant and role send console
  requests, starting from empty tables.
\<close>

inductive console_run :: "(ID \<Rightarrow> ID) \<Rightarrow> Console \<Rightarrow> bool" for home where
  start: "devices (c_db c) = [] \<Longrightarrow> dkeys (c_db c) = [] \<Longrightarrow> policies (c_pol c) = [] \<Longrightarrow> hostnames (c_pol c) = [] \<Longrightarrow>
    groups (c_pol c) = [] \<Longrightarrow> console_run home c"
| register: "console_run home c \<Longrightarrow> (if IsZero (rp_tenant p) then tenantID s else rp_tenant p) = home (rp_user p) \<Longrightarrow>
    Register s d p (c_db c) = (r, db', au) \<Longrightarrow> console_run home (c\<lparr>c_db := db'\<rparr>)"
| rotate: "console_run home c \<Longrightarrow> RotateKey s d q (c_db c) = (a, db', au) \<Longrightarrow> console_run home (c\<lparr>c_db := db'\<rparr>)"
| edit_tenants: "console_run home c \<Longrightarrow> console_run home (c\<lparr>c_db := (c_db c)\<lparr>tenants := ts\<rparr>\<rparr>)"
| request: "console_run home c \<Longrightarrow> serve ev cl q c = (n, c', l) \<Longrightarrow> console_run home c'"

lemma refs_fewer:
  assumes "refs_inv ds pol" "\<And>d. d_tenant (f d) = d_tenant d \<and> d_group (f d) = d_group d \<and> (d_policy (f d) = None \<or> d_policy (f d) = d_policy d)"
  shows "refs_inv (map f ds) pol"
proof -
  have p: "d_policy d = Some i" if "d_policy (f d) = Some i" for d i using assms(2) [of d] that by auto
  have "(\<forall>i. d_policy (f d) = Some i \<longrightarrow> (i, d_tenant (f d)) \<in> set (owners pol))
     \<and> (\<forall>g. d_group (f d) = Some g \<longrightarrow> (g, d_tenant (f d)) \<in> set (group_owners pol))" if "d \<in> set ds" for d
    using assms(1) that assms(2) [of d] p [of d] unfolding refs_inv_def by metis
  then show ?thesis unfolding refs_inv_def set_map by blast
qed

lemma register_refs:
  assumes "Register s d p (c_db c) = (r, db', au)" "console_inv home c"
  shows "refs_inv (devices db') (c_pol c)"
proof -
  have r: "refs_inv (devices (c_db c)) (c_pol c)" using assms(2) by (simp add: console_inv_def)
  from assms(1) show ?thesis
  proof (cases rule: Register_cases)
    case (2 q tenant dev al)
    from register_tx_Inr [OF 2(3)] obtain att pi db1 al1 db3 where
      f: "DeviceInv.upsert s d q (c_db c) = Inr (dev, att, pi, db1)"
      and al: "allocateAndIssue s d dev (rp_public_key q) tenant (rp_csr q) (rp_ciphertext q) (recordAttestation (dr_record d) (d_id dev) att pi db1) = Inr (al1, db3)"
      and st: "devices db' = devices db3" by blast
    have same: "devices db' = devices db1" using st issue_effect [OF al [unfolded allocateAndIssue_def]] by (simp add: recordAttestation_def)
    show ?thesis
    proof (cases "findDeviceByInstall (c_db c) (rp_user q) (rp_install q)")
      case None
      with f obtain d0 where "insertDevice (dr_device d) (dr_clock d) d0 (c_db c) = Inr (dev, db1)"
        by (auto simp: DeviceInv.upsert_def register_new_def and_then_Inr)
      with r same show ?thesis by (auto simp: insertDevice_def Let_def refs_inv_def split: if_split_asm)
    next
      case (Some dev0)
      with f have "register_existing s d q dev0 (c_db c) = Inr (dev, att, pi, db1)" by (simp add: DeviceInv.upsert_def)
      from readmitted_exists [OF this] obtain g where g: "devices db1 = map g (devices (c_db c))"
        "\<forall>x. readmitted q (d_id dev0) x (g x)" by blast
      have "d_tenant (g x) = d_tenant x \<and> d_group (g x) = d_group x \<and> (d_policy (g x) = None \<or> d_policy (g x) = d_policy x)" for x
        using spec [OF g(2), of x] by (auto simp: readmitted_def same_row_def split: if_split_asm)
      then show ?thesis unfolding same g(1) by (rule refs_fewer [OF r])
    qed
  qed (use r in simp)
qed

lemma rotate_refs:
  assumes "RotateKey s d q db = (a, db', au)"
  shows "devices db' = devices db"
  using assms
proof (cases rule: RotateKey_cases)
  case (2 r tenant al)
  from 2(5) show ?thesis by (auto simp: rotate_tx_def Let_def and_then_Inr dest!: issue_effect)
qed simp

lemma console_run_inv: "console_run home c \<Longrightarrow> console_inv home c"
proof (induction rule: console_run.induct)
  case (start c)
  then show ?case by (simp add: console_inv_def pol_inv_def refs_inv_def owners_def group_owners_def service_run.start)
next
  case (register c p s d r db' au)
  then have "service_run home db'" by (meson console_inv_def service_run.register)
  then show ?case by (rule inv_db [OF register.IH _ register_refs [OF register.hyps(3) register.IH]])
next
  case (rotate c s d q a db' au)
  then have "service_run home db'" by (meson console_inv_def service_run.rotate)
  then show ?case using rotate.IH rotate_refs [OF rotate.hyps(2)] by (intro inv_db) (simp_all add: console_inv_def)
next
  case (edit_tenants c ts)
  then show ?case by (simp add: console_inv_def service_run.edit_tenants)
next
  case (request c ev cl q n c' l)
  from inv_serve [OF request.IH, of ev cl q] request.hyps(2) show ?case by simp
qed

text \<open>
  C10. References never leave a tenant: whatever devices register and whatever callers of any tenant ask,
  the policy and the group a device has and the policy a group has are rows of the same tenant, and the
  device service's tables are ones its own histories reach, so its guarantees hold for them.
\<close>

theorem references_stay_in_tenant:
  assumes "console_run home c"
  shows "service_run home (c_db c)
    \<and> (\<forall>d \<in> set (devices (c_db c)). \<forall>i. d_policy d = Some i \<longrightarrow> (\<exists>p \<in> set (policies (c_pol c)). po_id p = i \<and> po_tenant p = d_tenant d))
    \<and> (\<forall>d \<in> set (devices (c_db c)). \<forall>i. d_group d = Some i \<longrightarrow> (\<exists>g \<in> set (groups (c_pol c)). g_id g = i \<and> g_tenant g = d_tenant d))
    \<and> (\<forall>g \<in> set (groups (c_pol c)). \<forall>i. g_policy g = Some i \<longrightarrow> (\<exists>p \<in> set (policies (c_pol c)). po_id p = i \<and> po_tenant p = g_tenant g))"
proof -
  have o: "(i, t) \<in> set (owners pol) \<longleftrightarrow> (\<exists>p \<in> set (policies pol). po_id p = i \<and> po_tenant p = t)"
    "(i, t) \<in> set (group_owners pol) \<longleftrightarrow> (\<exists>g \<in> set (groups pol). g_id g = i \<and> g_tenant g = t)" for i t pol
    by (auto simp: owners_def group_owners_def)
  show ?thesis using console_run_inv [OF assms] unfolding console_inv_def pol_inv_def refs_inv_def o by blast
qed
section \<open>Isolation of tenants\<close>

definition other_owned :: "PolDB \<Rightarrow> ID \<Rightarrow> ID \<Rightarrow> bool" where
  "other_owned pol t i \<longleftrightarrow> (\<exists>p \<in> set (policies pol). po_id p = i \<and> po_tenant p \<noteq> t)"

text \<open>All rows that belong to other tenants than \<open>t\<close>.\<close>

definition foreign_dev where
  "foreign_dev t db = (filter (\<lambda>d. d_tenant d \<noteq> t) (devices db), filter (\<lambda>x. t_id x \<noteq> t) (tenants db), dkeys db, psks db, certs db,
     attestations db, state_tokens db)"

definition foreign_pol where
  "foreign_pol t pol = (filter (\<lambda>p. po_tenant p \<noteq> t) (policies pol), filter (\<lambda>g. g_tenant g \<noteq> t) (groups pol),
     filter (\<lambda>a. other_owned pol t (ai_policy a)) (allowed pol), filter (\<lambda>v. other_owned pol t (vh_policy v)) (virtuals pol),
     filter (\<lambda>h. other_owned pol t (hn_policy h)) (hostnames pol),
     filter (\<lambda>r. \<exists>h \<in> set (hostnames pol). hn_id h = re_host r \<and> other_owned pol t (hn_policy h)) (resolutions pol),
     rules pol, memberships pol)"

definition foreign where "foreign t c = (foreign_dev t (c_db c), foreign_pol t (c_pol c))"

lemma foreign_sel: "foreign_pol t pol = foreign_pol t (c_pol c) \<Longrightarrow> foreign t (c\<lparr>c_pol := pol\<rparr>) = foreign t c"
  by (simp add: foreign_def)

lemma filter_map_same:
  assumes "\<And>x. x \<in> set xs \<Longrightarrow> f x \<noteq> x \<Longrightarrow> \<not> P x \<and> \<not> P (f x)"
  shows "filter P (map f xs) = filter P xs"
  using assms
proof (induction xs)
  case (Cons x xs)
  then show ?case by (cases "f x = x") auto
qed simp

lemma other_owned_owners: "other_owned pol t i \<longleftrightarrow> (\<exists>t'. (i, t') \<in> set (owners pol) \<and> t' \<noteq> t)"
  by (auto simp: other_owned_def owners_def)

lemma own_policy:
  assumes "pol_inv pol" "live_policy pol i = Some p"
  shows "\<not> other_owned pol (po_tenant p) i" "\<And>q. q \<in> set (policies pol) \<Longrightarrow> po_id q = i \<Longrightarrow> q = p"
proof -
  have d: "distinct (map po_id (policies pol))" using assms(1) by (simp add: pol_inv_def owners_def comp_def)
  note l = live_policy_Some [OF assms(2)]
  show e: "q = p" if "q \<in> set (policies pol)" "po_id q = i" for q
    using d l that by (auto simp: distinct_map inj_on_def)
  then show "\<not> other_owned pol (po_tenant p) i" by (auto simp: other_owned_def)
qed

lemma iso_set_policy:
  assumes "pol_inv pol" "live_policy pol i = Some p" "po_tenant p = t" "\<And>p. po_id (f p) = po_id p" "\<And>p. po_tenant (f p) = po_tenant p"
  shows "foreign_pol t (set_policy i f pol) = foreign_pol t pol"
proof -
  have o: "other_owned (set_policy i f pol) t = other_owned pol t"
    using owners_set_policy [of f pol i] assms(4,5) by (intro ext) (simp add: other_owned_owners keeps_def)
  have "filter (\<lambda>p. po_tenant p \<noteq> t) (policies (set_policy i f pol)) = filter (\<lambda>p. po_tenant p \<noteq> t) (policies pol)"
    unfolding set_policy_def using own_policy(2) [OF assms(1,2)] assms(3,5)
    by (auto intro!: filter_map_same split: if_split_asm)
  moreover have "groups (set_policy i f pol) = groups pol" "allowed (set_policy i f pol) = allowed pol" "virtuals (set_policy i f pol) = virtuals pol"
    "hostnames (set_policy i f pol) = hostnames pol" "resolutions (set_policy i f pol) = resolutions pol" "rules (set_policy i f pol) = rules pol"
    "memberships (set_policy i f pol) = memberships pol" by (simp_all add: set_policy_def)
  ultimately show ?thesis unfolding foreign_pol_def o by simp
qed

lemma iso_Create: "foreign_pol t (fst (snd (Create w n m t a name d pol))) = foreign_pol t pol"
proof -
  have "other_owned (pol\<lparr>policies := policies pol @ [p]\<rparr>) t = other_owned pol t" if "po_tenant p = t" for p
    using that by (intro ext) (auto simp: other_owned_def)
  then show ?thesis by (simp add: Create_def Let_def foreign_pol_def)
qed

lemma iso_Delete_pol:
  assumes "pol_inv pol" "live_policy pol i = Some p" "po_tenant p = t"
  shows "foreign_pol t (snd (fst (snd (Delete m i a (ds, pol))))) = foreign_pol t pol"
proof -
  let ?f = "\<lambda>p. if po_id p = i then p\<lparr>po_deleted := Some m\<rparr> else p"
  let ?pol = "pol\<lparr>policies := map ?f (policies pol)\<rparr>"
  have "owners ?pol = owners pol" by (simp add: owners_def comp_def if_distrib cong: if_cong)
  then have o: "other_owned ?pol t = other_owned pol t" by (intro ext) (simp add: other_owned_owners)
  have "filter (\<lambda>p. po_tenant p \<noteq> t) (map ?f (policies pol)) = filter (\<lambda>p. po_tenant p \<noteq> t) (policies pol)"
    using own_policy(2) [OF assms(1,2)] assms(3) by (auto intro!: filter_map_same split: if_split_asm)
  then have "foreign_pol t ?pol = foreign_pol t pol" unfolding foreign_pol_def o by simp
  then show ?thesis by (simp add: Delete_def on_policy_def assms(2))
qed

lemma iso_AddAllowedIP:
  assumes "pol_inv pol" "live_policy pol i = Some p" "po_tenant p = t"
  shows "foreign_pol t (fst (snd (AddAllowedIP w n i a cidr d pol))) = foreign_pol t pol"
proof -
  have "other_owned (pol\<lparr>allowed := xs\<rparr>) t = other_owned pol t" for xs by (intro ext) (simp add: other_owned_def)
  then show ?thesis using own_policy(1) [OF assms(1,2)] assms(3)
    by (simp add: AddAllowedIP_def state_on_policy Let_def foreign_pol_def split: option.split sum.split)
qed

lemma iso_AddHostname:
  assumes "pol_inv pol" "live_policy pol i = Some p" "po_tenant p = t"
  shows "foreign_pol t (fst (snd (AddHostname w n i a h g d pol))) = foreign_pol t pol"
proof -
  have "other_owned (pol\<lparr>hostnames := xs\<rparr>) t = other_owned pol t" for xs by (intro ext) (simp add: other_owned_def)
  then show ?thesis using own_policy(1) [OF assms(1,2)] assms(3)
    by (simp add: AddHostname_def state_on_policy Let_def foreign_pol_def split: option.split sum.split)
qed

lemma iso_RemoveHostname:
  assumes "pol_inv pol" "live_policy pol i = Some p" "po_tenant p = t"
  shows "foreign_pol t (fst (snd (RemoveHostname i h a pol))) = foreign_pol t pol"
proof -
  let ?hs = "filter (\<lambda>x. \<not> (hn_id x = h \<and> hn_policy x = i)) (hostnames pol)"
  let ?pol = "pol\<lparr>hostnames := ?hs, resolutions := filter (\<lambda>r. re_host r \<noteq> h) (resolutions pol)\<rparr>"
  have o: "other_owned ?pol t = other_owned pol t" by (intro ext) (simp add: other_owned_def)
  have n: "\<not> other_owned pol t i" using own_policy(1) [OF assms(1,2)] assms(3) by simp
  have d: "distinct (map hn_id (hostnames pol))" using assms(1) by (simp add: pol_inv_def)
  have "foreign_pol t ?pol = foreign_pol t pol" if "\<exists>x \<in> set (hostnames pol). hn_id x = h \<and> hn_policy x = i"
  proof -
    from that obtain x where x: "x \<in> set (hostnames pol)" "hn_id x = h" "hn_policy x = i" by blast
    have "y = x" if "y \<in> set (hostnames pol)" "hn_id y = h" for y using d x that by (auto simp: distinct_map inj_on_def)
    then have k: "(r \<noteq> h \<and> (\<exists>y \<in> set ?hs. hn_id y = r \<and> other_owned pol t (hn_policy y)))
        \<longleftrightarrow> (\<exists>y \<in> set (hostnames pol). hn_id y = r \<and> other_owned pol t (hn_policy y))" for r
      using n x(3) by auto
    have "filter (\<lambda>y. other_owned pol t (hn_policy y)) ?hs = filter (\<lambda>y. other_owned pol t (hn_policy y)) (hostnames pol)"
      using n by (auto simp: filter_filter intro!: filter_cong)
    moreover have "filter (\<lambda>r. \<exists>y \<in> set ?hs. hn_id y = re_host r \<and> other_owned pol t (hn_policy y)) (filter (\<lambda>r. re_host r \<noteq> h) (resolutions pol))
        = filter (\<lambda>r. \<exists>y \<in> set (hostnames pol). hn_id y = re_host r \<and> other_owned pol t (hn_policy y)) (resolutions pol)"
      unfolding filter_filter k [symmetric] ..
    ultimately show ?thesis unfolding foreign_pol_def o by simp
  qed
  then show ?thesis by (simp add: RemoveHostname_def on_policy_def assms(2))
qed
text \<open>The requests whose handlers do not compare the tenant of what they change with the caller's.\<close>

definition unguarded :: "call \<Rightarrow> bool" where
  "unguarded q = (case q of RevokeDevice _ _ \<Rightarrow> True | RemoveCIDR _ _ \<Rightarrow> True | AddVirtual _ _ \<Rightarrow> True
     | RemoveVirtual _ _ \<Rightarrow> True | SetTransport _ _ \<Rightarrow> True | _ \<Rightarrow> False)"

lemma iso_devices:
  assumes "\<And>d. d \<in> set (devices (c_db c)) \<Longrightarrow> f d \<noteq> d \<Longrightarrow> d_tenant d = t \<and> d_tenant (f d) = t"
  shows "foreign t (c\<lparr>c_db := (c_db c)\<lparr>devices := map f (devices (c_db c))\<rparr>\<rparr>) = foreign t c"
proof -
  have "filter (\<lambda>d. d_tenant d \<noteq> t) (map f (devices (c_db c))) = filter (\<lambda>d. d_tenant d \<noteq> t) (devices (c_db c))"
    using assms by (intro filter_map_same) blast
  then show ?thesis by (simp add: foreign_def foreign_dev_def)
qed

lemma iso_tenant_device: "(\<And>d. d_tenant (f d) = d_tenant d) \<Longrightarrow> foreign (cl_tenant cl) (set_tenant_device i cl f c) = foreign (cl_tenant cl) c"
  unfolding set_tenant_device_def by (rule iso_devices) (auto split: if_split_asm)

lemma iso_tenants: "(\<And>t. t_id (f t) = t_id t) \<Longrightarrow> foreign (cl_tenant cl) (set_tenant cl f c) = foreign (cl_tenant cl) c"
proof -
  assume i: "\<And>t. t_id (f t) = t_id t"
  have "filter (\<lambda>x. t_id x \<noteq> cl_tenant cl) (map (\<lambda>t. if t_id t = cl_tenant cl then f t else t) (tenants (c_db c)))
      = filter (\<lambda>x. t_id x \<noteq> cl_tenant cl) (tenants (c_db c))"
    by (rule filter_map_same) (auto simp: i split: if_split_asm)
  then show ?thesis by (simp add: foreign_def foreign_dev_def set_tenant_def)
qed

lemma iso_groups:
  assumes "filter (\<lambda>g. g_tenant g \<noteq> t) gs = filter (\<lambda>g. g_tenant g \<noteq> t) (groups (c_pol c))"
  shows "foreign t (c\<lparr>c_pol := (c_pol c)\<lparr>groups := gs\<rparr>\<rparr>) = foreign t c"
proof -
  have "other_owned ((c_pol c)\<lparr>groups := gs\<rparr>) t = other_owned (c_pol c) t" by (intro ext) (simp add: other_owned_def)
  then show ?thesis using assms by (simp add: foreign_def foreign_pol_def)
qed

lemma iso_set_group:
  assumes "\<And>g. g_tenant (f g) = g_tenant g"
  shows "foreign (cl_tenant cl) (set_group i cl f c) = foreign (cl_tenant cl) c"
  unfolding set_group_def by (rule iso_groups, rule filter_map_same) (auto simp: assms split: if_split_asm)

lemma owns_tenant:
  assumes "console_inv home c" "cl_tenant cl = home (cl_user cl)" "ownsDevice cl i (c_db c)" "d \<in> set (devices (c_db c))" "d_id d = i"
  shows "d_tenant d = cl_tenant cl"
proof -
  from assms(3) obtain x where x: "x \<in> set (devices (c_db c))" "d_id x = i" "d_tenant x = cl_tenant cl \<or> d_user x = cl_user cl"
    by (auto simp: ownsDevice_def filter_empty_conv split: if_split_asm)
  then have "x = d" using one_device [OF assms(1)] assms(4,5) by blast
  moreover have "d_tenant d = home (d_user d)"
    using assms(1,4) service_inv [of home "c_db c"] by (simp add: console_inv_def dev_inv_defs)
  ultimately show ?thesis using x(3) assms(2) by auto
qed

lemma iso_Assign:
  assumes "console_inv home c" "cl_tenant cl = home (cl_user cl)" "ownsDevice cl d (c_db c)"
  shows "foreign (cl_tenant cl) (state (both_done c f (AssignToDevice d i a (devices (c_db c), c_pol c)))) = foreign (cl_tenant cl) c"
proof -
  from assign_devices [of d i a "devices (c_db c)" "c_pol c"] obtain g where
    g: "fst (fst (snd (AssignToDevice d i a (devices (c_db c), c_pol c)))) = map g (devices (c_db c))"
      "snd (fst (snd (AssignToDevice d i a (devices (c_db c), c_pol c)))) = c_pol c"
    and x: "\<forall>x. g x = x \<or> d_id x = d \<and> (g x = x\<lparr>d_policy := None\<rparr> \<or> g x = x\<lparr>d_policy := Some i\<rparr>
      \<and> (\<exists>y \<in> set (devices (c_db c)). \<exists>p. d_id y = d \<and> live_policy (c_pol c) i = Some p \<and> d_tenant y = po_tenant p))" by blast
  have "foreign (cl_tenant cl) (c\<lparr>c_db := (c_db c)\<lparr>devices := map g (devices (c_db c))\<rparr>\<rparr>) = foreign (cl_tenant cl) c"
  proof (rule iso_devices)
    fix y assume y: "y \<in> set (devices (c_db c))" "g y \<noteq> y"
    with x have "d_id y = d" "g y = y\<lparr>d_policy := None\<rparr> \<or> g y = y\<lparr>d_policy := Some i\<rparr>" by blast+
    moreover from this owns_tenant [OF assms y(1)] have "d_tenant y = cl_tenant cl" by simp
    ultimately show "d_tenant y = cl_tenant cl \<and> d_tenant (g y) = cl_tenant cl" by auto
  qed
  then show ?thesis unfolding state_both_done g by simp
qed

lemma iso_Delete:
  assumes "console_inv home c" "live_policy (c_pol c) i = Some p" "po_tenant p = t"
  shows "foreign t (state (both_done c f (Delete m i a (devices (c_db c), c_pol c)))) = foreign t c"
proof -
  let ?g = "\<lambda>d. if d_policy d = Some i then d\<lparr>d_policy := None\<rparr> else d"
  have inv: "pol_inv (c_pol c)" "refs_inv (devices (c_db c)) (c_pol c)" using assms(1) by (simp_all add: console_inv_def)
  have "foreign t (c\<lparr>c_db := (c_db c)\<lparr>devices := map ?g (devices (c_db c))\<rparr>\<rparr>) = foreign t c"
  proof (rule iso_devices)
    fix d assume d: "d \<in> set (devices (c_db c))" "?g d \<noteq> d"
    then have "d_policy d = Some i" by (auto split: if_split_asm)
    with inv(2) d(1) have "(i, d_tenant d) \<in> set (owners (c_pol c))" by (simp add: refs_inv_def)
    with own_policy(1) [OF inv(1) assms(2)] assms(3) show "d_tenant d = t \<and> d_tenant (?g d) = t"
      by (auto simp: other_owned_owners)
  qed
  moreover have "foreign_pol t (snd (fst (snd (Delete m i a (devices (c_db c), c_pol c))))) = foreign_pol t (c_pol c)"
    by (rule iso_Delete_pol [OF inv(1) assms(2,3)])
  ultimately show ?thesis unfolding state_both_done devices_Delete by (simp add: foreign_def assms(2))
qed

lemma iso_filter:
  assumes "console_inv home c" "cl_tenant cl = home (cl_user cl)" "ownsDevice cl i (c_db c)"
  shows "foreign (cl_tenant cl) (c\<lparr>c_db := fst (snd (UpdateAppFilter i a mode pkgs (c_db c)))\<rparr>) = foreign (cl_tenant cl) c"
proof -
  obtain e db l where u: "UpdateAppFilter i a mode pkgs (c_db c) = (e, db, l)" by (metis prod_cases3)
  from u consider "db = c_db c" | m clean e2 where "updateAppFilter i m clean (c_db c) = (e2, db)"
    by (auto simp: UpdateAppFilter_def split: if_split_asm option.split_asm sum.split_asm prod.split_asm)
  then show ?thesis
  proof cases
    case 2
    then have "db = (c_db c)\<lparr>devices := map (\<lambda>d. if d_id d = i \<and> d_deleted d = None
        then d\<lparr>d_filter_mode := m, d_filter_packages := clean\<rparr> else d) (devices (c_db c))\<rparr>"
      by (simp add: updateAppFilter_def Let_def)
    then show ?thesis unfolding u fst_conv snd_conv
      by (simp only:) (rule iso_devices, use owns_tenant [OF assms] in \<open>auto split: if_split_asm\<close>)
  qed (simp add: u)
qed

text \<open>
  C9. Tenants are isolated: in every reachable state, a request of a caller leaves every row of every
  other tenant as it is (devices, keys, certificates, policies with their CIDRs, host names, addresses
  and virtual hosts, groups, the tenant's settings), the five requests without a tenant guard aside.
\<close>

theorem tenants_isolated:
  assumes "console_run home c" "cl_tenant cl = home (cl_user cl)" "\<not> unguarded q" "serve ev cl q c = (n, c', l)"
  shows "foreign (cl_tenant cl) c' = foreign (cl_tenant cl) c"
proof -
  let ?S = "{c'. foreign (cl_tenant cl) c' = foreign (cl_tenant cl) c}"
  have inv: "console_inv home c" by (rule console_run_inv [OF assms(1)])
  then have pol: "pol_inv (c_pol c)" by (simp add: console_inv_def)
  have c: "c \<in> ?S" by simp
  note unfolds = serve_def call.case state_answered split_beta Let_def
  have "state (serve ev cl q c) \<in> ?S"
  proof (cases q)
    case (SetAppFilter s b)
    show ?thesis unfolding SetAppFilter unfolds updateDeviceAppFilter_def
      by (intro guards c) (simp_all add: iso_filter [OF inv assms(2)])
  next
    case (AssignPolicy s b)
    show ?thesis unfolding AssignPolicy unfolds assignDevicePolicy_def
      by (intro guards c; (rule CollectI, rule iso_Assign [OF inv assms(2)])?) simp_all
  next
    case (CreatePolicy b)
    show ?thesis unfolding CreatePolicy unfolds createPolicy_def by (intro guards c) (simp add: foreign_sel iso_Create)
  next
    case (UpdatePolicy s b)
    show ?thesis unfolding UpdatePolicy unfolds updatePolicy_def
      by (intro guards c) (auto simp: Update_def on_policy_def intro!: foreign_sel iso_set_policy [OF pol])
  next
    case (DeletePolicy s)
    show ?thesis unfolding DeletePolicy unfolds deletePolicy_def
      by (intro guards c) (rule CollectI, rule iso_Delete [OF inv])
  next
    case (AddCIDR s b)
    show ?thesis unfolding AddCIDR unfolds addAllowedIP_def
      by (intro guards c) (auto intro!: foreign_sel iso_AddAllowedIP [OF pol])
  next
    case (SetSettings s b)
    show ?thesis unfolding SetSettings serve_def call.case state_answered updatePolicySettings_def
      by (intro guards c) (auto simp: UpdateSettings_def on_policy_def intro!: foreign_sel iso_set_policy [OF pol] split: sum.split)
  next
    case (AddName s b)
    show ?thesis unfolding AddName unfolds addPolicyHostname_def
      by (intro guards c) (auto intro!: foreign_sel iso_AddHostname [OF pol])
  next
    case (RemoveName s h)
    show ?thesis unfolding RemoveName unfolds removePolicyHostname_def
      by (intro guards c) (auto intro!: foreign_sel iso_RemoveHostname [OF pol])
  next
    case (CreateGroup b)
    show ?thesis unfolding CreateGroup unfolds createGroup_def by (intro guards c) (simp_all add: iso_groups)
  next
    case (UpdateGroup s b)
    show ?thesis unfolding UpdateGroup unfolds updateGroup_def by (intro guards c) (simp_all add: iso_set_group)
  next
    case (DeleteGroup s)
    have g: "foreign (cl_tenant cl) (set_group i cl (\<lambda>g. g\<lparr>g_deleted := Some (ev_now ev)\<rparr>) c) = foreign (cl_tenant cl) c" for i
      by (rule iso_set_group) simp
    show ?thesis unfolding DeleteGroup unfolds deleteGroup_def
      by (intro guards c) (auto intro!: trans [OF iso_devices g] split: if_split_asm)
  next
    case (AssignGroup s b)
    show ?thesis unfolding AssignGroup unfolds assignGroup_def by (intro guards c) (simp_all add: iso_tenant_device)
  next
    case (SetExpiry s b)
    show ?thesis unfolding SetExpiry unfolds setDeviceExpiry_def by (intro guards c) (simp_all add: iso_tenant_device)
  next
    case (SetTenantExpiry b)
    show ?thesis unfolding SetTenantExpiry unfolds setTenantExpiry_def by (intro guards c) (simp_all add: iso_tenants)
  next
    case (SetMinOS b)
    show ?thesis unfolding SetMinOS unfolds setMinOS_def by (intro guards c) (simp_all add: iso_tenants)
  qed (use assms(3) in \<open>simp_all add: unguarded_def\<close>)
  then show ?thesis by (simp add: assms(4))
qed
section \<open>Roles\<close>

lemma non_admin_effect:
  assumes "\<not> IsAdmin cl" "serve ev cl q c = (n, c', l)"
  shows "c_pol c' = c_pol c \<and> tenants (c_db c') = tenants (c_db c)
    \<and> map (\<lambda>d. (d_id d, d_tenant d, d_policy d, d_group d, d_access_expires d)) (devices (c_db c'))
      = map (\<lambda>d. (d_id d, d_tenant d, d_policy d, d_group d, d_access_expires d)) (devices (c_db c))
    \<and> ((\<exists>s why. q = RevokeDevice s why) \<or> (\<exists>s b. q = SetAppFilter s b) \<or> (n = 403 \<and> c' = c \<and> l = []))"
proof -
  let ?row = "\<lambda>d. (d_id d, d_tenant d, d_policy d, d_group d, d_access_expires d)"
  let ?S = "{c'. c_pol c' = c_pol c \<and> tenants (c_db c') = tenants (c_db c) \<and> map ?row (devices (c_db c')) = map ?row (devices (c_db c))}"
  have c: "c \<in> ?S" by simp
  have r: "fst (snd (Revoke t i a why db)) = db \<or> (\<exists>m. fst (snd (Revoke t i a why db)) = softDeleteDevice i t (m db) \<and> devices (m db) = devices db \<and> tenants (m db) = tenants db)"
    for t i a why db
    by (auto simp: Revoke_def revokeClientCerts_def intro!: exI [of _ "\<lambda>db. revokeClientCerts i why t (revokeAllKeys i t db)"] split: option.split)
  have rev: "c\<lparr>c_db := fst (snd (Revoke t i a why (c_db c)))\<rparr> \<in> ?S" for t i a why
    using r [of t i a why "c_db c"] by (auto simp: softDeleteDevice_def set_device_def)
  have flt: "c\<lparr>c_db := fst (snd (UpdateAppFilter i a mode pkgs (c_db c)))\<rparr> \<in> ?S" for i a mode pkgs
  proof -
    obtain e db l where u: "UpdateAppFilter i a mode pkgs (c_db c) = (e, db, l)" by (metis prod_cases3)
    then consider "db = c_db c" | m clean e2 where "updateAppFilter i m clean (c_db c) = (e2, db)"
      by (auto simp: UpdateAppFilter_def split: if_split_asm option.split_asm sum.split_asm prod.split_asm)
    then show ?thesis unfolding u by cases (auto simp: updateAppFilter_def Let_def)
  qed
  show ?thesis
  proof (cases "(\<exists>s why. q = RevokeDevice s why) \<or> (\<exists>s b. q = SetAppFilter s b)")
    case True
    then have "state (serve ev cl q c) \<in> ?S"
    proof (elim disjE exE)
      fix s why assume q: "q = RevokeDevice s why"
      show ?thesis unfolding q serve_def call.case state_answered revokeDevice_def
        by (intro guards c) (unfold state_dev_done, rule rev)
    next
      fix s b assume q: "q = SetAppFilter s b"
      show ?thesis unfolding q serve_def call.case state_answered updateDeviceAppFilter_def split_beta
        by (intro guards c; (unfold state_dev_done, rule flt)?) (simp_all)
    qed
    then have "c' \<in> ?S" by (simp only: assms(2) state_triple)
    with True show ?thesis by blast
  next
    case False
    then have "serve ev cl q c = (403, c, [])"
      using assms(1) by (cases q) (simp_all add: serve_def requireAdmin_def answered_def)
    with assms(2) show ?thesis by simp
  qed
qed

text \<open>
  C11. Only admins decide through the console what a device may reach: with the 21 requests of \<open>call\<close>
  (on policies, on groups, on the policy, group, deadline and filter of a device, its revocation, and the
  expiry and the minimum system version of a tenant), a caller without the admin role changes no
  policy, no group, no tenant setting, and no device's policy, group or deadline; and of these 21 every
  one but the app filter and the revocation is refused as forbidden and nothing happens at all. The
  routes that only read and the requests of a device, registration and rotation among them, serve
  non-admins and are not in \<open>call\<close>; what a registration does to the policy of its device is said in
  \<open>OnboardProps\<close> and \<open>Gateway\<close>.
\<close>

theorem only_admins_grant:
  assumes "\<not> IsAdmin cl" "serve ev cl q c = (n, c', l)"
  shows "c_pol c' = c_pol c \<and> tenants (c_db c') = tenants (c_db c)
    \<and> map (\<lambda>d. (d_id d, d_tenant d, d_policy d, d_group d, d_access_expires d)) (devices (c_db c'))
      = map (\<lambda>d. (d_id d, d_tenant d, d_policy d, d_group d, d_access_expires d)) (devices (c_db c))
    \<and> ((\<exists>s why. q = RevokeDevice s why) \<or> (\<exists>s b. q = SetAppFilter s b) \<or> (n = 403 \<and> c' = c \<and> l = []))"
  using assms by (rule non_admin_effect)

section \<open>Groups\<close>

text \<open>
  C12. A device takes the policy of the group it is put in unless it has one of its own: a group
  assignment that is answered as done put the device of the caller's tenant in a live group of that
  tenant, the policy it comes to is its own or else the group's, and no other device is changed.
\<close>

theorem group_policy_inherited:
  assumes "console_run home c" "serve ev cl (AssignGroup path (Some grp)) c = (204, c', l)"
    and "parseHexID path = Some i" "parseHexID grp = Some gid" "grp \<noteq> []"
    and "d \<in> set (devices (c_db c))" "d_id d = i" "d_tenant d = cl_tenant cl"
  shows "(\<exists>g \<in> set (groups (c_pol c')). g_id g = gid \<and> g_tenant g = cl_tenant cl \<and> g_deleted g = None
      \<and> (\<exists>d' \<in> set (devices (c_db c')). d_id d' = i \<and> d_group d' = Some gid
          \<and> policy_id_of (c_pol c') d' = (case d_policy d of Some p \<Rightarrow> Some p | None \<Rightarrow> g_policy g)))
    \<and> filter (\<lambda>x. d_id x \<noteq> i) (devices (c_db c')) = filter (\<lambda>x. d_id x \<noteq> i) (devices (c_db c))"
proof -
  have "console_inv home c" by (rule console_run_inv [OF assms(1)])
  then have dg: "distinct (map g_id (groups (c_pol c)))" by (simp add: console_inv_def pol_inv_def group_owners_def comp_def)
  have "IsAdmin cl \<and> live_group cl gid c \<and> c' = set_tenant_device i cl (\<lambda>d. d\<lparr>d_group := Some gid\<rparr>) c"
    using assms(2-5) by (auto simp: serve_def answered_def requireAdmin_def assignGroup_def with_id_def with_body_def Let_def split: if_split_asm)
  then have lg: "live_group cl gid c" and c': "c' = set_tenant_device i cl (\<lambda>d. d\<lparr>d_group := Some gid\<rparr>) c" by blast+
  from lg obtain g where g: "g \<in> set (groups (c_pol c))" "g_id g = gid" "g_tenant g = cl_tenant cl" "g_deleted g = None"
    unfolding live_group_ex by blast
  let ?d = "d\<lparr>d_group := Some gid\<rparr>"
  have only: "h = g" if "h \<in> set (groups (c_pol c))" "g_id h = gid" for h using dg g that by (auto simp: distinct_map inj_on_def)
  have "find (\<lambda>h. d_group ?d = Some (g_id h) \<and> g_tenant h = d_tenant ?d \<and> g_deleted h = None) (groups (c_pol c)) = Some g"
  proof (cases "find (\<lambda>h. d_group ?d = Some (g_id h) \<and> g_tenant h = d_tenant ?d \<and> g_deleted h = None) (groups (c_pol c))")
    case None
    with g assms(8) show ?thesis by (auto simp: find_None_iff)
  next
    case (Some h)
    then show ?thesis using only [of h] find_Some_in [OF Some] by auto
  qed
  then have p: "policy_id_of (c_pol c) ?d = (case d_policy d of Some p \<Rightarrow> Some p | None \<Rightarrow> g_policy g)"
    by (simp add: policy_id_of_def group_of_def split: option.split)
  have "?d \<in> set (devices (c_db c'))" using assms(6-8) by (force simp: c' set_tenant_device_def)
  moreover have "c_pol c' = c_pol c" by (simp add: c' set_tenant_device_def)
  moreover have "filter (\<lambda>x. d_id x \<noteq> i) (devices (c_db c')) = filter (\<lambda>x. d_id x \<noteq> i) (devices (c_db c))"
    unfolding c' set_tenant_device_def by (simp, rule filter_map_same) (auto split: if_split_asm)
  ultimately show ?thesis using g p assms(7) by (intro conjI bexI [of _ g] bexI [of _ ?d]) simp_all
qed

section \<open>Requests without a tenant guard\<close>

text \<open>Any account, whatever its role and tenant, revokes any device whose identifier it names.\<close>

lemma anyone_revokes:
  assumes "parseHexID s = Some i" "\<not> IsZero i" "findDeviceByID (c_db c) i = Some d"
  shows "fst (serve ev cl (RevokeDevice s why) c) = 204
    \<and> findDeviceByID (c_db (state (serve ev cl (RevokeDevice s why) c))) i = None"
proof -
  have "find (\<lambda>d. d_id d = i \<and> d_deleted d = None) (map (\<lambda>d. if d_id d = i then (if d_deleted d = None then d\<lparr>d_status := StatusRevoked, d_deleted := Some t\<rparr> else d) else d) ds) = None"
    for ds t by (induction ds) simp_all
  then have gone: "findDeviceByID (softDeleteDevice i t db) i = None" for t db
    by (simp add: findDeviceByID_def live_device_def softDeleteDevice_def set_device_def)
  have "serve ev cl (RevokeDevice s why) c = (204, c\<lparr>c_db := fst (snd (Revoke (ev_dbnow ev) i (cl_user cl) (or_empty why) (c_db c)))\<rparr>,
      map Inr (snd (snd (Revoke (ev_dbnow ev) i (cl_user cl) (or_empty why) (c_db c)))))"
    using assms by (simp add: serve_def revokeDevice_def with_id_def dev_done_def Revoke_def answered_def)
  then show ?thesis using assms gone by (simp add: Revoke_def)
qed

text \<open>An admin of any tenant rewrites how another tenant's policy reaches the gateway.\<close>

lemma any_admin_sets_transport:
  assumes "IsAdmin cl" "parseHexID s = Some i" "live_policy (c_pol c) i = Some p" "mode \<in> {''direct'', ''auto'', ''relay''}"
  shows "fst (serve ev cl (SetTransport s (Some (mode, snat, []))) c) = 204
    \<and> policies (c_pol (state (serve ev cl (SetTransport s (Some (mode, snat, []))) c)))
      = map (\<lambda>q. if po_id q = i \<and> po_deleted q = None then q\<lparr>po_endpoint := mode, po_source_nat := snat, po_control := ''direct''\<rparr> else q) (policies (c_pol c))"
  using assms by (auto simp: serve_def requireAdmin_def updatePolicyTransport_def with_id_def with_body_def pol_done_def UpdateTransport_def
    on_policy_def wrap_def set_policy_def answered_def Let_def)

text \<open>An admin deletes a CIDR of another tenant's policy by naming an own policy in the path.\<close>

lemma any_admin_removes_cidr:
  assumes "IsAdmin cl" "parseHexID s = Some i" "live_policy (c_pol c) i = Some own" "po_tenant own = cl_tenant cl"
    and "parseHexID t = Some a" "find (\<lambda>r. ai_id r = a) (allowed (c_pol c)) = Some r" "live_policy (c_pol c) (ai_policy r) = Some p"
  shows "fst (serve ev cl (RemoveCIDR s t) c) = 204
    \<and> allowed (c_pol (state (serve ev cl (RemoveCIDR s t) c))) = filter (\<lambda>x. ai_id x \<noteq> a) (allowed (c_pol c))"
  using assms by (simp add: serve_def requireAdmin_def removeAllowedIP_def with_id_def with_policy_def GetPolicy_def scanPolicy_def
    pol_done_def RemoveAllowedIP_def on_policy_def wrap_def answered_def)
section \<open>A concrete console\<close>

definition demo_empty :: PolDB where
  "demo_empty = \<lparr>policies = [], allowed = [], hostnames = [], resolutions = [], virtuals = [], rules = [], groups = [], memberships = []\<rparr>"

definition demo_env :: "byte \<Rightarrow> env" where
  "demo_env n = \<lparr>ev_weight = map of_char, ev_ntoa = (\<lambda>_. []), ev_local = [], ev_now = 1, ev_dbnow = 1, ev_newID = demo_id n, ev_fits = (\<lambda>_. True)\<rparr>"

definition demo_caller :: "string list \<Rightarrow> caller" where
  "demo_caller roles = \<lparr>cl_user = demo_id 3, cl_tenant = demo_id 9, cl_roles = roles\<rparr>"

definition demo_path :: "string \<Rightarrow> string" where "demo_path s = replicate 30 (CHR ''0'') @ s"

lemma demo_paths: "parseHexID (demo_path ''0b'') = Some (demo_id 11)" "parseHexID (demo_path ''1e'') = Some (demo_id 30)"
  "demo_path ''1e'' \<noteq> []"
  by (code_simp, code_simp, simp add: demo_path_def)

lemma demo_roles: "IsAdmin (demo_caller [RoleAdmin])" "\<not> IsAdmin (demo_caller [''aidotvpn-user''])"
  by (simp add: IsAdmin_def hasRole_def equal_fold_def demo_caller_def) code_simp

definition demo_console :: Console where "demo_console = \<lparr>c_db = demo_db1, c_pol = demo_empty\<rparr>"

definition demo_group :: Group where
  "demo_group = \<lparr>g_id = demo_id 30, g_tenant = demo_id 9, g_name = ''g'', g_descr = None, g_policy = None, g_deleted = None\<rparr>"

definition demo_console2 :: Console where "demo_console2 = \<lparr>c_db = demo_db1, c_pol = demo_empty\<lparr>groups := [demo_group]\<rparr>\<rparr>"

lemma demo_console_run: "console_run (\<lambda>_. demo_id 9) demo_console"
proof -
  obtain r au where reg: "Register demo_service (demo_draws 1) demo_params demo_db = (r, demo_db1, au)"
    using demo_registers by blast
  let ?c = "\<lparr>c_db = demo_db, c_pol = demo_empty\<rparr>"
  have "console_run (\<lambda>_. demo_id 9) ?c" by (rule console_run.start) (simp_all add: demo_db_def demo_empty_def)
  moreover have "(if IsZero (rp_tenant demo_params) then tenantID demo_service else rp_tenant demo_params) = demo_id 9" by code_simp
  moreover have "Register demo_service (demo_draws 1) demo_params (c_db ?c) = (r, demo_db1, au)" using reg by simp
  ultimately have "console_run (\<lambda>_. demo_id 9) (?c\<lparr>c_db := demo_db1\<rparr>)" by (rule console_run.register)
  then show ?thesis by (simp add: demo_console_def)
qed

lemma demo_creates_group:
  obtains l where "serve (demo_env 30) (demo_caller [RoleAdmin]) (CreateGroup (Some (''g'', [], []))) demo_console = (201, demo_console2, l)"
proof -
  have t: "trim_space ''g'' = ''g''" "trim_space [] = []" by (rule trim_space_plain, simp add: plain_char_def)+
  show thesis
    by (rule that [of "console_audit (demo_env 30) (demo_caller [RoleAdmin]) ''group.create'' (Some (demo_id 30)) (Some [(''name'', JString ''g'')])"])
      (simp add: serve_def requireAdmin_def demo_roles [unfolded demo_caller_def] createGroup_def with_body_def with_group_policy_def answered_def t nullIfEmptyStr_def
        demo_console_def demo_console2_def demo_empty_def demo_group_def demo_env_def demo_caller_def)
qed

lemma demo_console2_run: "console_run (\<lambda>_. demo_id 9) demo_console2"
  by (rule demo_creates_group) (rule console_run.request [OF demo_console_run])

lemma demo_console_device:
  obtains d where "d \<in> set (devices (c_db demo_console2))" "d_id d = demo_id 11" "d_tenant d = demo_id 9" "d_policy d = None"
proof -
  obtain d where d: "devices demo_db1 = [d]" "d_id d = demo_id 11" by (rule demo_device)
  have "map d_policy (devices demo_db1) = [None]" unfolding demo_db1_def by code_simp
  moreover have "d_tenant d = demo_id 9"
    using service_inv [OF demo_run] d(1) by (simp add: dev_inv_defs)
  ultimately show thesis using that [of d] d by (simp add: demo_console2_def)
qed

theorem group_policy_inherited_witness:
  "\<exists>c' l. serve (demo_env 31) (demo_caller [RoleAdmin]) (AssignGroup (demo_path ''0b'') (Some (demo_path ''1e''))) demo_console2 = (204, c', l)
    \<and> (\<exists>d' \<in> set (devices (c_db c')). d_id d' = demo_id 11 \<and> d_group d' = Some (demo_id 30) \<and> policy_id_of (c_pol c') d' = None)"
proof -
  obtain d where d: "d \<in> set (devices (c_db demo_console2))" "d_id d = demo_id 11" "d_tenant d = demo_id 9" "d_policy d = None"
    by (rule demo_console_device)
  have g: "live_group (demo_caller [RoleAdmin]) (demo_id 30) demo_console2"
    by (simp add: live_group_def demo_console2_def demo_group_def demo_caller_def)
  obtain c' l where s: "serve (demo_env 31) (demo_caller [RoleAdmin]) (AssignGroup (demo_path ''0b'') (Some (demo_path ''1e''))) demo_console2 = (204, c', l)"
    using g by (simp add: serve_def requireAdmin_def demo_roles assignGroup_def with_id_def with_body_def demo_paths answered_def Let_def)
  have t: "d_tenant d = cl_tenant (demo_caller [RoleAdmin])" using d(3) by (simp add: demo_caller_def)
  have grp: "c_pol c' = c_pol demo_console2"
    using s g by (auto simp: serve_def requireAdmin_def demo_roles assignGroup_def with_id_def with_body_def demo_paths answered_def Let_def set_tenant_device_def)
  from group_policy_inherited [OF demo_console2_run s demo_paths d(1,2) t] d(4) grp s show ?thesis
    by (auto simp: demo_console2_def demo_group_def)
qed

theorem references_stay_in_tenant_witness:
  "console_run (\<lambda>_. demo_id 9) demo_console2 \<and> service_run (\<lambda>_. demo_id 9) (c_db demo_console2) \<and> groups (c_pol demo_console2) \<noteq> []"
  using references_stay_in_tenant [OF demo_console2_run] demo_console2_run by (simp add: demo_console2_def)

theorem tenants_isolated_witness:
  "\<exists>c' l. serve (demo_env 30) (demo_caller [RoleAdmin]) (CreateGroup (Some (''g'', [], []))) demo_console = (201, c', l)
    \<and> foreign (demo_id 9) c' = foreign (demo_id 9) demo_console"
proof (rule demo_creates_group)
  fix l assume s: "serve (demo_env 30) (demo_caller [RoleAdmin]) (CreateGroup (Some (''g'', [], []))) demo_console = (201, demo_console2, l)"
  have h: "cl_tenant (demo_caller [RoleAdmin]) = (\<lambda>_. demo_id 9) (cl_user (demo_caller [RoleAdmin]))" by (simp add: demo_caller_def)
  have "\<not> unguarded (CreateGroup (Some (''g'', [], [])))" by (simp add: unguarded_def)
  from tenants_isolated [OF demo_console_run h this s] s show ?thesis by (auto simp: demo_caller_def)
qed

theorem only_admins_grant_witness:
  "\<exists>n c' l. serve (demo_env 30) (demo_caller [''aidotvpn-user'']) (CreateGroup None) demo_console = (n, c', l) \<and> n = 403 \<and> c' = demo_console"
proof -
  obtain n c' l where s: "serve (demo_env 30) (demo_caller [''aidotvpn-user'']) (CreateGroup None) demo_console = (n, c', l)" by (metis prod_cases3)
  from only_admins_grant [OF demo_roles(2) s] s show ?thesis by simp
qed


end
