(* ===== verification/Allowlist.thy ===== *)
theory Allowlist
  imports Gates
begin

text \<open>
  Attestation challenges and the allowlist of device fingerprints (\<open>allowlist/allowlist.go\<close>): a nonce is
  issued to a user, a certificate chain over it is accepted once and in time, and a tenant may demand
  that the fingerprint is enrolled.  The chain verifier, the random bytes and the clocks are arguments;
  \<open>VerifyAndConsume\<close> is also given as its two statements, for callers that run at the same time.
\<close>

section \<open>Tables\<close>

record Challenge =
  ch_bytes :: bytes
  ch_tenant :: ID
  ch_user :: ID
  ch_issued :: time
  ch_consumed :: "time option"

record Fingerprint =
  fp_id :: ID
  fp_tenant :: ID
  fp_bytes :: bytes
  fp_label :: string
  fp_enrolled :: time
  fp_by :: "ID option"
  fp_deleted :: "time option"

record AllowDB =
  challenges :: "Challenge list"
  fingerprints :: "Fingerprint list"
  demanding :: "(ID \<times> bool) list" \<comment> \<open>\<open>tenants.require_device_attestation\<close>\<close>

datatype allow_error =
    NotEnrolled | UnknownChallenge | ChallengeConsumed | ChallengeExpired | IDsRequired | NoRandom
  | ChallengeExists | VerifyFailed string | NoTenantRow | FingerprintLength nat

definition ChallengeTTL :: time where "ChallengeTTL = 5 * minute"
definition ChallengeBytes :: nat where "ChallengeBytes = 32"

section \<open>Challenges\<close>

definition IssueChallenge :: "bytes option \<Rightarrow> time \<Rightarrow> ID \<Rightarrow> ID \<Rightarrow> AllowDB \<Rightarrow> (allow_error + bytes) \<times> AllowDB" where
  "IssueChallenge entropy dbnow tenantID userID db =
     (if IsZero tenantID \<or> IsZero userID then (Inl IDsRequired, db)
      else case entropy of
        None \<Rightarrow> (Inl NoRandom, db)
      | Some chal \<Rightarrow>
          if \<exists>r \<in> set (challenges db). ch_bytes r = chal then (Inl ChallengeExists, db)
          else (Inr chal, db\<lparr>challenges := challenges db @
            [\<lparr>ch_bytes = chal, ch_tenant = tenantID, ch_user = userID, ch_issued = dbnow, ch_consumed = None\<rparr>]\<rparr>))"

text \<open>\<open>ORDER BY issued_at DESC LIMIT 1\<close> over the user's rows.\<close>

definition newest :: "Challenge list \<Rightarrow> Challenge option" where
  "newest rows = (case sort_key (\<lambda>r. - ch_issued r) rows of [] \<Rightarrow> None | r # _ \<Rightarrow> Some r)"

definition read_challenge :: "time \<Rightarrow> ID \<Rightarrow> AllowDB \<Rightarrow> allow_error + bytes" where
  "read_challenge now userID db = (case newest (filter (\<lambda>r. ch_user r = userID) (challenges db)) of
     None \<Rightarrow> Inl UnknownChallenge
   | Some r \<Rightarrow> if ch_consumed r \<noteq> None then Inl ChallengeConsumed
      else if now - ch_issued r > ChallengeTTL then Inl ChallengeExpired
      else Inr (ch_bytes r))"

definition mark_consumed :: "time \<Rightarrow> bytes \<Rightarrow> AllowDB \<Rightarrow> AllowDB" where
  "mark_consumed dbnow chal db =
     db\<lparr>challenges := map (\<lambda>r. if ch_bytes r = chal then r\<lparr>ch_consumed := Some dbnow\<rparr> else r) (challenges db)\<rparr>"

section \<open>The allowlist\<close>

definition tenantRequiresAllowlist :: "ID \<Rightarrow> AllowDB \<Rightarrow> bool option" where
  "tenantRequiresAllowlist tenantID db = map_of (demanding db) tenantID"

definition fingerprintEnrolled :: "ID \<Rightarrow> bytes \<Rightarrow> AllowDB \<Rightarrow> bool" where
  "fingerprintEnrolled tenantID fp db =
     list_ex (\<lambda>r. fp_tenant r = tenantID \<and> fp_bytes r = fp \<and> fp_deleted r = None) (fingerprints db)"

definition admit :: "ID \<Rightarrow> Result \<Rightarrow> AllowDB \<Rightarrow> allow_error + Result" where
  "admit tenantID res db = (case tenantRequiresAllowlist tenantID db of
     None \<Rightarrow> Inl NoTenantRow
   | Some required \<Rightarrow>
       if required \<and> \<not> fingerprintEnrolled tenantID (res_fingerprint res) db then Inl NotEnrolled else Inr res)"

definition accept_chain :: "(bytes \<Rightarrow> bytes \<Rightarrow> string + Result) \<Rightarrow> time \<Rightarrow> ID \<Rightarrow> bytes \<Rightarrow> bytes \<Rightarrow> AllowDB
    \<Rightarrow> (allow_error + Result) \<times> AllowDB" where
  \<comment> \<open>the part after the challenge was read\<close>
  "accept_chain verifier dbnow tenantID chain chal db = (case verifier chain chal of
     Inl e \<Rightarrow> (Inl (VerifyFailed e), db)
   | Inr res \<Rightarrow> (let db' = mark_consumed dbnow chal db in (admit tenantID res db', db')))"

definition VerifyAndConsume :: "(bytes \<Rightarrow> bytes \<Rightarrow> string + Result) \<Rightarrow> time \<Rightarrow> time \<Rightarrow> ID \<Rightarrow> ID \<Rightarrow> bytes \<Rightarrow> AllowDB
    \<Rightarrow> (allow_error + Result) \<times> AllowDB" where
  "VerifyAndConsume verifier now dbnow tenantID userID chain db = (case read_challenge now userID db of
     Inl e \<Rightarrow> (Inl e, db)
   | Inr chal \<Rightarrow> accept_chain verifier dbnow tenantID chain chal db)"

text \<open>\<open>ON DUPLICATE KEY UPDATE\<close>: an identifier or a fingerprint of the tenant that is there is relabelled and revived.\<close>

definition Enroll :: "ID \<Rightarrow> time \<Rightarrow> ID \<Rightarrow> bytes \<Rightarrow> string \<Rightarrow> ID option \<Rightarrow> AllowDB \<Rightarrow> allow_error option \<times> AllowDB" where
  "Enroll newID dbnow tenantID fp label by_whom db =
     (if length fp \<noteq> 32 then (Some (FingerprintLength (length fp)), db)
      else let hit = (\<lambda>r. if list_ex (\<lambda>q. fp_id q = newID) (fingerprints db) then fp_id r = newID
                 else fp_tenant r = tenantID \<and> fp_bytes r = fp)
        in (None, if list_ex hit (fingerprints db)
          then db\<lparr>fingerprints := map (\<lambda>r. if hit r then r\<lparr>fp_label := label, fp_deleted := None\<rparr> else r) (fingerprints db)\<rparr>
          else db\<lparr>fingerprints := fingerprints db @ [\<lparr>fp_id = newID, fp_tenant = tenantID, fp_bytes = fp, fp_label = label,
            fp_enrolled = dbnow, fp_by = by_whom, fp_deleted = None\<rparr>]\<rparr>))"

definition Unlist :: "time \<Rightarrow> ID \<Rightarrow> bytes \<Rightarrow> AllowDB \<Rightarrow> AllowDB" where \<comment> \<open>\<open>Service.Revoke\<close>\<close>
  "Unlist dbnow tenantID fp db = db\<lparr>fingerprints := map (\<lambda>r.
     if fp_tenant r = tenantID \<and> fp_bytes r = fp \<and> fp_deleted r = None then r\<lparr>fp_deleted := Some dbnow\<rparr> else r) (fingerprints db)\<rparr>"

definition ListEnrolled :: "ID \<Rightarrow> AllowDB \<Rightarrow> (bytes \<times> string \<times> time) list" where
  "ListEnrolled tenantID db = map (\<lambda>r. (fp_bytes r, fp_label r, fp_enrolled r))
     (sort_key (\<lambda>r. - fp_enrolled r) (filter (\<lambda>r. fp_tenant r = tenantID \<and> fp_deleted r = None) (fingerprints db)))"

definition SetTenantRequireAllowlist :: "ID \<Rightarrow> bool \<Rightarrow> AllowDB \<Rightarrow> AllowDB" where
  "SetTenantRequireAllowlist tenantID on db =
     db\<lparr>demanding := map (\<lambda>(t, b). if t = tenantID then (t, on) else (t, b)) (demanding db)\<rparr>"

definition CurrentChallengeB64 :: "(bytes \<Rightarrow> string) \<Rightarrow> time \<Rightarrow> ID \<Rightarrow> AllowDB \<Rightarrow> allow_error + string" where
  "CurrentChallengeB64 b64 now userID db =
     (case newest (filter (\<lambda>r. ch_user r = userID \<and> ch_consumed r = None) (challenges db)) of
        None \<Rightarrow> Inl UnknownChallenge
      | Some r \<Rightarrow> if now - ch_issued r > ChallengeTTL then Inl ChallengeExpired else Inr (b64 (ch_bytes r)))"

section \<open>A challenge is good once\<close>

text \<open>
  Histories: challenges are issued, chains presented, fingerprints enrolled and unlisted, tenants switched,
  one call after the other.  The log has the challenge, the user and the instant of every accepted chain.
\<close>

inductive allow_run :: "(bytes \<Rightarrow> bytes \<Rightarrow> string + Result) \<Rightarrow> AllowDB \<Rightarrow> (bytes \<times> ID \<times> time) list \<Rightarrow> bool" for verifier where
  start: "challenges db = [] \<Longrightarrow> allow_run verifier db []"
| issue: "allow_run verifier db log \<Longrightarrow> IssueChallenge entropy t ten u db = (r, db') \<Longrightarrow> allow_run verifier db' log"
| accepted: "allow_run verifier db log \<Longrightarrow> read_challenge now u db = Inr chal \<Longrightarrow>
    VerifyAndConsume verifier now t ten u chain db = (Inr res, db') \<Longrightarrow> allow_run verifier db' ((chal, u, now) # log)"
| refused: "allow_run verifier db log \<Longrightarrow> VerifyAndConsume verifier now t ten u chain db = (Inl e, db') \<Longrightarrow> allow_run verifier db' log"
| enroll: "allow_run verifier db log \<Longrightarrow> Enroll i t ten fp lab w db = (r, db') \<Longrightarrow> allow_run verifier db' log"
| unlist: "allow_run verifier db log \<Longrightarrow> allow_run verifier (Unlist t ten fp db) log"
| switch: "allow_run verifier db log \<Longrightarrow> allow_run verifier (SetTenantRequireAllowlist ten on db) log"

definition spent :: "AllowDB \<Rightarrow> bytes \<times> ID \<times> time \<Rightarrow> bool" where
  "spent db x \<longleftrightarrow> (\<exists>r \<in> set (challenges db). ch_bytes r = fst x \<and> ch_user r = fst (snd x) \<and> ch_consumed r \<noteq> None
     \<and> snd (snd x) - ch_issued r \<le> ChallengeTTL)"

definition challenge_inv :: "AllowDB \<Rightarrow> (bytes \<times> ID \<times> time) list \<Rightarrow> bool" where
  "challenge_inv db log \<longleftrightarrow> distinct (map ch_bytes (challenges db)) \<and> distinct (map fst log) \<and> (\<forall>x \<in> set log. spent db x)"

lemma newest_Some: "newest rows = Some r \<Longrightarrow> r \<in> set rows \<and> (\<forall>q \<in> set rows. ch_issued q \<le> ch_issued r)"
proof -
  assume n: "newest rows = Some r"
  then obtain rs where s: "sort_key (\<lambda>r. - ch_issued r) rows = r # rs" by (auto simp: newest_def split: list.split_asm)
  have "sorted (map (\<lambda>r. - ch_issued r) (r # rs))" unfolding s [symmetric] by (rule sorted_sort_key)
  moreover have "set rows = set (r # rs)" unfolding s [symmetric] by simp
  ultimately show ?thesis by auto
qed

lemma read_challenge_Inr:
  assumes "read_challenge now u db = Inr chal"
  obtains r where "r \<in> set (challenges db)" "ch_user r = u" "ch_bytes r = chal" "ch_consumed r = None" "now - ch_issued r \<le> ChallengeTTL"
    "\<forall>q \<in> set (challenges db). ch_user q = u \<longrightarrow> ch_issued q \<le> ch_issued r"
proof -
  from assms obtain r where r: "newest (filter (\<lambda>r. ch_user r = u) (challenges db)) = Some r" "ch_bytes r = chal"
    "ch_consumed r = None" "now - ch_issued r \<le> ChallengeTTL"
    by (auto simp: read_challenge_def split: option.split_asm if_split_asm)
  with newest_Some [OF r(1)] that show thesis by auto
qed

lemma accept_chain_cases:
  assumes "accept_chain verifier t ten chain chal db = (x, db')"
  obtains "db' = db" "\<exists>e. x = Inl e" "\<exists>e. verifier chain chal = Inl e"
  | res where "verifier chain chal = Inr res" "db' = mark_consumed t chal db" "x = admit ten res db'"
  using assms by (auto simp: accept_chain_def Let_def split: sum.split_asm)

lemma mark_challenges: "challenges (mark_consumed t chal db) = map (\<lambda>r. if ch_bytes r = chal then r\<lparr>ch_consumed := Some t\<rparr> else r) (challenges db)"
  by (simp add: mark_consumed_def)

lemma mark_bytes: "map ch_bytes (challenges (mark_consumed t chal db)) = map ch_bytes (challenges db)"
  by (simp add: mark_consumed_def split: if_split)

lemma mark_spent: "spent db x \<Longrightarrow> spent (mark_consumed t chal db) x"
proof -
  assume "spent db x"
  then obtain r where r: "r \<in> set (challenges db)" "ch_bytes r = fst x \<and> ch_user r = fst (snd x) \<and> ch_consumed r \<noteq> None
     \<and> snd (snd x) - ch_issued r \<le> ChallengeTTL" unfolding spent_def by blast
  show ?thesis unfolding spent_def mark_consumed_def
    by simp (rule bexI [of _ "if ch_bytes r = chal then r\<lparr>ch_consumed := Some t\<rparr> else r"], use r in auto)
qed

lemma challenge_inv_mark: "challenge_inv db log \<Longrightarrow> challenge_inv (mark_consumed t chal db) log"
  using mark_spent unfolding challenge_inv_def mark_bytes by blast

lemma challenge_inv_same: "challenges db' = challenges db \<Longrightarrow> challenge_inv db log \<Longrightarrow> challenge_inv db' log"
  by (simp add: challenge_inv_def spent_def)

lemma unspent_fresh:
  assumes "challenge_inv db log" "r \<in> set (challenges db)" "ch_consumed r = None"
  shows "ch_bytes r \<notin> fst ` set log"
proof
  assume "ch_bytes r \<in> fst ` set log"
  then obtain x where x: "x \<in> set log" "fst x = ch_bytes r" by auto
  with assms(1) have "spent db x" by (simp add: challenge_inv_def)
  then obtain q where q: "q \<in> set (challenges db)" "ch_bytes q = ch_bytes r" "ch_consumed q \<noteq> None" unfolding spent_def x(2) by blast
  have "inj_on ch_bytes (set (challenges db))" using assms(1) by (simp add: challenge_inv_def distinct_map)
  then have "q = r" using q(1,2) assms(2) by (meson inj_onD)
  with q(3) assms(3) show False by simp
qed

lemma issue_cases:
  assumes "IssueChallenge entropy t ten u db = (r, db')"
  shows "db' = db \<or> (\<exists>chal. (\<forall>r \<in> set (challenges db). ch_bytes r \<noteq> chal) \<and>
    db' = db\<lparr>challenges := challenges db @ [\<lparr>ch_bytes = chal, ch_tenant = ten, ch_user = u, ch_issued = t, ch_consumed = None\<rparr>]\<rparr>)"
proof (cases "entropy = None \<or> IsZero ten \<or> IsZero u \<or> (\<exists>r \<in> set (challenges db). Some (ch_bytes r) = entropy)")
  case True
  then show ?thesis using assms by (intro disjI1) (auto simp: IssueChallenge_def split: if_split_asm)
next
  case False
  then obtain chal where e: "entropy = Some chal" by auto
  with False assms show ?thesis by (intro disjI2 exI [of _ chal]) (simp add: IssueChallenge_def)
qed

lemma allow_run_inv: "allow_run verifier db log \<Longrightarrow> challenge_inv db log"
proof (induction rule: allow_run.induct)
  case (start db)
  then show ?case by (simp add: challenge_inv_def)
next
  case (issue db log entropy t ten u r db')
  from issue_cases [OF issue.hyps(2)] consider "db' = db" | chal where "\<forall>r \<in> set (challenges db). ch_bytes r \<noteq> chal"
    "db' = db\<lparr>challenges := challenges db @ [\<lparr>ch_bytes = chal, ch_tenant = ten, ch_user = u, ch_issued = t, ch_consumed = None\<rparr>]\<rparr>"
    by blast
  then show ?case
  proof cases
    case (2 chal)
    then have sub: "set (challenges db) \<subseteq> set (challenges db')" by auto
    have "spent db x \<Longrightarrow> spent db' x" for x using sub unfolding spent_def by blast
    moreover have "distinct (map ch_bytes (challenges db'))" using 2 issue.IH by (auto simp: challenge_inv_def)
    ultimately show ?thesis using issue.IH unfolding challenge_inv_def by blast
  qed (simp add: issue.IH)
next
  case (accepted db log now u chal t ten chain res db')
  from accepted.hyps(2) obtain r where r: "r \<in> set (challenges db)" "ch_user r = u" "ch_bytes r = chal" "ch_consumed r = None"
    "now - ch_issued r \<le> ChallengeTTL" by (rule read_challenge_Inr)
  have "accept_chain verifier t ten chain chal db = (Inr res, db')"
    using accepted.hyps(2,3) by (simp add: VerifyAndConsume_def)
  then have m: "db' = mark_consumed t chal db" by (cases rule: accept_chain_cases) simp_all
  have "r\<lparr>ch_consumed := Some t\<rparr> \<in> set (challenges (mark_consumed t chal db))"
    using r(1,3) unfolding mark_consumed_def by force
  then have "spent db' (chal, u, now)" unfolding m spent_def by (rule bexI [rotated]) (simp add: r)
  moreover have "chal \<notin> fst ` set log" using unspent_fresh [OF accepted.IH r(1,4)] r(3) by simp
  ultimately show ?case using challenge_inv_mark [OF accepted.IH, of t chal] unfolding m challenge_inv_def by simp
next
  case (refused db log now t ten u chain e db')
  then consider "db' = db" | chal where "accept_chain verifier t ten chain chal db = (Inl e, db')"
    by (auto simp: VerifyAndConsume_def split: sum.split_asm)
  then show ?case
  proof cases
    case 2
    then show ?thesis by (cases rule: accept_chain_cases) (simp_all add: refused.IH challenge_inv_mark)
  qed (simp add: refused.IH)
next
  case (enroll db log i t ten fp lab w r db')
  have "challenges db' = challenges db" using enroll.hyps(2) by (auto simp: Enroll_def Let_def split: if_split_asm)
  then show ?case by (rule challenge_inv_same [OF _ enroll.IH])
next
  case (unlist db log t ten fp)
  show ?case by (rule challenge_inv_same [OF _ unlist.IH]) (simp add: Unlist_def)
next
  case (switch db log ten on)
  show ?case by (rule challenge_inv_same [OF _ switch.IH]) (simp add: SetTenantRequireAllowlist_def)
qed

text \<open>
  C39. An attestation challenge is good once, in time and for its user, as long as no two calls run at the
  same time (of two that do, both can accept it, see \<open>challenge_race\<close>): in a history of calls one after the
  other, an accepted chain was verified over the newest challenge of the user, issued no more than five
  minutes before and never accepted earlier; the tenant either demands no allowlist or has the
  fingerprint enrolled; and no later chain is accepted on that challenge.
\<close>

theorem challenge_accepted_once:
  assumes "allow_run verifier db log" "Allowlist.VerifyAndConsume verifier now t ten u chain db = (Inr res, db')"
  shows "\<exists>r \<in> set (challenges db). ch_user r = u \<and> (\<forall>q \<in> set (challenges db). ch_user q = u \<longrightarrow> ch_issued q \<le> ch_issued r)
    \<and> now - ch_issued r \<le> 5 * minute \<and> ch_bytes r \<notin> fst ` set log \<and> verifier chain (ch_bytes r) = Inr res
    \<and> (tenantRequiresAllowlist ten db = Some False \<or> tenantRequiresAllowlist ten db = Some True \<and> fingerprintEnrolled ten (res_fingerprint res) db)
    \<and> (\<forall>now' u'. read_challenge now' u' db' \<noteq> Inr (ch_bytes r))"
proof -
  from assms(2) obtain chal where c: "read_challenge now u db = Inr chal" "accept_chain verifier t ten chain chal db = (Inr res, db')"
    by (auto simp: VerifyAndConsume_def split: sum.split_asm)
  from c(1) obtain r where r: "r \<in> set (challenges db)" "ch_user r = u" "ch_bytes r = chal" "ch_consumed r = None"
    "now - ch_issued r \<le> ChallengeTTL" "\<forall>q \<in> set (challenges db). ch_user q = u \<longrightarrow> ch_issued q \<le> ch_issued r" by (rule read_challenge_Inr)
  have v: "verifier chain chal = Inr res" and m: "db' = mark_consumed t chal db"
    and a: "tenantRequiresAllowlist ten db = Some False \<or> tenantRequiresAllowlist ten db = Some True \<and> fingerprintEnrolled ten (res_fingerprint res) db"
    using c(2) by (auto simp: accept_chain_def Let_def admit_def tenantRequiresAllowlist_def fingerprintEnrolled_def mark_consumed_def
        split: sum.split_asm option.split_asm if_split_asm)
  have inv: "challenge_inv db log" by (rule allow_run_inv [OF assms(1)])
  have n: "chal \<notin> fst ` set log" using unspent_fresh [OF inv r(1,4)] r(3) by simp
  have "read_challenge now' u' db' \<noteq> Inr chal" for now' u'
  proof
    assume "read_challenge now' u' db' = Inr chal"
    then obtain q where q: "q \<in> set (challenges db')" "ch_bytes q = chal" "ch_consumed q = None" by (rule read_challenge_Inr)
    from q(1) have "q \<in> (\<lambda>r. if ch_bytes r = chal then r\<lparr>ch_consumed := Some t\<rparr> else r) ` set (challenges db)"
      unfolding m mark_challenges set_map by (rule asm_rl)
    then obtain q0 where "q = (if ch_bytes q0 = chal then q0\<lparr>ch_consumed := Some t\<rparr> else q0)" by (rule imageE)
    then show False using q(2,3) by (cases "ch_bytes q0 = chal") simp_all
  qed
  moreover have "now - ch_issued r \<le> 5 * minute" using r(5) by (simp add: ChallengeTTL_def)
  ultimately have "ch_user r = u \<and> (\<forall>q \<in> set (challenges db). ch_user q = u \<longrightarrow> ch_issued q \<le> ch_issued r)
    \<and> now - ch_issued r \<le> 5 * minute \<and> ch_bytes r \<notin> fst ` set log \<and> verifier chain (ch_bytes r) = Inr res
    \<and> (tenantRequiresAllowlist ten db = Some False \<or> tenantRequiresAllowlist ten db = Some True \<and> fingerprintEnrolled ten (res_fingerprint res) db)
    \<and> (\<forall>now' u'. read_challenge now' u' db' \<noteq> Inr (ch_bytes r))"
    using r(2,6) v a n unfolding r(3) by (intro conjI allI) assumption+
  then show ?thesis using r(1) by (rule bexI)
qed
section \<open>Calls at the same time\<close>

text \<open>
  The statement that marks a challenge as consumed does not test that it still is open: of two calls that
  both read it before either marks it, both accept.
\<close>

lemma challenge_race:
  assumes "read_challenge now u db = Inr chal" "verifier chain chal = Inr res" "tenantRequiresAllowlist ten db = Some False"
  shows "\<exists>db1. accept_chain verifier t ten chain chal db = (Inr res, db1) \<and> fst (accept_chain verifier t' ten chain chal db1) = Inr res"
  using assms by (simp add: accept_chain_def admit_def tenantRequiresAllowlist_def mark_consumed_def Let_def)

text \<open>
  All phones that enrol by an approved request share one user.  The challenge looked up is the newest of the
  user, so the chain of a phone whose challenge is no longer the newest is verified over another phone's.
\<close>

lemma shared_user_interferes:
  assumes "IssueChallenge (Some mine) t1 ten u db = (Inr mine, db1)" "IssueChallenge (Some other) t2 ten u db1 = (Inr other, db2)"
    and "\<forall>r \<in> set (challenges db). ch_user r = u \<longrightarrow> ch_issued r \<le> t1" "t1 < t2" "now - t2 \<le> ChallengeTTL"
    and "verifier chain mine = Inr res" "verifier chain other = Inl e"
  shows "Allowlist.VerifyAndConsume verifier now t ten u chain db2 = (Inl (VerifyFailed e), db2)"
proof -
  let ?row = "\<lambda>c t. \<lparr>ch_bytes = c, ch_tenant = ten, ch_user = u, ch_issued = t, ch_consumed = None\<rparr>"
  have db2: "challenges db2 = challenges db @ [?row mine t1, ?row other t2]"
    using assms(1,2) by (auto simp: IssueChallenge_def split: if_split_asm)
  obtain r where r: "newest (filter (\<lambda>r. ch_user r = u) (challenges db2)) = Some r"
    unfolding newest_def db2 by (cases "sort_key (\<lambda>r. - ch_issued r) (filter (\<lambda>r. ch_user r = u) (challenges db @ [?row mine t1, ?row other t2]))")
      (simp_all add: sort_key_simps(1) [symmetric] length_0_conv [symmetric] del: length_0_conv)
  from newest_Some [OF r] have m: "r \<in> set (filter (\<lambda>r. ch_user r = u) (challenges db2))"
    and all: "\<forall>q \<in> set (filter (\<lambda>r. ch_user r = u) (challenges db2)). ch_issued q \<le> ch_issued r" by blast+
  have "?row other t2 \<in> set (filter (\<lambda>r. ch_user r = u) (challenges db2))" by (simp add: db2)
  with all have "ch_issued (?row other t2) \<le> ch_issued r" by blast
  then have "t2 \<le> ch_issued r" by simp
  then have "r = ?row other t2" using m assms(3,4) unfolding db2 by auto
  then have "read_challenge now u db2 = Inr other" using r assms(5) by (simp add: read_challenge_def)
  then show ?thesis using assms(7) by (simp add: VerifyAndConsume_def accept_chain_def)
qed

section \<open>A concrete challenge\<close>

definition demo_verifier :: "bytes \<Rightarrow> bytes \<Rightarrow> string + Result" where
  "demo_verifier chain chal = (if chain = chal
     then Inr \<lparr>res_level = ''tee'', res_package = ''a.b'', res_fingerprint = replicate 32 7, res_root = None\<rparr> else Inl ''nonce'')"

definition demo_allow :: AllowDB where "demo_allow = \<lparr>challenges = [], fingerprints = [], demanding = [(replicate 16 9, False)]\<rparr>"

definition demo_allow1 :: AllowDB where
  "demo_allow1 = demo_allow\<lparr>challenges := [\<lparr>ch_bytes = [4], ch_tenant = replicate 16 9, ch_user = replicate 16 3, ch_issued = 0, ch_consumed = None\<rparr>]\<rparr>"

lemma demo_allow_run: "allow_run demo_verifier demo_allow1 []"
proof -
  have "IssueChallenge (Some [4]) 0 (replicate 16 9) (replicate 16 3) demo_allow = (Inr [4], demo_allow1)"
    by (simp add: IssueChallenge_def demo_allow_def demo_allow1_def IsZero_def list_all_iff)
  moreover have "allow_run demo_verifier demo_allow []" by (rule allow_run.start) (simp add: demo_allow_def)
  ultimately show ?thesis by (meson allow_run.issue)
qed

theorem challenge_accepted_once_witness:
  "\<exists>res db'. Allowlist.VerifyAndConsume demo_verifier 5 5 (replicate 16 9) (replicate 16 3) [4] demo_allow1 = (Inr res, db')
     \<and> (\<forall>now' u'. read_challenge now' u' db' \<noteq> Inr [4])"
proof -
  obtain res db' where v: "Allowlist.VerifyAndConsume demo_verifier 5 5 (replicate 16 9) (replicate 16 3) [4] demo_allow1 = (Inr res, db')"
    by (simp add: VerifyAndConsume_def read_challenge_def newest_def demo_allow1_def demo_allow_def ChallengeTTL_def minute_def second_def
      accept_chain_def demo_verifier_def admit_def tenantRequiresAllowlist_def mark_consumed_def)
  from challenge_accepted_once [OF demo_allow_run v] v show ?thesis by (auto simp: demo_allow1_def)
qed


end
