(* ===== verification/Nodes.thy ===== *)
theory Nodes
  imports NodeAPI
begin

text \<open>
  The gateways as the controller sees them (\<open>nodes/nodes.go\<close>, \<open>httpapi/node_report.go\<close>, the node lists of
  \<open>httpapi/handlers.go\<close>): what they report, the peer list with its version token, and the session
  telemetry.  SHA-256, base64, the clocks and fresh identifiers are arguments.
\<close>

section \<open>Rows\<close>

record NodeFull = NodeRow +
  nd_region :: string
  nd_public :: bytes
  nd_seen :: "time option"
  nd_report :: "time option"
  nd_backend :: "string option"
  nd_iface :: "bool option"
  nd_peers :: "int option"
  nd_agent :: "string option"
  nd_responder :: "bool option"

record EndpointRow =
  ep_id :: ID
  ep_node :: ID
  ep_mode :: string
  ep_host :: string
  ep_port :: "16 word"
  ep_enabled :: bool

record Node = \<comment> \<open>the struct the rows are scanned into\<close>
  no_id :: ID
  no_tenant :: ID
  no_hostname :: string
  no_region :: string
  no_status :: string
  no_seen :: "time option"
  no_report :: "time option"
  no_backend :: string
  no_iface :: "bool option"
  no_peers :: "int option"
  no_agent :: string
  no_responder :: "bool option"

definition scanNodeWithRuntime :: "NodeFull \<Rightarrow> Node" where
  "scanNodeWithRuntime n = \<lparr>no_id = nd_id n, no_tenant = nd_tenant n, no_hostname = nd_hostname n, no_region = nd_region n,
     no_status = nd_status n, no_seen = nd_seen n, no_report = nd_report n, no_backend = or_empty (nd_backend n),
     no_iface = nd_iface n, no_peers = nd_peers n, no_agent = or_empty (nd_agent n), no_responder = nd_responder n\<rparr>"

definition RecordReport :: "time \<Rightarrow> ID \<Rightarrow> string \<Rightarrow> bool \<Rightarrow> int \<Rightarrow> string \<Rightarrow> bool \<Rightarrow> NodeFull list \<Rightarrow> NodeFull list" where
  "RecordReport dbnow i backend iface peers agent responder nodes =
     map (\<lambda>n. if nd_id n = i then n\<lparr>nd_report := Some dbnow, nd_backend := Some backend, nd_iface := Some iface,
        nd_peers := Some peers, nd_agent := Some agent, nd_responder := Some responder\<rparr> else n) nodes"

definition FindByID :: "ID \<Rightarrow> NodeFull list \<Rightarrow> Node option" where
  "FindByID i nodes = map_option scanNodeWithRuntime (find (\<lambda>n. nd_id n = i \<and> nd_deleted n = None) nodes)"

definition FindByHostname :: "weight \<Rightarrow> ID \<Rightarrow> string \<Rightarrow> NodeFull list \<Rightarrow> Node option" where
  "FindByHostname weight tenant hostname nodes = map_option scanNodeWithRuntime
     (find (\<lambda>n. nd_tenant n = tenant \<and> weight (nd_hostname n) = weight hostname \<and> nd_deleted n = None) nodes)"

definition ListByTenant :: "weight \<Rightarrow> ID \<Rightarrow> NodeFull list \<Rightarrow> Node list" where
  "ListByTenant weight tenant nodes = map scanNodeWithRuntime (sort_key (\<lambda>n. weight (nd_hostname n))
     (filter (\<lambda>n. nd_tenant n = tenant \<and> nd_deleted n = None) nodes))"

definition MarkSeen :: "time \<Rightarrow> ID \<Rightarrow> NodeFull list \<Rightarrow> NodeFull list" where
  "MarkSeen dbnow i nodes = map (\<lambda>n. if nd_id n = i \<and> nd_deleted n = None then n\<lparr>nd_seen := Some dbnow\<rparr> else n) nodes"

section \<open>The peer list and its version\<close>

record PeerSpec =
  pe_public :: bytes
  pe_psk :: bytes \<comment> \<open>empty when there is none\<close>
  pe_allowed :: "prefix list"
  pe_keepalive :: "32 word"

definition spec_of :: "32 word \<Rightarrow> DeviceKey \<Rightarrow> bytes \<Rightarrow> PeerSpec" where
  "spec_of keepalive k psk = \<lparr>pe_public = k_public k, pe_psk = psk,
     pe_allowed = (case k_ipv4 k of Some b \<Rightarrow> if length b = 4 then [prefix_from (from4 b) 32] else [] | None \<Rightarrow> [])
       @ (case k_ipv6 k of Some b \<Rightarrow> if length b = 16 then [prefix_from (unmap (from16 b)) 128] else [] | None \<Rightarrow> []),
     pe_keepalive = keepalive\<rparr>"

text \<open>\<open>LEFT JOIN device_psks\<close>: a key without a live pre-shared key still has a row.\<close>

definition psks_of :: "DB \<Rightarrow> DeviceKey \<Rightarrow> bytes list" where
  "psks_of db k = (case filter (\<lambda>p. p_device_key p = k_id k \<and> p_revoked p = None) (psks db) of [] \<Rightarrow> [[]] | ps \<Rightarrow> map p_psk ps)"

definition loadActivePeers :: "32 word \<Rightarrow> ID \<Rightarrow> DB \<Rightarrow> PeerSpec list \<times> int" where
  "loadActivePeers keepalive tenant db =
     (let rows = sort_key k_activated (sort_key k_id
            (filter (\<lambda>k. k_revoked k = None \<and> (\<exists>d \<in> set (devices db). d_id d = k_device k \<and> d_tenant d = tenant
               \<and> d_deleted d = None \<and> d_status d \<in> {StatusActive, StatusSuspended})) (dkeys db)))
      in ([spec_of keepalive k psk. k \<leftarrow> rows, psk \<leftarrow> psks_of db k], fold (\<lambda>k m. max m (k_activated k div 1000)) rows 0))"

definition prefix_bytes :: "prefix \<Rightarrow> bytes" where
  "prefix_bytes p = (case IPToBytes (paddr p) of None \<Rightarrow> [] | Some b \<Rightarrow> b) @ [word_of_int (pbits p)]"

definition peer_bytes :: "PeerSpec \<Rightarrow> bytes" where
  "peer_bytes p = pe_public p @ pe_psk p @ concat (map prefix_bytes (pe_allowed p)) @ be32 (pe_keepalive p)"

definition version_input :: "int \<Rightarrow> PeerSpec list \<Rightarrow> bytes" where
  "version_input seq peers = concat (map peer_bytes (sort_key pe_public peers)) @ be64 (word_of_int seq)"

definition computeVersion :: "(bytes \<Rightarrow> bytes) \<Rightarrow> int \<Rightarrow> PeerSpec list \<Rightarrow> string" where
  "computeVersion sha seq peers = int_str seq @ ''-'' @ hex_encode (take 16 (sha (version_input seq peers)))"

datatype sync_result = NotModified string | Peers string "PeerSpec list"

definition Sync :: "(bytes \<Rightarrow> bytes) \<Rightarrow> 32 word \<Rightarrow> time \<Rightarrow> ID \<Rightarrow> string \<Rightarrow> NodeFull list \<Rightarrow> DB \<Rightarrow> (pol_error + sync_result) \<times> NodeFull list" where
  "Sync sha keepalive dbnow i current nodes db = (case FindByID i nodes of
     None \<Rightarrow> (Inl PolNotFound, nodes)
   | Some n \<Rightarrow> (let (peers, seq) = loadActivePeers keepalive (no_tenant n) db; version = computeVersion sha seq peers in
       (Inr (if current \<noteq> [] \<and> current = version then NotModified version else Peers version peers), MarkSeen dbnow i nodes)))"

section \<open>Session telemetry\<close>

record SessionStat =
  ses_key :: bytes
  ses_handshake :: time
  ses_rx :: int
  ses_tx :: int
  ses_ip :: addr

record TunnelSession =
  tu_id :: ID
  tu_key :: ID
  tu_node :: ID
  tu_handshake :: time
  tu_rx :: int
  tu_tx :: int
  tu_ip :: "bytes option"
  tu_ended :: "time option"

definition key_index :: "SessionStat list \<Rightarrow> DB \<Rightarrow> bytes \<Rightarrow> ID option" where
  "key_index sts db pk = (if length pk = 32 \<and> pk \<in> ses_key ` set sts
     then map_option k_id (find (\<lambda>k. k_public k = pk \<and> k_revoked k = None) (dkeys db)) else None)"

text \<open>
  The UPDATE reports the rows it changed, not those it met; the counters are unsigned columns that refuse
  a negative value.
\<close>

definition report_one :: "ID \<Rightarrow> ID \<Rightarrow> ID \<Rightarrow> SessionStat \<Rightarrow> TunnelSession list \<Rightarrow> bool \<times> TunnelSession list" where
  "report_one newID nodeID key st rows =
     (let f = (\<lambda>r. r\<lparr>tu_handshake := ses_handshake st, tu_rx := ses_rx st, tu_tx := ses_tx st, tu_ip := IPToBytes (ses_ip st)\<rparr>);
          hit = (\<lambda>r. tu_key r = key \<and> tu_ended r = None)
      in if ses_rx st < 0 \<or> ses_tx st < 0 then (False, rows)
         else if \<exists>r \<in> set rows. hit r \<and> f r \<noteq> r then (True, map (\<lambda>r. if hit r then f r else r) rows)
         else if \<exists>r \<in> set rows. tu_id r = newID then (False, rows)
         else (True, rows @ [\<lparr>tu_id = newID, tu_key = key, tu_node = nodeID, tu_handshake = ses_handshake st, tu_rx = ses_rx st,
           tu_tx = ses_tx st, tu_ip = IPToBytes (ses_ip st), tu_ended = None\<rparr>]))"

fun report_loop :: "ID list \<Rightarrow> ID \<Rightarrow> (bytes \<Rightarrow> ID option) \<Rightarrow> SessionStat list \<Rightarrow> 32 word \<times> 32 word \<Rightarrow> TunnelSession list
    \<Rightarrow> (32 word \<times> 32 word) \<times> TunnelSession list" where
  \<comment> \<open>the drawn identifiers, one for each entry\<close>
  "report_loop (i # ids) nodeID index (st # sts) (acc, rej) rows = (case index (ses_key st) of
     None \<Rightarrow> report_loop ids nodeID index sts (acc, rej + 1) rows
   | Some k \<Rightarrow> (case report_one i nodeID k st rows of
       (False, rows') \<Rightarrow> report_loop ids nodeID index sts (acc, rej + 1) rows'
     | (True, rows') \<Rightarrow> report_loop ids nodeID index sts (acc + 1, rej) rows'))"
| "report_loop _ _ _ _ counts rows = (counts, rows)"

definition ReportSessions :: "ID list \<Rightarrow> ID \<Rightarrow> SessionStat list \<Rightarrow> DB \<Rightarrow> TunnelSession list \<Rightarrow> (32 word \<times> 32 word) \<times> TunnelSession list" where
  "ReportSessions ids nodeID sts db rows =
     (if sts = [] then ((0, 0), rows)
      else if filter (\<lambda>st. length (ses_key st) = 32) sts = [] then ((0, of_nat (length sts)), rows)
      else report_loop ids nodeID (key_index sts db) sts (0, 0) rows)"

section \<open>What devices and the console see\<close>

record wire_node =
  wn_id :: string
  wn_region :: string
  wn_public :: string
  wn_endpoints :: "(string \<times> string \<times> string \<times> int) list"

definition fetchNodeEndpoints :: "ID \<Rightarrow> EndpointRow list \<Rightarrow> (string \<times> string \<times> string \<times> int) list" where
  "fetchNodeEndpoints i eps = map (\<lambda>e. (Ident.String (ep_id e), ep_mode e, ep_host e, uint (ep_port e)))
     (filter (\<lambda>e. ep_node e = i \<and> ep_enabled e) eps)"

definition fetchPeerList :: "weight \<Rightarrow> (bytes \<Rightarrow> string) \<Rightarrow> ID \<Rightarrow> NodeFull list \<Rightarrow> EndpointRow list \<Rightarrow> wire_node list" where
  "fetchPeerList weight b64 tenant nodes eps =
     map (\<lambda>n. \<lparr>wn_id = Ident.String (nd_id n), wn_region = nd_region n, wn_public = b64 (nd_public n),
        wn_endpoints = fetchNodeEndpoints (nd_id n) eps\<rparr>)
       (sort_key (\<lambda>n. weight (nd_hostname n)) (filter (\<lambda>n. nd_tenant n = tenant \<and> nd_deleted n = None
          \<and> nd_status n \<in> {''active'', ''draining''}) nodes))"
section \<open>The version token stands for the peer list\<close>

text \<open>
  The encoding hashes the parts of a peer without their lengths.  It is unambiguous for the peers a
  registration makes: keys and pre-shared keys of 32 bytes, one IPv4 host prefix and perhaps one IPv6 host
  prefix, when the IPv6 address does not begin with the bytes of the keepalive interval that follow a peer
  without one.
\<close>

fun shaped_ips :: "32 word \<Rightarrow> prefix list \<Rightarrow> bool" where
  "shaped_ips ka [q] = (is4 (paddr q) \<and> pbits q = 32)"
| "shaped_ips ka [q, r] = (is4 (paddr q) \<and> pbits q = 32
     \<and> (case paddr r of V6 w z \<Rightarrow> z = [] \<and> pbits r = 128 \<and> take 4 (as16 w) \<noteq> be32 ka | _ \<Rightarrow> False))"
| "shaped_ips ka _ = False"

definition shaped_peer :: "32 word \<Rightarrow> PeerSpec \<Rightarrow> bool" where
  "shaped_peer ka p \<longleftrightarrow> length (pe_public p) = 32 \<and> length (pe_psk p) = 32 \<and> pe_keepalive p = ka
     \<and> shaped_ips ka (pe_allowed p)"

lemma shaped_ips_cases:
  assumes "shaped_ips ka qs"
  obtains q a where "qs = [q]" "paddr q = V4 a" "pbits q = 32"
    | q r a w where "qs = [q, r]" "paddr q = V4 a" "pbits q = 32" "paddr r = V6 w []" "pbits r = 128"
        "take 4 (as16 w) \<noteq> be32 ka"
  using assms by (cases "(ka, qs)" rule: shaped_ips.cases) (auto simp: is4_def split: addr.split_asm)

lemma prefix_eta: "q = \<lparr>paddr = paddr q, pbits = pbits q\<rparr>" for q :: prefix
  by (cases q) simp

lemma shaped_cases:
  assumes "shaped_peer ka p"
  obtains a where "pe_allowed p = [\<lparr>paddr = V4 a, pbits = 32\<rparr>]"
      "peer_bytes p = pe_public p @ pe_psk p @ as4 a @ [32] @ be32 ka"
    | a w where "pe_allowed p = [\<lparr>paddr = V4 a, pbits = 32\<rparr>, \<lparr>paddr = V6 w [], pbits = 128\<rparr>]"
      "peer_bytes p = pe_public p @ pe_psk p @ as4 a @ [32] @ as16 w @ [128] @ be32 ka" "take 4 (as16 w) \<noteq> be32 ka"
proof -
  have ka: "pe_keepalive p = ka" using assms by (simp add: shaped_peer_def)
  consider q a where "pe_allowed p = [q]" "paddr q = V4 a" "pbits q = 32"
    | q r a w where "pe_allowed p = [q, r]" "paddr q = V4 a" "pbits q = 32" "paddr r = V6 w []" "pbits r = 128"
        "take 4 (as16 w) \<noteq> be32 ka"
    using assms unfolding shaped_peer_def by (elim conjE) (erule shaped_ips_cases; blast)
  then show thesis
  proof cases
    case (1 q a)
    then have "pe_allowed p = [\<lparr>paddr = V4 a, pbits = 32\<rparr>]" using prefix_eta [of q] by simp
    then show thesis using ka by (intro that(1) [of a]) (simp_all add: peer_bytes_def prefix_bytes_def IPToBytes_def)
  next
    case (2 q r a w)
    then have "pe_allowed p = [\<lparr>paddr = V4 a, pbits = 32\<rparr>, \<lparr>paddr = V6 w [], pbits = 128\<rparr>]"
      using prefix_eta [of q] prefix_eta [of r] by simp
    then show thesis using ka 2(6) by (intro that(2) [of a w]) (simp_all add: peer_bytes_def prefix_bytes_def IPToBytes_def)
  qed
qed

lemma be32_length [simp]: "length (be32 v) = 4" by (simp add: be32_def)

text \<open>A block read off the front of a text determines the peer and the rest.\<close>

lemma fields_inject:
  "length p1 = length q1 \<Longrightarrow> length p2 = length q2 \<Longrightarrow> p1 @ p2 @ as4 a @ [32] @ x = q1 @ q2 @ as4 b @ [32] @ y
    \<Longrightarrow> p1 = q1 \<and> p2 = q2 \<and> a = b \<and> x = y"
  by (auto simp: append_eq_append_conv as4_inject)

lemma v6_inject: "as16 w @ [128] @ x = as16 v @ [128] @ y \<Longrightarrow> w = v \<and> x = y"
proof -
  assume "as16 w @ [128] @ x = as16 v @ [128] @ y"
  then have "as16 w = as16 v \<and> x = y" by (auto simp: append_eq_append_conv)
  moreover have "as16 w = as16 v \<Longrightarrow> w = v" using from16_as16 by (metis addr.inject(2))
  ultimately show ?thesis by simp
qed

lemma shaped_inject:
  assumes "shaped_peer ka p" "shaped_peer ka q" "peer_bytes p @ x = peer_bytes q @ y"
  shows "p = q \<and> x = y"
proof -
  have l: "length (pe_public p) = length (pe_public q)" "length (pe_psk p) = length (pe_psk q)"
      "pe_keepalive p = ka" "pe_keepalive q = ka"
    using assms(1,2) by (simp_all add: shaped_peer_def)
  have eq: "pe_public p = pe_public q \<Longrightarrow> pe_psk p = pe_psk q \<Longrightarrow> pe_allowed p = pe_allowed q \<Longrightarrow> p = q"
    using l(3,4) by (cases p; cases q) simp
  have head: "take 4 (as16 w @ z) = take 4 (as16 w)" "take 4 (be32 ka @ z) = be32 ka" for w :: "128 word" and z
    by simp_all
  from assms(1) show ?thesis
  proof (cases rule: shaped_cases)
    case p: (1 a)
    from assms(2) show ?thesis
    proof (cases rule: shaped_cases)
      case (1 b)
      have "pe_public p @ pe_psk p @ as4 a @ [32] @ be32 ka @ x = pe_public q @ pe_psk q @ as4 b @ [32] @ be32 ka @ y"
        using assms(3) unfolding p(2) 1(2) append_assoc .
      from fields_inject [OF l(1,2) this] eq p(1) 1(1) show ?thesis by simp
    next
      case (2 b v)
      have "pe_public p @ pe_psk p @ as4 a @ [32] @ be32 ka @ x = pe_public q @ pe_psk q @ as4 b @ [32] @ as16 v @ [128] @ be32 ka @ y"
        using assms(3) unfolding p(2) 2(2) append_assoc .
      from fields_inject [OF l(1,2) this] have "be32 ka @ x = as16 v @ [128] @ be32 ka @ y" by blast
      then have "be32 ka = take 4 (as16 v)" using head by metis
      with 2(3) show ?thesis by simp
    qed
  next
    case p: (2 a w)
    from assms(2) show ?thesis
    proof (cases rule: shaped_cases)
      case (1 b)
      have "pe_public p @ pe_psk p @ as4 a @ [32] @ as16 w @ [128] @ be32 ka @ x = pe_public q @ pe_psk q @ as4 b @ [32] @ be32 ka @ y"
        using assms(3) unfolding p(2) 1(2) append_assoc .
      from fields_inject [OF l(1,2) this] have "as16 w @ [128] @ be32 ka @ x = be32 ka @ y" by blast
      then have "be32 ka = take 4 (as16 w)" using head by metis
      with p(3) show ?thesis by simp
    next
      case (2 b v)
      have "pe_public p @ pe_psk p @ as4 a @ [32] @ as16 w @ [128] @ be32 ka @ x
          = pe_public q @ pe_psk q @ as4 b @ [32] @ as16 v @ [128] @ be32 ka @ y"
        using assms(3) unfolding p(2) 2(2) append_assoc .
      from fields_inject [OF l(1,2) this] have f: "pe_public p = pe_public q" "pe_psk p = pe_psk q" "a = b"
        "as16 w @ [128] @ be32 ka @ x = as16 v @ [128] @ be32 ka @ y" by blast+
      from v6_inject [OF f(4)] have "w = v" "x = y" by simp_all
      with f(1-3) eq p(1) 2(1) show ?thesis by simp
    qed
  qed
qed

lemma shaped_long: "shaped_peer ka p \<Longrightarrow> 64 \<le> length (peer_bytes p)"
  by (simp add: shaped_peer_def peer_bytes_def)

lemma blocks_inject:
  "list_all (shaped_peer ka) xs \<Longrightarrow> list_all (shaped_peer ka) ys \<Longrightarrow> length s = 8 \<Longrightarrow> length t = 8
    \<Longrightarrow> concat (map peer_bytes xs) @ s = concat (map peer_bytes ys) @ t \<Longrightarrow> xs = ys"
proof (induction xs arbitrary: ys)
  case Nil
  show ?case
  proof (cases ys)
    case (Cons y zs)
    with Nil.prems(2) shaped_long [of ka y] have "8 < length (concat (map peer_bytes ys) @ t)" by simp
    with arg_cong [OF Nil.prems(5), of length] Nil.prems(3) show ?thesis by simp
  qed simp
next
  case (Cons x xs)
  show ?case
  proof (cases ys)
    case Nil
    with Cons.prems(1) shaped_long [of ka x] have "8 < length (concat (map peer_bytes (x # xs)) @ s)" by simp
    with arg_cong [OF Cons.prems(5), of length] Cons.prems(4) Nil show ?thesis by simp
  next
    case ys: (Cons y zs)
    have "peer_bytes x @ concat (map peer_bytes xs) @ s = peer_bytes y @ concat (map peer_bytes zs) @ t"
      using Cons.prems(5) ys by simp
    moreover have "shaped_peer ka x" "shaped_peer ka y" using Cons.prems(1,2) ys by simp_all
    ultimately have "x = y" "concat (map peer_bytes xs) @ s = concat (map peer_bytes zs) @ t"
      using shaped_inject by blast+
    with Cons.IH [of zs] Cons.prems(1-4) ys show ?thesis by simp
  qed
qed

lemma version_input_inject:
  assumes "list_all (shaped_peer ka) ps" "list_all (shaped_peer ka) qs" "version_input s ps = version_input t qs"
  shows "sort_key pe_public ps = sort_key pe_public qs"
proof (rule blocks_inject)
  show "list_all (shaped_peer ka) (sort_key pe_public ps)" "list_all (shaped_peer ka) (sort_key pe_public qs)"
    using assms(1,2) by (simp_all add: list_all_iff)
  show "concat (map peer_bytes (sort_key pe_public ps)) @ be64 (word_of_int s)
      = concat (map peer_bytes (sort_key pe_public qs)) @ be64 (word_of_int t)" using assms(3) by (simp add: version_input_def)
qed (simp_all add: be64_def)

lemma Sync_answers:
  "fst (Sync sha ka t i v nodes db) = Inr (Peers w ps) \<Longrightarrow>
     \<exists>n seq. FindByID i nodes = Some n \<and> loadActivePeers ka (no_tenant n) db = (ps, seq) \<and> w = computeVersion sha seq ps"
  "fst (Sync sha ka t i v nodes db) = Inr (NotModified w) \<Longrightarrow>
     \<exists>n seq qs. FindByID i nodes = Some n \<and> loadActivePeers ka (no_tenant n) db = (qs, seq) \<and> w = computeVersion sha seq qs \<and> v = w"
  by (auto simp: Sync_def Let_def split: option.splits prod.splits if_splits)

text \<open>
  C40. What \<open>not modified\<close> means: a node that was served a peer list with a version and is later told that
  this version still stands would be served the same peers, up to order, unless the two encodings that were
  hashed differ and have the same first sixteen bytes of SHA-256. The encoding has no lengths, so this is
  for lists whose peers each have a 32-byte key, a 32-byte pre-shared key, one IPv4 \<open>/32\<close> and, or not, one IPv6
  \<open>/128\<close> whose first four bytes are not those of the keepalive interval (\<open>shaped_peer\<close>).
\<close>
theorem not_modified_same_peers:
  assumes "\<And>x. length (sha x) = 32"
    and "fst (Sync sha ka t i c nodes db) = Inr (Peers v ps)"
    and "FindByID i nodes = Some m" "s = snd (loadActivePeers ka (no_tenant m) db)"
    and "fst (Sync sha ka t' i v nodes' db') = Inr (NotModified v')"
    and "FindByID i nodes' = Some n" "loadActivePeers ka (no_tenant n) db' = (qs, s')"
    and "list_all (shaped_peer ka) ps" "list_all (shaped_peer ka) qs"
  shows "mset qs = mset ps
    \<or> version_input s ps \<noteq> version_input s' qs \<and> take 16 (sha (version_input s ps)) = take 16 (sha (version_input s' qs))"
proof -
  from Sync_answers(1) [OF assms(2)] assms(3,4) have s0: "v = computeVersion sha s ps" by auto
  from Sync_answers(2) [OF assms(5)] assms(6,7) have v: "v = computeVersion sha s' qs" by auto
  let ?h = "\<lambda>x. hex_encode (take 16 (sha x))"
  have "(int_str s @ ''-'') @ ?h (version_input s ps) = (int_str s' @ ''-'') @ ?h (version_input s' qs)"
    using s0 v by (simp add: computeVersion_def)
  moreover have "length (?h (version_input s ps)) = length (?h (version_input s' qs))" by (simp add: assms(1))
  ultimately have "?h (version_input s ps) = ?h (version_input s' qs)"
    using append_eq_append_conv [OF disjI2] by blast
  then have h: "take 16 (sha (version_input s ps)) = take 16 (sha (version_input s' qs))"
    by (metis hex_decode_encode option.inject)
  show ?thesis
  proof (cases "version_input s ps = version_input s' qs")
    case True
    from version_input_inject [OF assms(8,9) True] show ?thesis by (metis mset_sort)
  next
    case False
    with h show ?thesis by blast
  qed
qed

text \<open>A node and a device with one key, and the same tables after the device was suspended.\<close>

definition demo_gateway :: NodeFull where
  "demo_gateway = \<lparr>nd_id = replicate 16 7, nd_tenant = replicate 16 9, nd_hostname = ''gw'', nd_token_hash = None, nd_token_set = None,
     nd_status = ''active'', nd_synced = None, nd_deleted = None, nd_region = '''', nd_public = [], nd_seen = None, nd_report = None,
     nd_backend = None, nd_iface = None, nd_peers = None, nd_agent = None, nd_responder = None\<rparr>"

definition demo_peers :: "Status \<Rightarrow> DB" where
  "demo_peers st = \<lparr>devices = [\<lparr>d_id = replicate 16 1, d_tenant = replicate 16 9, d_user = replicate 16 2, d_install = ''i'', d_name = ''n'',
       d_platform = ''android'', d_os_version = '''', d_app_version = '''', d_model = '''', d_os_sdk = 34, d_status = st,
       d_last_seen = None, d_created = 0, d_filter_mode = AppFilterOff, d_filter_packages = [],
       d_deployment = DeploymentStandalone, d_host_package = '''', d_policy = None, d_group = None, d_access_expires = None,
       d_deleted = None\<rparr>],
     dkeys = [\<lparr>k_id = replicate 16 3, k_device = replicate 16 1, k_public = replicate 32 4, k_ipv4 = Some [10, 78, 0, 2],
       k_ipv6 = None, k_activated = 5000, k_expires = None, k_revoked = None\<rparr>],
     psks = [\<lparr>p_id = replicate 16 5, p_device_key = replicate 16 3, p_psk = replicate 32 6, p_source = PSKClassical,
       p_activated = 5000, p_expires = None, p_revoked = None\<rparr>],
     certs = [], attestations = [], state_tokens = [], tenants = []\<rparr>"

definition demo_sha :: "bytes \<Rightarrow> bytes" where "demo_sha x = take 32 (x @ replicate 32 0)"

lemma demo_load:
  assumes "st \<in> {StatusActive, StatusSuspended}"
  shows "loadActivePeers 25 (replicate 16 9) (demo_peers st) =
    ([\<lparr>pe_public = replicate 32 4, pe_psk = replicate 32 6, pe_allowed = [\<lparr>paddr = V4 0x0A4E0002, pbits = 32\<rparr>], pe_keepalive = 25\<rparr>], 5)"
  using assms
  by (simp add: loadActivePeers_def demo_peers_def spec_of_def psks_of_def prefix_from_def bitlen_def from4_def Let_def)

lemma demo_find: "FindByID (replicate 16 7) [demo_gateway] = Some (scanNodeWithRuntime demo_gateway)"
  "no_tenant (scanNodeWithRuntime demo_gateway) = replicate 16 9"
  by (simp_all add: FindByID_def demo_gateway_def scanNodeWithRuntime_def)

theorem not_modified_same_peers_witness:
  "\<exists>v ps qs. fst (Sync demo_sha 25 0 (replicate 16 7) [] [demo_gateway] (demo_peers StatusActive)) = Inr (Peers v ps)
     \<and> fst (Sync demo_sha 25 1 (replicate 16 7) v [demo_gateway] (demo_peers StatusSuspended)) = Inr (NotModified v)
     \<and> ps \<noteq> [] \<and> (mset qs = mset ps \<or> version_input 5 ps \<noteq> version_input 5 qs
        \<and> take 16 (demo_sha (version_input 5 ps)) = take 16 (demo_sha (version_input 5 qs)))"
proof -
  let ?ps = "[\<lparr>pe_public = replicate 32 4, pe_psk = replicate 32 6, pe_allowed = [\<lparr>paddr = V4 0x0A4E0002, pbits = 32\<rparr>], pe_keepalive = 25\<rparr>]"
  let ?v = "computeVersion demo_sha 5 ?ps"
  have a: "fst (Sync demo_sha 25 0 (replicate 16 7) [] [demo_gateway] (demo_peers StatusActive)) = Inr (Peers ?v ?ps)"
    by (simp add: Sync_def demo_find demo_load)
  have "?v \<noteq> []" by (simp add: computeVersion_def)
  then have b: "fst (Sync demo_sha 25 1 (replicate 16 7) ?v [demo_gateway] (demo_peers StatusSuspended)) = Inr (NotModified ?v)"
    by (simp add: Sync_def demo_find demo_load)
  have p: "list_all (shaped_peer 25) ?ps" by (simp add: shaped_peer_def is4_def)
  have "mset ?ps = mset ?ps \<or> version_input 5 ?ps \<noteq> version_input 5 ?ps
      \<and> take 16 (demo_sha (version_input 5 ?ps)) = take 16 (demo_sha (version_input 5 ?ps))"
    by (rule not_modified_same_peers [OF _ a demo_find(1) _ b demo_find(1) _ p p])
      (simp_all only: demo_find(2) demo_load snd_conv insertI1 insertI2, simp add: demo_sha_def)
  with a b show ?thesis by (intro exI [of _ ?v] exI [of _ ?ps] conjI) simp_all
qed

section \<open>An idle peer gains a session with every report\<close>

lemma settled_after_update:
  assumes "\<And>r. f (f r) = f r"
  shows "\<not> (\<exists>r \<in> set (map (\<lambda>r. if hit r then f r else r) rows). hit r \<and> f r \<noteq> r)"
proof
  assume "\<exists>r \<in> set (map (\<lambda>r. if hit r then f r else r) rows). hit r \<and> f r \<noteq> r"
  then obtain q where "hit (if hit q then f q else q)" "f (if hit q then f q else q) \<noteq> (if hit q then f q else q)"
    unfolding list.set_map by blast
  with assms show False by (cases "hit q") simp_all
qed

text \<open>
  The UPDATE of a report that repeats the one before it changes no row, so that an INSERT follows although
  the session is open.
\<close>
lemma idle_peer_gains_session:
  assumes "report_one i nodeID k st rows = (True, rows')" "j \<notin> tu_id ` set rows'"
  shows "fst (report_one j nodeID k st rows')"
    and "length (filter (\<lambda>r. tu_key r = k \<and> tu_ended r = None) (snd (report_one j nodeID k st rows')))
       = Suc (length (filter (\<lambda>r. tu_key r = k \<and> tu_ended r = None) rows'))"
proof -
  let ?f = "\<lambda>r. r\<lparr>tu_handshake := ses_handshake st, tu_rx := ses_rx st, tu_tx := ses_tx st, tu_ip := IPToBytes (ses_ip st)\<rparr>"
  have p: "\<not> (ses_rx st < 0 \<or> ses_tx st < 0)" using assms(1) by (auto simp: report_one_def Let_def split: if_splits)
  let ?hit = "\<lambda>r. tu_key r = k \<and> tu_ended r = None"
  have n: "\<not> (\<exists>r \<in> set rows'. ?hit r \<and> ?f r \<noteq> r)"
  proof (cases "\<exists>r \<in> set rows. ?hit r \<and> ?f r \<noteq> r")
    case True
    from assms(1) have "rows' = map (\<lambda>r. if ?hit r then ?f r else r) rows"
      unfolding report_one_def Let_def if_not_P [OF p] if_P [OF True] by simp
    then show ?thesis by (rule ssubst [where P = "\<lambda>xs. \<not> (\<exists>r \<in> set xs. ?hit r \<and> ?f r \<noteq> r)"])
        (rule settled_after_update; simp)
  next
    case False
    from assms(1) obtain x where x: "rows' = rows @ [x]" "?f x = x"
      unfolding report_one_def Let_def if_not_P [OF p] if_not_P [OF False] by (auto split: if_splits)
    from x(1) have "set rows' = insert x (set rows)" by simp
    with False x(2) show ?thesis by (metis insertE)
  qed
  from assms(2) have m: "\<not> (\<exists>r \<in> set rows'. tu_id r = j)" by blast
  have "report_one j nodeID k st rows' = (True, rows' @ [\<lparr>tu_id = j, tu_key = k, tu_node = nodeID, tu_handshake = ses_handshake st,
      tu_rx = ses_rx st, tu_tx = ses_tx st, tu_ip = IPToBytes (ses_ip st), tu_ended = None\<rparr>])"
    unfolding report_one_def Let_def if_not_P [OF p] if_not_P [OF n] if_not_P [OF m] by (rule refl)
  then show "fst (report_one j nodeID k st rows')"
    and "length (filter (\<lambda>r. tu_key r = k \<and> tu_ended r = None) (snd (report_one j nodeID k st rows')))
       = Suc (length (filter (\<lambda>r. tu_key r = k \<and> tu_ended r = None) rows'))"
    by simp_all
qed

end
