(* ===== verification/Onboard.thy ===== *)
theory Onboard
  imports Console Enrollment Nodes Allowlist
begin

text \<open>
  How a phone comes in (\<open>users/users.go\<close>, \<open>httpapi/middleware.go\<close>, \<open>registerDevice\<close> and
  \<open>rotateDeviceKey\<close> of \<open>httpapi/handlers.go\<close>): a request is authenticated by the session of an admin or
  by an enrolment grant, becomes a row of the users table, and registers or rotates.  The tables of all
  components stand in one record.
\<close>

section \<open>Users\<close>

record User =
  us_id :: ID
  us_tenant :: ID
  us_subject :: string
  us_email :: string
  us_name :: "string option"
  us_login :: time

datatype user_error = SubjectRequired | UserDuplicate | UserGone

definition findBySubject :: "weight \<Rightarrow> string \<Rightarrow> User list \<Rightarrow> User option" where
  "findBySubject w subject users = find (\<lambda>u. w (us_subject u) = w subject) users"

text \<open>The row whose unique key an INSERT meets: the primary key, tenant and subject, tenant and e-mail.\<close>

definition user_conflict :: "weight \<Rightarrow> ID \<Rightarrow> ID \<Rightarrow> string \<Rightarrow> string \<Rightarrow> User list \<Rightarrow> User option" where
  "user_conflict w newID tenant subject email users =
     (case find (\<lambda>u. us_id u = newID) users of Some u \<Rightarrow> Some u
      | None \<Rightarrow> (case find (\<lambda>u. us_tenant u = tenant \<and> w (us_subject u) = w subject) users of Some u \<Rightarrow> Some u
      | None \<Rightarrow> find (\<lambda>u. us_tenant u = tenant \<and> w (us_email u) = w email) users))"

definition upsert_user :: "weight \<Rightarrow> ID \<Rightarrow> time \<Rightarrow> ID \<Rightarrow> string \<Rightarrow> string \<Rightarrow> string \<Rightarrow> User list \<Rightarrow> User list option" where
  "upsert_user w newID dbnow tenant subject email name users =
     (case user_conflict w newID tenant subject email users of
        None \<Rightarrow> Some (users @ [\<lparr>us_id = newID, us_tenant = tenant, us_subject = subject, us_email = email,
          us_name = null_str name, us_login = dbnow\<rparr>])
      | Some r \<Rightarrow>
          if \<exists>q \<in> set users. us_id q \<noteq> us_id r \<and> us_tenant q = us_tenant r \<and> w (us_email q) = w email then None
          else Some (map (\<lambda>q. if us_id q = us_id r
            then q\<lparr>us_email := email, us_name := (if name = [] then us_name q else Some name), us_login := dbnow\<rparr> else q) users))"

definition FindOrCreate :: "weight \<Rightarrow> ID \<Rightarrow> time \<Rightarrow> ID \<Rightarrow> string \<Rightarrow> string \<Rightarrow> string \<Rightarrow> User list \<Rightarrow> (user_error + User) \<times> User list" where
  "FindOrCreate w newID dbnow tenant subject email name users =
     (if subject = [] then (Inl SubjectRequired, users)
      else case findBySubject w subject users of
        Some u \<Rightarrow> (Inr u, users)
      | None \<Rightarrow> (case upsert_user w newID dbnow tenant subject email name users of
          None \<Rightarrow> (Inl UserDuplicate, users)
        | Some us \<Rightarrow> (case findBySubject w subject us of None \<Rightarrow> (Inl UserGone, us) | Some u \<Rightarrow> (Inr u, us))))"

section \<open>The tables and what the environment gives\<close>

record Site =
  si_console :: Console
  si_users :: "User list"
  si_tokens :: "EnrollmentToken list"
  si_auth :: AuthDB
  si_allow :: "AllowDB option" \<comment> \<open>when the allowlist is configured\<close>
  si_kem :: "KemRow list option"
  si_nodes :: "NodeFull list"
  si_endpoints :: "EndpointRow list"

record chance = \<comment> \<open>clocks, randomness and library functions of one request\<close>
  ob_env :: env
  ob_service :: Service
  ob_draws :: draws
  ob_sha :: "string \<Rightarrow> bytes"
  ob_b64 :: "bytes \<Rightarrow> string"
  ob_unb64 :: "string \<Rightarrow> bytes option"
  ob_keygen :: "string + bytes \<times> bytes"
  ob_user :: ID
  ob_challenge :: "bytes option"
  ob_tunnel :: string \<comment> \<open>\<open>CONTROLLER_TUNNEL_URL\<close>\<close>

abbreviation si_db :: "Site \<Rightarrow> DB" where "si_db st \<equiv> c_db (si_console st)"
abbreviation si_pol :: "Site \<Rightarrow> PolDB" where "si_pol st \<equiv> c_pol (si_console st)"

section \<open>Who asks\<close>

definition requireSession :: "chance \<Rightarrow> string option \<Rightarrow> Site \<Rightarrow> (nat + caller) \<times> Site" where \<comment> \<open>\<open>API.requireAuth\<close>\<close>
  "requireSession ob cookie st = (case AdminAuth.requireAuth (ob_sha ob) (ev_now (ob_env ob)) cookie (si_auth st) of
     (Inl n, a) \<Rightarrow> (Inl n, st\<lparr>si_auth := a\<rparr>)
   | (Inr (ad, roles), a) \<Rightarrow>
      (case FindOrCreate (ev_weight (ob_env ob)) (ob_user ob) (ev_dbnow (ob_env ob)) (am_tenant ad) (Ident.String (am_id ad))
          (am_email ad) (am_name ad) (si_users st) of
        (Inl _, us) \<Rightarrow> (Inl 500, st\<lparr>si_auth := a, si_users := us\<rparr>)
      | (Inr u, us) \<Rightarrow> (Inr \<lparr>cl_user = us_id u, cl_tenant = us_tenant u, cl_roles = roles\<rparr>, st\<lparr>si_auth := a, si_users := us\<rparr>)))"

definition enrolled_subject :: string where "enrolled_subject = ''enrolled-device''"

definition enrolled_name :: string where \<comment> \<open>the UTF-8 text of the display name\<close>
  "enrolled_name = map char_of [0xEB, 0x93, 0xB1, 0xEB, 0xA1, 0x9D, 0xEB, 0x90, 0x9C, 0x20, 0xEA, 0xB8, 0xB0, 0xEA, 0xB8, 0xB0 :: nat]"

definition requireAuthOrEnrollmentGrant :: "chance \<Rightarrow> string \<Rightarrow> string \<Rightarrow> string option \<Rightarrow> Site \<Rightarrow> (nat + caller \<times> ID option) \<times> Site" where
  "requireAuthOrEnrollmentGrant ob path header cookie st =
     (let raw = bearerFrom header in
      if take 6 raw \<noteq> ''aidot_''
      then (case requireSession ob cookie st of (r, st1) \<Rightarrow> (case r of Inl n \<Rightarrow> Inl n | Inr cl \<Rightarrow> Inr (cl, None), st1))
      else case CheckEnrollmentToken (ob_sha ob) (ev_dbnow (ob_env ob)) raw (path = ''/devices/register'') (si_tokens st) of
        (Inl _, ts) \<Rightarrow> (Inl 401, st\<lparr>si_tokens := ts\<rparr>)
      | (Inr (tenant, policy), ts) \<Rightarrow>
         (case FindOrCreate (ev_weight (ob_env ob)) (ob_user ob) (ev_dbnow (ob_env ob)) tenant enrolled_subject [] enrolled_name (si_users st) of
           (Inl _, us) \<Rightarrow> (Inl 500, st\<lparr>si_tokens := ts, si_users := us\<rparr>)
         | (Inr u, us) \<Rightarrow> (Inr (\<lparr>cl_user = us_id u, cl_tenant = us_tenant u, cl_roles = []\<rparr>, policy),
             st\<lparr>si_tokens := ts, si_users := us\<rparr>)))"

section \<open>The answer to a registration or a rotation\<close>

definition tunnelControllerURL :: "string \<Rightarrow> string" where
  "tunnelControllerURL v = (if v \<noteq> [] then v else ''http://10.78.0.1:10030'')"

definition controlChannelURLFor :: "string \<Rightarrow> ID \<Rightarrow> Device list \<times> PolDB \<Rightarrow> string" where
  "controlChannelURLFor v i s = (case ForDevice i s of
     None \<Rightarrow> [] | Some p \<Rightarrow> if ps_control_channel p \<noteq> ''tunnel'' then [] else tunnelControllerURL v)"

definition kemMaterial :: "chance \<Rightarrow> ID \<Rightarrow> Site \<Rightarrow> (string \<times> string) \<times> Site" where
  "kemMaterial ob tenant st = (case si_kem st of
     None \<Rightarrow> (([], []), st)
   | Some rows \<Rightarrow> (case EnsureKeypair (ob_keygen ob) tenant rows of
       (Inl _, rows') \<Rightarrow> (([], []), st\<lparr>si_kem := Some rows'\<rparr>)
     | (Inr ek, rows') \<Rightarrow> ((AlgorithmMLKEM768, ob_b64 ob ek), st\<lparr>si_kem := Some rows'\<rparr>)))"

record allocation_answer =
  aa_device_key :: string
  aa_psk :: string
  aa_psk_source :: PSKSource
  aa_state_token :: string
  aa_cert :: bytes
  aa_ca :: bytes
  aa_cert_expires :: time
  aa_allowed :: "string list"
  aa_bound :: bool
  aa_scope :: string
  aa_dns :: DNSSettings
  aa_controller :: string
  aa_kem :: "string \<times> string"
  aa_filter :: "AppFilterMode \<times> string list"
  aa_ipv4 :: "string option"
  aa_ipv6 :: "string option"

definition addr_text :: "addr \<Rightarrow> string option" where
  "addr_text a = (if addr_valid a then Some (addr_str a) else None)"

definition allocationJSON :: "(bytes \<Rightarrow> string) \<Rightarrow> Allocation \<Rightarrow> string list \<Rightarrow> bool \<Rightarrow> string \<Rightarrow> DNSSettings \<Rightarrow> string \<times> string \<Rightarrow> string \<Rightarrow> allocation_answer" where
  "allocationJSON b64 a cidrs bound scope dns km url =
     \<lparr>aa_device_key = b64 (ks_public (al_key a)), aa_psk = b64 (p_psk (al_psk a)), aa_psk_source = p_source (al_psk a),
      aa_state_token = al_state_token a, aa_cert = al_cert a, aa_ca = al_ca a, aa_cert_expires = al_cert_expires a,
      aa_allowed = cidrs, aa_bound = bound, aa_scope = scope, aa_dns = dns, aa_controller = url, aa_kem = km,
      aa_filter = al_filter a, aa_ipv4 = addr_text (ks_ipv4 (al_key a)), aa_ipv6 = addr_text (ks_ipv6 (al_key a))\<rparr>"

definition allocation_answer :: "chance \<Rightarrow> ID \<Rightarrow> ID \<Rightarrow> Allocation \<Rightarrow> Site \<Rightarrow> allocation_answer \<times> Site" where
  "allocation_answer ob tenant i a st =
     (let s = (devices (si_db st), si_pol st);
          (allowed0, bound) = effectivePolicy (ev_weight (ob_env ob)) (ev_ntoa (ob_env ob)) i s;
          scope = GetEffectiveRouteScope i s;
          (dns, cidrs) = dnsFor i allowed0 s;
          (km, st1) = kemMaterial ob tenant st
      in (allocationJSON (ob_b64 ob) a cidrs bound scope dns km (controlChannelURLFor (ob_tunnel ob) i s), st1))"

section \<open>Registration\<close>

record register_body =
  rb_install :: string
  rb_name :: string
  rb_platform :: string
  rb_os_version :: string
  rb_app_version :: string
  rb_model :: string
  rb_os_sdk :: int
  rb_public_key :: string
  rb_token :: string
  rb_csr :: string
  rb_chain :: string
  rb_mode :: string
  rb_host :: string
  rb_kem :: string

definition optional_base64 :: "(string \<Rightarrow> bytes option) \<Rightarrow> string \<Rightarrow> bytes option" where
  "optional_base64 unb64 s = (if s = [] then Some [] else unb64 s)"

definition register_params :: "caller \<Rightarrow> register_body \<Rightarrow> bytes \<Rightarrow> bytes \<Rightarrow> RegisterParams" where
  "register_params cl b pub ct = \<lparr>rp_tenant = cl_tenant cl, rp_user = cl_user cl, rp_install = rb_install b, rp_name = rb_name b,
     rp_platform = (if rb_platform b = [] then ''other'' else rb_platform b), rp_os_version = rb_os_version b,
     rp_app_version = rb_app_version b, rp_model = rb_model b, rp_os_sdk = rb_os_sdk b, rp_public_key = pub, rp_token = rb_token b,
     rp_chain = bytes_of_string (rb_chain b), rp_mode = rb_mode b, rp_host = rb_host b, rp_ciphertext = ct,
     rp_csr = bytes_of_string (rb_csr b)\<rparr>"

definition register_status :: "dev_error \<Rightarrow> nat" where
  "register_status e = (case e of Gate _ \<Rightarrow> 403 | Duplicate _ \<Rightarrow> 409 | _ \<Rightarrow> 400)"

record register_answer =
  ra_device :: Device
  ra_allocation :: allocation_answer
  ra_nodes :: "wire_node list"

definition service_of :: "chance \<Rightarrow> Site \<Rightarrow> Service" where
  "service_of ob st = (ob_service ob)\<lparr>kem := si_kem st\<rparr>"

text \<open>The part after the device was registered: the policy of the grant, then the answer.\<close>

definition bind_grant :: "caller \<Rightarrow> ID option \<Rightarrow> ID \<Rightarrow> Site \<Rightarrow> (nat + unit) \<times> Site \<times> log" where
  "bind_grant cl policy i st = (case policy of
     None \<Rightarrow> (Inr (), st, [])
   | Some p \<Rightarrow> (case AssignToDevice i p (cl_user cl) (devices (si_db st), si_pol st) of (r, (ds, pol), es) \<Rightarrow>
       (wrap (\<lambda>_. 500) r, st\<lparr>si_console := \<lparr>c_db = (si_db st)\<lparr>devices := ds\<rparr>, c_pol = pol\<rparr>\<rparr>, map Inl es)))"

definition register_with :: "chance \<Rightarrow> caller \<Rightarrow> ID option \<Rightarrow> RegisterParams \<Rightarrow> Site \<Rightarrow> (nat + register_answer) \<times> Site \<times> log" where
  "register_with ob cl policy p st = (case Register (service_of ob st) (ob_draws ob) p (si_db st) of
     (Inl e, db, l) \<Rightarrow> (Inl (register_status e), st\<lparr>si_console := (si_console st)\<lparr>c_db := db\<rparr>\<rparr>, map Inr l)
   | (Inr (dev, al), db, l) \<Rightarrow>
      (let st1 = st\<lparr>si_console := (si_console st)\<lparr>c_db := db\<rparr>\<rparr>;
           peers = fetchPeerList (ev_weight (ob_env ob)) (ob_b64 ob) (cl_tenant cl) (si_nodes st1) (si_endpoints st1)
       in case bind_grant cl policy (d_id dev) st1 of
         (Inl n, st2, l2) \<Rightarrow> (Inl n, st2, map Inr l @ l2)
       | (Inr _, st2, l2) \<Rightarrow> (case allocation_answer ob (cl_tenant cl) (d_id dev) al st2 of (ans, st3) \<Rightarrow>
           (Inr \<lparr>ra_device = dev, ra_allocation = ans, ra_nodes = peers\<rparr>, st3, map Inr l @ l2))))"

definition registerDevice :: "chance \<Rightarrow> caller \<Rightarrow> ID option \<Rightarrow> register_body option \<Rightarrow> Site \<Rightarrow> (nat + register_answer) \<times> Site \<times> log" where
  "registerDevice ob cl policy body st = (case body of
     None \<Rightarrow> (Inl 400, st, [])
   | Some b \<Rightarrow> (case ob_unb64 ob (rb_public_key b) of
       None \<Rightarrow> (Inl 400, st, [])
     | Some pub \<Rightarrow> if length pub \<noteq> 32 then (Inl 400, st, [])
         else (case optional_base64 (ob_unb64 ob) (rb_kem b) of
           None \<Rightarrow> (Inl 400, st, [])
         | Some ct \<Rightarrow> register_with ob cl policy (register_params cl b pub ct) st)))"

section \<open>Rotation and the challenge\<close>

record rotate_body =
  ob_new_key :: string
  ob_csr :: string
  ob_kem :: string

definition rotateDeviceKey :: "chance \<Rightarrow> caller \<Rightarrow> rotate_body option \<Rightarrow> Site \<Rightarrow> (nat + allocation_answer) \<times> Site \<times> log" where
  "rotateDeviceKey ob cl body st = (case body of
     None \<Rightarrow> (Inl 400, st, [])
   | Some b \<Rightarrow> (case ob_unb64 ob (ob_new_key b) of
       None \<Rightarrow> (Inl 400, st, [])
     | Some pub \<Rightarrow> if length pub \<noteq> 32 then (Inl 400, st, [])
         else (case ListMyDevices (cl_user cl) (si_db st) of
           Inl _ \<Rightarrow> (Inl 500, st, [])
         | Inr [] \<Rightarrow> (Inl 404, st, [])
         | Inr (dev # _) \<Rightarrow> (case optional_base64 (ob_unb64 ob) (ob_kem b) of
             None \<Rightarrow> (Inl 400, st, [])
           | Some ct \<Rightarrow>
             (case RotateKey (service_of ob st) (ob_draws ob)
                 \<lparr>ro_device = d_id dev, ro_public_key = pub, ro_ciphertext = ct, ro_csr = bytes_of_string (ob_csr b)\<rparr> (si_db st) of
                (Inl _, db, l) \<Rightarrow> (Inl 400, st\<lparr>si_console := (si_console st)\<lparr>c_db := db\<rparr>\<rparr>, map Inr l)
              | (Inr al, db, l) \<Rightarrow>
                 (case allocation_answer ob (cl_tenant cl) (d_id dev) al (st\<lparr>si_console := (si_console st)\<lparr>c_db := db\<rparr>\<rparr>) of
                    (ans, st1) \<Rightarrow> (Inr ans, st1, map Inr l)))))))"

definition getAttestationChallenge :: "chance \<Rightarrow> caller \<Rightarrow> Site \<Rightarrow> (nat + string) \<times> Site" where
  "getAttestationChallenge ob cl st = (case si_allow st of
     None \<Rightarrow> (Inl 501, st)
   | Some db \<Rightarrow> (case IssueChallenge (ob_challenge ob) (ev_dbnow (ob_env ob)) (cl_tenant cl) (cl_user cl) db of
       (Inl _, db') \<Rightarrow> (Inl 500, st\<lparr>si_allow := Some db'\<rparr>)
     | (Inr chal, db') \<Rightarrow> (Inr (hex_encode chal), st\<lparr>si_allow := Some db'\<rparr>)))"

section \<open>The routes\<close>

definition post_register :: "chance \<Rightarrow> string \<Rightarrow> string option \<Rightarrow> register_body option \<Rightarrow> Site \<Rightarrow> (nat + register_answer) \<times> Site \<times> log" where
  "post_register ob header cookie body st = (case requireAuthOrEnrollmentGrant ob ''/devices/register'' header cookie st of
     (Inl n, st1) \<Rightarrow> (Inl n, st1, [])
   | (Inr (cl, policy), st1) \<Rightarrow> registerDevice ob cl policy body st1)"

definition post_challenge :: "chance \<Rightarrow> string \<Rightarrow> string option \<Rightarrow> Site \<Rightarrow> (nat + string) \<times> Site" where
  "post_challenge ob header cookie st = (case requireAuthOrEnrollmentGrant ob ''/devices/attestation-challenge'' header cookie st of
     (Inl n, st1) \<Rightarrow> (Inl n, st1)
   | (Inr (cl, _), st1) \<Rightarrow> getAttestationChallenge ob cl st1)"

definition post_rotate :: "chance \<Rightarrow> string option \<Rightarrow> rotate_body option \<Rightarrow> Site \<Rightarrow> (nat + allocation_answer) \<times> Site \<times> log" where
  "post_rotate ob cookie body st = (case requireSession ob cookie st of
     (Inl n, st1) \<Rightarrow> (Inl n, st1, [])
   | (Inr cl, st1) \<Rightarrow> rotateDeviceKey ob cl body st1)"

definition console_request :: "chance \<Rightarrow> string option \<Rightarrow> call \<Rightarrow> Site \<Rightarrow> nat \<times> Site \<times> log" where
  "console_request ob cookie q st = (case requireSession ob cookie st of
     (Inl n, st1) \<Rightarrow> (n, st1, [])
   | (Inr cl, st1) \<Rightarrow> (case serve (ob_env ob) cl q (si_console st1) of (n, c, l) \<Rightarrow> (n, st1\<lparr>si_console := c\<rparr>, l)))"

end
