(* ===== verification/OnboardProps.thy ===== *)
theory OnboardProps
  imports Onboard ConsoleProps AdminAuthProps
begin

text \<open>
  What an enrolment grant is good for, and what a change of the console rests on, over the tables of all
  components.
\<close>

section \<open>Registrations under a grant\<close>

lemma upsert_length:
  assumes "DeviceInv.upsert s d p db = Inr (dev, att, pi, db1)"
  shows "length (devices db1) \<le> Suc (length (devices db))"
proof (cases "findDeviceByInstall db (rp_user p) (rp_install p)")
  case (Some dev0)
  with assms have "register_existing s d p dev0 db = Inr (dev, att, pi, db1)" by (simp add: DeviceInv.upsert_def)
  from readmitted_exists [OF this] obtain f where "devices db1 = map f (devices db)" by blast
  then show ?thesis by simp
next
  case None
  with assms obtain d0 where "insertDevice (dr_device d) (dr_clock d) d0 db = Inr (dev, db1)"
    unfolding DeviceInv.upsert_def register_new_def by (auto simp: and_then_Inr)
  from insertDevice_Inr(2) [OF this] obtain row where "devices db1 = devices db @ [row]" by blast
  then show ?thesis by simp
qed

lemma Register_length:
  assumes "Register s d p db = (r, db', au)"
  shows "length (devices db') \<le> Suc (length (devices db))"
  using assms
proof (cases rule: Register_cases)
  case (2 p' tenant dev al)
  from register_tx_Inr [OF 2(3)] obtain att pi db1 alloc db3 where
      u: "DeviceInv.upsert s d p' db = Inr (dev, att, pi, db1)"
      and a: "allocateAndIssue s d dev (rp_public_key p') tenant (rp_csr p') (rp_ciphertext p')
        (recordAttestation (dr_record d) (d_id dev) att pi db1) = Inr (alloc, db3)"
      and r: "devices db' = devices db3" by blast
  have "devices db3 = devices db1" using issue_effect [OF a [unfolded allocateAndIssue_def]] by auto
  with upsert_length [OF u] r show ?thesis by simp
qed simp

lemma kemMaterial_same [simp]:
  "si_console (snd (kemMaterial ob t st)) = si_console st" "si_tokens (snd (kemMaterial ob t st)) = si_tokens st"
  "si_users (snd (kemMaterial ob t st)) = si_users st"
  by (auto simp: kemMaterial_def split: option.split prod.split sum.split)

lemma allocation_answer_same [simp]:
  "si_console (snd (allocation_answer ob t i a st)) = si_console st" "si_tokens (snd (allocation_answer ob t i a st)) = si_tokens st"
  "si_users (snd (allocation_answer ob t i a st)) = si_users st"
  by (simp_all add: allocation_answer_def Let_def split_beta)

lemma bind_grant_same:
  assumes "bind_grant cl policy i st = (r, st', l)"
  shows "si_tokens st' = si_tokens st \<and> length (devices (si_db st')) = length (devices (si_db st)) \<and> r \<noteq> Inl 401"
proof (cases policy)
  case (Some p)
  obtain r0 ds pol es where a: "AssignToDevice i p (cl_user cl) (devices (si_db st), si_pol st) = (r0, (ds, pol), es)"
    by (metis prod.exhaust)
  have "length ds = length (devices (si_db st))"
    using assign_devices [of i p "cl_user cl" "devices (si_db st)" "si_pol st"] unfolding a by auto
  with assms Some a show ?thesis by (auto simp: bind_grant_def wrap_def split: sum.splits)
qed (use assms in \<open>auto simp: bind_grant_def\<close>)

lemma register_with_same:
  assumes "register_with ob cl policy p st = (r, st', l)"
  shows "si_tokens st' = si_tokens st \<and> length (devices (si_db st')) \<le> Suc (length (devices (si_db st))) \<and> r \<noteq> Inl 401"
proof -
  obtain r0 db l0 where reg: "Register (service_of ob st) (ob_draws ob) p (si_db st) = (r0, db, l0)" by (metis prod_cases3)
  have len: "length (devices db) \<le> Suc (length (devices (si_db st)))" by (rule Register_length [OF reg])
  let ?st1 = "st\<lparr>si_console := (si_console st)\<lparr>c_db := db\<rparr>\<rparr>"
  show ?thesis
  proof (cases r0)
    case (Inl e)
    have n: "register_status e \<noteq> 401" by (simp add: register_status_def split: dev_error.split)
    from assms have "r = Inl (register_status e)" "st' = st\<lparr>si_console := (si_console st)\<lparr>c_db := db\<rparr>\<rparr>"
      unfolding register_with_def reg Inl by simp_all
    with len n show ?thesis by simp
  next
    case (Inr x)
    obtain dev al where x: "x = (dev, al)" by (cases x)
    obtain r2 st2 l2 where b: "bind_grant cl policy (d_id dev) ?st1 = (r2, st2, l2)" by (metis prod_cases3)
    from bind_grant_same [OF b] len have st2: "si_tokens st2 = si_tokens st" "length (devices (si_db st2)) \<le> Suc (length (devices (si_db st)))"
      "r2 \<noteq> Inl 401" by simp_all
    obtain ans st3 where a: "allocation_answer ob (cl_tenant cl) (d_id dev) al st2 = (ans, st3)" by (metis prod.exhaust)
    from allocation_answer_same [of ob "cl_tenant cl" "d_id dev" al st2]
    have st3: "si_console st3 = si_console st2" "si_tokens st3 = si_tokens st2" unfolding a by simp_all
    have e: "register_with ob cl policy p st = (case r2 of Inl n \<Rightarrow> (Inl n, st2, map Inr l0 @ l2)
      | Inr _ \<Rightarrow> (Inr \<lparr>ra_device = dev, ra_allocation = ans,
          ra_nodes = fetchPeerList (ev_weight (ob_env ob)) (ob_b64 ob) (cl_tenant cl) (si_nodes ?st1) (si_endpoints ?st1)\<rparr>, st3, map Inr l0 @ l2))"
      unfolding register_with_def reg Inr x by (simp add: Let_def b a split: sum.split)
    show ?thesis
    proof (cases r2)
      case (Inl n)
      with assms e have "r = Inl n" "st' = st2" by simp_all
      with st2 Inl show ?thesis by simp
    next
      case (Inr u)
      with assms e have "st' = st3" "r \<noteq> Inl 401" by auto
      with st2 st3 show ?thesis by simp
    qed
  qed
qed

lemma registerDevice_cases:
  assumes "registerDevice ob cl policy body st = (r, st', l)"
  obtains "r = Inl 400" "st' = st"
  | b pub ct where "body = Some b" "ob_unb64 ob (rb_public_key b) = Some pub" "length pub = 32"
      "register_with ob cl policy (register_params cl b pub ct) st = (r, st', l)"
proof (cases body)
  case (Some b)
  note b = this
  show thesis
  proof (cases "ob_unb64 ob (rb_public_key b)")
    case (Some pub)
    note pub = this
    show thesis
    proof (cases "length pub = 32")
      case True
      show thesis
      proof (cases "optional_base64 (ob_unb64 ob) (rb_kem b)")
        case (Some ct)
        with assms b pub True have "register_with ob cl policy (register_params cl b pub ct) st = (r, st', l)"
          by (simp add: registerDevice_def)
        with b pub True that(2) show thesis by blast
      qed (use assms b pub True that(1) in \<open>simp add: registerDevice_def\<close>)
    qed (use assms b pub that(1) in \<open>simp add: registerDevice_def\<close>)
  qed (use assms b that(1) in \<open>simp add: registerDevice_def\<close>)
qed (use assms that(1) in \<open>simp add: registerDevice_def\<close>)

lemma registerDevice_same:
  assumes "registerDevice ob cl policy body st = (r, st', l)"
  shows "si_tokens st' = si_tokens st \<and> length (devices (si_db st')) \<le> Suc (length (devices (si_db st))) \<and> r \<noteq> Inl 401"
  using assms
proof (cases rule: registerDevice_cases)
  case (2 b pub ct)
  then show ?thesis using register_with_same by blast
qed simp

text \<open>A request to register with a grant: refused, or the grant is spent whatever follows.\<close>

lemma post_register_grant:
  assumes "post_register ob header cookie body st = (r, st', l)" "take 6 (bearerFrom header) = ''aidot_''"
  obtains x ts where "CheckEnrollmentToken (ob_sha ob) (ev_dbnow (ob_env ob)) (bearerFrom header) True (si_tokens st) = (Inl x, ts)"
      "r = Inl 401" "st' = st\<lparr>si_tokens := ts\<rparr>"
  | tenant policy ts us where "CheckEnrollmentToken (ob_sha ob) (ev_dbnow (ob_env ob)) (bearerFrom header) True (si_tokens st) = (Inr (tenant, policy), ts)"
      "r = Inl 500" "st' = st\<lparr>si_tokens := ts, si_users := us\<rparr>"
  | tenant policy ts u us where "CheckEnrollmentToken (ob_sha ob) (ev_dbnow (ob_env ob)) (bearerFrom header) True (si_tokens st) = (Inr (tenant, policy), ts)"
      "FindOrCreate (ev_weight (ob_env ob)) (ob_user ob) (ev_dbnow (ob_env ob)) tenant enrolled_subject [] enrolled_name (si_users st) = (Inr u, us)"
      "registerDevice ob \<lparr>cl_user = us_id u, cl_tenant = us_tenant u, cl_roles = []\<rparr> policy body (st\<lparr>si_tokens := ts, si_users := us\<rparr>) = (r, st', l)"
proof -
  obtain c ts where c: "CheckEnrollmentToken (ob_sha ob) (ev_dbnow (ob_env ob)) (bearerFrom header) True (si_tokens st) = (c, ts)"
    by (metis prod.exhaust)
  note unfolds = post_register_def requireAuthOrEnrollmentGrant_def Let_def
  show thesis
  proof (cases c)
    case (Inl x)
    from assms c Inl have "r = Inl 401" "st' = st\<lparr>si_tokens := ts\<rparr>" by (simp_all add: unfolds)
    with c Inl that(1) show thesis by blast
  next
    case (Inr tp)
    obtain tenant policy where tp: "tp = (tenant, policy)" by (cases tp)
    obtain f us where f: "FindOrCreate (ev_weight (ob_env ob)) (ob_user ob) (ev_dbnow (ob_env ob)) tenant enrolled_subject [] enrolled_name (si_users st) = (f, us)"
      by (metis prod.exhaust)
    show thesis
    proof (cases f)
      case (Inl e)
      from assms c Inr tp f Inl have "r = Inl 500" "st' = st\<lparr>si_tokens := ts, si_users := us\<rparr>" by (simp_all add: unfolds)
      with c Inr tp that(2) show thesis by blast
    next
      case (Inr u)
      from assms c \<open>c = Inr tp\<close> tp f Inr
      have "registerDevice ob \<lparr>cl_user = us_id u, cl_tenant = us_tenant u, cl_roles = []\<rparr> policy body (st\<lparr>si_tokens := ts, si_users := us\<rparr>) = (r, st', l)"
        by (simp add: unfolds)
      with c \<open>c = Inr tp\<close> tp f Inr that(3) show thesis by blast
    qed
  qed
qed

section \<open>Histories of the site\<close>

text \<open>
  Grants are issued and withdrawn, phones ask for challenges and register, with a grant or with a session,
  admins rotate keys and use the console, and everything else changes what it likes but the grants.  The
  log has an entry for each request that was admitted on a grant: its hash, and the number of device rows
  the request added.
\<close>

inductive site_run :: "(string \<Rightarrow> bytes) \<Rightarrow> Site \<Rightarrow> (bytes \<times> nat) list \<Rightarrow> bool" for sha where
  start: "si_tokens st = [] \<Longrightarrow> site_run sha st []"
| issue: "site_run sha st log \<Longrightarrow>
    CreateEnrollmentToken sha b64 newID entropy now ten by name pol uses ttl (si_tokens st) = (c, ts) \<Longrightarrow>
    site_run sha (st\<lparr>si_tokens := ts\<rparr>) log"
| withdraw: "site_run sha st log \<Longrightarrow> RevokeEnrollmentToken t ten i (si_tokens st) = (e, ts) \<Longrightarrow> site_run sha (st\<lparr>si_tokens := ts\<rparr>) log"
| granted: "site_run sha st log \<Longrightarrow> ob_sha ob = sha \<Longrightarrow> take 6 (bearerFrom header) = ''aidot_'' \<Longrightarrow>
    post_register ob header cookie body st = (r, st', l) \<Longrightarrow>
    site_run sha st' (if r = Inl 401 then log
      else (sha (bearerFrom header), length (devices (si_db st')) - length (devices (si_db st))) # log)"
| session: "site_run sha st log \<Longrightarrow> take 6 (bearerFrom header) \<noteq> ''aidot_'' \<Longrightarrow>
    post_register ob header cookie body st = (r, st', l) \<Longrightarrow> site_run sha st' log"
| challenge: "site_run sha st log \<Longrightarrow> ob_sha ob = sha \<Longrightarrow> post_challenge ob header cookie st = (ch, st') \<Longrightarrow> site_run sha st' log"
| rotate: "site_run sha st log \<Longrightarrow> post_rotate ob cookie rb st = (a, st', l) \<Longrightarrow> site_run sha st' log"
| request: "site_run sha st log \<Longrightarrow> console_request ob cookie q st = (n, st', l) \<Longrightarrow> site_run sha st' log"
| elsewhere: "site_run sha st log \<Longrightarrow> si_tokens st' = si_tokens st \<Longrightarrow> site_run sha st' log"

lemma requireSession_tokens:
  assumes "requireSession ob cookie st = (r, st1)"
  shows "si_tokens st1 = si_tokens st"
proof -
  obtain x a where x: "AdminAuth.requireAuth (ob_sha ob) (ev_now (ob_env ob)) cookie (si_auth st) = (x, a)" by (metis prod.exhaust)
  show ?thesis
  proof (cases x)
    case (Inr y)
    obtain ad roles where y: "y = (ad, roles)" by (cases y)
    obtain f us where "FindOrCreate (ev_weight (ob_env ob)) (ob_user ob) (ev_dbnow (ob_env ob)) (am_tenant ad) (Ident.String (am_id ad))
        (am_email ad) (am_name ad) (si_users st) = (f, us)" by (metis prod.exhaust)
    with assms x Inr y show ?thesis by (cases f) (auto simp: requireSession_def)
  qed (use assms x in \<open>auto simp: requireSession_def\<close>)
qed

lemma session_register_tokens:
  assumes "take 6 (bearerFrom header) \<noteq> ''aidot_''" "post_register ob header cookie body st = (r, st', l)"
  shows "si_tokens st' = si_tokens st"
proof -
  obtain x st1 where x: "requireSession ob cookie st = (x, st1)" by (metis prod.exhaust)
  have t: "si_tokens st1 = si_tokens st" by (rule requireSession_tokens [OF x])
  show ?thesis
  proof (cases x)
    case (Inl n)
    with assms x t show ?thesis by (auto simp: post_register_def requireAuthOrEnrollmentGrant_def Let_def)
  next
    case (Inr cl)
    with assms x have "registerDevice ob cl None body st1 = (r, st', l)"
      by (simp add: post_register_def requireAuthOrEnrollmentGrant_def Let_def)
    with registerDevice_same t show ?thesis by metis
  qed
qed

lemma getAttestationChallenge_tokens: "si_tokens (snd (getAttestationChallenge ob cl st)) = si_tokens st"
  by (simp add: getAttestationChallenge_def split: option.split prod.split sum.split)

lemma post_challenge_tokens:
  assumes "post_challenge ob header cookie st = (ch, st')"
  shows "si_tokens st' = si_tokens st"
proof -
  obtain x st1 where x: "requireAuthOrEnrollmentGrant ob ''/devices/attestation-challenge'' header cookie st = (x, st1)" by (metis prod.exhaust)
  have t: "si_tokens st1 = si_tokens st"
  proof (cases "take 6 (bearerFrom header) = ''aidot_''")
    case True
    obtain c ts where c: "CheckEnrollmentToken (ob_sha ob) (ev_dbnow (ob_env ob)) (bearerFrom header) False (si_tokens st) = (c, ts)"
      by (metis prod.exhaust)
    then have ts: "ts = si_tokens st" by (auto simp: CheckEnrollmentToken_def split: option.splits)
    show ?thesis
    proof (cases c)
      case (Inl e)
      with x c True ts show ?thesis by (auto simp: requireAuthOrEnrollmentGrant_def Let_def)
    next
      case (Inr tp)
      obtain ten pol where tp: "tp = (ten, pol)" by (cases tp)
      obtain f us where f: "FindOrCreate (ev_weight (ob_env ob)) (ob_user ob) (ev_dbnow (ob_env ob)) ten enrolled_subject [] enrolled_name (si_users st) = (f, us)"
        by (metis prod.exhaust)
      with x c True ts Inr tp show ?thesis by (cases f) (auto simp: requireAuthOrEnrollmentGrant_def Let_def)
    qed
  next
    case False
    obtain y st2 where y: "requireSession ob cookie st = (y, st2)" by (metis prod.exhaust)
    with x False have "st1 = st2" by (cases y) (auto simp: requireAuthOrEnrollmentGrant_def Let_def)
    with requireSession_tokens [OF y] show ?thesis by simp
  qed
  show ?thesis
  proof (cases x)
    case (Inl n)
    with assms x t show ?thesis by (simp add: post_challenge_def)
  next
    case (Inr cp)
    with assms x t getAttestationChallenge_tokens [of ob "fst cp" st1] show ?thesis
      by (cases cp) (simp add: post_challenge_def)
  qed
qed

lemma rotateDeviceKey_tokens: "si_tokens (fst (snd (rotateDeviceKey ob cl body st))) = si_tokens st"
  unfolding rotateDeviceKey_def split_beta
  by (simp split: option.split sum.split list.split)

lemma post_rotate_tokens:
  assumes "post_rotate ob cookie rb st = (a, st', l)"
  shows "si_tokens st' = si_tokens st"
proof -
  obtain x st1 where x: "requireSession ob cookie st = (x, st1)" by (metis prod.exhaust)
  with assms requireSession_tokens [OF x] rotateDeviceKey_tokens [of ob _ rb st1] show ?thesis
    by (cases x) (auto simp: post_rotate_def dest: arg_cong [where f = "\<lambda>z. si_tokens (fst (snd z))"])
qed

lemma console_request_tokens:
  assumes "console_request ob cookie q st = (n, st', l)"
  shows "si_tokens st' = si_tokens st"
proof -
  obtain x st1 where x: "requireSession ob cookie st = (x, st1)" by (metis prod.exhaust)
  with assms requireSession_tokens [OF x] show ?thesis
    by (cases x) (auto simp: console_request_def split_beta)
qed

lemma site_tokens:
  "site_run sha st log \<Longrightarrow> token_run sha (si_tokens st) (map fst log) \<and> (\<forall>e \<in> set log. snd e \<le> 1)"
proof (induction rule: site_run.induct)
  case (start st)
  then show ?case by (simp add: token_run.empty)
next
  case (issue st log b64 newID entropy now ten "by" name pol uses ttl c ts)
  then show ?case using token_run.create [OF _ issue.hyps(2)] by simp
next
  case (withdraw st log t ten i e ts)
  then show ?case using token_run.revoke [OF _ withdraw.hyps(2)] by simp
next
  case (granted st log ob header cookie body r st' l)
  from granted.IH have run: "token_run sha (si_tokens st) (map fst log)" and le: "\<forall>e \<in> set log. snd e \<le> 1" by simp_all
  from granted.hyps(4,3) show ?case
  proof (cases rule: post_register_grant)
    case (1 x ts)
    from token_run.refused [OF run 1(1) [unfolded granted.hyps(2)]] 1 le show ?thesis by simp
  next
    case (2 tenant policy ts us)
    from token_run.redeem [OF run 2(1) [unfolded granted.hyps(2)]] 2 le show ?thesis by simp
  next
    case (3 tenant policy ts u us)
    from registerDevice_same [OF 3(3)] have s: "si_tokens st' = ts"
      "length (devices (si_db st')) \<le> Suc (length (devices (si_db st)))" "r \<noteq> Inl 401" by simp_all
    from s(2) have "length (devices (si_db st')) - length (devices (si_db st)) \<le> 1" by arith
    with token_run.redeem [OF run 3(1) [unfolded granted.hyps(2)]] s le show ?thesis by simp
  qed
next
  case (session st log header ob cookie body r st' l)
  then show ?case using session_register_tokens by metis
next
  case (challenge st log ob header cookie ch st')
  then show ?case using post_challenge_tokens by metis
next
  case (rotate st log ob cookie rb a st' l)
  then show ?case using post_rotate_tokens by metis
next
  case (request st log ob cookie q n st' l)
  then show ?case using console_request_tokens by metis
qed simp

lemma sum_of_small:
  assumes "\<forall>e \<in> set xs. snd e \<le> (1 :: nat)"
  shows "sum_list (map snd xs) \<le> length xs"
  using assms by (induction xs) auto

text \<open>
  C6. What a grant is good for: over any history of the site, the use count of a grant is the number of
  registration requests it admitted, whether they succeeded or not, each of them added at most one
  device, and so the devices a limited grant brought in are never more than its limit.
\<close>

theorem grants_bound_registrations:
  assumes "site_run sha st log" "t \<in> set (si_tokens st)"
  shows "int (length (filter (\<lambda>e. fst e = et_hash t) log)) = et_used t
    \<and> (et_max t > 0 \<longrightarrow> int (sum_list (map snd (filter (\<lambda>e. fst e = et_hash t) log))) \<le> et_max t)"
proof -
  from site_tokens [OF assms(1)] have run: "token_run sha (si_tokens st) (map fst log)" and le: "\<forall>e \<in> set log. snd e \<le> 1" by simp_all
  have "token_inv (si_tokens st) (map fst log)" by (rule token_run_inv [OF run])
  with assms(2) have u: "et_used t = uses_of (map fst log) (et_hash t)" "et_max t > 0 \<longrightarrow> et_used t \<le> et_max t"
    unfolding token_inv_def by blast+
  have n: "uses_of (map fst log) (et_hash t) = int (length (filter (\<lambda>e. fst e = et_hash t) log))"
    by (simp add: uses_of_def filter_map comp_def)
  have "sum_list (map snd (filter (\<lambda>e. fst e = et_hash t) log)) \<le> length (filter (\<lambda>e. fst e = et_hash t) log)"
    using le by (intro sum_of_small) auto
  then have "int (sum_list (map snd (filter (\<lambda>e. fst e = et_hash t) log))) \<le> et_used t" using u(1) n by simp
  with u n show ?thesis by auto
qed

section \<open>What a granted registration gives\<close>

lemma Register_device:
  assumes "Register s d p db = (Inr (dev, al), db', au)" "dev_inv home (devices db) (dkeys db)"
    and "rp_tenant p = home (rp_user p)" "\<not> IsZero (rp_tenant p)"
  shows "dev_inv home (devices db') (dkeys db')
    \<and> (\<exists>dd \<in> set (devices db'). d_id dd = d_id dev \<and> d_deleted dd = None \<and> d_tenant dd = rp_tenant p)
    \<and> (\<exists>k \<in> set (dkeys db'). live k \<and> k_device k = d_id dev \<and> k_public k = rp_public_key p)"
  using assms(1)
proof (cases rule: Register_cases)
  case (2 p' tenant dev' al')
  have p': "p' = p" using 2(1) assms(4) by simp
  have dev: "dev' = dev" using 2(4) by simp
  have tn: "tn_id tenant = rp_tenant p'" by (rule findTenant_id [OF 2(2)])
  have inv: "dev_inv home (devices db') (dkeys db')"
    by (rule inv_register [OF 2(3) assms(2)]) (use assms(3) tn p' in simp_all)
  from register_tx_Inr [OF 2(3)] obtain att pi db1 alloc db3 where
      u: "DeviceInv.upsert s d p db = Inr (dev, att, pi, db1)"
      and a: "allocateAndIssue s d dev (rp_public_key p) tenant (rp_csr p) (rp_ciphertext p)
        (recordAttestation (dr_record d) (d_id dev) att pi db1) = Inr (alloc, db3)"
      and r: "devices db' = devices db3" "dkeys db' = dkeys db3" unfolding p' dev by blast
  from issue_effect [OF a [unfolded allocateAndIssue_def]] have e: "devices db3 = devices db1"
    and k: "\<exists>row. dkeys db3 = dkeys db1 @ [row] \<and> k_device row = d_id dev \<and> k_public row = rp_public_key p \<and> live row" by auto
  from inv_upsert [OF u assms(2,3)] have "\<exists>dd \<in> set (devices db1). d_id dd = d_id dev \<and> d_deleted dd = None \<and> d_tenant dd = rp_tenant p"
    by blast
  moreover from k have "\<exists>k \<in> set (dkeys db'). live k \<and> k_device k = d_id dev \<and> k_public k = rp_public_key p"
    unfolding r by auto
  ultimately show ?thesis using inv unfolding r e by blast
qed simp

lemma register_with_Inr:
  assumes "register_with ob cl policy p st = (Inr ans, st', l)"
  obtains dev al db l0 st2 l2 where "Register (service_of ob st) (ob_draws ob) p (si_db st) = (Inr (dev, al), db, l0)"
    "bind_grant cl policy (d_id dev) (st\<lparr>si_console := (si_console st)\<lparr>c_db := db\<rparr>\<rparr>) = (Inr (), st2, l2)"
    "si_console st' = si_console st2" "si_users st' = si_users st2" "ra_device ans = dev"
proof -
  obtain r0 db l0 where reg: "Register (service_of ob st) (ob_draws ob) p (si_db st) = (r0, db, l0)" by (metis prod_cases3)
  let ?st1 = "st\<lparr>si_console := (si_console st)\<lparr>c_db := db\<rparr>\<rparr>"
  show thesis
  proof (cases r0)
    case (Inl e)
    with assms reg show thesis by (simp add: register_with_def)
  next
    case (Inr x)
    obtain dev al where x: "x = (dev, al)" by (cases x)
    obtain r2 st2 l2 where b: "bind_grant cl policy (d_id dev) ?st1 = (r2, st2, l2)" by (metis prod_cases3)
    obtain an st3 where a: "allocation_answer ob (cl_tenant cl) (d_id dev) al st2 = (an, st3)" by (metis prod.exhaust)
    from allocation_answer_same [of ob "cl_tenant cl" "d_id dev" al st2]
    have st3: "si_console st3 = si_console st2" "si_users st3 = si_users st2" unfolding a by simp_all
    show thesis
    proof (cases r2)
      case (Inl n)
      with assms reg Inr x b show thesis by (simp add: register_with_def Let_def)
    next
      case (Inr y)
      from assms reg \<open>r0 = Inr x\<close> x b a Inr have "ra_device ans = dev" "st' = st3" by (auto simp: register_with_def Let_def)
      with reg \<open>r0 = Inr x\<close> x b Inr st3 show thesis by (intro that) simp_all
    qed
  qed
qed

lemma bind_grant_Inr:
  assumes "bind_grant cl (Some p) i st = (Inr x, st', l)" "\<not> IsZero p"
    and "distinct (map d_id (devices (si_db st)))" "dd \<in> set (devices (si_db st))" "d_id dd = i"
  shows "\<exists>q. live_policy (si_pol st') p = Some q \<and> po_tenant q = d_tenant dd
    \<and> devices (si_db st') = map (\<lambda>d. if d_id d = i then d\<lparr>d_policy := Some p\<rparr> else d) (devices (si_db st))
    \<and> dkeys (si_db st') = dkeys (si_db st) \<and> si_users st' = si_users st"
proof -
  obtain r ds pol es where a: "AssignToDevice i p (cl_user cl) (devices (si_db st), si_pol st) = (r, (ds, pol), es)"
    by (metis prod.exhaust)
  have w: "wrap (\<lambda>_. 500 :: nat) r = Inr x" "st' = st\<lparr>si_console := \<lparr>c_db = (si_db st)\<lparr>devices := ds\<rparr>, c_pol = pol\<rparr>\<rparr>"
    using assms(1) by (simp_all add: bind_grant_def a)
  then have r: "r = Inr x" by simp
  from a r assms(2) obtain d q where d: "find (\<lambda>d. d_id d = i) (devices (si_db st)) = Some d" "live_policy (si_pol st) p = Some q"
      "d_tenant d = po_tenant q" "ds = map (\<lambda>d. if d_id d = i then d\<lparr>d_policy := Some p\<rparr> else d) (devices (si_db st))" "pol = si_pol st"
    by (auto simp: AssignToDevice_def split: option.split_asm if_split_asm)
  from find_Some_in [OF d(1)] assms(3-5) have "d = dd" by (auto simp: distinct_map inj_on_def)
  with d w(2) show ?thesis by simp
qed

lemma bind_grant_Zero:
  assumes "bind_grant cl (Some p) i st = (Inr x, st', l)" "IsZero p"
  shows "devices (si_db st') = map (\<lambda>d. if d_id d = i then d\<lparr>d_policy := None\<rparr> else d) (devices (si_db st))
    \<and> dkeys (si_db st') = dkeys (si_db st)"
  using assms by (auto simp: bind_grant_def AssignToDevice_def wrap_def split: option.split_asm sum.split_asm)

lemma bind_grant_None: "bind_grant cl None i st = (r, st', l) \<Longrightarrow> st' = st"
  by (simp add: bind_grant_def)

lemma FindOrCreate_Inr:
  assumes "FindOrCreate w newID dbnow tenant subject email name users = (Inr u, us)"
  shows "u \<in> set us \<and> w (us_subject u) = w subject \<and> (findBySubject w subject users = None \<longrightarrow> us_tenant u = tenant)
    \<and> (\<forall>v. findBySubject w subject users = Some v \<longrightarrow> u = v)"
proof (cases "findBySubject w subject users")
  case (Some v)
  with assms have "u = v" "us = users" by (auto simp: FindOrCreate_def split: if_split_asm)
  with Some show ?thesis by (auto simp: findBySubject_def dest: find_Some_in)
next
  case None
  with assms obtain us' where us': "upsert_user w newID dbnow tenant subject email name users = Some us'"
      "findBySubject w subject us' = Some u" "us = us'"
    by (auto simp: FindOrCreate_def split: if_split_asm option.split_asm)
  have none: "w (us_subject v) \<noteq> w subject" if "v \<in> set users" for v
    using None that by (auto simp: findBySubject_def find_None_iff)
  have m: "u \<in> set us" "w (us_subject u) = w subject" using find_Some_in [OF us'(2) [unfolded findBySubject_def]] us'(3) by simp_all
  have "us_tenant u = tenant"
  proof (cases "user_conflict w newID tenant subject email users")
    case None
    with us' m none show ?thesis by (auto simp: upsert_user_def)
  next
    case (Some r)
    with us'(1) have "us' = map (\<lambda>q. if us_id q = us_id r
        then q\<lparr>us_email := email, us_name := (if name = [] then us_name q else Some name), us_login := dbnow\<rparr> else q) users"
      by (auto simp: upsert_user_def split: if_split_asm)
    with m us'(3) obtain q where "q \<in> set users" "us_subject u = us_subject q" by (auto split: if_split_asm)
    with none m(2) show ?thesis by metis
  qed
  with None m show ?thesis by simp
qed

lemma redeemed_token:
  assumes "token_inv rows log" "CheckEnrollmentToken sha n secret True rows = (Inr (tenant, policy), rows')"
  obtains t where "t \<in> set rows" "token_usable n (sha secret) t" "et_tenant t = tenant" "et_policy t = policy"
proof (cases "\<exists>t \<in> set rows. token_usable n (sha secret) t")
  case True
  then obtain t where t: "t \<in> set rows" "token_usable n (sha secret) t" by blast
  have "distinct (map et_hash rows)" using assms(1) by (simp add: token_inv_def)
  from Redeem_Some [of rows t n sha secret, OF this t] assms(2) have "et_tenant t = tenant" "et_policy t = policy"
    by (simp_all add: CheckEnrollmentToken_def)
  with t that show thesis by blast
next
  case False
  from Redeem_None [of rows n sha secret, OF False] assms(2) show thesis by (simp add: CheckEnrollmentToken_def)
qed

text \<open>
  C7. What a phone gets for its grant: a registration answered with success was made on a usable grant of
  the table, and leaves a device in the tenant of the shared user, with a live key of the submitted
  public key and, where the grant names a policy, bound to that policy, which is live and of the
  device's tenant.  The shared user is the one of the grant's tenant when there was none before.
\<close>

theorem granted_registration:
  assumes "site_run sha st log" "ob_sha ob = sha" "take 6 (bearerFrom header) = ''aidot_''"
    and "post_register ob header cookie body st = (Inr ans, st', l)"
    and "service_run home (si_db st)" "\<forall>v \<in> set (si_users st'). home (us_id v) = us_tenant v \<and> \<not> IsZero (us_tenant v)"
  shows "\<exists>t \<in> set (si_tokens st). \<exists>u \<in> set (si_users st'). \<exists>d \<in> set (devices (si_db st')).
    token_usable (ev_dbnow (ob_env ob)) (sha (bearerFrom header)) t
    \<and> (case findBySubject (ev_weight (ob_env ob)) enrolled_subject (si_users st) of None \<Rightarrow> us_tenant u = et_tenant t | Some v \<Rightarrow> u = v)
    \<and> d_id d = d_id (ra_device ans) \<and> d_deleted d = None \<and> d_tenant d = us_tenant u
    \<and> (\<forall>p. et_policy t = Some p \<and> \<not> IsZero p \<longrightarrow>
         d_policy d = Some p \<and> (\<exists>q. live_policy (si_pol st') p = Some q \<and> po_tenant q = d_tenant d))
    \<and> (\<exists>b. \<exists>k \<in> set (dkeys (si_db st')). body = Some b \<and> k_revoked k = None \<and> k_device k = d_id d
         \<and> ob_unb64 ob (rb_public_key b) = Some (k_public k))"
  using assms(4,3)
proof (cases rule: post_register_grant)
  case (3 tenant policy ts u us)
  have inv: "token_inv (si_tokens st) (map fst log)" using token_run_inv site_tokens [OF assms(1)] by blast
  from redeemed_token [OF inv 3(1)] obtain t where t: "t \<in> set (si_tokens st)"
    "token_usable (ev_dbnow (ob_env ob)) (sha (bearerFrom header)) t" "et_tenant t = tenant" "et_policy t = policy"
    unfolding assms(2) by blast
  note u = FindOrCreate_Inr [OF 3(2)]
  let ?cl = "\<lparr>cl_user = us_id u, cl_tenant = us_tenant u, cl_roles = []\<rparr>"
  let ?st = "st\<lparr>si_tokens := ts, si_users := us\<rparr>"
  from 3(3) show ?thesis
  proof (cases rule: registerDevice_cases)
    case (2 b pub ct)
    let ?p = "register_params ?cl b pub ct"
    from register_with_Inr [OF 2(4)] obtain dev al db l0 st2 l2 where
        reg: "Register (service_of ob ?st) (ob_draws ob) ?p (si_db ?st) = (Inr (dev, al), db, l0)"
        and bg: "bind_grant ?cl policy (d_id dev) (?st\<lparr>si_console := (si_console ?st)\<lparr>c_db := db\<rparr>\<rparr>) = (Inr (), st2, l2)"
        and st': "si_console st' = si_console st2" "si_users st' = si_users st2" and dev: "ra_device ans = dev" by blast
    let ?st1 = "?st\<lparr>si_console := (si_console ?st)\<lparr>c_db := db\<rparr>\<rparr>"
    have us: "si_users st2 = us"
      using bg by (auto simp: bind_grant_def split: option.split_asm prod.split_asm)
    have rp: "rp_tenant ?p = us_tenant u" "rp_user ?p = us_id u" "rp_public_key ?p = pub" by (simp_all add: register_params_def)
    have home: "home (us_id u) = us_tenant u" "\<not> IsZero (us_tenant u)" using assms(6) u us st'(2) by auto
    have di: "dev_inv home (devices (si_db ?st)) (dkeys (si_db ?st))" using service_inv [OF assms(5)] by simp
    from Register_device [OF reg di] rp home obtain dd k where inv': "dev_inv home (devices db) (dkeys db)"
        and dd: "dd \<in> set (devices db)" "d_id dd = d_id dev" "d_deleted dd = None" "d_tenant dd = us_tenant u"
        and k: "k \<in> set (dkeys db)" "live k" "k_device k = d_id dev" "k_public k = pub" by auto
    have uu: "u \<in> set (si_users st')" using u us st'(2) by simp
    have sub: "case findBySubject (ev_weight (ob_env ob)) enrolled_subject (si_users st) of None \<Rightarrow> us_tenant u = et_tenant t | Some v \<Rightarrow> u = v"
      using u t(3) by (auto split: option.split)
    have key: "\<exists>b. \<exists>k \<in> set (dkeys db). body = Some b \<and> k_revoked k = None \<and> k_device k = d_id dev
         \<and> ob_unb64 ob (rb_public_key b) = Some (k_public k)"
      using 2(1,2) k by (auto simp: live_def)
    have "\<exists>d \<in> set (devices (si_db st')). d_id d = d_id dev \<and> d_deleted d = None \<and> d_tenant d = us_tenant u
      \<and> (\<forall>p. policy = Some p \<and> \<not> IsZero p \<longrightarrow> d_policy d = Some p \<and> (\<exists>q. live_policy (si_pol st') p = Some q \<and> po_tenant q = d_tenant d))
      \<and> dkeys (si_db st') = dkeys db"
    proof (cases policy)
      case None
      with bg have "st2 = ?st1" by (simp add: bind_grant_None)
      with None dd st' show ?thesis by (intro bexI [of _ dd]) simp_all
    next
      case (Some p)
      have dst: "distinct (map d_id (devices db))" using inv' by (simp add: dev_inv_defs)
      show ?thesis
      proof (cases "IsZero p")
        case True
        from bind_grant_Zero [OF bg [unfolded Some] True] have "dd\<lparr>d_policy := None\<rparr> \<in> set (devices (si_db st'))"
          "dkeys (si_db st') = dkeys db" using dd(1,2) st'(1) by force+
        with dd Some True show ?thesis by (intro bexI [of _ "dd\<lparr>d_policy := None\<rparr>"]) simp_all
      next
        case False
        from bind_grant_Inr [OF bg [unfolded Some] False, of dd] dst dd(1,2) obtain q where q:
          "live_policy (si_pol st2) p = Some q" "po_tenant q = d_tenant dd" "dkeys (si_db st2) = dkeys db"
          "devices (si_db st2) = map (\<lambda>d. if d_id d = d_id dev then d\<lparr>d_policy := Some p\<rparr> else d) (devices db)" by auto
        then have "dd\<lparr>d_policy := Some p\<rparr> \<in> set (devices (si_db st'))" using dd(1,2) st'(1) by force
        with dd Some q st'(1) show ?thesis by (intro bexI [of _ "dd\<lparr>d_policy := Some p\<rparr>"]) simp_all
      qed
    qed
    then obtain d where d: "d \<in> set (devices (si_db st'))" "d_id d = d_id dev" "d_deleted d = None" "d_tenant d = us_tenant u"
      "\<forall>p. policy = Some p \<and> \<not> IsZero p \<longrightarrow> d_policy d = Some p \<and> (\<exists>q. live_policy (si_pol st') p = Some q \<and> po_tenant q = d_tenant d)"
      "dkeys (si_db st') = dkeys db" by blast
    show ?thesis
      by (rule bexI [OF _ t(1)], rule bexI [OF _ uu], rule bexI [OF _ d(1)], intro conjI)
        (use t(2,4) sub dev d(2-6) key in simp_all)
  qed simp
qed simp_all

section \<open>What a change of the console rests on\<close>

lemma admin_role_only:
  "IsAdmin \<lparr>cl_user = u, cl_tenant = t, cl_roles = ''aidotvpn-user'' # (if r then [''aidotvpn-admin''] else [])\<rparr> \<Longrightarrow> r"
  by (cases r) (simp_all add: IsAdmin_def hasRole_def RoleAdmin_def equal_fold_def to_lower_def, code_simp?)

text \<open>
  C8. Policies change only at the hands of an admin who is logged in: a request to the console that
  changed the policy tables carried the cookie of a stored session, at most thirty days old and used
  within the last half hour, of an account that exists, is not disabled and has the role of an admin.
\<close>

theorem console_change_needs_admin:
  assumes "auth_run (si_auth st)" "console_request ob cookie q st = (n, st', l)" "si_pol st' \<noteq> si_pol st"
  shows "\<exists>token. cookie = Some token \<and> (\<exists>s \<in> set (sessions (si_auth st)). \<exists>a \<in> set (admins (si_auth st)).
    ss_hash s = ob_sha ob token \<and> ad_id a = ss_admin s \<and> ad_disabled a = None \<and> ad_role a = ''admin''
    \<and> ev_now (ob_env ob) \<le> ss_created s + 30 * 24 * 60 * 60 * second \<and> ev_now (ob_env ob) \<le> ss_used s + 30 * 60 * second)"
proof -
  obtain x db1 where x: "AdminAuth.requireAuth (ob_sha ob) (ev_now (ob_env ob)) cookie (si_auth st) = (x, db1)" by (metis prod.exhaust)
  show ?thesis
  proof (cases x)
    case (Inl m)
    with assms(2) x have "si_pol st' = si_pol st" by (auto simp: console_request_def requireSession_def)
    with assms(3) show ?thesis by blast
  next
    case (Inr y)
    obtain ad roles where y: "y = (ad, roles)" by (cases y)
    obtain f us where f: "FindOrCreate (ev_weight (ob_env ob)) (ob_user ob) (ev_dbnow (ob_env ob)) (am_tenant ad) (Ident.String (am_id ad))
        (am_email ad) (am_name ad) (si_users st) = (f, us)" by (metis prod.exhaust)
    show ?thesis
    proof (cases f)
      case (Inl e)
      with assms(2) x \<open>x = Inr y\<close> y f have "si_pol st' = si_pol st" by (auto simp: console_request_def requireSession_def)
      with assms(3) show ?thesis by blast
    next
      case (Inr u)
      let ?cl = "\<lparr>cl_user = us_id u, cl_tenant = us_tenant u, cl_roles = roles\<rparr>"
      obtain m c l' where c: "serve (ob_env ob) ?cl q (si_console st) = (m, c, l')" by (metis prod_cases3)
      from assms(2) x \<open>x = Inr y\<close> y f Inr c have "si_console st' = c" by (auto simp: console_request_def requireSession_def)
      with assms(3) have "c_pol c \<noteq> si_pol st" by simp
      with non_admin_effect [OF _ c] have adm: "IsAdmin ?cl" by blast
      from x \<open>x = Inr y\<close> y have r: "AdminAuth.requireAuth (ob_sha ob) (ev_now (ob_env ob)) cookie (si_auth st) = (Inr (ad, roles), db1)" by simp
      then have "roles = ''aidotvpn-user'' # (if am_role ad = ''admin'' then [''aidotvpn-admin''] else [])"
        by (auto simp: requireAuth_def split: option.split_asm if_split_asm prod.split_asm sum.split_asm)
      with adm have "am_role ad = ''admin''" using admin_role_only by blast
      then have "''aidotvpn-admin'' \<in> set roles" using \<open>roles = _\<close> by simp
      with admitted_session [OF assms(1) r] show ?thesis by blast
    qed
  qed
qed

section \<open>What the code gets wrong\<close>

text \<open>
  A phone has a bearer credential and no cookie, and the route that rotates a key looks at the cookie alone:
  whatever the header says, it is refused.
\<close>
lemma phone_never_rotates: "fst (post_rotate ob None body st) = Inl 401"
  by (simp add: post_rotate_def requireSession_def requireAuth_def)

text \<open>The shared user is found by its subject in whatever tenant: a grant of another tenant runs as the first one's.\<close>

lemma grant_of_second_tenant:
  assumes "take 6 (bearerFrom header) = ''aidot_''"
    and "CheckEnrollmentToken (ob_sha ob) (ev_dbnow (ob_env ob)) (bearerFrom header) True (si_tokens st) = (Inr (tenant, policy), ts)"
    and "findBySubject (ev_weight (ob_env ob)) enrolled_subject (si_users st) = Some v" "us_tenant v \<noteq> tenant"
  shows "\<exists>cl st1. requireAuthOrEnrollmentGrant ob ''/devices/register'' header cookie st = (Inr (cl, policy), st1) \<and> cl_tenant cl \<noteq> tenant"
  using assms by (simp add: requireAuthOrEnrollmentGrant_def FindOrCreate_def enrolled_subject_def)

text \<open>A user who exists is returned before the statement that notes the login: the instant stays that of the first one.\<close>

lemma login_time_frozen:
  assumes "subject \<noteq> []" "findBySubject w subject users = Some u"
  shows "FindOrCreate w newID dbnow tenant subject email name users = (Inr u, users)"
  using assms by (simp add: FindOrCreate_def)

text \<open>
  Two accounts of a tenant with one e-mail address: the second finds its row neither before nor after the
  upsert, which meets the first one's, so every request it makes fails.
\<close>
lemma second_subject_locked_out:
  assumes "subject \<noteq> []" "\<forall>v \<in> set users. w (us_subject v) \<noteq> w subject \<and> us_id v \<noteq> newID"
    and "v \<in> set users" "us_tenant v = tenant" "w (us_email v) = w email"
    and "\<forall>x \<in> set users. us_tenant x = tenant \<and> w (us_email x) = w email \<longrightarrow> x = v" "\<forall>x \<in> set users. us_id x = us_id v \<longrightarrow> x = v"
  shows "fst (FindOrCreate w newID dbnow tenant subject email name users) = Inl UserGone"
proof -
  have n: "findBySubject w subject users = None" using assms(2) by (auto simp: findBySubject_def find_None_iff)
  have "find (\<lambda>u. us_id u = newID) users = None" "find (\<lambda>u. us_tenant u = tenant \<and> w (us_subject u) = w subject) users = None"
    using assms(2) by (auto simp: find_None_iff)
  moreover have "find (\<lambda>u. us_tenant u = tenant \<and> w (us_email u) = w email) users = Some v"
  proof (cases "find (\<lambda>u. us_tenant u = tenant \<and> w (us_email u) = w email) users")
    case None
    with assms(3-5) show ?thesis by (auto simp: find_None_iff)
  next
    case (Some x)
    from find_Some_in [OF Some] assms(6) Some show ?thesis by auto
  qed
  ultimately have c: "user_conflict w newID tenant subject email users = Some v" by (simp add: user_conflict_def)
  have "\<not> (\<exists>q \<in> set users. us_id q \<noteq> us_id v \<and> us_tenant q = us_tenant v \<and> w (us_email q) = w email)" using assms(4,6) by auto
  then have u: "upsert_user w newID dbnow tenant subject email name users = Some (map (\<lambda>q. if us_id q = us_id v
      then q\<lparr>us_email := email, us_name := (if name = [] then us_name q else Some name), us_login := dbnow\<rparr> else q) users)"
    by (simp add: upsert_user_def c)
  have "findBySubject w subject (map (\<lambda>q. if us_id q = us_id v
      then q\<lparr>us_email := email, us_name := (if name = [] then us_name q else Some name), us_login := dbnow\<rparr> else q) users) = None"
    using assms(2) by (auto simp: findBySubject_def find_None_iff)
  with u n assms(1) show ?thesis by (simp add: FindOrCreate_def)
qed

section \<open>A phone with a grant, and an admin with a session\<close>

definition demo_chance :: chance where
  "demo_chance = \<lparr>ob_env = demo_env 30, ob_service = demo_service, ob_draws = demo_draws 1, ob_sha = Enrollment.demo_sha,
     ob_b64 = (\<lambda>_. []), ob_unb64 = (\<lambda>_. Some (replicate 32 1)), ob_keygen = Inl [], ob_user = Enrollment.demo_id 3,
     ob_challenge = None, ob_tunnel = []\<rparr>"

definition demo_phone :: register_body where
  "demo_phone = \<lparr>rb_install = ''i'', rb_name = ''p'', rb_platform = ''android'', rb_os_version = [], rb_app_version = [], rb_model = [],
     rb_os_sdk = 0, rb_public_key = ''k'', rb_token = [], rb_csr = [], rb_chain = [], rb_mode = [], rb_host = [], rb_kem = []\<rparr>"

definition demo_site0 :: Site where
  "demo_site0 = \<lparr>si_console = \<lparr>c_db = demo_db, c_pol = demo_empty\<rparr>, si_users = [], si_tokens = [],
     si_auth = \<lparr>admins = [], sessions = [], recovery = [], attempts = []\<rparr>, si_allow = None, si_kem = None, si_nodes = [], si_endpoints = []\<rparr>"

definition demo_site :: Site where "demo_site = demo_site0\<lparr>si_tokens := [demo_token]\<rparr>"

definition demo_header :: string where "demo_header = ''Bearer aidot_x''"

lemma demo_bearer: "bearerFrom demo_header = ''aidot_x''"
proof -
  have "trim_space ''aidot_x'' = ''aidot_x''" by (rule trim_space_plain) (simp add: plain_char_def)
  moreover have "equal_fold ''Bearer '' ''bearer ''" by code_simp
  ultimately show ?thesis by (simp add: bearerFrom_def demo_header_def)
qed

lemma demo_site_run: "site_run Enrollment.demo_sha demo_site []"
proof -
  have "site_run Enrollment.demo_sha demo_site0 []" by (rule site_run.start) (simp add: demo_site0_def)
  moreover have "CreateEnrollmentToken Enrollment.demo_sha (\<lambda>_. ''x'') (Enrollment.demo_id 1) (Some []) 0 (Enrollment.demo_id 9) Zero ''ward'' None 1 0 (si_tokens demo_site0)
      = (Inr (demo_token, ''aidot_x''), [demo_token])"
    by (simp add: CreateEnrollmentToken_def demo_token_def Let_def Enrollment.demo_id_def IsZero_def Zero_def list_all_iff demo_site0_def)
  ultimately show ?thesis unfolding demo_site_def by (rule site_run.issue)
qed

lemma demo_granted:
  "case register_with demo_chance \<lparr>cl_user = Enrollment.demo_id 3, cl_tenant = Enrollment.demo_id 9, cl_roles = []\<rparr> None
      (register_params \<lparr>cl_user = Enrollment.demo_id 3, cl_tenant = Enrollment.demo_id 9, cl_roles = []\<rparr> demo_phone (replicate 32 1) [])
      (demo_site\<lparr>si_tokens := [demo_token\<lparr>et_used := 1\<rparr>], si_users := [\<lparr>us_id = Enrollment.demo_id 3, us_tenant = Enrollment.demo_id 9,
         us_subject = enrolled_subject, us_email = [], us_name = Some enrolled_name, us_login = 1\<rparr>]\<rparr>)
    of (r, st', l) \<Rightarrow> (case r of Inl _ \<Rightarrow> False | Inr _ \<Rightarrow> True) \<and> length (devices (si_db st')) = 1"
  by code_simp

lemma demo_redeems:
  "CheckEnrollmentToken Enrollment.demo_sha 1 ''aidot_x'' True [demo_token] = (Inr (Enrollment.demo_id 9, None), [demo_token\<lparr>et_used := 1\<rparr>])"
proof -
  have "token_usable 1 (Enrollment.demo_sha ''aidot_x'') demo_token"
    by (simp add: token_usable_def demo_token_def hour_def minute_def second_def)
  with Redeem_Some [of "[demo_token]" demo_token 1 Enrollment.demo_sha "''aidot_x''"] show ?thesis
    by (simp add: CheckEnrollmentToken_def demo_token_def)
qed

lemma demo_registered:
  obtains ans st' l where "post_register demo_chance demo_header None (Some demo_phone) demo_site = (Inr ans, st', l)"
    "length (devices (si_db st')) = 1"
    "si_users st' = [\<lparr>us_id = Enrollment.demo_id 3, us_tenant = Enrollment.demo_id 9,
         us_subject = enrolled_subject, us_email = [], us_name = Some enrolled_name, us_login = 1\<rparr>]"
    "si_tokens st' = [demo_token\<lparr>et_used := 1\<rparr>]"
proof -
  let ?cl = "\<lparr>cl_user = Enrollment.demo_id 3, cl_tenant = Enrollment.demo_id 9, cl_roles = []\<rparr>"
  let ?us = "[\<lparr>us_id = Enrollment.demo_id 3, us_tenant = Enrollment.demo_id 9,
         us_subject = enrolled_subject, us_email = [], us_name = Some enrolled_name, us_login = 1\<rparr>]"
  let ?st = "demo_site\<lparr>si_tokens := [demo_token\<lparr>et_used := 1\<rparr>], si_users := ?us\<rparr>"
  obtain r st' l where w: "register_with demo_chance ?cl None (register_params ?cl demo_phone (replicate 32 1) []) ?st = (r, st', l)"
    by (metis prod_cases3)
  with demo_granted obtain ans where r: "r = Inr ans" "length (devices (si_db st')) = 1" by (cases r) auto
  have u: "FindOrCreate (map of_char) (Enrollment.demo_id 3) 1 (Enrollment.demo_id 9) enrolled_subject [] enrolled_name [] = (Inr (hd ?us), ?us)"
    by (simp add: FindOrCreate_def findBySubject_def upsert_user_def user_conflict_def null_str_def enrolled_subject_def enrolled_name_def)
  have d: "registerDevice demo_chance ?cl None (Some demo_phone) ?st = (Inr ans, st', l)"
    using w r(1) by (simp add: registerDevice_def demo_chance_def demo_phone_def optional_base64_def)
  have c: "ob_sha demo_chance = Enrollment.demo_sha" "ev_dbnow (ob_env demo_chance) = 1" "ev_weight (ob_env demo_chance) = map of_char"
    "ob_user demo_chance = Enrollment.demo_id 3" "si_tokens demo_site = [demo_token]" "si_users demo_site = []"
    by (simp_all add: demo_chance_def demo_env_def demo_site_def demo_site0_def)
  have p: "post_register demo_chance demo_header None (Some demo_phone) demo_site = (Inr ans, st', l)"
    using d by (simp add: post_register_def requireAuthOrEnrollmentGrant_def demo_bearer c demo_redeems u)
  have "si_users st' = ?us"
  proof (rule register_with_Inr [OF w [unfolded r(1)]])
    fix dev db st2 l2
    assume bg: "bind_grant ?cl None (d_id dev) (?st\<lparr>si_console := (si_console ?st)\<lparr>c_db := db\<rparr>\<rparr>) = (Inr (), st2, l2)"
      and s: "si_users st' = si_users st2"
    from bind_grant_None [OF bg] s show ?thesis by simp
  qed
  moreover have "si_tokens st' = [demo_token\<lparr>et_used := 1\<rparr>]" using register_with_same [OF w] by simp
  ultimately show thesis using that p r(2) by blast
qed

theorem grants_bound_registrations_witness:
  "\<exists>st. site_run Enrollment.demo_sha st [(Enrollment.demo_sha ''aidot_x'', 1)] \<and> si_tokens st = [demo_token\<lparr>et_used := 1\<rparr>]
    \<and> int (sum_list (map snd (filter (\<lambda>e. fst e = et_hash demo_token) [(Enrollment.demo_sha ''aidot_x'', 1 :: nat)]))) \<le> 1"
proof (rule demo_registered)
  fix ans st' l
  assume p: "post_register demo_chance demo_header None (Some demo_phone) demo_site = (Inr ans, st', l)"
    "length (devices (si_db st')) = 1" "si_tokens st' = [demo_token\<lparr>et_used := 1\<rparr>]"
  have "site_run Enrollment.demo_sha st' (if (Inr ans :: nat + register_answer) = Inl 401 then []
      else [(Enrollment.demo_sha (bearerFrom demo_header), length (devices (si_db st')) - length (devices (si_db demo_site)))])"
    by (rule site_run.granted [OF demo_site_run _ _ p(1)]) (simp_all add: demo_chance_def demo_bearer)
  then have run: "site_run Enrollment.demo_sha st' [(Enrollment.demo_sha ''aidot_x'', 1)]"
    using p(2) by (simp add: demo_bearer demo_site_def demo_site0_def demo_db_def)
  from grants_bound_registrations [OF run, of "demo_token\<lparr>et_used := 1\<rparr>"] p(3) run show ?thesis
    by (auto simp: demo_token_def)
qed

theorem granted_registration_witness:
  "\<exists>ans st' l. post_register demo_chance demo_header None (Some demo_phone) demo_site = (Inr ans, st', l)
    \<and> (\<exists>d \<in> set (devices (si_db st')). d_id d = d_id (ra_device ans) \<and> d_tenant d = Enrollment.demo_id 9)"
proof (rule demo_registered)
  fix ans st' l
  assume p: "post_register demo_chance demo_header None (Some demo_phone) demo_site = (Inr ans, st', l)"
    and u: "si_users st' = [\<lparr>us_id = Enrollment.demo_id 3, us_tenant = Enrollment.demo_id 9,
         us_subject = enrolled_subject, us_email = [], us_name = Some enrolled_name, us_login = 1\<rparr>]"
  have s: "ob_sha demo_chance = Enrollment.demo_sha" by (simp add: demo_chance_def)
  have b: "take 6 (bearerFrom demo_header) = ''aidot_''" by (simp add: demo_bearer)
  have r: "service_run (\<lambda>_. Enrollment.demo_id 9) (si_db demo_site)"
    by (rule service_run.start) (simp_all add: demo_site_def demo_site0_def demo_db_def)
  have h: "\<forall>v \<in> set (si_users st'). Enrollment.demo_id 9 = us_tenant v \<and> \<not> IsZero (us_tenant v)"
    using u by (simp add: Enrollment.demo_id_def IsZero_def list_all_iff)
  from granted_registration [OF demo_site_run s b p r h] obtain d x where "d \<in> set (devices (si_db st'))"
    "d_id d = d_id (ra_device ans)" "x \<in> set (si_users st')" "d_tenant d = us_tenant x" by blast
  with p u show ?thesis by auto
qed

theorem console_change_needs_admin_witness:
  "\<exists>st st' l. console_request (demo_chance\<lparr>ob_env := (demo_env 30)\<lparr>ev_now := 200\<rparr>, ob_sha := bytes_of_string\<rparr>) (Some ''tok'')
       (CreateGroup (Some (''g'', [], []))) st = (201, st', l)
    \<and> si_pol st' \<noteq> si_pol st \<and> (\<exists>a \<in> set (admins (si_auth st)). ad_role a = ''admin'')"
proof -
  obtain db au a where l: "authLogin demo_weight demo_hasher bytes_of_string demo_otp (\<lambda>_. None) [9] 100 demo_dw demo_rq
      (Some (demo_body ''a@b'' ''pw'')) demo_auth1 = (LoggedIn ''tok'' (scan_admin demo_admin), db, au)"
    and s: "sessions db = [\<lparr>ss_id = [7], ss_admin = [1], ss_hash = bytes_of_string ''tok'', ss_created = 100, ss_used = 100,
        ss_expires = 100 + AbsoluteTimeout, ss_agent = ''ua'', ss_ip = ''10.0.0.9''\<rparr>]"
    and a: "admins db = [a]" "ad_id a = [1]" "ad_disabled a = None" "ad_role a = ''admin''"
    using demo_login by blast
  have run: "auth_run db" by (rule auth_run.login [OF demo_auth_run l])
  let ?ob = "demo_chance\<lparr>ob_env := (demo_env 30)\<lparr>ev_now := 200\<rparr>, ob_sha := bytes_of_string\<rparr>"
  let ?st = "demo_site\<lparr>si_auth := db\<rparr>"
  have "fst (Resolve bytes_of_string 200 ''tok'' db) = Inr (scan_admin a)"
    by (simp add: Resolve_def s a AbsoluteTimeout_def IdleTimeout_def hour_def minute_def second_def)
  then obtain db' where "Resolve bytes_of_string 200 ''tok'' db = (Inr (scan_admin a), db')" by (metis prod.collapse)
  then have r: "AdminAuth.requireAuth bytes_of_string 200 (Some ''tok'') db = (Inr (scan_admin a, [''aidotvpn-user'', ''aidotvpn-admin'']), db')"
    by (simp add: requireAuth_def scan_admin_def a)
  have "Ident.String [1] \<noteq> []" by (simp add: Ident.String_def)
  then obtain u us where u: "FindOrCreate (map of_char) (Enrollment.demo_id 3) 1 (ad_tenant a) (Ident.String [1]) (ad_email a) (ad_name a) [] = (Inr u, us)"
    by (simp add: FindOrCreate_def findBySubject_def upsert_user_def user_conflict_def)
  let ?cl = "\<lparr>cl_user = us_id u, cl_tenant = us_tenant u, cl_roles = [''aidotvpn-user'', ''aidotvpn-admin'']\<rparr>"
  have adm: "IsAdmin ?cl" by (simp add: IsAdmin_def hasRole_def RoleAdmin_def equal_fold_def)
  have t: "trim_space ''g'' = ''g''" by (rule trim_space_plain) (simp add: plain_char_def)
  have t0: "trim_space [] = []" by (rule trim_space_plain) simp
  obtain c l' where c: "serve ((demo_env 30)\<lparr>ev_now := 200\<rparr>) ?cl (CreateGroup (Some (''g'', [], []))) \<lparr>c_db = demo_db, c_pol = demo_empty\<rparr> = (201, c, l')"
    and g: "length (groups (c_pol c)) = 1"
    by (simp add: serve_def requireAdmin_def adm createGroup_def with_body_def with_group_policy_def answered_def t t0 demo_empty_def)
  let ?st' = "?st\<lparr>si_auth := db', si_users := us, si_console := c\<rparr>"
  have q: "console_request ?ob (Some ''tok'') (CreateGroup (Some (''g'', [], []))) ?st = (201, ?st', l')"
    using r u c by (simp add: console_request_def requireSession_def demo_chance_def demo_env_def demo_site_def demo_site0_def scan_admin_def a)
  have p: "si_pol ?st' \<noteq> si_pol ?st" using g by (auto simp: demo_site_def demo_site0_def demo_empty_def)
  have "auth_run (si_auth ?st)" using run by simp
  from console_change_needs_admin [OF this q p] q p show ?thesis by blast
qed

end
