(* ===== verification/Spec2Isabelle.thy ===== *)
theory Spec2Isabelle
  imports NFTSemantics WGSync DataPlane RelayFrame RelayHub Enrollment IPAlloc DeviceProps AuditLogProps Resolver Gateway AdminAuthProps RelayToken
    ConsoleProps Allowlist Nodes OnboardProps
begin

text \<open>
  A verification library for the server side of AidotVpn (\<open>src/server\<close>): a controller that enrols
  devices and decides what they may reach, gateways that turn the decision into WireGuard peers and
  an nftables ruleset, a data-plane agent, and a relay that carries WireGuard packets over WebSocket
  when UDP is blocked.

  How the parts work together. The controller gives every device an identifier (\<open>domain/id.go\<close>, theory
  \<open>Ident\<close>) and, per key, a tunnel address of the tenant's pool (\<open>devices/ipalloc.go\<close>, theory \<open>IPAlloc\<close>).
  A phone gets in with an enrolment token or by a request an admin approves
  (\<open>devices/enrollment_token.go\<close>, \<open>enrollment_request.go\<close>, theory \<open>Enrollment\<close>), then registers: its
  attestation passes the gates (theory \<open>Gates\<close>), it gets a key row with an address, a pre-shared key
  (\<open>pqc\<close>, theory \<open>Pqc\<close>) and a client certificate (\<open>auth/mtls.go\<close>, theory \<open>Certs\<close>), and later rotates
  its key or is revoked (\<open>devices/service.go\<close>, theory \<open>Devices\<close> over \<open>DeviceRepo\<close>). A gateway polls the
  controller for its peers, renders and loads the firewall, then reconciles the kernel's peers
  (\<open>gateway/sync.go\<close>, theory \<open>WGSync\<close>; \<open>gateway/nftables.go\<close>, theories \<open>NFTables\<close> and \<open>NFTSemantics\<close>).
  The user-space data plane does the same through an engine interface (\<open>dataplane\<close>, theory
  \<open>DataPlane\<close>). The relay (\<open>relay/hub.go\<close>, \<open>handlers.go\<close>, theory \<open>RelayHub\<close>) routes the frames that
  \<open>relay/conn.go\<close> and \<open>gateway/relayclient.go\<close> write and read (theory \<open>RelayFrame\<close>).

  Theories.
  \<open>Base\<close>: bytes, strings, times, decimal numbers, big-endian words; the prelude of all others.
  \<open>NetIP\<close>: what the code uses of the standard library's \<open>net/netip\<close> (parsing, printing, masks);
  \<open>AddrText\<close>: printed addresses and prefixes of both families read back as themselves.
  \<open>Tables\<close>: the rows of the database tables as records, without foreign keys or defaults.
  \<open>Ident\<close>: the UUIDv7 minting state and its operations; text and SQL forms; minted identifiers increase.
  \<open>IPAlloc\<close>: the two address walks. The locale \<open>allocator\<close> is the contract of an allocator (its answer
  is fresh and in the pool), \<open>full_allocator\<close> adds completeness; both walks are interpreted.
  \<open>NFTables\<close>: \<open>Render\<close> as a list of rules and their text; \<open>NFTSemantics\<close>: the meaning of the rules on a
  packet, IPv4 or IPv6, as nft documents it, an abstract policy per device, and the refinement between
  them.
  \<open>WGSync\<close>: one poll-and-apply cycle over an abstract world (HTTP, \<open>wg\<close>, \<open>nft\<close>) with a trace of the
  commands run; the kernel's peer table is a replay of that trace.
  \<open>DataPlane\<close>: the in-memory engine and the agent; the locale \<open>wg_engine\<close> is the contract the agent relies
  on, interpreted by the in-memory engine.
  \<open>RelayFrame\<close>: WebSocket messages and application frames, written and read by both ends; the locale
  \<open>ws_codec\<close> states the round trip of sequences once for both directions.
  \<open>RelayHub\<close>: the relay's tables and handlers as a step relation with its invariant; the deferred calls
  of a handler are steps of their own.
  \<open>Enrollment\<close>: the two enrolment tables, one function per SQL statement, and the step relations of
  concurrent callers.
  \<open>GoText\<close>: what the code uses of \<open>fmt\<close>. \<open>Gates\<close>: the attestation and Play Integrity gates with their
  modes. \<open>Certs\<close>: the certificate the CA writes for a signing request. \<open>Pqc\<close>: key derivation on both
  sides and the table of tenant key pairs.
  \<open>DeviceRepo\<close>: the statements of the device repository over one record of tables. \<open>Devices\<close>: the
  service's operations as functions from tables and drawn randomness to an error or new tables.
  \<open>DeviceInv\<close>: the invariant of the tables (one live key per device, no address twice among the live
  keys of a tenant) and its preservation by four moves that every operation is made of; transactions run
  one after the other (two concurrent registrations can draw one address, \<open>concurrent_allocation_collides\<close>).
  \<open>DeviceProps\<close>: the histories of the service as a step relation, and what holds in all of them.
  \<open>AuditLog\<close>: the hash-chained log (\<open>audit/audit.go\<close>): canonical JSON, append, the batched walk, the listing;
  \<open>AuditLogProps\<close>: the walk accepts every log of appends one at a time and detects tampering up to hash
  collisions.
  \<open>Policies\<close>: the policy tables, every operation of the policy service and what a device inherits
  (\<open>policies/policies.go\<close>, \<open>admin.go\<close>, \<open>rules.go\<close>). \<open>Resolver\<close>: the pass that turns host names into
  addresses (\<open>policies/resolver.go\<close>), interleaved with administration.
  \<open>NodeAPI\<close>: what the controller answers a gateway and a device (\<open>httpapi/nodeapi.go\<close>,
  \<open>device_state.go\<close>, \<open>device_state_auth.go\<close>). \<open>Gateway\<close>: the composition from the tables through the peer
  list and the rendered rules to a packet.
  \<open>AdminAuth\<close>: accounts, sessions, lockout, the address throttle and the second factor of the console
  (\<open>adminauth/adminauth.go\<close>, \<open>totp.go\<close>, \<open>httpapi/adminauth_routes.go\<close>, \<open>requireAuth\<close>); \<open>AdminAuthProps\<close>:
  the histories of these tables as a step relation and what a login or a cookie proves in them.
  \<open>RelayToken\<close>: the credentials the controller signs for gateways and phones and checks for the relay.
  \<open>Console\<close>: the requests of the console on devices, policies and groups with their guards
  (\<open>httpapi/handlers.go\<close>, \<open>groups.go\<close>, \<open>policyadmin.go\<close>, \<open>rbac.go\<close>); \<open>ConsoleProps\<close>: what they leave alone
  (other tenants, everything without the admin role) and the invariant that no reference leaves its tenant.
  \<open>Allowlist\<close>: attestation challenges and enrolled fingerprints (\<open>allowlist/allowlist.go\<close>), with the
  histories of calls one after the other, in which a challenge is accepted once (two calls at the same time
  can both accept it, \<open>challenge_race\<close>). \<open>Nodes\<close>: what gateways report, the versioned peer list
  of \<open>nodes/nodes.go\<close>, session telemetry and the node lists the devices get.
  \<open>Onboard\<close>: the tables of all components in one record, and the requests that cross them: a session or
  an enrolment grant becomes a user (\<open>users/users.go\<close>, \<open>httpapi/middleware.go\<close>), a phone registers, gets its
  policy and its answer (\<open>registerDevice\<close>, \<open>rotateDeviceKey\<close>); \<open>OnboardProps\<close>: the histories of the site,
  what a grant is good for and what a change of the console rests on.

  Conventions. A Go error is the left of a sum; a panic is a value of its own. SQL tables are lists of
  rows in insertion order; a statement is atomic, and a function that issues several statements is
  modelled statement by statement where the theorems are about other callers running between them; where
  an operation is one step although the code reads and writes in separate statements, the text of the
  theorem says that calls come one after the other. Clocks, random bytes,
  SHA-256, base64 and the answers of other processes are arguments. Machine integers keep their
  width. A duration or an instant is an integer of nanoseconds.

  Bounds and fuel. No definition uses fuel: the loops that read a stream recurse on the bytes left and
  the address walks on the candidates left. The IPv4 walk stops at the last host of the pool; the IPv6
  walk at \<open>2^60\<close> candidates as the code does.

  Conditions on inputs. A packet has a source and a destination of one family and without a zone
  (\<open>ip_packet\<close>); the version of a peer list stands for peers whose parts have the lengths a registration
  gives them (\<open>shaped_peer\<close>), because the encoding that is hashed carries no lengths.

  Not modelled: the JSON of requests and answers, the inventory and statistics queries of the console,
  configuration, migrations, the command mains, and the parsing and cryptographic checking of
  certificates, attestation chains and integrity tokens. They are listed in the manifest with the reasons.
\<close>

end
